(* ===== verification/Prelude.thy ===== *)
theory Prelude
  imports Main "HOL-Library.AList" "HOL-Library.Char_ord" "HOL-Library.List_Lexorder"
    "HOL-Library.Multiset" "HOL-Library.Word"
begin

text \<open>
  Shared vocabulary of the development: the types that stand for Go's basic types, the parts of
  Go's \<open>strings\<close> and \<open>sort\<close> packages the program uses, and generic lemmas on association lists,
  circular indexing and sorting by a comparator.

  A Go string is a sequence of bytes, here a \<^typ>\<open>string\<close> (a list of 8-bit characters) ordered
  byte-wise. Case folding and trimming are modelled on the ASCII range; bytes from 128 up are left
  alone, which is what the code relies on for the scheme names, keywords and error texts it compares.
  A \<open>time.Duration\<close> (nanoseconds) and a \<open>time.Time\<close> (nanoseconds since the zero time, so the
  zero time is 0) are integers; an \<open>int\<close> is an \<^typ>\<open>int\<close> where the code only counts or compares, and a
  word of its width where wrap-around can be observed. A Go map is an association list with distinct
  keys; the order of the list stands for the unspecified iteration order of the map.
\<close>

section \<open>Basic types\<close>

type_synonym duration = int
type_synonym time = int
type_synonym uint64 = "64 word"
type_synonym uint16 = "16 word"

definition is_zero_time :: "time \<Rightarrow> bool" where
  "is_zero_time t = (t = 0)"

text \<open>Fallible operations return an error on the left, a value on the right.\<close>

type_synonym ('e, 'a) outcome = "'e + 'a"

definition bind_ok :: "('e, 'a) outcome \<Rightarrow> ('a \<Rightarrow> ('e, 'b) outcome) \<Rightarrow> ('e, 'b) outcome" where
  "bind_ok r f = (case r of Inl e \<Rightarrow> Inl e | Inr x \<Rightarrow> f x)"

lemma bind_ok_simps [simp]:
  "bind_ok (Inl e) f = Inl e"
  "bind_ok (Inr x) f = f x"
  by (simp_all add: bind_ok_def)

lemma bind_ok_eq_Inr: "bind_ok r f = Inr y \<longleftrightarrow> (\<exists>x. r = Inr x \<and> f x = Inr y)"
  by (cases r) auto

text \<open>When a computation that may fail at some step succeeds: every step does.\<close>

lemma guard_eq_Inr: "(if c then Inl e else r) = Inr y \<longleftrightarrow> \<not> c \<and> r = Inr y"
  by auto

lemma pair_eq_Inr: "(case p of (a, b) \<Rightarrow> f a b) = Inr y \<longleftrightarrow> (\<exists>a b. p = (a, b) \<and> f a b = Inr y)"
  by (cases p) auto

lemma option_eq_Inr: "(case x of None \<Rightarrow> Inl e | Some z \<Rightarrow> f z) = Inr y \<longleftrightarrow> (\<exists>z. x = Some z \<and> f z = Inr y)"
  by (cases x) auto

lemma sum_eq_Inr: "(case x of Inl e \<Rightarrow> Inl (g e) | Inr z \<Rightarrow> f z) = Inr y \<longleftrightarrow> (\<exists>z. x = Inr z \<and> f z = Inr y)"
  by (cases x) auto

lemmas ok_eq_simps = bind_ok_eq_Inr guard_eq_Inr pair_eq_Inr option_eq_Inr sum_eq_Inr

text \<open>The collections that the component theories fill and use as simplification rules.\<close>

named_theorems wf_rules \<open>preservation of the components' invariants\<close>
named_theorems abs_simps \<open>what an operation does on the abstract value of its state\<close>
named_theorems parse_simps \<open>what a parser does on the output of the matching printer\<close>

section \<open>Go's \<open>strings\<close> package\<close>

fun has_prefix :: "string \<Rightarrow> string \<Rightarrow> bool" where
  "has_prefix s [] = True"
| "has_prefix [] (p # ps) = False"
| "has_prefix (c # s) (p # ps) = (c = p \<and> has_prefix s ps)"

definition has_suffix :: "string \<Rightarrow> string \<Rightarrow> bool" where
  "has_suffix s t = has_prefix (rev s) (rev t)"

definition trim_prefix :: "string \<Rightarrow> string \<Rightarrow> string" where
  "trim_prefix s p = (if has_prefix s p then drop (length p) s else s)"

definition trim_suffix :: "string \<Rightarrow> string \<Rightarrow> string" where
  "trim_suffix s p = (if has_suffix s p then take (length s - length p) s else s)"

text \<open>\<open>strings.Index\<close> and \<open>strings.LastIndex\<close>: the position of the first (last) occurrence.\<close>

fun str_index :: "string \<Rightarrow> string \<Rightarrow> nat option" where
  "str_index [] t = (if t = [] then Some 0 else None)"
| "str_index (c # s) t = (if has_prefix (c # s) t then Some 0 else map_option Suc (str_index s t))"

definition str_contains :: "string \<Rightarrow> string \<Rightarrow> bool" where
  "str_contains s t = (str_index s t \<noteq> None)"

fun last_index_byte :: "string \<Rightarrow> char \<Rightarrow> nat option" where
  "last_index_byte [] c = None"
| "last_index_byte (x # s) c =
     (case last_index_byte s c of Some i \<Rightarrow> Some (Suc i) | None \<Rightarrow> if x = c then Some 0 else None)"

fun index_any :: "string \<Rightarrow> string \<Rightarrow> nat option" where
  "index_any [] cs = None"
| "index_any (x # s) cs = (if x \<in> set cs then Some 0 else map_option Suc (index_any s cs))"

text \<open>\<open>strings.Split\<close> at one byte, and \<open>strings.SplitN\<close> with at most two parts.\<close>

fun split_byte :: "char \<Rightarrow> string \<Rightarrow> string list" where
  "split_byte c [] = [[]]"
| "split_byte c (x # s) =
     (if x = c then [] # split_byte c s
      else (case split_byte c s of [] \<Rightarrow> [[x]] | w # ws \<Rightarrow> (x # w) # ws))"

definition split2 :: "char \<Rightarrow> string \<Rightarrow> string list" where
  "split2 c s = (case index_any s [c] of None \<Rightarrow> [s] | Some i \<Rightarrow> [take i s, drop (Suc i) s])"

definition lower_char :: "char \<Rightarrow> char" where
  "lower_char c =
     (let n = (of_char c :: nat) in if 65 \<le> n \<and> n \<le> 90 then char_of (n + 32) else c)"

definition to_lower :: "string \<Rightarrow> string" where
  "to_lower s = map lower_char s"

definition is_space :: "char \<Rightarrow> bool" where
  "is_space c = (let n = (of_char c :: nat) in n = 32 \<or> 9 \<le> n \<and> n \<le> 13)"

definition trim_space :: "string \<Rightarrow> string" where
  "trim_space s = rev (dropWhile is_space (rev (dropWhile is_space s)))"

text \<open>\<open>strings.Fields\<close>.\<close>

definition str_fields :: "string \<Rightarrow> string list" where
  "str_fields s = filter (\<lambda>w. w \<noteq> []) (split_byte CHR '' '' (map (\<lambda>c. if is_space c then CHR '' '' else c) s))"

fun join_with :: "string \<Rightarrow> string list \<Rightarrow> string" where
  "join_with sep [] = []"
| "join_with sep [w] = w"
| "join_with sep (w # ws) = w @ sep @ join_with sep ws"

definition newline :: char where
  "newline = CHR 0x0A"

definition is_digit :: "char \<Rightarrow> bool" where
  "is_digit c = (let n = (of_char c :: nat) in 48 \<le> n \<and> n \<le> 57)"

definition digit_val :: "char \<Rightarrow> nat" where
  "digit_val c = (of_char c :: nat) - 48"

lemma has_prefix_iff: "has_prefix s p \<longleftrightarrow> (\<exists>r. s = p @ r)"
  by (induction s p rule: has_prefix.induct) auto

lemma has_prefix_append [simp]: "has_prefix (p @ r) p"
  by (auto simp: has_prefix_iff)

lemma str_contains_Nil [simp]: "str_contains [] t \<longleftrightarrow> t = []"
  by (simp add: str_contains_def)

lemma str_contains_Cons [simp]:
  "str_contains (c # s) t \<longleftrightarrow> has_prefix (c # s) t \<or> str_contains s t"
  by (simp add: str_contains_def)

lemma str_contains_iff: "str_contains s t \<longleftrightarrow> (\<exists>u v. s = u @ t @ v)"
proof (induction s)
  case (Cons c s)
  show ?case
  proof
    assume "str_contains (c # s) t"
    then consider "has_prefix (c # s) t" | "str_contains s t" by auto
    then show "\<exists>u v. c # s = u @ t @ v"
    proof cases
      case 1
      then show ?thesis by (metis append_Nil has_prefix_iff)
    next
      case 2
      with Cons.IH show ?thesis by (metis append_Cons)
    qed
  next
    assume "\<exists>u v. c # s = u @ t @ v"
    then obtain u v where uv: "c # s = u @ t @ v" by blast
    show "str_contains (c # s) t"
    proof (cases u)
      case Nil
      with uv have "has_prefix (c # s) t" by (auto simp: has_prefix_iff)
      then show ?thesis by simp
    next
      case (Cons a u')
      with uv have "\<exists>u v. s = u @ t @ v" by auto
      then show ?thesis using Cons.IH by simp
    qed
  qed
qed simp

lemma str_contains_trans: "str_contains s t \<Longrightarrow> str_contains t w \<Longrightarrow> str_contains s w"
  unfolding str_contains_iff by (metis append.assoc)

lemma length_to_lower [simp]: "length (to_lower s) = length s"
  by (simp add: to_lower_def)

lemma length_trim_space: "length (trim_space s) \<le> length s"
  using length_dropWhile_le [of is_space "rev (dropWhile is_space s)"]
    length_dropWhile_le [of is_space s]
  by (simp add: trim_space_def)

section \<open>Association lists\<close>

lemma map_of_map_snd: "map_of (map (\<lambda>(k, v). (k, f k v)) xs) k = map_option (f k) (map_of xs k)"
  by (induction xs) auto

lemma distinct_keys_map [simp]: "map fst (map (\<lambda>(k, v). (k, f k v)) xs) = map fst xs"
  by (induction xs) auto

lemma map_of_eq_Some_iff_mem:
  "distinct (map fst xs) \<Longrightarrow> map_of xs k = Some v \<longleftrightarrow> (k, v) \<in> set xs"
  by simp

lemma alist_update_keys:
  "set (map fst (AList.update k v xs)) = insert k (set (map fst xs))"
  by (induction xs) auto

lemma ball_update:
  "(\<forall>(k', v') \<in> set xs. P v') \<Longrightarrow> P v \<Longrightarrow> \<forall>(k', v') \<in> set (AList.update k v xs). P v'"
  by (induction xs) auto

lemma set_alist_update:
  "distinct (map fst xs) \<Longrightarrow> set (AList.update k v xs) = insert (k, v) {p \<in> set xs. fst p \<noteq> k}"
  by (induction xs) (auto simp: rev_image_eqI)

text \<open>
  Updating or deleting the entry of a key that is present: the body of a loop that ranges over keys
  and changes a map entry in place.
\<close>

definition alter_key :: "('v \<Rightarrow> 'v option) \<Rightarrow> 'k \<Rightarrow> ('k \<times> 'v) list \<Rightarrow> ('k \<times> 'v) list" where
  "alter_key f k m =
     (case map_of m k of
        None \<Rightarrow> m
      | Some v \<Rightarrow> (case f v of None \<Rightarrow> AList.delete k m | Some w \<Rightarrow> AList.update k w m))"

lemma map_of_alter_key: "map_of (alter_key f k m) = (map_of m)(k := Option.bind (map_of m k) f)"
  by (auto simp: alter_key_def update_conv' delete_conv' fun_eq_iff split: option.split)

lemma distinct_alter_key: "distinct (map fst m) \<Longrightarrow> distinct (map fst (alter_key f k m))"
  by (auto simp: alter_key_def distinct_update distinct_delete split: option.split)

lemma map_of_fold_alter_key:
  "distinct ks \<Longrightarrow> map_of (fold (alter_key f) ks m) j =
     (if j \<in> set ks then Option.bind (map_of m j) f else map_of m j)"
  by (induction ks arbitrary: m) (auto simp: map_of_alter_key)

lemma distinct_fold_alter_key:
  "distinct (map fst m) \<Longrightarrow> distinct (map fst (fold (alter_key f) ks m))"
  by (induction ks arbitrary: m) (auto simp: distinct_alter_key)

text \<open>Splitting what was joined, and trimming what has no spaces.\<close>

lemma split_join:
  assumes "\<forall>s \<in> set ss. c \<notin> set s" "ss \<noteq> []"
  shows "split_byte c (join_with [c] ss) = ss"
proof -
  have none: "split_byte c s = [s]" if "c \<notin> set s" for s using that by (induction s) auto
  have app: "split_byte c (s @ c # t) = s # split_byte c t" if "c \<notin> set s" for s t
    using that by (induction s) auto
  show ?thesis using assms
  proof (induction ss)
    case (Cons w ws)
    then show ?case by (cases ws) (simp_all add: app none)
  qed simp
qed

lemma set_join: "set (join_with [c] ss) = (\<Union>s \<in> set ss. set s) \<union> (if 2 \<le> length ss then {c} else {})"
proof (induction ss)
  case (Cons w ws)
  then show ?case by (cases ws) auto
qed simp

lemma join_with_eq_Nil: "join_with [c] ss = [] \<Longrightarrow> ss = [] \<or> ss = [[]]"
  by (cases ss; cases "tl ss") auto

lemma dropWhile_none: "\<forall>x \<in> set xs. \<not> P x \<Longrightarrow> dropWhile P xs = xs"
  by (cases xs) auto

lemma trim_space_none: "\<forall>c \<in> set s. \<not> is_space c \<Longrightarrow> trim_space s = s"
  by (simp add: trim_space_def dropWhile_none)

end
