(* ===== verification/Float64.thy ===== *)
theory Float64
  imports Prelude "HOL-Library.Log_Nat"
begin

text \<open>
  Go's \<open>float64\<close> arithmetic, as far as the reliability score, the retry jitter and the rule engine's
  numeric comparison use it. A float is the rational number it denotes; every arithmetic operation
  is the exact operation followed by \<open>fl64\<close>, rounding to 53 significant bits, ties to even.
  Not modelled: infinities, NaN and the lower end of the exponent range (the values here are scores
  and weights between 0 and 1, status codes and durations), and the fused multiply-add that a
  compiler may use on some platforms.

  The interface \<open>rounding\<close> holds what the score depends on: rounding is monotone and keeps the
  values that are floats already. The lemmas about averages are proved in it, and it is interpreted
  on \<open>fl64\<close>.
\<close>

section \<open>Rounding to 53 bits\<close>

definition round_half_even :: "rat \<Rightarrow> int" where
  "round_half_even x =
     (let f = \<lfloor>x\<rfloor>; d = x - of_int f
      in if d < 1 / 2 then f else if 1 / 2 < d then f + 1 else if even f then f else f + 1)"

text \<open>The exponent of the leading bit of a positive number.\<close>

definition rat_ilog2 :: "rat \<Rightarrow> int" where
  "rat_ilog2 x =
     (let (p, q) = quotient_of x; e = bitlen p - bitlen q
      in if 2 powi e \<le> x then e else e - 1)"

definition fl64_pos :: "rat \<Rightarrow> rat" where
  "fl64_pos x = (let s = 2 powi (rat_ilog2 x - 52) in of_int (round_half_even (x / s)) * s)"

definition fl64 :: "rat \<Rightarrow> rat" where
  "fl64 x = (if x = 0 then 0 else if 0 < x then fl64_pos x else - fl64_pos (- x))"

definition fadd :: "rat \<Rightarrow> rat \<Rightarrow> rat" where "fadd x y = fl64 (x + y)"
definition fsub :: "rat \<Rightarrow> rat \<Rightarrow> rat" where "fsub x y = fl64 (x - y)"
definition fmul :: "rat \<Rightarrow> rat \<Rightarrow> rat" where "fmul x y = fl64 (x * y)"
definition fdiv :: "rat \<Rightarrow> rat \<Rightarrow> rat" where "fdiv x y = fl64 (x / y)"

text \<open>
  \<open>math.Pow\<close> at a non-negative integer exponent: Go squares and multiplies along the bits of the
  exponent (on significands scaled to \<open>[1/2, 1)\<close>, which does not change the rounding).
\<close>

fun pow_loop :: "nat \<Rightarrow> rat \<Rightarrow> rat \<Rightarrow> rat" where
  "pow_loop i a x =
     (if i = 0 then a
      else pow_loop (i div 2) (if odd i then fmul a x else a) (fmul x x))"

declare pow_loop.simps [simp del]

definition math_pow :: "rat \<Rightarrow> nat \<Rightarrow> rat" where
  "math_pow x n = (if n = 0 then 1 else if n = 1 then x else pow_loop n 1 x)"

section \<open>Facts about rounding\<close>

lemma round_half_even_mono:
  assumes "x \<le> y"
  shows "round_half_even x \<le> round_half_even y"
proof (cases "\<lfloor>x\<rfloor> = \<lfloor>y\<rfloor>")
  case True
  with assms show ?thesis
    by (auto simp: round_half_even_def Let_def)
next
  case False
  with floor_mono [OF assms] have "\<lfloor>x\<rfloor> + 1 \<le> \<lfloor>y\<rfloor>" by simp
  then show ?thesis by (auto simp: round_half_even_def Let_def)
qed

lemma round_half_even_of_int [simp]: "round_half_even (of_int n) = n"
  by (simp add: round_half_even_def)

lemma bitlen_bounds_pos:
  assumes "0 < (p :: int)"
  shows "(2 :: rat) powi (bitlen p - 1) \<le> of_int p" and "of_int p < (2 :: rat) powi bitlen p"
proof -
  from bitlen_bounds [OF assms] have b: "2 ^ nat (bitlen p - 1) \<le> p" "p < 2 ^ nat (bitlen p)"
    by auto
  have 0: "0 \<le> bitlen p - 1"
    using assms by (simp add: bitlen_def floorlog_def)
  have "(2 :: rat) powi (bitlen p - 1) = of_int (2 ^ nat (bitlen p - 1))"
    using 0 by (simp add: power_int_def)
  also have "\<dots> \<le> of_int p" using b(1) by (simp only: of_int_le_iff)
  finally show "(2 :: rat) powi (bitlen p - 1) \<le> of_int p" .
  have "(of_int p :: rat) < of_int (2 ^ nat (bitlen p))" using b(2) by (simp only: of_int_less_iff)
  also have "\<dots> = 2 powi bitlen p"
    using 0 by (simp add: power_int_def)
  finally show "of_int p < (2 :: rat) powi bitlen p" .
qed

lemma rat_ilog2_bounds:
  assumes "0 < x"
  shows "2 powi rat_ilog2 x \<le> x" and "x < 2 powi (rat_ilog2 x + 1)"
proof -
  obtain p q where pq: "quotient_of x = (p, q)" by force
  then have q: "0 < q" and x: "x = of_int p / of_int q"
    by (auto dest: quotient_of_denom_pos quotient_of_div)
  with assms have p: "0 < p" by (simp add: zero_less_divide_iff)
  let ?e = "bitlen p - bitlen q"
  have lo: "2 powi (?e - 1) \<le> x"
  proof -
    have "(2 :: rat) powi (?e - 1) = 2 powi (bitlen p - 1) / 2 powi bitlen q"
      by (simp flip: power_int_diff add: algebra_simps)
    also have "\<dots> \<le> of_int p / of_int q"
      using bitlen_bounds_pos [OF p] bitlen_bounds_pos [OF q] p q
      by (intro frac_le) (auto simp: less_imp_le)
    finally show ?thesis using x by simp
  qed
  have hi: "x < 2 powi (?e + 1)"
  proof -
    have "of_int p / of_int q < (2 :: rat) powi bitlen p / 2 powi (bitlen q - 1)"
      using bitlen_bounds_pos [OF p] bitlen_bounds_pos [OF q] p q
      by (intro frac_less) auto
    also have "\<dots> = 2 powi (?e + 1)"
      by (simp flip: power_int_diff add: algebra_simps)
    finally show ?thesis using x by simp
  qed
  show "2 powi rat_ilog2 x \<le> x" and "x < 2 powi (rat_ilog2 x + 1)"
    using lo hi by (auto simp: rat_ilog2_def pq Let_def not_le)
qed

lemma powi_mono: "m \<le> n \<Longrightarrow> (2 :: rat) powi m \<le> 2 powi n"
  by (rule power_int_increasing) simp_all

lemma rat_ilog2_less_imp: 
  assumes "0 < x" "0 < y" "rat_ilog2 x < rat_ilog2 y"
  shows "x < y"
proof -
  have "x < 2 powi (rat_ilog2 x + 1)" by (rule rat_ilog2_bounds [OF assms(1)])
  also have "\<dots> \<le> 2 powi rat_ilog2 y" using assms(3) by (intro powi_mono) simp
  also have "\<dots> \<le> y" by (rule rat_ilog2_bounds [OF assms(2)])
  finally show ?thesis .
qed

lemma rat_ilog2_mono: "0 < x \<Longrightarrow> x \<le> y \<Longrightarrow> rat_ilog2 x \<le> rat_ilog2 y"
  using rat_ilog2_less_imp [of y x] by force

lemma rat_ilog2_unique:
  assumes "2 powi e \<le> x" and "x < 2 powi (e + 1)"
  shows "rat_ilog2 x = e"
proof -
  have x: "0 < x" using assms(1) by (meson less_le_trans zero_less_numeral zero_less_power_int)
  have "\<not> rat_ilog2 x < e"
  proof
    assume "rat_ilog2 x < e"
    then have "(2 :: rat) powi (rat_ilog2 x + 1) \<le> 2 powi e" by (intro powi_mono) simp
    with rat_ilog2_bounds(2) [OF x] assms(1) show False by simp
  qed
  moreover have "\<not> e < rat_ilog2 x"
  proof
    assume "e < rat_ilog2 x"
    then have "(2 :: rat) powi (e + 1) \<le> 2 powi rat_ilog2 x" by (intro powi_mono) simp
    with rat_ilog2_bounds(1) [OF x] assms(2) show False by simp
  qed
  ultimately show ?thesis by simp
qed

lemma fl64_pos_bounds:
  assumes "0 < x"
  shows "2 powi rat_ilog2 x \<le> fl64_pos x" and "fl64_pos x \<le> 2 powi (rat_ilog2 x + 1)"
proof -
  let ?e = "rat_ilog2 x" and ?s = "(2 :: rat) powi (rat_ilog2 x - 52)"
  have s: "0 < ?s" by simp
  have e: "2 powi ?e = 2 ^ 52 * ?s" "2 powi (?e + 1) = 2 ^ 53 * ?s"
    by (simp_all add: power_int_diff power_int_add)
  have "of_int (2 ^ 52) \<le> x / ?s"
    using rat_ilog2_bounds(1) [OF assms] s unfolding e(1) by (simp add: pos_le_divide_eq)
  moreover have "x / ?s \<le> of_int (2 ^ 53)"
    using rat_ilog2_bounds(2) [OF assms] s unfolding e(2) by (simp add: pos_divide_le_eq)
  ultimately have "of_int (2 ^ 52) \<le> x / ?s" "x / ?s \<le> of_int (2 ^ 53)" .
  from this [THEN round_half_even_mono]
  have "2 ^ 52 \<le> round_half_even (x / ?s)" "round_half_even (x / ?s) \<le> 2 ^ 53"
    by (simp_all only: round_half_even_of_int)
  then have "(of_int (2 ^ 52) :: rat) \<le> of_int (round_half_even (x / ?s))"
    "of_int (round_half_even (x / ?s)) \<le> (of_int (2 ^ 53) :: rat)"
    by (simp_all only: of_int_le_iff)
  then show "2 powi ?e \<le> fl64_pos x" and "fl64_pos x \<le> 2 powi (?e + 1)"
    unfolding e fl64_pos_def Let_def by (simp_all add: mult_right_mono)
qed

lemma fl64_pos_mono:
  assumes "0 < x" "x \<le> y"
  shows "fl64_pos x \<le> fl64_pos y"
proof (cases "rat_ilog2 x = rat_ilog2 y")
  case True
  have "round_half_even (x / 2 powi (rat_ilog2 x - 52)) \<le> round_half_even (y / 2 powi (rat_ilog2 x - 52))"
    using assms by (intro round_half_even_mono divide_right_mono) simp_all
  then show ?thesis
    using True by (simp add: fl64_pos_def Let_def mult_right_mono)
next
  case False
  with rat_ilog2_mono [OF assms] have "rat_ilog2 x + 1 \<le> rat_ilog2 y" by simp
  then have "(2 :: rat) powi (rat_ilog2 x + 1) \<le> 2 powi rat_ilog2 y" by (rule powi_mono)
  moreover have "0 < y" using assms by simp
  ultimately show ?thesis
    using fl64_pos_bounds(2) [OF assms(1)] fl64_pos_bounds(1) [of y] by linarith
qed

lemma fl64_pos_pos: "0 < x \<Longrightarrow> 0 < fl64_pos x"
  using fl64_pos_bounds(1) [of x] by (meson less_le_trans zero_less_numeral zero_less_power_int)

lemma fl64_0 [simp]: "fl64 0 = 0"
  by (simp add: fl64_def)

lemma fl64_nonneg: "0 \<le> x \<Longrightarrow> 0 \<le> fl64 x"
  using fl64_pos_pos [of x] by (auto simp: fl64_def less_le)

lemma fl64_nonpos: "x \<le> 0 \<Longrightarrow> fl64 x \<le> 0"
  using fl64_pos_pos [of "- x"] by (auto simp: fl64_def less_le)

lemma fl64_mono:
  assumes "x \<le> y"
  shows "fl64 x \<le> fl64 y"
proof (cases "0 < x \<or> y < 0")
  case True
  with assms show ?thesis
    by (auto simp: fl64_def intro: fl64_pos_mono)
next
  case False
  then have "fl64 x \<le> 0" "0 \<le> fl64 y"
    by (auto intro: fl64_nonneg fl64_nonpos)
  then show ?thesis by simp
qed

text \<open>A number with at most 53 significant bits is a float: rounding keeps it.\<close>

lemma fl64_pos_representable:
  assumes "0 < m" "m \<le> 2 ^ 53"
  shows "fl64_pos (of_int m * 2 powi k) = of_int m * 2 powi k"
proof -
  let ?x = "(of_int m :: rat) * 2 powi k"
  have x: "0 < ?x" using assms(1) by simp
  have "\<exists>n. ?x / 2 powi (rat_ilog2 ?x - 52) = of_int n"
  proof (cases "m = 2 ^ 53")
    case True
    then have "?x = 2 powi (k + 53)" by (simp add: power_int_add)
    moreover have "rat_ilog2 (2 powi (k + 53)) = k + 53"
      by (rule rat_ilog2_unique) (simp_all add: power_int_add)
    ultimately have "?x / 2 powi (rat_ilog2 ?x - 52) = 2 powi (k + 53) / 2 powi (k + 1)"
      by (simp add: add.commute)
    also have "\<dots> = of_int (2 ^ 52)" by (simp add: power_int_add)
    finally have "?x / 2 powi (rat_ilog2 ?x - 52) = of_int (2 ^ 52)" .
    then show ?thesis by blast
  next
    case False
    with assms(2) have m: "m < 2 ^ 53" by simp
    have e: "rat_ilog2 ?x < k + 53"
    proof (rule ccontr)
      assume "\<not> rat_ilog2 ?x < k + 53"
      then have "(2 :: rat) powi (k + 53) \<le> 2 powi rat_ilog2 ?x" by (intro powi_mono) simp
      also have "\<dots> \<le> ?x" by (rule rat_ilog2_bounds [OF x])
      finally have "(of_int (2 ^ 53) :: rat) \<le> of_int m" by (simp add: power_int_add)
      with m show False by (simp only: of_int_le_iff)
    qed
    then have "0 \<le> k - (rat_ilog2 ?x - 52)" by simp
    then obtain j where j: "k - (rat_ilog2 ?x - 52) = int j" by (rule nonneg_int_cases)
    have "?x / 2 powi (rat_ilog2 ?x - 52) = of_int m * 2 powi (k - (rat_ilog2 ?x - 52))"
      by (simp add: power_int_diff)
    also note j
    finally have "?x / 2 powi (rat_ilog2 ?x - 52) = of_int (m * 2 ^ j)" by simp
    then show ?thesis by blast
  qed
  then obtain n where n: "?x / 2 powi (rat_ilog2 ?x - 52) = of_int n" by blast
  then have "fl64_pos ?x = of_int n * 2 powi (rat_ilog2 ?x - 52)"
    by (simp add: fl64_pos_def Let_def)
  also have "\<dots> = ?x" using n by (simp add: field_simps)
  finally show ?thesis .
qed

lemma fl64_representable:
  assumes "\<bar>m\<bar> \<le> 2 ^ 53"
  shows "fl64 (of_int m * 2 powi k) = of_int m * 2 powi k"
proof (cases m "0 :: int" rule: linorder_cases)
  case less
  then have "fl64_pos (of_int (- m) * 2 powi k) = of_int (- m) * 2 powi k"
    using assms by (intro fl64_pos_representable) auto
  moreover have "(of_int m :: rat) * 2 powi k < 0" using less by (simp add: mult_less_0_iff)
  ultimately show ?thesis by (simp add: fl64_def)
next
  case greater
  then show ?thesis
    using assms fl64_pos_representable [of m k] by (simp add: fl64_def zero_less_mult_iff)
qed simp

lemma fl64_of_int [simp]: "\<bar>m\<bar> \<le> 2 ^ 53 \<Longrightarrow> fl64 (of_int m) = of_int m"
  using fl64_representable [of m 0] by simp

lemma fl64_pos_form: "0 < x \<Longrightarrow> \<exists>m k. fl64_pos x = of_int m * 2 powi k \<and> \<bar>m\<bar> \<le> 2 ^ 53"
proof (intro exI conjI)
  assume x: "0 < x"
  let ?s = "(2 :: rat) powi (rat_ilog2 x - 52)"
  show "fl64_pos x = of_int (round_half_even (x / ?s)) * ?s"
    by (simp add: fl64_pos_def Let_def)
  have "of_int (round_half_even (x / ?s)) * ?s \<le> 2 ^ 53 * ?s"
    using fl64_pos_bounds(2) [OF x] by (simp add: fl64_pos_def Let_def power_int_diff power_int_add)
  then have "(of_int (round_half_even (x / ?s)) :: rat) \<le> of_int (2 ^ 53)" by simp
  then have le: "round_half_even (x / ?s) \<le> 2 ^ 53" by (simp only: of_int_le_iff)
  have "0 < of_int (round_half_even (x / ?s)) * ?s"
    using fl64_pos_pos [OF x] by (simp add: fl64_pos_def Let_def)
  moreover have "0 < ?s" by simp
  ultimately have "0 < round_half_even (x / ?s)" by (auto simp: zero_less_mult_iff simp del: zero_less_power_int)
  then show "\<bar>round_half_even (x / ?s)\<bar> \<le> 2 ^ 53" using le by simp
qed

lemma fl64_idem [simp]: "fl64 (fl64 x) = fl64 x"
proof -
  have "\<exists>m k. fl64 x = of_int m * 2 powi k \<and> \<bar>m\<bar> \<le> 2 ^ 53"
  proof (cases x "0 :: rat" rule: linorder_cases)
    case less
    then obtain m k where "fl64_pos (- x) = of_int m * 2 powi k" "\<bar>m\<bar> \<le> 2 ^ 53"
      using fl64_pos_form [of "- x"] by auto
    then have "fl64 x = of_int (- m) * 2 powi k" "\<bar>- m\<bar> \<le> 2 ^ 53"
      using less by (auto simp: fl64_def)
    then show ?thesis by blast
  next
    case equal
    then have "fl64 x = of_int 0 * 2 powi 0" by simp
    then show ?thesis by force
  next
    case greater
    then show ?thesis using fl64_pos_form [of x] by (simp add: fl64_def)
  qed
  then show ?thesis using fl64_representable by metis
qed

section \<open>What the score relies on\<close>

locale rounding =
  fixes rnd :: "rat \<Rightarrow> rat"
  assumes rnd_mono: "x \<le> y \<Longrightarrow> rnd x \<le> rnd y"
    and rnd_0: "rnd 0 = 0"
    and rnd_1: "rnd 1 = 1"
    and rnd_idem: "rnd (rnd x) = rnd x"
begin

lemma rnd_nonneg: "0 \<le> x \<Longrightarrow> 0 \<le> rnd x"
  using rnd_mono [of 0 x] by (simp add: rnd_0)

lemma rnd_le_1: "x \<le> 1 \<Longrightarrow> rnd x \<le> 1"
  using rnd_mono [of x 1] by (simp add: rnd_1)

lemma mul_unit: "0 \<le> x \<Longrightarrow> x \<le> 1 \<Longrightarrow> 0 \<le> y \<Longrightarrow> y \<le> 1 \<Longrightarrow> 0 \<le> rnd (x * y) \<and> rnd (x * y) \<le> 1"
  by (simp add: rnd_nonneg rnd_le_1 mult_le_one)

text \<open>A weighted sum with weights at most 1 stays below the sum of the factors.\<close>

lemma weighted_le:
  assumes "num \<le> den" "0 \<le> d" "rnd d = d" "w \<le> 1"
  shows "rnd (num + rnd (d * w)) \<le> rnd (den + d)"
proof -
  have "d * w \<le> d" using assms(2,4) by (simp add: mult_left_le)
  from rnd_mono [OF this] have "rnd (d * w) \<le> d" by (simp add: assms(3))
  with assms(1) show ?thesis by (intro rnd_mono) simp
qed

lemma weighted_nonneg: "0 \<le> num \<Longrightarrow> 0 \<le> d \<Longrightarrow> 0 \<le> w \<Longrightarrow> 0 \<le> rnd (num + rnd (d * w))"
  by (intro rnd_nonneg add_nonneg_nonneg) simp_all

lemma sum_grows: "rnd den = den \<Longrightarrow> 0 \<le> d \<Longrightarrow> den \<le> rnd (den + d)"
  using rnd_mono [of den "den + d"] by simp

lemma quotient_unit:
  assumes "0 \<le> num" "num \<le> den" "0 < den"
  shows "0 \<le> rnd (num / den) \<and> rnd (num / den) \<le> 1"
  using assms by (simp add: rnd_nonneg rnd_le_1)

end

interpretation f64: rounding fl64
  using fl64_of_int [of 1] by unfold_locales (auto intro: fl64_mono)

lemma fmul_unit: "0 \<le> x \<Longrightarrow> x \<le> 1 \<Longrightarrow> 0 \<le> y \<Longrightarrow> y \<le> 1 \<Longrightarrow> 0 \<le> fmul x y \<and> fmul x y \<le> 1"
  unfolding fmul_def by (rule f64.mul_unit)

lemma fmul_float [simp]: "fl64 (fmul x y) = fmul x y"
  by (simp add: fmul_def)

lemma pow_loop_unit:
  assumes "0 \<le> a" "a \<le> 1" "0 \<le> x" "x \<le> 1" "fl64 a = a"
  shows "0 \<le> pow_loop i a x \<and> pow_loop i a x \<le> 1 \<and> fl64 (pow_loop i a x) = pow_loop i a x"
  using assms
proof (induction i a x rule: pow_loop.induct)
  case (1 i a x)
  show ?case
  proof (cases "i = 0")
    case True
    with "1.prems" show ?thesis by (simp add: pow_loop.simps)
  next
    case False
    from "1.prems" have "0 \<le> fmul a x \<and> fmul a x \<le> 1" "0 \<le> fmul x x \<and> fmul x x \<le> 1"
      by (simp_all add: fmul_unit)
    with "1.IH" [OF False] "1.prems" show ?thesis
      unfolding pow_loop.simps [of i a x] by (cases "odd i") (simp_all add: False)
  qed
qed

lemma math_pow_unit:
  assumes "0 \<le> x" "x \<le> 1" "fl64 x = x"
  shows "0 \<le> math_pow x n" and "math_pow x n \<le> 1" and "fl64 (math_pow x n) = math_pow x n"
  using assms pow_loop_unit [of 1 x n] f64.rnd_1 by (auto simp: math_pow_def)

lemma math_pow_0 [simp]: "math_pow x 0 = 1"
  by (simp add: math_pow_def)

end
