(* ===== verification/StoreTypes.thy ===== *)
theory StoreTypes
  imports Float64
begin

text \<open>
  The data model of the candidate store (\<open>internal/store/store.go\<close>, \<open>history.go\<close>, \<open>record.go\<close>,
  \<open>config.go\<close>): probe outcomes, error categories, probe samples, the circular history buffer, the
  candidate record, the scoring policy and the store itself.

  Records have the fields of the Go structs in their order. Go's \<open>Status\<close> and \<open>ErrorCategory\<close> are
  strings with named constants: here a constructor per constant and one for any other text, the
  empty (unset) text among them; the conversions to and from text are inverse to each other on the
  texts that are not constants.
\<close>

section \<open>Statuses and categories\<close>

datatype status = StatusPassed | StatusFailed | StatusInconclusive | StatusRaw string

datatype error_category =
    ErrNone | ErrRegionBlocked | ErrTargetDenied | ErrTargetRateLimited | ErrProxyRateLimited
  | ErrTargetError | ErrTargetOther | ErrConnRefused | ErrTimeout | ErrReset | ErrTLS | ErrReality
  | ErrProxyError | ErrConfig | CategoryRaw string

abbreviation NoStatus :: status where "NoStatus \<equiv> StatusRaw []"
abbreviation NoCategory :: error_category where "NoCategory \<equiv> CategoryRaw []"

fun string_of_status :: "status \<Rightarrow> string" where
  "string_of_status StatusPassed = ''passed''"
| "string_of_status StatusFailed = ''failed''"
| "string_of_status StatusInconclusive = ''inconclusive''"
| "string_of_status (StatusRaw s) = s"

definition status_of_string :: "string \<Rightarrow> status" where
  "status_of_string s =
     (if s = ''passed'' then StatusPassed else if s = ''failed'' then StatusFailed
      else if s = ''inconclusive'' then StatusInconclusive else StatusRaw s)"

fun string_of_category :: "error_category \<Rightarrow> string" where
  "string_of_category ErrNone = ''none''"
| "string_of_category ErrRegionBlocked = ''region_blocked''"
| "string_of_category ErrTargetDenied = ''target_denied''"
| "string_of_category ErrTargetRateLimited = ''target_rate_limited''"
| "string_of_category ErrProxyRateLimited = ''proxy_rate_limited''"
| "string_of_category ErrTargetError = ''target_error''"
| "string_of_category ErrTargetOther = ''target_other''"
| "string_of_category ErrConnRefused = ''conn_refused''"
| "string_of_category ErrTimeout = ''timeout''"
| "string_of_category ErrReset = ''conn_reset''"
| "string_of_category ErrTLS = ''tls_error''"
| "string_of_category ErrReality = ''reality_error''"
| "string_of_category ErrProxyError = ''proxy_error''"
| "string_of_category ErrConfig = ''config_error''"
| "string_of_category (CategoryRaw s) = s"

text \<open>The constants of the type, in the order of their declaration.\<close>

definition category_constants :: "error_category list" where
  "category_constants =
     [ErrNone, ErrRegionBlocked, ErrTargetDenied, ErrTargetRateLimited, ErrProxyRateLimited,
      ErrTargetError, ErrTargetOther, ErrConnRefused, ErrTimeout, ErrReset, ErrTLS, ErrReality,
      ErrProxyError, ErrConfig]"

definition category_of_string :: "string \<Rightarrow> error_category" where
  "category_of_string s =
     (case find (\<lambda>c. string_of_category c = s) category_constants of
        Some c \<Rightarrow> c | None \<Rightarrow> CategoryRaw s)"

lemma string_of_status_of_string [simp]: "string_of_status (status_of_string s) = s"
  by (simp add: status_of_string_def)

lemma string_of_category_of_string [simp]: "string_of_category (category_of_string s) = s"
  by (auto simp: category_of_string_def find_Some_iff split: option.split)

text \<open>
  A status or category is canonical when it is a constant, or a text that is no constant: the only
  values the program can hold.
\<close>

definition canonical_status :: "status \<Rightarrow> bool" where
  "canonical_status s = (status_of_string (string_of_status s) = s)"

definition canonical_category :: "error_category \<Rightarrow> bool" where
  "canonical_category c = (category_of_string (string_of_category c) = c)"

lemma canonical_status_constants [simp]:
  "canonical_status StatusPassed" "canonical_status StatusFailed" "canonical_status StatusInconclusive"
  "canonical_status NoStatus"
  by (simp_all add: canonical_status_def status_of_string_def)

lemma canonical_status_of_string [simp]: "canonical_status (status_of_string s)"
  by (simp add: canonical_status_def)

lemma canonical_category_of_string [simp]: "canonical_category (category_of_string s)"
  by (simp add: canonical_category_def)

definition IsTargetSpecific :: "error_category \<Rightarrow> bool" where
  "IsTargetSpecific c = (c = ErrRegionBlocked \<or> c = ErrTargetDenied)"

section \<open>Results and samples\<close>

record target_result =
  tr_Status :: status
  tr_Category :: error_category
  tr_StatusCode :: int
  tr_Latency :: duration
  tr_Score :: rat

type_synonym services = "(string \<times> target_result) list"

record result =
  res_Link :: string
  res_Status :: status
  res_Passed :: bool
  res_Reason :: string
  res_Category :: error_category
  res_StatusCode :: int
  res_Latency :: duration
  res_TestedAt :: time
  res_Attempts :: int
  res_ConsecutiveInconclusive :: int
  res_PreviouslyPassed :: bool
  res_Warnings :: "string list"
  res_TransportOK :: bool
  res_TransportLatency :: duration
  res_TransportEvidenceKnown :: bool
  res_Jitter :: duration
  res_Services :: services

record probe_sample =
  ps_CycleID :: uint64
  ps_TestedAt :: time
  ps_Status :: status
  ps_Category :: error_category
  ps_StatusCode :: int
  ps_Latency :: duration
  ps_ClaudeStatus :: status
  ps_ClaudeCategory :: error_category
  ps_ClaudeLatency :: duration
  ps_Attempts :: int
  ps_TransportOK :: bool
  ps_TransportLatency :: duration
  ps_TransportEvidenceKnown :: bool
  ps_Jitter :: duration

definition zero_result :: result where
  "zero_result =
     \<lparr> res_Link = [], res_Status = NoStatus, res_Passed = False, res_Reason = [],
       res_Category = NoCategory, res_StatusCode = 0, res_Latency = 0, res_TestedAt = 0,
       res_Attempts = 0, res_ConsecutiveInconclusive = 0, res_PreviouslyPassed = False,
       res_Warnings = [], res_TransportOK = False, res_TransportLatency = 0,
       res_TransportEvidenceKnown = False, res_Jitter = 0, res_Services = [] \<rparr>"

definition zero_sample :: probe_sample where
  "zero_sample =
     \<lparr> ps_CycleID = 0, ps_TestedAt = 0, ps_Status = NoStatus, ps_Category = NoCategory,
       ps_StatusCode = 0, ps_Latency = 0, ps_ClaudeStatus = NoStatus, ps_ClaudeCategory = NoCategory,
       ps_ClaudeLatency = 0, ps_Attempts = 0, ps_TransportOK = False, ps_TransportLatency = 0,
       ps_TransportEvidenceKnown = False, ps_Jitter = 0 \<rparr>"

text \<open>The circular buffer; \<open>Capacity\<close>, \<open>Count\<close> and \<open>Start\<close> may hold anything after decoding a file.\<close>

record bounded_history =
  bh_Capacity :: int
  bh_Count :: int
  bh_Start :: int
  bh_Samples :: "probe_sample list"

record candidate_record =
  rec_CanonicalLink :: string
  rec_ActiveLink :: string
  rec_Score :: rat
  rec_AbsentCycles :: int
  rec_LastPassedLatency :: duration
  rec_HasPassed :: bool
  rec_Latest :: result
  rec_History :: bounded_history
  rec_Services :: services

section \<open>Scoring policy\<close>

text \<open>A nil map of weights is \<^const>\<open>None\<close>.\<close>

type_synonym weights = "(error_category \<times> rat) list"

record scoring_config =
  cfg_HistoryCapacity :: int
  cfg_DecayLambda :: rat
  cfg_MinServableScore :: rat
  cfg_MinObservationsForServing :: int
  cfg_MaxAbsentCycles :: int
  cfg_CategoryWeights :: "weights option"
  cfg_AttemptPenaltyMultiplier :: rat

definition default_weights :: weights where
  "default_weights =
     [(ErrNone, 1), (ErrRegionBlocked, 0), (ErrTargetDenied, 0), (ErrConnRefused, fl64 (1 / 10)),
      (ErrReset, fl64 (1 / 10)), (ErrTLS, fl64 (1 / 10)), (ErrReality, fl64 (1 / 10)),
      (ErrConfig, fl64 (1 / 10)), (ErrTargetOther, fl64 (1 / 10)), (ErrTimeout, fl64 (4 / 10)),
      (ErrProxyRateLimited, 1 / 2), (ErrTargetRateLimited, 1 / 2), (ErrTargetError, 1 / 2),
      (ErrProxyError, fl64 (3 / 10))]"

definition DefaultScoringConfig :: scoring_config where
  "DefaultScoringConfig =
     \<lparr> cfg_HistoryCapacity = 10, cfg_DecayLambda = 3 / 4, cfg_MinServableScore = fl64 (65 / 100),
       cfg_MinObservationsForServing = 1, cfg_MaxAbsentCycles = 2,
       cfg_CategoryWeights = Some default_weights, cfg_AttemptPenaltyMultiplier = 0 \<rparr>"

definition weights_of :: "scoring_config \<Rightarrow> weights" where
  "weights_of cfg = (case cfg_CategoryWeights cfg of None \<Rightarrow> [] | Some ws \<Rightarrow> ws)"

section \<open>The store\<close>

text \<open>
  The map of records and the two sets of pending links; the mutex is not part of the state: every
  operation below is one critical section.
\<close>

record store =
  st_records :: "(string \<times> candidate_record) list"
  st_pendingAbsent :: "string list"
  st_pendingPresent :: "string list"
  st_lastCycle :: time
  st_cycleCount :: int
  st_cycleID :: uint64
  st_revision :: uint64
  st_path :: string
  st_cfg :: scoring_config

text \<open>\<open>NewWithConfig\<close> replaces the values that make no sense by the defaults.\<close>

definition sane_config :: "scoring_config \<Rightarrow> scoring_config" where
  "sane_config cfg =
     cfg \<lparr> cfg_HistoryCapacity :=
             (if cfg_HistoryCapacity cfg \<le> 0 then 10 else cfg_HistoryCapacity cfg),
           cfg_DecayLambda :=
             (if cfg_DecayLambda cfg \<le> 0 \<or> 1 < cfg_DecayLambda cfg then 3 / 4
              else cfg_DecayLambda cfg),
           cfg_MinServableScore :=
             (if cfg_MinServableScore cfg \<le> 0 then fl64 (65 / 100) else cfg_MinServableScore cfg),
           cfg_MinObservationsForServing :=
             (if cfg_MinObservationsForServing cfg \<le> 0 then 1
              else cfg_MinObservationsForServing cfg),
           cfg_MaxAbsentCycles :=
             (if cfg_MaxAbsentCycles cfg \<le> 0 then 2 else cfg_MaxAbsentCycles cfg),
           cfg_CategoryWeights :=
             (case cfg_CategoryWeights cfg of None \<Rightarrow> Some default_weights | Some ws \<Rightarrow> Some ws) \<rparr>"

definition NewWithConfig :: "string \<Rightarrow> scoring_config \<Rightarrow> store" where
  "NewWithConfig path cfg =
     \<lparr> st_records = [], st_pendingAbsent = [], st_pendingPresent = [], st_lastCycle = 0,
       st_cycleCount = 0, st_cycleID = 0, st_revision = 0, st_path = path,
       st_cfg = sane_config cfg \<rparr>"

definition New :: "string \<Rightarrow> int \<Rightarrow> store" where
  "New path maxInconclusiveCycles =
     NewWithConfig path
       (if 0 < maxInconclusiveCycles
        then DefaultScoringConfig \<lparr> cfg_MaxAbsentCycles := maxInconclusiveCycles \<rparr>
        else DefaultScoringConfig)"

definition PrimaryPath :: "store \<Rightarrow> string" where
  "PrimaryPath s = (if has_suffix (st_path s) ''.gz'' then st_path s else st_path s @ ''.gz'')"

section \<open>The persisted state\<close>

text \<open>A null element of the list of records is \<^const>\<open>None\<close>.\<close>

record snapshot =
  sn_Version :: int
  sn_LastCycle :: time
  sn_CycleCount :: int
  sn_Records :: "candidate_record option list"
  sn_Results :: "result list"

end
