(* ===== verification/Fifo.thy ===== *)
theory Fifo
  imports Prelude
begin

text \<open>
  The contract of a bounded buffer that drops its oldest element: what the reliability history of a
  candidate and the ring of log lines both promise. \<open>contents\<close> is the abstract value of a buffer,
  oldest element first; the locale is interpreted on the model's definitions in the theories
  \<open>History\<close> and \<open>LogRing\<close>.
\<close>

definition take_last :: "nat \<Rightarrow> 'a list \<Rightarrow> 'a list" where
  "take_last n xs = drop (length xs - n) xs"

lemma take_last_0 [simp]: "take_last 0 xs = []"
  by (simp add: take_last_def)

lemma take_last_Nil [simp]: "take_last n [] = []"
  by (simp add: take_last_def)

lemma length_take_last [simp]: "length (take_last n xs) = min n (length xs)"
  by (simp add: take_last_def)

lemma take_last_all [simp]: "length xs \<le> n \<Longrightarrow> take_last n xs = xs"
  by (simp add: take_last_def)

lemma take_last_snoc: "0 < n \<Longrightarrow> take_last n (xs @ [x]) = take_last (n - 1) xs @ [x]"
  by (auto simp: take_last_def)

lemma take_last_take_last: "take_last m (take_last n xs) = take_last (min m n) xs"
  by (cases "length xs \<le> n") (auto simp: take_last_def min_def)

lemma take_last_append_take_last: "take_last n (take_last n xs @ ys) = take_last n (xs @ ys)"
  by (cases "length xs \<le> n") (auto simp: take_last_def add.commute)

lemma set_take_last: "set (take_last n xs) \<subseteq> set xs"
  by (simp add: take_last_def set_drop_subset)

lemma rev_take_last: "rev (take_last n xs) = take n (rev xs)"
  by (simp add: take_last_def take_rev)

lemma last_take_last: "0 < n \<Longrightarrow> xs \<noteq> [] \<Longrightarrow> last (take_last n xs) = last xs"
  by (simp add: take_last_def last_drop)

locale bounded_fifo =
  fixes ok :: "'s \<Rightarrow> bool"
    and contents :: "'s \<Rightarrow> 'a list"
    and limit :: "'s \<Rightarrow> nat"
    and push :: "'a \<Rightarrow> 's \<Rightarrow> 's"
  assumes limit_pos: "ok s \<Longrightarrow> 0 < limit s"
    and within_limit: "ok s \<Longrightarrow> length (contents s) \<le> limit s"
    and ok_push: "ok s \<Longrightarrow> ok (push x s)"
    and limit_push: "ok s \<Longrightarrow> limit (push x s) = limit s"
    and contents_push: "ok s \<Longrightarrow> contents (push x s) = take_last (limit s) (contents s @ [x])"
begin

lemma push_not_full:
  "ok s \<Longrightarrow> length (contents s) < limit s \<Longrightarrow> contents (push x s) = contents s @ [x]"
  by (simp add: contents_push)

lemma push_full:
  "ok s \<Longrightarrow> length (contents s) = limit s \<Longrightarrow> contents (push x s) = tl (contents s) @ [x]"
  using limit_pos [of s] by (cases "contents s") (auto simp: contents_push take_last_def)

lemma newest_push: "ok s \<Longrightarrow> last (contents (push x s)) = x"
  using limit_pos [of s] by (simp add: contents_push last_take_last)

lemma push_nonempty: "ok s \<Longrightarrow> contents (push x s) \<noteq> []"
  using limit_pos [of s] by (simp add: contents_push take_last_snoc)

lemma fold_push_ok: "ok s \<Longrightarrow> ok (fold push xs s) \<and> limit (fold push xs s) = limit s"
  by (induction xs arbitrary: s) (auto simp: ok_push limit_push)

text \<open>A sequence of pushes leaves the most recent elements, in order.\<close>

lemma contents_fold_push:
  "ok s \<Longrightarrow> contents (fold push xs s) = take_last (limit s) (contents s @ xs)"
proof (induction xs arbitrary: s)
  case Nil
  then show ?case using within_limit by simp
next
  case (Cons x xs)
  then show ?case
    by (simp add: ok_push limit_push contents_push take_last_append_take_last)
qed

lemma contents_fold_push_bound: "ok s \<Longrightarrow> length (contents (fold push xs s)) \<le> limit s"
  by (simp add: contents_fold_push)

end

end
