(* ===== verification/History.thy ===== *)
theory History
  imports StoreTypes Fifo
begin

text \<open>
  The reliability history of a candidate, \<open>internal/store/history.go\<close>: the circular buffer of probe
  samples, the scans over it from the newest to the oldest sample, and the reliability score.

  An index outside the slice, a remainder by a capacity of 0 and a negative length panic in Go. A
  read is the zero sample there; \<open>wf_history\<close> is the condition under which every index is
  inside (\<open>slot_in_range\<close>), and the store keeps it for all its histories.

  The abstract value of a buffer is the list \<open>samples_of\<close>, oldest first; the buffer refines the
  bounded FIFO of the theory \<open>Fifo\<close>, and every scan is a search in the reversed list.
\<close>

section \<open>The buffer\<close>

definition NewBoundedHistory :: "int \<Rightarrow> bounded_history" where
  "NewBoundedHistory capacity =
     (let c = (if capacity \<le> 0 then 10 else capacity)
      in \<lparr> bh_Capacity = c, bh_Count = 0, bh_Start = 0, bh_Samples = replicate (nat c) zero_sample \<rparr>)"

definition wf_history :: "bounded_history \<Rightarrow> bool" where
  "wf_history h =
     (0 < bh_Capacity h \<and> int (length (bh_Samples h)) = bh_Capacity h \<and>
      0 \<le> bh_Count h \<and> bh_Count h \<le> bh_Capacity h \<and> 0 \<le> bh_Start h \<and> bh_Start h < bh_Capacity h)"

text \<open>Go's \<open>%\<close> has the sign of the dividend.\<close>

definition go_rem :: "int \<Rightarrow> int \<Rightarrow> int" where
  "go_rem a b = sgn a * (\<bar>a\<bar> mod \<bar>b\<bar>)"

definition slot :: "bounded_history \<Rightarrow> int \<Rightarrow> int" where
  "slot h i = go_rem (bh_Start h + i) (bh_Capacity h)"

definition read_slot :: "probe_sample list \<Rightarrow> int \<Rightarrow> probe_sample" where
  "read_slot xs idx = (if 0 \<le> idx \<and> idx < int (length xs) then xs ! nat idx else zero_sample)"

definition sample_at :: "bounded_history \<Rightarrow> int \<Rightarrow> probe_sample" where
  "sample_at h i = read_slot (bh_Samples h) (slot h i)"

text \<open>
  The copying loop of \<open>NormalizeAndValidate\<close>: \<open>for i := skip; i < count && i < len && valid < capacity\<close>.
  It appends to the list what the code stores at index \<open>valid\<close>; the padding is added afterwards.
\<close>

function copy_valid :: "probe_sample list \<Rightarrow> int \<Rightarrow> int \<Rightarrow> int \<Rightarrow> int \<Rightarrow> probe_sample list \<Rightarrow> probe_sample list"
where
  "copy_valid old start cnt cap i acc =
     (if i < cnt \<and> i < int (length old) \<and> int (length acc) < cap
      then copy_valid old start cnt cap (i + 1)
             (acc @ [read_slot old (go_rem (start + i) (int (length old)))])
      else acc)"
  by pat_completeness auto
termination
  by (relation "measure (\<lambda>(old, start, cnt, cap, i, acc). nat (cnt - i))") auto

declare copy_valid.simps [simp del]

definition NormalizeAndValidate :: "int \<Rightarrow> bounded_history \<Rightarrow> bounded_history" where
  "NormalizeAndValidate maxCap h =
     (let maxCapacity = (if maxCap \<le> 0 then 10 else maxCap);
          cap = (if bh_Capacity h \<le> 0 \<or> bh_Capacity h > maxCapacity then maxCapacity else bh_Capacity h);
          old = bh_Samples h;
          len = int (length old)
      in if len \<noteq> cap then
           if 0 < bh_Count h \<and> 0 < len then
             let cnt = (if bh_Count h > len then len else bh_Count h);
                 start = (if bh_Start h < 0 \<or> bh_Start h \<ge> len then 0 else bh_Start h);
                 skip = (if cnt > cap then cnt - cap else 0);
                 kept = copy_valid old start cnt cap skip []
             in \<lparr> bh_Capacity = cap, bh_Count = int (length kept), bh_Start = 0,
                  bh_Samples = kept @ replicate (nat cap - length kept) zero_sample \<rparr>
           else
             \<lparr> bh_Capacity = cap, bh_Count = 0, bh_Start = 0,
               bh_Samples = replicate (nat cap) zero_sample \<rparr>
         else
           \<lparr> bh_Capacity = cap,
             bh_Count = (if bh_Count h < 0 then 0 else if bh_Count h > cap then cap else bh_Count h),
             bh_Start = (if bh_Start h < 0 \<or> bh_Start h \<ge> cap then 0 else bh_Start h),
             bh_Samples = old \<rparr>)"

text \<open>\<open>Clone\<close>: the values are shared here, so only the case of an absent backing slice shows.\<close>

definition Clone_history :: "bounded_history \<Rightarrow> bounded_history" where
  "Clone_history h =
     (if bh_Samples h = [] \<and> 0 < bh_Capacity h
      then h \<lparr> bh_Samples := replicate (nat (bh_Capacity h)) zero_sample \<rparr> else h)"

definition Push :: "probe_sample \<Rightarrow> bounded_history \<Rightarrow> bounded_history" where
  "Push sample h0 =
     (let h = (if bh_Capacity h0 \<le> 0 \<or> int (length (bh_Samples h0)) \<noteq> bh_Capacity h0
               then NormalizeAndValidate (bh_Capacity h0) h0 else h0)
      in if bh_Count h < bh_Capacity h
         then h \<lparr> bh_Samples := (bh_Samples h)[nat (slot h (bh_Count h)) := sample],
                  bh_Count := bh_Count h + 1 \<rparr>
         else h \<lparr> bh_Samples := (bh_Samples h)[nat (bh_Start h) := sample],
                  bh_Start := slot h 1 \<rparr>)"

section \<open>Scans from the newest sample\<close>

text \<open>
  \<open>for i := Count - 1; i >= 0; i--\<close> with a body that may return: the loop over the first \<open>n\<close> samples,
  and the value \<open>d\<close> after it.
\<close>

fun scan_back :: "bounded_history \<Rightarrow> (probe_sample \<Rightarrow> 'r option) \<Rightarrow> 'r \<Rightarrow> nat \<Rightarrow> 'r" where
  "scan_back h body d 0 = d"
| "scan_back h body d (Suc i) =
     (case body (sample_at h (int i)) of Some r \<Rightarrow> r | None \<Rightarrow> scan_back h body d i)"

definition LastPassedLatency :: "bounded_history \<Rightarrow> duration \<times> bool" where
  "LastPassedLatency h =
     (if bh_Count h = 0 then (0, False)
      else scan_back h
             (\<lambda>s. if ps_Status s = StatusPassed then Some (ps_Latency s, True) else None)
             (0, False) (nat (bh_Count h)))"

definition network_evidence :: "probe_sample \<Rightarrow> (duration \<times> bool) option" where
  "network_evidence s =
     (if ps_TransportEvidenceKnown s then
        if ps_TransportOK s then
          if ps_TransportLatency s > 0 then Some (ps_TransportLatency s, True)
          else if ps_Latency s > 0 then Some (ps_Latency s, True)
          else Some (0, True)
        else Some (0, False)
      else if ps_Status s = StatusPassed \<or> ps_Status s = StatusFailed \<and> IsTargetSpecific (ps_Category s) then
        if ps_Latency s > 0 then Some (ps_Latency s, True) else Some (0, True)
      else if ps_Status s = StatusFailed \<and> \<not> IsTargetSpecific (ps_Category s) then Some (0, False)
      else None)"

definition LastNetworkHealthyLatency :: "bounded_history \<Rightarrow> duration \<times> bool" where
  "LastNetworkHealthyLatency h =
     (if bh_Count h = 0 then (0, False)
      else scan_back h network_evidence (0, False) (nat (bh_Count h)))"

definition ChronologicalSamples :: "bounded_history \<Rightarrow> probe_sample list" where
  "ChronologicalSamples h =
     (if bh_Count h = 0 then []
      else map (\<lambda>i. sample_at h (int i)) [0..<nat (bh_Count h)])"

definition Last :: "bounded_history \<Rightarrow> probe_sample \<times> bool" where
  "Last h = (if bh_Count h = 0 then (zero_sample, False) else (sample_at h (bh_Count h - 1), True))"

definition PreviouslyPassed :: "bounded_history \<Rightarrow> bool" where
  "PreviouslyPassed h =
     (if bh_Count h = 0 then False
      else scan_back h
             (\<lambda>s. if ps_Status s = StatusPassed then Some True
                  else if ps_Status s = StatusFailed then Some False else None)
             False (nat (bh_Count h)))"

text \<open>\<open>ConsecutiveInconclusive\<close> counts until it breaks out of its loop.\<close>

fun count_back :: "bounded_history \<Rightarrow> int \<Rightarrow> nat \<Rightarrow> int" where
  "count_back h c 0 = c"
| "count_back h c (Suc i) =
     (if ps_Status (sample_at h (int i)) = StatusInconclusive then count_back h (c + 1) i else c)"

definition ConsecutiveInconclusive :: "bounded_history \<Rightarrow> int" where
  "ConsecutiveInconclusive h = (if bh_Count h = 0 then 0 else count_back h 0 (nat (bh_Count h)))"

definition LatestConclusive :: "bounded_history \<Rightarrow> probe_sample \<times> bool" where
  "LatestConclusive h =
     (if bh_Count h = 0 then (zero_sample, False)
      else scan_back h
             (\<lambda>s. if ps_Status s = StatusPassed \<or> ps_Status s = StatusFailed then Some (s, True) else None)
             (zero_sample, False) (nat (bh_Count h)))"

section \<open>Scans for one service\<close>

text \<open>A transport failure: explicit evidence, or a failure that is no rejection by the target.\<close>

abbreviation transport_failed :: "probe_sample \<Rightarrow> bool" where
  "transport_failed s \<equiv>
     ps_TransportEvidenceKnown s \<and> \<not> ps_TransportOK s \<or>
     ps_Status s = StatusFailed \<and> \<not> IsTargetSpecific (ps_Category s)"

definition SampleServiceOutcome :: "probe_sample \<Rightarrow> string \<Rightarrow> status \<times> error_category" where
  "SampleServiceOutcome sample service =
     (if service = ''claude'' then
        if ps_ClaudeStatus sample \<noteq> NoStatus then (ps_ClaudeStatus sample, ps_ClaudeCategory sample)
        else if transport_failed sample then (ps_Status sample, ps_Category sample)
        else (StatusInconclusive, ErrTimeout)
      else (ps_Status sample, ps_Category sample))"

definition LatestConclusiveFor :: "string \<Rightarrow> bounded_history \<Rightarrow> probe_sample \<times> bool" where
  "LatestConclusiveFor service h =
     (if bh_Count h = 0 then (zero_sample, False)
      else if service = ''gemini'' \<or> service = [] then LatestConclusive h
      else if service = ''claude'' then
        scan_back h
          (\<lambda>s. if ps_ClaudeStatus s = StatusPassed \<or> ps_ClaudeStatus s = StatusFailed
               then Some (s \<lparr> ps_Status := ps_ClaudeStatus s, ps_Category := ps_ClaudeCategory s,
                              ps_Latency := ps_ClaudeLatency s \<rparr>, True)
               else if transport_failed s then Some (s, True) else None)
          (zero_sample, False) (nat (bh_Count h))
      else (zero_sample, False))"

definition LastPassedLatencyFor :: "string \<Rightarrow> bounded_history \<Rightarrow> duration \<times> bool" where
  "LastPassedLatencyFor service h =
     (if bh_Count h = 0 then (0, False)
      else if service = ''gemini'' \<or> service = [] then LastPassedLatency h
      else if service = ''claude'' then
        scan_back h
          (\<lambda>s. if ps_ClaudeStatus s = StatusPassed then Some (ps_ClaudeLatency s, True) else None)
          (0, False) (nat (bh_Count h))
      else (0, False))"

definition PreviouslyPassedFor :: "string \<Rightarrow> bounded_history \<Rightarrow> bool" where
  "PreviouslyPassedFor service h =
     (if bh_Count h = 0 then False
      else if service = ''gemini'' \<or> service = [] then PreviouslyPassed h
      else if service = ''claude'' then
        scan_back h
          (\<lambda>s. if ps_ClaudeStatus s = StatusPassed then Some True
               else if ps_ClaudeStatus s = StatusFailed then Some False else None)
          False (nat (bh_Count h))
      else False)"

section \<open>The reliability score\<close>

definition sample_weight :: "weights \<Rightarrow> status \<Rightarrow> error_category \<Rightarrow> rat" where
  "sample_weight ws st cat =
     (if st = StatusPassed then 1
      else (case map_of ws cat of
              Some w \<Rightarrow> w
            | None \<Rightarrow> if st = StatusInconclusive then fl64 (4 / 10) else fl64 (1 / 10)))"

text \<open>
  The loop of \<open>ComputeScore\<close> and \<open>ComputeScoreFor\<close>: the samples from the oldest to the newest,
  the \<open>i\<close>-th of \<open>k\<close> with the weight \<open>lambda^(k-1-i)\<close>; the two functions differ in the outcome they read.
\<close>

definition score_step ::
  "rat \<Rightarrow> weights \<Rightarrow> (probe_sample \<Rightarrow> status \<times> error_category) \<Rightarrow> nat \<Rightarrow> nat \<Rightarrow> probe_sample
     \<Rightarrow> rat \<times> rat \<Rightarrow> rat \<times> rat" where
  "score_step lam ws outcome k i sample acc =
     (let decay = math_pow lam (k - 1 - i);
          w = (case outcome sample of (st, cat) \<Rightarrow> sample_weight ws st cat)
      in (fadd (fst acc) (fmul decay w), fadd (snd acc) decay))"

definition score_loop ::
  "rat \<Rightarrow> weights \<Rightarrow> (probe_sample \<Rightarrow> status \<times> error_category) \<Rightarrow> bounded_history \<Rightarrow> rat \<times> rat" where
  "score_loop lam ws outcome h =
     (let k = nat (bh_Count h)
      in fold (\<lambda>i acc. score_step lam ws outcome k i (sample_at h (int i)) acc) [0..<k] (0, 0))"

definition sane_lambda :: "rat \<Rightarrow> rat" where
  "sane_lambda lam = (if lam \<le> 0 \<or> 1 < lam then 3 / 4 else lam)"

definition ComputeScore :: "rat \<Rightarrow> weights \<Rightarrow> bounded_history \<Rightarrow> rat" where
  "ComputeScore decayLambda ws h =
     (if bh_Count h = 0 then 0
      else (case score_loop (sane_lambda decayLambda) ws (\<lambda>s. (ps_Status s, ps_Category s)) h of
              (num, den) \<Rightarrow> if den = 0 then 0 else fdiv num den))"

definition ComputeScoreFor :: "rat \<Rightarrow> weights \<Rightarrow> string \<Rightarrow> bounded_history \<Rightarrow> rat" where
  "ComputeScoreFor decayLambda ws service h =
     (if bh_Count h = 0 then 0
      else if service = ''gemini'' \<or> service = [] then ComputeScore decayLambda ws h
      else (case score_loop (sane_lambda decayLambda) ws (\<lambda>s. SampleServiceOutcome s service) h of
              (num, den) \<Rightarrow> if den = 0 then 0 else fdiv num den))"

section \<open>Encoding\<close>

text \<open>
  The JSON value of a history. \<open>MarshalJSON\<close> writes an object; \<open>UnmarshalJSON\<close> also accepts
  \<open>null\<close> and an array of samples (a missing member of an object decodes as 0, or as no samples).
\<close>

datatype history_json =
    HistoryNull
  | HistoryArray "probe_sample list"
  | HistoryObject int int int "probe_sample list"

definition MarshalJSON_history :: "bounded_history \<Rightarrow> history_json" where
  "MarshalJSON_history h = HistoryObject (bh_Capacity h) (bh_Count h) 0 (ChronologicalSamples h)"

fun UnmarshalJSON_history :: "history_json \<Rightarrow> bounded_history \<Rightarrow> bounded_history" where
  "UnmarshalJSON_history HistoryNull h = h"
| "UnmarshalJSON_history (HistoryArray samples) h =
     \<lparr> bh_Capacity = int (length samples), bh_Count = int (length samples), bh_Start = 0,
       bh_Samples = samples \<rparr>"
| "UnmarshalJSON_history (HistoryObject cap cnt start samples) h =
     \<lparr> bh_Capacity = cap, bh_Count = (if cnt = 0 \<and> samples \<noteq> [] then int (length samples) else cnt),
       bh_Start = start, bh_Samples = samples \<rparr>"


section \<open>The abstract value of a buffer\<close>

definition samples_of :: "bounded_history \<Rightarrow> probe_sample list" where
  "samples_of h = take (nat (bh_Count h)) (rotate (nat (bh_Start h)) (bh_Samples h))"

lemma circular_neq:
  assumes "i < j" "j < n"
  shows "(a + i) mod n \<noteq> (a + j) mod (n :: nat)"
proof
  assume eq: "(a + i) mod n = (a + j) mod n"
  moreover have "a + i \<le> a + j" using assms by simp
  ultimately have "n dvd (a + j) - (a + i)" using mod_eq_dvd_iff_nat [of "a + i" "a + j" n] by metis
  with assms show False by (auto dest: dvd_imp_le)
qed

lemma go_rem_nonneg: "0 \<le> a \<Longrightarrow> 0 \<le> b \<Longrightarrow> go_rem a b = a mod b"
  by (cases "a = 0") (simp_all add: go_rem_def)

lemma slot_wf:
  assumes "wf_history h" "0 \<le> i"
  shows "slot h i = (bh_Start h + i) mod bh_Capacity h"
  using assms by (simp add: slot_def go_rem_nonneg wf_history_def)

lemma slot_in_range:
  assumes "wf_history h" "0 \<le> i"
  shows "0 \<le> slot h i" and "slot h i < int (length (bh_Samples h))"
  using assms by (simp_all add: slot_wf, simp_all add: wf_history_def)

lemma nat_slot:
  assumes "wf_history h"
  shows "nat (slot h (int i)) = (nat (bh_Start h) + i) mod length (bh_Samples h)"
proof -
  have "slot h (int i) = int (nat (bh_Start h) + i) mod int (length (bh_Samples h))"
    using assms by (simp add: slot_wf wf_history_def)
  then show ?thesis by (simp only: nat_int flip: of_nat_mod)
qed

lemma sample_at_wf:
  assumes "wf_history h"
  shows "sample_at h (int i) = rotate (nat (bh_Start h)) (bh_Samples h) ! (i mod length (bh_Samples h))"
proof -
  have "0 < length (bh_Samples h)" using assms by (auto simp: wf_history_def)
  then show ?thesis
    using slot_in_range [OF assms, of "int i"] nat_slot [OF assms, of i]
    by (simp add: sample_at_def read_slot_def nth_rotate mod_add_right_eq)
qed

lemma length_samples_of: "wf_history h \<Longrightarrow> length (samples_of h) = nat (bh_Count h)"
  by (auto simp: samples_of_def wf_history_def)

lemma sample_at_nth:
  assumes "wf_history h" "i < nat (bh_Count h)"
  shows "sample_at h (int i) = samples_of h ! i"
  using assms by (auto simp: sample_at_wf samples_of_def wf_history_def)

lemma ChronologicalSamples_eq: "wf_history h \<Longrightarrow> ChronologicalSamples h = samples_of h"
  by (rule nth_equalityI) (auto simp: ChronologicalSamples_def length_samples_of sample_at_nth)

lemma Last_eq:
  assumes "wf_history h" "samples_of h \<noteq> []"
  shows "Last h = (last (samples_of h), True)"
proof -
  from assms have n: "0 < nat (bh_Count h)" using length_samples_of [of h] by (cases "samples_of h") auto
  then have "bh_Count h - 1 = int (nat (bh_Count h) - 1)" by simp
  moreover have "sample_at h (int (nat (bh_Count h) - 1)) = last (samples_of h)"
    using n assms sample_at_nth [OF assms(1), of "nat (bh_Count h) - 1"]
    by (simp add: last_conv_nth length_samples_of)
  ultimately show ?thesis using n by (simp add: Last_def)
qed

lemma samples_of_empty: "wf_history h \<Longrightarrow> samples_of h = [] \<longleftrightarrow> bh_Count h = 0"
  using length_samples_of [of h] by (auto simp: wf_history_def)

section \<open>The buffer is a bounded FIFO\<close>

lemma wf_NewBoundedHistory [wf_rules]: "wf_history (NewBoundedHistory c)"
  by (simp add: wf_history_def NewBoundedHistory_def Let_def)

lemma samples_of_New [abs_simps]: "samples_of (NewBoundedHistory c) = []"
  by (simp add: samples_of_def NewBoundedHistory_def Let_def)

lemma wf_Push [wf_rules]: "wf_history h \<Longrightarrow> wf_history (Push x h)"
  by (auto simp: Push_def Let_def wf_history_def slot_def go_rem_nonneg)

lemma Push_wf_unfold:
  assumes "wf_history h"
  shows "Push x h =
    (if bh_Count h < bh_Capacity h
     then h \<lparr> bh_Samples := (bh_Samples h)[(nat (bh_Start h) + nat (bh_Count h)) mod length (bh_Samples h) := x],
              bh_Count := bh_Count h + 1 \<rparr>
     else h \<lparr> bh_Samples := (bh_Samples h)[nat (bh_Start h) := x],
              bh_Start := (bh_Start h + 1) mod bh_Capacity h \<rparr>)"
proof -
  have "0 \<le> bh_Count h" "\<not> bh_Capacity h \<le> 0" "int (length (bh_Samples h)) = bh_Capacity h"
    using assms by (simp_all add: wf_history_def)
  moreover from this have "nat (slot h (bh_Count h)) =
      (nat (bh_Start h) + nat (bh_Count h)) mod length (bh_Samples h)"
    using nat_slot [OF assms, of "nat (bh_Count h)"] by simp
  moreover have "slot h 1 = (bh_Start h + 1) mod bh_Capacity h"
    using slot_wf [OF assms, of 1] by simp
  ultimately show ?thesis by (simp add: Push_def)
qed

lemma samples_of_Push_room:
  assumes wf: "wf_history h" and room: "bh_Count h < bh_Capacity h"
  shows "samples_of (Push x h) = samples_of h @ [x]"
proof -
  let ?s = "nat (bh_Start h)" and ?n = "nat (bh_Count h)" and ?xs = "bh_Samples h"
  have n: "?n < length ?xs" "nat (bh_Count h + 1) = Suc ?n" using assms by (auto simp: wf_history_def)
  then have last: "(?s + ?n) mod length ?xs < length ?xs"
    by (intro mod_less_divisor) (rule le_less_trans [OF le0])
  have "take (Suc ?n) (rotate ?s (?xs[(?s + ?n) mod length ?xs := x])) = take ?n (rotate ?s ?xs) @ [x]"
  proof (rule nth_equalityI)
    fix i
    assume "i < length (take (Suc ?n) (rotate ?s (?xs[(?s + ?n) mod length ?xs := x])))"
    then have i: "i \<le> ?n" by simp
    with n show "take (Suc ?n) (rotate ?s (?xs[(?s + ?n) mod length ?xs := x])) ! i
        = (take ?n (rotate ?s ?xs) @ [x]) ! i"
      using circular_neq [of i ?n "length ?xs" ?s] last
      by (cases "i = ?n") (auto simp: nth_rotate nth_append nth_list_update)
  qed (use n in auto)
  then show ?thesis using n by (simp add: Push_wf_unfold [OF wf] room samples_of_def)
qed

lemma samples_of_Push_full:
  assumes wf: "wf_history h" and full: "\<not> bh_Count h < bh_Capacity h"
  shows "samples_of (Push x h) = tl (samples_of h) @ [x]"
proof -
  let ?s = "nat (bh_Start h)" and ?xs = "bh_Samples h"
  let ?n = "length ?xs"
  from assms have n: "nat (bh_Count h) = ?n" "?s < ?n" "bh_Capacity h = int ?n"
    by (auto simp: wf_history_def)
  have start: "nat ((bh_Start h + 1) mod bh_Capacity h) = Suc ?s mod ?n"
    using assms by (simp add: wf_history_def nat_mod_distrib nat_add_distrib n)
  have "rotate (Suc ?s mod ?n) (?xs[?s := x]) = tl (rotate ?s ?xs) @ [x]"
  proof (rule nth_equalityI)
    fix i
    assume "i < length (rotate (Suc ?s mod ?n) (?xs[?s := x]))"
    then have i: "i < ?n" by simp
    have m: "(Suc ?s mod ?n + i) mod ?n = (?s + Suc i) mod ?n" by (simp add: mod_add_left_eq)
    show "rotate (Suc ?s mod ?n) (?xs[?s := x]) ! i = (tl (rotate ?s ?xs) @ [x]) ! i"
    proof (cases "Suc i < ?n")
      case True
      then have "(?s + Suc i) mod ?n \<noteq> ?s" using circular_neq [of 0 "Suc i" ?n ?s] n by auto
      with True show ?thesis using m i n by (simp add: nth_rotate nth_append nth_tl)
    next
      case False
      with i have "Suc i = ?n" by simp
      with i n show ?thesis using m by (simp add: nth_rotate nth_append)
    qed
  qed (use n in auto)
  then show ?thesis
    using n start full by (simp add: Push_wf_unfold [OF wf] samples_of_def)
qed

lemma samples_of_Push [abs_simps]:
  assumes wf: "wf_history h"
  shows "samples_of (Push x h) = take_last (nat (bh_Capacity h)) (samples_of h @ [x])"
proof (cases "bh_Count h < bh_Capacity h")
  case True
  then have "length (samples_of h @ [x]) \<le> nat (bh_Capacity h)"
    using wf length_samples_of [OF wf] by (auto simp: wf_history_def)
  with True show ?thesis using wf by (simp add: samples_of_Push_room)
next
  case False
  have "bh_Count h = bh_Capacity h" "0 < bh_Capacity h" using wf False by (auto simp: wf_history_def)
  then have "length (samples_of h) = nat (bh_Capacity h)" "0 < nat (bh_Capacity h)"
    using wf by (auto simp: length_samples_of)
  then show ?thesis
    using samples_of_Push_full [OF wf False, of x] by (cases "samples_of h") (auto simp: take_last_def)
qed

lemma Capacity_Push [simp]: "wf_history h \<Longrightarrow> bh_Capacity (Push x h) = bh_Capacity h"
  by (simp add: Push_wf_unfold)

interpretation hist: bounded_fifo wf_history samples_of "\<lambda>h. nat (bh_Capacity h)" Push
  by unfold_locales (auto simp: abs_simps wf_rules length_samples_of, auto simp: wf_history_def)


section \<open>Normalising a buffer\<close>

lemma length_copy_valid:
  "int (length acc) \<le> cap \<Longrightarrow> int (length (copy_valid old start cnt cap i acc)) \<le> cap"
  by (induction old start cnt cap i acc rule: copy_valid.induct) (simp add: copy_valid.simps)

lemma read_circular:
  assumes "0 \<le> start" "0 \<le> i" "i < int (length old)"
  shows "read_slot old (go_rem (start + i) (int (length old))) = rotate (nat start) old ! nat i"
proof -
  have "go_rem (start + i) (int (length old)) = int ((nat start + nat i) mod length old)"
    using assms by (simp add: go_rem_nonneg of_nat_mod)
  moreover have "(nat start + nat i) mod length old < length old"
    using assms by (intro mod_less_divisor) linarith
  ultimately show ?thesis
    using assms by (simp add: read_slot_def nth_rotate del: of_nat_mod)
qed

lemma copy_valid_eq:
  assumes "0 \<le> i" "0 \<le> start" "cnt \<le> int (length old)"
  shows "copy_valid old start cnt cap i acc =
    acc @ take (nat cap - length acc) (drop (nat i) (take (nat cnt) (rotate (nat start) old)))"
  using assms
proof (induction old start cnt cap i acc rule: copy_valid.induct)
  case (1 old start cnt cap i acc)
  let ?R = "take (nat cnt) (rotate (nat start) old)"
  show ?case
  proof (cases "i < cnt \<and> i < int (length old) \<and> int (length acc) < cap")
    case True
    with "1.prems" have "nat i < length ?R" by auto
    then have "drop (nat i) ?R = ?R ! nat i # drop (nat (i + 1)) ?R"
      using "1.prems"(1) Cons_nth_drop_Suc [of "nat i" ?R] by (simp only: nat_add_distrib) simp
    moreover have "?R ! nat i = read_slot old (go_rem (start + i) (int (length old)))"
      using True "1.prems" by (simp add: read_circular)
    moreover have "nat cap - length acc = Suc (nat cap - Suc (length acc))" using True by auto
    ultimately show ?thesis
      using True "1.IH" [OF True] "1.prems" by (subst copy_valid.simps) simp
  next
    case False
    then have "nat cnt \<le> nat i \<or> nat cap \<le> length acc" using "1.prems" by auto
    then show ?thesis using False by (subst copy_valid.simps) auto
  qed
qed

definition normal_capacity :: "int \<Rightarrow> bounded_history \<Rightarrow> int" where
  "normal_capacity maxCap h =
     (let m = (if maxCap \<le> 0 then 10 else maxCap)
      in if bh_Capacity h \<le> 0 \<or> bh_Capacity h > m then m else bh_Capacity h)"

lemma Capacity_Normalize [simp]: "bh_Capacity (NormalizeAndValidate m h) = normal_capacity m h"
  by (simp add: NormalizeAndValidate_def normal_capacity_def Let_def)

lemma normal_capacity_pos: "0 < normal_capacity m h"
  by (simp add: normal_capacity_def Let_def)

lemma normal_capacity_le: "0 < m \<Longrightarrow> normal_capacity m h \<le> m"
  by (simp add: normal_capacity_def Let_def)

lemma Normalize_unfold:
  "NormalizeAndValidate m h =
    (let cap = normal_capacity m h; old = bh_Samples h; len = int (length old)
     in if len \<noteq> cap then
          if 0 < bh_Count h \<and> 0 < len then
            let cnt = min (bh_Count h) len;
                kept = copy_valid old (if bh_Start h < 0 \<or> bh_Start h \<ge> len then 0 else bh_Start h)
                         cnt cap (max 0 (cnt - cap)) []
            in \<lparr> bh_Capacity = cap, bh_Count = int (length kept), bh_Start = 0,
                 bh_Samples = kept @ replicate (nat cap - length kept) zero_sample \<rparr>
          else \<lparr> bh_Capacity = cap, bh_Count = 0, bh_Start = 0, bh_Samples = replicate (nat cap) zero_sample \<rparr>
        else \<lparr> bh_Capacity = cap, bh_Count = max 0 (min (bh_Count h) cap),
               bh_Start = (if bh_Start h < 0 \<or> bh_Start h \<ge> cap then 0 else bh_Start h),
               bh_Samples = old \<rparr>)"
proof -
  have mm: "(if (a :: int) > b then b else a) = min a b" "(if a > b then a - b else 0) = max 0 (a - b)"
    for a b by auto
  have cc: "(if (a :: int) < 0 then 0 else if a > b then b else a) = max 0 (min a b)" if "0 < b" for a b
    using that by auto
  show ?thesis
    unfolding NormalizeAndValidate_def normal_capacity_def [symmetric, unfolded Let_def] Let_def mm
    using cc [OF normal_capacity_pos] by (simp add: normal_capacity_def Let_def)
qed

lemma wf_Normalize [wf_rules]: "wf_history (NormalizeAndValidate m h)"
proof -
  have "int (length (copy_valid old start cnt (normal_capacity m h) i [])) \<le> normal_capacity m h"
    for old start cnt i
    using normal_capacity_pos [of m h] by (intro length_copy_valid) simp
  moreover from this have
    "length (copy_valid old start cnt (normal_capacity m h) i [])
       + (nat (normal_capacity m h) - length (copy_valid old start cnt (normal_capacity m h) i []))
     = nat (normal_capacity m h)" for old start cnt i
    by (metis le_add_diff_inverse nat_int nat_mono)
  ultimately show ?thesis
    using normal_capacity_pos [of m h]
    by (simp add: wf_history_def Normalize_unfold Let_def del: of_nat_add flip: of_nat_add)
qed

lemma samples_of_Normalize:
  assumes start: "0 \<le> bh_Start h" "bh_Start h < int (length (bh_Samples h)) \<or> bh_Count h = 0"
    and cnt: "0 \<le> bh_Count h" "bh_Count h \<le> int (length (bh_Samples h))"
  shows "samples_of (NormalizeAndValidate m h) = take_last (nat (normal_capacity m h)) (samples_of h)"
proof (cases "int (length (bh_Samples h)) = normal_capacity m h")
  case True
  then show ?thesis
    using assms by (auto simp: Normalize_unfold Let_def samples_of_def)
next
  case False
  let ?cap = "normal_capacity m h"
  show ?thesis
  proof (cases "0 < bh_Count h")
    case False
    with cnt show ?thesis using \<open>int _ \<noteq> _\<close>
      by (simp add: Normalize_unfold Let_def samples_of_def)
  next
    case pos: True
    let ?kept = "copy_valid (bh_Samples h) (bh_Start h) (bh_Count h) ?cap (max 0 (bh_Count h - ?cap)) []"
    have "?kept = take (nat ?cap) (drop (nat (max 0 (bh_Count h - ?cap))) (samples_of h))"
      using start cnt by (subst copy_valid_eq) (auto simp: samples_of_def)
    moreover have "nat (max 0 (bh_Count h - ?cap)) = length (samples_of h) - nat ?cap"
      using cnt normal_capacity_pos [of m h] by (auto simp: samples_of_def nat_diff_distrib max_def)
    ultimately have "?kept = take (nat ?cap) (take_last (nat ?cap) (samples_of h))"
      by (simp only: take_last_def)
    then have kept: "?kept = take_last (nat ?cap) (samples_of h)" by simp
    have "samples_of (NormalizeAndValidate m h) = ?kept"
      using False pos start cnt by (auto simp: Normalize_unfold Let_def samples_of_def)
    with kept show ?thesis by simp
  qed
qed

lemma samples_of_Normalize_wf [abs_simps]:
  "wf_history h \<Longrightarrow>
     samples_of (NormalizeAndValidate m h) = take_last (nat (normal_capacity m h)) (samples_of h)"
  by (rule samples_of_Normalize) (auto simp: wf_history_def)

lemma samples_of_Unmarshal_Marshal:
  assumes "wf_history h"
  shows "samples_of (NormalizeAndValidate m (UnmarshalJSON_history (MarshalJSON_history h) h0)) = take_last (nat (normal_capacity m h)) (samples_of h)"
proof -
  define d where "d = UnmarshalJSON_history (MarshalJSON_history h) h0"
  have d: "d = \<lparr> bh_Capacity = bh_Capacity h, bh_Count = bh_Count h, bh_Start = 0, bh_Samples = samples_of h \<rparr>"
    using assms by (auto simp: d_def MarshalJSON_history_def ChronologicalSamples_eq length_samples_of samples_of_empty)
  have "samples_of d = samples_of h"
    by (simp add: d samples_of_def)
  moreover have "normal_capacity m d = normal_capacity m h"
    by (simp add: d normal_capacity_def)
  moreover have "samples_of (NormalizeAndValidate m d) = take_last (nat (normal_capacity m d)) (samples_of d)"
    using assms length_samples_of [OF assms]
    by (intro samples_of_Normalize) (auto simp: d wf_history_def)
  ultimately show ?thesis by (simp add: d_def)
qed

section \<open>A scan is a search from the newest sample\<close>

fun first_some :: "('a \<Rightarrow> 'b option) \<Rightarrow> 'b \<Rightarrow> 'a list \<Rightarrow> 'b" where
  "first_some f d [] = d"
| "first_some f d (x # xs) = (case f x of Some r \<Rightarrow> r | None \<Rightarrow> first_some f d xs)"

lemma first_some_append:
  "first_some f d (xs @ ys) = first_some f (first_some f d ys) xs"
  by (induction xs) (auto split: option.split)

lemma first_some_skip: "\<forall>x \<in> set xs. f x = None \<Longrightarrow> first_some f d (xs @ ys) = first_some f d ys"
  by (induction xs) auto

lemma first_some_None: "\<forall>x \<in> set xs. f x = None \<Longrightarrow> first_some f d xs = d"
  by (induction xs) auto

lemma scan_back_take:
  assumes "wf_history h"
  shows "n \<le> nat (bh_Count h) \<Longrightarrow> scan_back h body d n = first_some body d (rev (take n (samples_of h)))"
proof (induction n)
  case (Suc n)
  then have "take (Suc n) (samples_of h) = take n (samples_of h) @ [sample_at h (int n)]"
    using assms by (simp add: take_Suc_conv_app_nth length_samples_of sample_at_nth)
  with Suc show ?case by (auto split: option.split)
qed simp

lemma scan_back_eq:
  "wf_history h \<Longrightarrow> scan_back h body d (nat (bh_Count h)) = first_some body d (rev (samples_of h))"
  using scan_back_take [of h "nat (bh_Count h)" body d] by (simp add: length_samples_of)

lemma count_back_take:
  assumes "wf_history h"
  shows "n \<le> nat (bh_Count h) \<Longrightarrow>
    count_back h c n = c + int (length (takeWhile (\<lambda>s. ps_Status s = StatusInconclusive) (rev (take n (samples_of h)))))"
proof (induction n arbitrary: c)
  case (Suc n)
  then have "take (Suc n) (samples_of h) = take n (samples_of h) @ [sample_at h (int n)]"
    using assms by (simp add: take_Suc_conv_app_nth length_samples_of sample_at_nth)
  with Suc show ?case by auto
qed simp

lemma scan_guard:
  assumes "wf_history h"
  shows "(if bh_Count h = 0 then d else scan_back h body d (nat (bh_Count h))) = first_some body d (rev (samples_of h))"
  using samples_of_empty [OF assms] scan_back_eq [OF assms] by auto

lemma LastPassedLatency_eq [abs_simps]:
  "wf_history h \<Longrightarrow> LastPassedLatency h =
     first_some (\<lambda>s. if ps_Status s = StatusPassed then Some (ps_Latency s, True) else None)
       (0, False) (rev (samples_of h))"
  unfolding LastPassedLatency_def by (rule scan_guard)

lemma LastNetworkHealthyLatency_eq [abs_simps]:
  "wf_history h \<Longrightarrow>
     LastNetworkHealthyLatency h = first_some network_evidence (0, False) (rev (samples_of h))"
  unfolding LastNetworkHealthyLatency_def by (rule scan_guard)

lemma PreviouslyPassed_eq [abs_simps]:
  "wf_history h \<Longrightarrow> PreviouslyPassed h =
     first_some (\<lambda>s. if ps_Status s = StatusPassed then Some True
                     else if ps_Status s = StatusFailed then Some False else None)
       False (rev (samples_of h))"
  unfolding PreviouslyPassed_def by (rule scan_guard)

lemma LatestConclusive_eq [abs_simps]:
  "wf_history h \<Longrightarrow> LatestConclusive h =
     first_some (\<lambda>s. if ps_Status s = StatusPassed \<or> ps_Status s = StatusFailed then Some (s, True) else None)
       (zero_sample, False) (rev (samples_of h))"
  unfolding LatestConclusive_def by (rule scan_guard)

lemma ConsecutiveInconclusive_eq [abs_simps]:
  "wf_history h \<Longrightarrow> ConsecutiveInconclusive h =
     int (length (takeWhile (\<lambda>s. ps_Status s = StatusInconclusive) (rev (samples_of h))))"
  using count_back_take [of h "nat (bh_Count h)" 0] samples_of_empty [of h]
  by (cases "bh_Count h = 0") (simp_all add: ConsecutiveInconclusive_def length_samples_of)

section \<open>The score\<close>

lemma fl64_three_quarters [simp]: "fl64 (3 / 4) = 3 / 4"
  using fl64_representable [of 3 "- 2"] by (simp add: power_int_minus)

lemma sane_lambda_unit: "0 < sane_lambda lam" "sane_lambda lam \<le> 1"
  by (auto simp: sane_lambda_def)

lemma sane_lambda_float: "fl64 lam = lam \<Longrightarrow> fl64 (sane_lambda lam) = sane_lambda lam"
  by (simp add: sane_lambda_def)

definition unit_weights :: "weights \<Rightarrow> bool" where
  "unit_weights ws = (\<forall>(c, w) \<in> set ws. 0 \<le> w \<and> w \<le> 1)"

lemma sample_weight_unit:
  assumes "unit_weights ws"
  shows "0 \<le> sample_weight ws st cat" and "sample_weight ws st cat \<le> 1"
proof -
  have "0 \<le> w \<and> w \<le> 1" if "map_of ws cat = Some w" for w
    using that assms by (auto simp: unit_weights_def dest: map_of_SomeD)
  then show "0 \<le> sample_weight ws st cat" and "sample_weight ws st cat \<le> 1"
    by (auto simp: sample_weight_def fl64_nonneg f64.rnd_le_1 split: option.split)
qed

text \<open>The loop over the abstract samples.\<close>

abbreviation score_fold where
  "score_fold lam ws out k xs n \<equiv>
     fold (\<lambda>i acc. score_step lam ws out k i (xs ! i) acc) [0..<n] (0, 0)"

lemma score_loop_eq:
  assumes "wf_history h"
  shows "score_loop lam ws out h =
    score_fold lam ws out (length (samples_of h)) (samples_of h) (length (samples_of h))"
  unfolding score_loop_def Let_def length_samples_of [OF assms]
  by (rule fold_cong) (auto simp: sample_at_nth [OF assms])

abbreviation weight_of where
  "weight_of ws out s \<equiv> (case out s of (st, cat) \<Rightarrow> sample_weight ws st cat)"

lemma score_step_bounds:
  assumes lam: "0 < lam" "lam \<le> 1" "fl64 lam = lam" and ws: "unit_weights ws"
    and acc: "0 \<le> fst acc" "fst acc \<le> snd acc" "fl64 (snd acc) = snd acc"
  shows "0 \<le> fst (score_step lam ws out k i s acc)"
    and "fst (score_step lam ws out k i s acc) \<le> snd (score_step lam ws out k i s acc)"
    and "fl64 (snd (score_step lam ws out k i s acc)) = snd (score_step lam ws out k i s acc)"
proof -
  have "0 \<le> weight_of ws out s" "weight_of ws out s \<le> 1"
    using ws by (simp_all add: sample_weight_unit split: prod.split)
  then show "0 \<le> fst (score_step lam ws out k i s acc)"
    and "fst (score_step lam ws out k i s acc) \<le> snd (score_step lam ws out k i s acc)"
    and "fl64 (snd (score_step lam ws out k i s acc)) = snd (score_step lam ws out k i s acc)"
    using assms math_pow_unit [of lam "k - 1 - i"]
    by (simp_all add: score_step_def Let_def fadd_def fmul_def f64.weighted_nonneg f64.weighted_le)
qed

lemma score_fold_bounds:
  assumes lam: "0 < lam" "lam \<le> 1" "fl64 lam = lam" and ws: "unit_weights ws"
  shows "0 \<le> fst (score_fold lam ws out k xs n) \<and>
    fst (score_fold lam ws out k xs n) \<le> snd (score_fold lam ws out k xs n) \<and>
    fl64 (snd (score_fold lam ws out k xs n)) = snd (score_fold lam ws out k xs n)"
  by (induction n) (simp_all add: score_step_bounds [OF assms])

lemma score_fold_den_pos:
  assumes lam: "0 < lam" "lam \<le> 1" "fl64 lam = lam" and ws: "unit_weights ws" and k: "0 < k"
  shows "1 \<le> snd (score_fold lam ws out k xs k)"
proof -
  obtain n where n: "k = Suc n" using k by (cases k) auto
  have "0 \<le> snd (score_fold lam ws out k xs n)"
    using score_fold_bounds [OF lam ws, of out k xs n] by linarith
  then have "fl64 1 \<le> fl64 (snd (score_fold lam ws out k xs n) + 1)"
    by (intro fl64_mono) simp
  then show ?thesis
    unfolding n by (simp add: score_step_def Let_def fadd_def f64.rnd_1)
qed

lemma score_quotient:
  assumes "0 < lam" "lam \<le> 1" "fl64 lam = lam" "unit_weights ws" "0 < k"
    and acc_def: "acc = score_fold lam ws out k xs k"
  shows "0 \<le> (case acc of (num, den) \<Rightarrow> if den = 0 then 0 else fdiv num den)"
    and "(case acc of (num, den) \<Rightarrow> if den = 0 then 0 else fdiv num den) \<le> 1"
proof -
  have "0 \<le> fst acc" "fst acc \<le> snd acc" "1 \<le> snd acc"
    using score_fold_bounds [OF assms(1-4), of out k xs k] score_fold_den_pos [OF assms(1-5), of out xs]
    by (auto simp: acc_def)
  then show "0 \<le> (case acc of (num, den) \<Rightarrow> if den = 0 then 0 else fdiv num den)"
    and "(case acc of (num, den) \<Rightarrow> if den = 0 then 0 else fdiv num den) \<le> 1"
    using f64.quotient_unit [of "fst acc" "snd acc"] by (auto simp: fdiv_def split: prod.splits)
qed

text \<open>Better samples, at the same places, give a score that is no lower.\<close>

lemma score_fold_mono:
  assumes lam: "0 < lam" "lam \<le> 1" "fl64 lam = lam"
    and le: "\<And>i. i < n \<Longrightarrow> weight_of ws out (xs ! i) \<le> weight_of ws out (ys ! i)"
  shows "fst (score_fold lam ws out k xs n) \<le> fst (score_fold lam ws out k ys n) \<and>
    snd (score_fold lam ws out k xs n) = snd (score_fold lam ws out k ys n)"
  using le
proof (induction n)
  case (Suc n)
  have "0 \<le> math_pow lam (k - 1 - n)" using lam by (simp add: math_pow_unit)
  then have "fmul (math_pow lam (k - 1 - n)) (weight_of ws out (xs ! n))
      \<le> fmul (math_pow lam (k - 1 - n)) (weight_of ws out (ys ! n))"
    unfolding fmul_def using Suc.prems [of n] by (intro fl64_mono mult_left_mono) auto
  with Suc show ?case by (auto simp: score_step_def Let_def fadd_def intro!: fl64_mono add_mono)
qed simp

text \<open>Weights of 1 throughout make numerator and denominator the same computation.\<close>

lemma score_fold_full:
  assumes lam: "0 < lam" "lam \<le> 1" "fl64 lam = lam"
    and full: "\<And>i. i < n \<Longrightarrow> weight_of ws out (xs ! i) = 1"
  shows "fst (score_fold lam ws out k xs n) = snd (score_fold lam ws out k xs n)"
  using full
proof (induction n)
  case (Suc n)
  have "fl64 (math_pow lam (k - 1 - n)) = math_pow lam (k - 1 - n)" using lam by (simp add: math_pow_unit)
  with Suc show ?case by (simp add: score_step_def Let_def fmul_def)
qed simp

lemma ComputeScore_eq:
  assumes "wf_history h"
  shows "ComputeScore lam ws h =
    (if samples_of h = [] then 0
     else case score_fold (sane_lambda lam) ws (\<lambda>s. (ps_Status s, ps_Category s))
                 (length (samples_of h)) (samples_of h) (length (samples_of h)) of
            (num, den) \<Rightarrow> if den = 0 then 0 else fdiv num den)"
  using samples_of_empty [OF assms] by (simp add: ComputeScore_def score_loop_eq [OF assms])

lemma ComputeScoreFor_eq:
  assumes "wf_history h"
  shows "ComputeScoreFor lam ws service h =
    (if samples_of h = [] then 0
     else case score_fold (sane_lambda lam) ws (\<lambda>s. SampleServiceOutcome s service)
                 (length (samples_of h)) (samples_of h) (length (samples_of h)) of
            (num, den) \<Rightarrow> if den = 0 then 0 else fdiv num den)"
proof -
  have "(\<lambda>s. SampleServiceOutcome s service) = (\<lambda>s. (ps_Status s, ps_Category s))"
    if "service = ''gemini'' \<or> service = []"
    using that by (auto simp: SampleServiceOutcome_def)
  then show ?thesis
    using samples_of_empty [OF assms] ComputeScore_eq [OF assms]
    by (auto simp: ComputeScoreFor_def score_loop_eq [OF assms])
qed

lemma ComputeScoreFor_unit:
  assumes "wf_history h" "fl64 lam = lam" "unit_weights ws"
  shows "0 \<le> ComputeScoreFor lam ws service h" and "ComputeScoreFor lam ws service h \<le> 1"
  using score_quotient [OF sane_lambda_unit sane_lambda_float [OF assms(2)] assms(3) _ refl,
      of "length (samples_of h)"]
  by (simp_all add: ComputeScoreFor_eq [OF assms(1)])

section \<open>Properties\<close>

text \<open>C1: Pushing any sequence of samples into a new history leaves a well-formed buffer that holds,
  oldest first, exactly the most recent samples up to its capacity; the chronological listing and
  the last sample are those of that list.\<close>

theorem history_fifo:
  fixes xs :: "probe_sample list"
  defines "h \<equiv> \<lambda>c. fold Push xs (NewBoundedHistory c)"
  shows "wf_history (h c)
    \<and> ChronologicalSamples (h c) = take_last (nat (if c \<le> 0 then 10 else c)) xs
    \<and> Last (h c) = (if xs = [] then (zero_sample, False) else (last xs, True))"
proof -
  let ?n = "nat (if c \<le> 0 then 10 else c)"
  have wf: "wf_history (h c)"
    unfolding h_def using hist.fold_push_ok [OF wf_NewBoundedHistory] by blast
  have "samples_of (h c) = take_last (nat (bh_Capacity (NewBoundedHistory c))) (samples_of (NewBoundedHistory c) @ xs)"
    unfolding h_def by (rule hist.contents_fold_push [OF wf_NewBoundedHistory])
  then have s: "samples_of (h c) = take_last ?n xs"
    by (simp add: samples_of_New) (simp add: NewBoundedHistory_def Let_def)
  have "Last (h c) = (if xs = [] then (zero_sample, False) else (last xs, True))"
  proof (cases "xs = []")
    case True
    then show ?thesis using samples_of_empty [OF wf] s by (simp add: Last_def)
  next
    case False
    moreover have n: "0 < ?n" by simp
    moreover have "samples_of (h c) \<noteq> []"
      using n False by (simp only: s flip: length_greater_0_conv) simp
    ultimately show ?thesis using Last_eq [OF wf] by (simp only: s last_take_last simp_thms if_False)
  qed
  with wf s show ?thesis by (simp add: ChronologicalSamples_eq)
qed

text \<open>Whatever a decoded file holds, \<open>NormalizeAndValidate\<close> yields a well-formed buffer whose
  capacity does not exceed the store's; on a well-formed buffer it keeps the most recent samples
  that fit, in order.\<close>

theorem history_normalize:
  "wf_history (NormalizeAndValidate m h)
   \<and> (0 < m \<longrightarrow> bh_Capacity (NormalizeAndValidate m h) \<le> m)
   \<and> (wf_history h \<longrightarrow> 0 < m \<longrightarrow>
        ChronologicalSamples (NormalizeAndValidate m h) =
          take_last (nat (min m (bh_Capacity h))) (ChronologicalSamples h))"
proof (intro conjI impI)
  show wf: "wf_history (NormalizeAndValidate m h)" by (rule wf_Normalize)
  show "bh_Capacity (NormalizeAndValidate m h) \<le> m" if "0 < m"
    using that by (simp add: normal_capacity_le)
  assume h: "wf_history h" and m: "0 < m"
  then have "normal_capacity m h = min m (bh_Capacity h)"
    by (auto simp: normal_capacity_def Let_def wf_history_def)
  with h wf show "ChronologicalSamples (NormalizeAndValidate m h) =
      take_last (nat (min m (bh_Capacity h))) (ChronologicalSamples h)"
    by (simp add: ChronologicalSamples_eq samples_of_Normalize_wf)
qed

theorem history_normalize_witness:
  "ChronologicalSamples (NormalizeAndValidate 1 (Push (zero_sample \<lparr> ps_Attempts := 7 \<rparr>) (NewBoundedHistory 3)))
     = [zero_sample \<lparr> ps_Attempts := 7 \<rparr>]"
proof -
  let ?h = "Push (zero_sample \<lparr> ps_Attempts := 7 \<rparr>) (NewBoundedHistory 3)"
  have "wf_history ?h" by (simp add: wf_rules)
  then have "ChronologicalSamples (NormalizeAndValidate 1 ?h) =
      take_last (nat (min 1 (bh_Capacity ?h))) (ChronologicalSamples ?h)"
    using history_normalize [of 1 ?h] by simp
  also have "bh_Capacity ?h = 3" by code_simp
  also have "ChronologicalSamples ?h = [zero_sample \<lparr> ps_Attempts := 7 \<rparr>]"
    by (simp add: ChronologicalSamples_eq wf_rules abs_simps)
       (simp add: NewBoundedHistory_def)
  finally show ?thesis by simp
qed

text \<open>Saving and loading a history loses nothing but the oldest samples beyond the store's
  capacity: decoding the compact encoding and normalising it gives the same samples in order.\<close>

theorem history_json_roundtrip:
  assumes "wf_history h" "0 < m"
  shows "ChronologicalSamples (NormalizeAndValidate m (UnmarshalJSON_history (MarshalJSON_history h) h0))
    = take_last (nat (min m (bh_Capacity h))) (ChronologicalSamples h)"
proof -
  have "normal_capacity m h = min m (bh_Capacity h)"
    using assms by (auto simp: normal_capacity_def Let_def wf_history_def)
  then show ?thesis
    using assms samples_of_Unmarshal_Marshal [OF assms(1), of m h0]
    by (simp add: ChronologicalSamples_eq wf_Normalize)
qed

theorem history_json_roundtrip_witness:
  "ChronologicalSamples
     (NormalizeAndValidate 5 (UnmarshalJSON_history (MarshalJSON_history (NewBoundedHistory 3)) (NewBoundedHistory 1)))
     = take_last (nat (min 5 (bh_Capacity (NewBoundedHistory 3)))) (ChronologicalSamples (NewBoundedHistory 3))"
  by (rule history_json_roundtrip) (simp_all add: wf_rules)

text \<open>C2: For a policy whose weights lie between 0 and 1 the reliability score of every service lies
  between 0 and 1, whatever the decay (values outside \<open>(0, 1]\<close> are replaced by the default), and
  samples that passed throughout score exactly 1: no rounding error accumulates.\<close>

theorem score_bounds:
  assumes "wf_history h" "fl64 lam = lam" "unit_weights ws"
  shows "0 \<le> ComputeScoreFor lam ws service h \<and> ComputeScoreFor lam ws service h \<le> 1
    \<and> (bh_Count h \<noteq> 0 \<longrightarrow> (\<forall>s \<in> set (ChronologicalSamples h). ps_Status s = StatusPassed)
         \<longrightarrow> ComputeScore lam ws h = 1)"
proof (intro conjI impI)
  note [simp] = sane_lambda_float [OF assms(2)] sane_lambda_unit
  show "0 \<le> ComputeScoreFor lam ws service h" "ComputeScoreFor lam ws service h \<le> 1"
    using assms by (simp_all add: ComputeScoreFor_unit)
  assume n: "bh_Count h \<noteq> 0"
    and all: "\<forall>s \<in> set (ChronologicalSamples h). ps_Status s = StatusPassed"
  let ?k = "length (samples_of h)" and ?out = "\<lambda>s. (ps_Status s, ps_Category s)"
  let ?acc = "score_fold (sane_lambda lam) ws ?out ?k (samples_of h) ?k"
  have ne: "samples_of h \<noteq> []" using n assms(1) by (simp add: samples_of_empty)
  have "weight_of ws ?out (samples_of h ! i) = 1" if "i < ?k" for i
    using all that assms(1) by (simp add: ChronologicalSamples_eq sample_weight_def)
  then have "fst ?acc = snd ?acc" by (intro score_fold_full) simp_all
  moreover have "1 \<le> snd ?acc"
    using score_fold_den_pos [of "sane_lambda lam" ws ?k ?out "samples_of h"] assms ne by simp
  ultimately show "ComputeScore lam ws h = 1"
    using ne by (auto simp: ComputeScore_eq [OF assms(1)] fdiv_def f64.rnd_1 split: prod.splits)
qed

theorem score_bounds_witness:
  "0 \<le> ComputeScoreFor (3 / 4) default_weights ''claude'' (Push zero_sample (NewBoundedHistory 3))
   \<and> ComputeScoreFor (3 / 4) default_weights ''claude'' (Push zero_sample (NewBoundedHistory 3)) \<le> 1"
proof -
  have "unit_weights default_weights" by code_simp
  then show ?thesis
    using score_bounds [of "Push zero_sample (NewBoundedHistory 3)" "3 / 4" default_weights "''claude''"]
    by (simp add: wf_rules)
qed

text \<open>The score is monotone: of two histories of the same length, the one whose samples weigh at
  least as much, place by place, scores at least as high.\<close>

theorem score_monotone:
  assumes "wf_history h" "wf_history g" "fl64 lam = lam" "unit_weights ws"
    and "list_all2 (\<lambda>s t. sample_weight ws (ps_Status s) (ps_Category s)
                        \<le> sample_weight ws (ps_Status t) (ps_Category t))
           (ChronologicalSamples h) (ChronologicalSamples g)"
  shows "ComputeScore lam ws h \<le> ComputeScore lam ws g"
proof -
  let ?k = "length (samples_of h)" and ?out = "\<lambda>s. (ps_Status s, ps_Category s)"
  let ?a = "score_fold (sane_lambda lam) ws ?out ?k (samples_of h) ?k"
  let ?b = "score_fold (sane_lambda lam) ws ?out ?k (samples_of g) ?k"
  note lam = sane_lambda_unit [of lam] sane_lambda_float [OF assms(3)]
  have all2: "list_all2 (\<lambda>s t. weight_of ws ?out s \<le> weight_of ws ?out t) (samples_of h) (samples_of g)"
    using assms(5) by (simp add: ChronologicalSamples_eq assms(1,2))
  then have len: "length (samples_of g) = ?k" by (simp add: list_all2_lengthD)
  show ?thesis
  proof (cases "samples_of h = []")
    case True
    then show ?thesis using len by (simp add: ComputeScore_eq assms(1,2))
  next
    case False
    have "fst ?a \<le> fst ?b \<and> snd ?a = snd ?b"
      using all2 by (intro score_fold_mono lam) (auto simp: list_all2_conv_all_nth)
    moreover have "1 \<le> snd ?a"
      using False by (intro score_fold_den_pos lam assms(4)) simp
    ultimately have "fdiv (fst ?a) (snd ?a) \<le> fdiv (fst ?b) (snd ?b)"
      unfolding fdiv_def by (intro fl64_mono) (simp add: divide_right_mono)
    moreover have "snd ?a \<noteq> 0" "snd ?b \<noteq> 0"
      using \<open>fst ?a \<le> fst ?b \<and> snd ?a = snd ?b\<close> \<open>1 \<le> snd ?a\<close> by auto
    ultimately show ?thesis
      using False len by (auto simp: ComputeScore_eq assms(1,2) case_prod_beta)
  qed
qed

theorem score_monotone_witness:
  "ComputeScore (3 / 4) default_weights (NewBoundedHistory 3)
     \<le> ComputeScore (3 / 4) default_weights (NewBoundedHistory 5)"
proof (rule score_monotone)
  show "unit_weights default_weights" by code_simp
  show "list_all2 (\<lambda>s t. sample_weight default_weights (ps_Status s) (ps_Category s)
          \<le> sample_weight default_weights (ps_Status t) (ps_Category t))
        (ChronologicalSamples (NewBoundedHistory 3)) (ChronologicalSamples (NewBoundedHistory 5))"
    by (simp add: ChronologicalSamples_eq wf_rules abs_simps)
qed (simp_all add: wf_rules)

text \<open>Network health is decided by the most recent sample that says anything: samples that are
  inconclusive and carry no transport evidence are passed over; the first other one counts as
  healthy exactly when its evidence is positive or, without evidence, when it passed or was rejected
  by the target. In particular a transport failure invalidates everything older.\<close>

theorem network_health_of_latest:
  assumes "wf_history h" "ChronologicalSamples h = older @ s # newer"
    and "\<forall>x \<in> set newer. \<not> ps_TransportEvidenceKnown x \<and> ps_Status x \<noteq> StatusPassed \<and> ps_Status x \<noteq> StatusFailed"
    and "ps_TransportEvidenceKnown s \<or> ps_Status s = StatusPassed \<or> ps_Status s = StatusFailed"
  shows "snd (LastNetworkHealthyLatency h) \<longleftrightarrow>
    (if ps_TransportEvidenceKnown s then ps_TransportOK s
     else ps_Status s = StatusPassed \<or> IsTargetSpecific (ps_Category s))"
proof -
  have "\<forall>x \<in> set (rev newer). network_evidence x = None"
    using assms(3) by (simp add: network_evidence_def)
  then have "LastNetworkHealthyLatency h = first_some network_evidence (0, False) (s # rev older)"
    using assms(1,2) by (simp add: LastNetworkHealthyLatency_eq ChronologicalSamples_eq first_some_skip)
  also have "\<dots> = the (network_evidence s)"
    using assms(4) by (auto simp: network_evidence_def)
  finally show ?thesis using assms(4) by (auto simp: network_evidence_def)
qed

theorem network_health_of_latest_witness:
  "snd (LastNetworkHealthyLatency
     (Push zero_sample (Push (zero_sample \<lparr> ps_Status := StatusFailed, ps_Category := ErrTargetDenied \<rparr>)
       (NewBoundedHistory 2)))) = True"
proof -
  let ?s = "zero_sample \<lparr> ps_Status := StatusFailed, ps_Category := ErrTargetDenied \<rparr>"
  let ?h = "Push zero_sample (Push ?s (NewBoundedHistory 2))"
  have "ChronologicalSamples ?h = [] @ ?s # [zero_sample]"
    by (simp add: ChronologicalSamples_eq wf_rules abs_simps) (simp add: NewBoundedHistory_def take_last_def)
  then show ?thesis
    using network_health_of_latest [of ?h "[]" ?s "[zero_sample]"]
    by (simp add: wf_rules IsTargetSpecific_def) (simp add: zero_sample_def)
qed

end
