(* ===== verification/StoreGates.thy ===== *)
theory StoreGates
  imports History
begin

text \<open>
  The serving policy of \<open>internal/store/store.go\<close>: the four gates a candidate passes to be served for
  a service (\<open>isAbsentLocked\<close>, \<open>servabilityGateLockedFor\<close>) and the network-health decision that ignores
  rejections by the target (\<open>networkHealthyStateLocked\<close>). A nil record is \<^const>\<open>None\<close>. The exported
  wrappers take the read lock and call these functions.
\<close>

section \<open>The gates\<close>

definition isAbsentLocked :: "store \<Rightarrow> candidate_record \<Rightarrow> bool \<times> string" where
  "isAbsentLocked s r =
     (if st_pendingAbsent s \<noteq> [] \<and> rec_CanonicalLink r \<in> set (st_pendingAbsent s)
      then (True, ''Absent in active cycle'')
      else if rec_AbsentCycles r > 0 \<and> rec_CanonicalLink r \<notin> set (st_pendingPresent s)
      then (True, ''Absent from source upstream'')
      else (False, []))"

definition target_policy_rejects :: "status \<Rightarrow> error_category \<Rightarrow> bool" where
  "target_policy_rejects st cat =
     (st = StatusFailed \<and> (cat = ErrRegionBlocked \<or> cat = ErrTargetDenied))"

text \<open>Gate 2: the reason of the rejection, if the target rejected the candidate.\<close>

definition target_policy_gate :: "candidate_record \<Rightarrow> string \<Rightarrow> string option" where
  "target_policy_gate r service =
     (if service = ''gemini'' then
        (case LatestConclusive (rec_History r) of
           (sample, True) \<Rightarrow>
             if target_policy_rejects (ps_Status sample) (ps_Category sample)
             then Some (''Target policy: '' @ string_of_category (ps_Category sample)) else None
         | (_, False) \<Rightarrow>
             if target_policy_rejects (res_Status (rec_Latest r)) (res_Category (rec_Latest r))
             then Some (''Target policy: '' @ string_of_category (res_Category (rec_Latest r))) else None)
      else if service = ''claude'' then
        (case LatestConclusiveFor ''claude'' (rec_History r) of
           (sample, True) \<Rightarrow>
             if target_policy_rejects (ps_Status sample) (ps_Category sample)
             then Some (''Target policy (claude): '' @ string_of_category (ps_Category sample)) else None
         | (_, False) \<Rightarrow>
             (case map_of (rec_Services r) ''claude'' of
                Some c \<Rightarrow>
                  if target_policy_rejects (tr_Status c) (tr_Category c)
                  then Some (''Target policy (claude): '' @ string_of_category (tr_Category c)) else None
              | None \<Rightarrow>
                  (case map_of (res_Services (rec_Latest r)) ''claude'' of
                     Some c \<Rightarrow>
                       if target_policy_rejects (tr_Status c) (tr_Category c)
                       then Some (''Target policy (claude): '' @ string_of_category (tr_Category c))
                       else None
                   | None \<Rightarrow> None)))
      else None)"

text \<open>The score that gate 4 compares.\<close>

definition claude_score :: "services \<Rightarrow> rat option" where
  "claude_score svs =
     (case map_of svs ''claude'' of
        Some c \<Rightarrow> if tr_Score c > 0 then Some (tr_Score c) else None | None \<Rightarrow> None)"

definition gate_score :: "store \<Rightarrow> candidate_record \<Rightarrow> string \<Rightarrow> rat" where
  "gate_score s r service =
     (if service = ''claude'' then
        (case claude_score (rec_Services r) of
           Some x \<Rightarrow> x
         | None \<Rightarrow>
             (case claude_score (res_Services (rec_Latest r)) of
                Some x \<Rightarrow> x
              | None \<Rightarrow>
                  if bh_Count (rec_History r) > 0
                  then ComputeScoreFor (cfg_DecayLambda (st_cfg s)) (weights_of (st_cfg s)) ''claude''
                         (rec_History r)
                  else rec_Score r))
      else rec_Score r)"

definition servabilityGateLockedFor :: "store \<Rightarrow> candidate_record option \<Rightarrow> string \<Rightarrow> bool \<times> string" where
  "servabilityGateLockedFor s rec svc =
     (case rec of None \<Rightarrow> (False, ''No record'')
      | Some r \<Rightarrow>
          let service = (if svc = [] then ''gemini'' else svc)
          in if fst (isAbsentLocked s r) then (False, snd (isAbsentLocked s r))
             else (case target_policy_gate r service of
                     Some reason \<Rightarrow> (False, reason)
                   | None \<Rightarrow>
                       if bh_Count (rec_History r) < cfg_MinObservationsForServing (st_cfg s)
                       then (False, ''Cold start: needs observation'')
                       else if gate_score s r service < cfg_MinServableScore (st_cfg s) then
                         if service = ''gemini'' \<and> res_Status (rec_Latest r) = StatusInconclusive
                            \<and> res_PreviouslyPassed (rec_Latest r)
                            \<and> res_ConsecutiveInconclusive (rec_Latest r) \<le> cfg_MaxAbsentCycles (st_cfg s)
                            \<and> bh_Count (rec_History r) = 1
                         then (True, ''Servable (grace period)'')
                         else (False, ''Score below threshold'')
                       else (True, ''Servable'')))"

definition isServableRecordLockedFor :: "store \<Rightarrow> candidate_record option \<Rightarrow> string \<Rightarrow> bool" where
  "isServableRecordLockedFor s rec service = fst (servabilityGateLockedFor s rec service)"

definition isServableRecordLocked :: "store \<Rightarrow> candidate_record option \<Rightarrow> bool" where
  "isServableRecordLocked s rec = isServableRecordLockedFor s rec ''gemini''"

section \<open>Network health\<close>

text \<open>The latest result seen as a sample, for a history without a conclusive one.\<close>

definition latest_as_sample :: "result \<Rightarrow> probe_sample" where
  "latest_as_sample l =
     zero_sample \<lparr> ps_Status := res_Status l, ps_Category := res_Category l,
       ps_TransportOK := res_TransportOK l, ps_TransportLatency := res_TransportLatency l,
       ps_TransportEvidenceKnown := res_TransportEvidenceKnown l \<rparr>"

definition networkHealthyStateLocked :: "store \<Rightarrow> candidate_record option \<Rightarrow> bool \<times> bool" where
  "networkHealthyStateLocked s rec =
     (case rec of None \<Rightarrow> (False, False)
      | Some r \<Rightarrow>
          if fst (isAbsentLocked s r) then (False, False)
          else if bh_Count (rec_History r) < cfg_MinObservationsForServing (st_cfg s) then (False, False)
          else if isServableRecordLocked s rec then (True, True)
          else if res_TransportEvidenceKnown (rec_Latest r) then
            if res_TransportOK (rec_Latest r) then (True, False) else (False, False)
          else
            let sample = (case LatestConclusive (rec_History r) of
                            (x, True) \<Rightarrow> x | (_, False) \<Rightarrow> latest_as_sample (rec_Latest r))
            in if ps_TransportEvidenceKnown sample then
                 if ps_TransportOK sample then (True, False) else (False, False)
               else if ps_Status sample = StatusFailed \<and> IsTargetSpecific (ps_Category sample)
               then (True, False) else (False, False))"

definition isNetworkHealthyRecordLocked :: "store \<Rightarrow> candidate_record option \<Rightarrow> bool" where
  "isNetworkHealthyRecordLocked s rec = fst (networkHealthyStateLocked s rec)"

text \<open>\<open>IsServable\<close>, on a result: the stored record decides, an unknown result by its own status.\<close>

definition IsServable :: "(string \<Rightarrow> string) \<Rightarrow> result \<Rightarrow> store \<Rightarrow> bool" where
  "IsServable canon r s =
     (case map_of (st_records s) (canon (res_Link r)) of
        Some rec \<Rightarrow> isServableRecordLocked s (Some rec)
      | None \<Rightarrow> res_Status r = StatusPassed)"

section \<open>The gates as one condition\<close>

definition grace_period :: "store \<Rightarrow> candidate_record \<Rightarrow> string \<Rightarrow> bool" where
  "grace_period s r service =
     (service = ''gemini'' \<and> res_Status (rec_Latest r) = StatusInconclusive
      \<and> res_PreviouslyPassed (rec_Latest r)
      \<and> res_ConsecutiveInconclusive (rec_Latest r) \<le> cfg_MaxAbsentCycles (st_cfg s)
      \<and> bh_Count (rec_History r) = 1)"

lemma isServable_iff:
  "isServableRecordLockedFor s (Some r) svc \<longleftrightarrow>
     (let service = (if svc = [] then ''gemini'' else svc)
      in \<not> fst (isAbsentLocked s r) \<and> target_policy_gate r service = None
         \<and> cfg_MinObservationsForServing (st_cfg s) \<le> bh_Count (rec_History r)
         \<and> (cfg_MinServableScore (st_cfg s) \<le> gate_score s r service \<or> grace_period s r service))"
  by (auto simp: isServableRecordLockedFor_def servabilityGateLockedFor_def Let_def grace_period_def
      split: option.split)

lemma isServable_None [simp]: "\<not> isServableRecordLockedFor s None svc"
  by (simp add: isServableRecordLockedFor_def servabilityGateLockedFor_def)

lemma isServable_gemini_iff:
  "isServableRecordLocked s (Some r) \<longleftrightarrow>
     \<not> fst (isAbsentLocked s r) \<and> target_policy_gate r ''gemini'' = None
     \<and> cfg_MinObservationsForServing (st_cfg s) \<le> bh_Count (rec_History r)
     \<and> (cfg_MinServableScore (st_cfg s) \<le> rec_Score r \<or> grace_period s r ''gemini'')"
  by (simp add: isServableRecordLocked_def isServable_iff gate_score_def Let_def)

definition conclusive :: "probe_sample \<Rightarrow> bool" where
  "conclusive x = (ps_Status x = StatusPassed \<or> ps_Status x = StatusFailed)"

lemma LatestConclusive_latest:
  assumes "wf_history h" "ChronologicalSamples h = older @ x # newer" "conclusive x"
    "\<forall>y \<in> set newer. \<not> conclusive y"
  shows "LatestConclusive h = (x, True)"
proof -
  have "\<forall>y \<in> set (rev newer). (if ps_Status y = StatusPassed \<or> ps_Status y = StatusFailed
      then Some (y, True) else None) = None"
    using assms(4) by (simp add: conclusive_def)
  then show ?thesis
    using assms(1-3) by (simp add: LatestConclusive_eq ChronologicalSamples_eq first_some_skip conclusive_def)
qed

lemma isAbsent_cong:
  "st_pendingAbsent s = st_pendingAbsent t \<Longrightarrow> st_pendingPresent s = st_pendingPresent t
    \<Longrightarrow> isAbsentLocked s r = isAbsentLocked t r"
  by (simp add: isAbsentLocked_def)

lemma isAbsent_iff:
  "fst (isAbsentLocked s r) \<longleftrightarrow>
     rec_CanonicalLink r \<in> set (st_pendingAbsent s)
     \<or> 0 < rec_AbsentCycles r \<and> rec_CanonicalLink r \<notin> set (st_pendingPresent s)"
  by (auto simp: isAbsentLocked_def)

text \<open>A candidate with one sample in a store with the default policy, for concrete instances.\<close>

definition sample_record :: "string \<Rightarrow> probe_sample \<Rightarrow> rat \<Rightarrow> candidate_record" where
  "sample_record link x score =
     \<lparr> rec_CanonicalLink = link, rec_ActiveLink = link, rec_Score = score, rec_AbsentCycles = 0,
       rec_LastPassedLatency = 0, rec_HasPassed = False, rec_Latest = zero_result,
       rec_History = Push x (NewBoundedHistory 3), rec_Services = [] \<rparr>"

lemma sample_record_history [simp]:
  "wf_history (rec_History (sample_record link x score))"
  "ChronologicalSamples (rec_History (sample_record link x score)) = [x]"
  by (simp_all add: sample_record_def wf_rules ChronologicalSamples_eq abs_simps)
     (simp add: NewBoundedHistory_def)

section \<open>Properties\<close>

text \<open>C3: A candidate served for Gemini is present in its source, has the required number of
  observations, its latest conclusive observation is no rejection by the target, and its score
  reaches the threshold, but for a candidate with a single inconclusive observation that passed before.\<close>

theorem served_candidates_pass_policy:
  assumes "isServableRecordLocked s (Some r)" "wf_history (rec_History r)"
  shows "rec_CanonicalLink r \<notin> set (st_pendingAbsent s)
    \<and> (0 < rec_AbsentCycles r \<longrightarrow> rec_CanonicalLink r \<in> set (st_pendingPresent s))
    \<and> cfg_MinObservationsForServing (st_cfg s) \<le> int (length (ChronologicalSamples (rec_History r)))
    \<and> (\<forall>older x newer. ChronologicalSamples (rec_History r) = older @ x # newer \<longrightarrow> conclusive x \<longrightarrow>
          (\<forall>y \<in> set newer. \<not> conclusive y) \<longrightarrow> \<not> target_policy_rejects (ps_Status x) (ps_Category x))
    \<and> (cfg_MinServableScore (st_cfg s) \<le> rec_Score r
       \<or> length (ChronologicalSamples (rec_History r)) = 1 \<and> res_Status (rec_Latest r) = StatusInconclusive
         \<and> res_PreviouslyPassed (rec_Latest r))"
proof -
  have len: "int (length (ChronologicalSamples (rec_History r))) = bh_Count (rec_History r)"
    using assms(2) by (simp add: ChronologicalSamples_eq length_samples_of wf_history_def)
  moreover from len have "bh_Count (rec_History r) = 1 \<longleftrightarrow> length (ChronologicalSamples (rec_History r)) = 1"
    by arith
  moreover have "\<not> target_policy_rejects (ps_Status x) (ps_Category x)"
    if "ChronologicalSamples (rec_History r) = older @ x # newer" "conclusive x"
      "\<forall>y \<in> set newer. \<not> conclusive y" for older x newer
    using LatestConclusive_latest [OF assms(2) that] assms(1)
    by (auto simp: isServable_gemini_iff target_policy_gate_def split: if_splits)
  ultimately show ?thesis
    using assms(1) by (auto simp: isServable_gemini_iff grace_period_def isAbsent_iff)
qed

theorem served_candidates_pass_policy_witness:
  "cfg_MinServableScore (st_cfg (New [] 0))
     \<le> rec_Score (sample_record ''a'' (zero_sample \<lparr> ps_Status := StatusPassed \<rparr>) 1)"
proof -
  have "isServableRecordLocked (New [] 0)
      (Some (sample_record ''a'' (zero_sample \<lparr> ps_Status := StatusPassed \<rparr>) 1))"
    by code_simp
  from served_candidates_pass_policy [OF this sample_record_history(1)] show ?thesis
    by (simp add: sample_record_def zero_result_def)
qed

text \<open>Network health never contradicts the serving decision: the second component is exactly the
  Gemini gate, a servable candidate is healthy, and for the others explicit transport evidence on the
  latest result is authoritative.\<close>

theorem network_health_agrees:
  "snd (networkHealthyStateLocked s rec) = isServableRecordLocked s rec
   \<and> (isServableRecordLocked s rec \<longrightarrow> isNetworkHealthyRecordLocked s rec)
   \<and> (\<forall>r. rec = Some r \<longrightarrow> \<not> isServableRecordLocked s rec \<longrightarrow> res_TransportEvidenceKnown (rec_Latest r)
        \<longrightarrow> isNetworkHealthyRecordLocked s rec \<longrightarrow> res_TransportOK (rec_Latest r))"
proof (cases rec)
  case None
  then show ?thesis
    by (simp add: networkHealthyStateLocked_def isServableRecordLocked_def isNetworkHealthyRecordLocked_def)
next
  case (Some r)
  have "\<not> fst (isAbsentLocked s r)"
    "\<not> bh_Count (rec_History r) < cfg_MinObservationsForServing (st_cfg s)"
    if "isServableRecordLocked s (Some r)"
    using that by (simp_all add: isServable_gemini_iff)
  then show ?thesis
    using Some by (auto simp: networkHealthyStateLocked_def isNetworkHealthyRecordLocked_def Let_def)
qed

text \<open>A present candidate whose only rejection is by the target (region block or access denied)
  is never served for Gemini but counts as network-healthy, as long as its latest result carries no
  transport evidence of its own.\<close>

theorem target_rejection_is_healthy:
  assumes "wf_history (rec_History r)" "ChronologicalSamples (rec_History r) = older @ x # newer"
    and "target_policy_rejects (ps_Status x) (ps_Category x)" "\<forall>y \<in> set newer. \<not> conclusive y"
    and "\<not> fst (isAbsentLocked s r)" "cfg_MinObservationsForServing (st_cfg s) \<le> bh_Count (rec_History r)"
    and "\<not> res_TransportEvidenceKnown (rec_Latest r)" "\<not> ps_TransportEvidenceKnown x"
  shows "isNetworkHealthyRecordLocked s (Some r) \<and> \<not> isServableRecordLocked s (Some r)"
proof -
  have "conclusive x" using assms(3) by (simp add: target_policy_rejects_def conclusive_def)
  then have lc: "LatestConclusive (rec_History r) = (x, True)"
    using LatestConclusive_latest assms by blast
  then have "\<not> isServableRecordLocked s (Some r)"
    using assms(3) by (simp add: isServable_gemini_iff target_policy_gate_def)
  then show ?thesis
    using assms lc
    by (auto simp: isNetworkHealthyRecordLocked_def networkHealthyStateLocked_def Let_def
        target_policy_rejects_def IsTargetSpecific_def)
qed


theorem target_rejection_is_healthy_witness:
  "\<not> isServableRecordLocked (New [] 0)
     (Some (sample_record ''a'' (zero_sample \<lparr> ps_Status := StatusFailed, ps_Category := ErrRegionBlocked \<rparr>) 1))"
proof -
  let ?x = "zero_sample \<lparr> ps_Status := StatusFailed, ps_Category := ErrRegionBlocked \<rparr>"
  let ?r = "sample_record ''a'' ?x 1"
  have "cfg_MinObservationsForServing (st_cfg (New [] 0)) \<le> bh_Count (rec_History ?r)"
    "\<not> fst (isAbsentLocked (New [] 0) ?r)" "target_policy_rejects (ps_Status ?x) (ps_Category ?x)"
    "\<not> res_TransportEvidenceKnown (rec_Latest ?r)" "\<not> ps_TransportEvidenceKnown ?x"
    by code_simp+
  then show ?thesis
    using target_rejection_is_healthy [of ?r "[]" ?x "[]" "New [] 0"] by simp
qed

theorem network_health_agrees_witness:
  "isNetworkHealthyRecordLocked (New [] 0)
     (Some (sample_record ''a'' (zero_sample \<lparr> ps_Status := StatusPassed \<rparr>) 1))"
proof -
  have "isServableRecordLocked (New [] 0)
      (Some (sample_record ''a'' (zero_sample \<lparr> ps_Status := StatusPassed \<rparr>) 1))"
    by code_simp
  then show ?thesis using network_health_agrees by blast
qed

end
