(* ===== verification/StoreCycle.thy ===== *)
theory StoreCycle
  imports StoreGates
begin

text \<open>
  The operations that change the candidate store, \<open>internal/store/store.go\<close>: recording a probe result
  (\<open>PutWithTransition\<close>), the start and the end of a test cycle (\<open>StartCycle\<close>, \<open>FinishCycle\<close>), and the
  classification of legacy error texts (\<open>deriveCategory\<close>).

  \<open>canon\<close> is \<open>CanonicalizeLink\<close> (\<open>canonical.go\<close>, built on \<open>net/url\<close>), \<open>now\<close> the value of \<open>time.Now()\<close>.
  The two sets of pending links are lists without repetition; the loops over them and over the map of
  records run in the order of the lists, and the lemmas about lookups show that it does not matter.
\<close>

section \<open>Classifying a result\<close>

definition deriveCategory :: "string \<Rightarrow> int \<Rightarrow> error_category" where
  "deriveCategory reason statusCode =
     (let lower = to_lower reason; has = str_contains lower
      in if has ''regional block'' \<or> has ''supported in your country'' then ErrRegionBlocked
         else if statusCode = 403 \<or> has ''status 403'' then ErrTargetDenied
         else if (has ''proxy'' \<or> has ''tunnel'' \<or> has ''cdn'') \<and> has ''429'' then ErrProxyRateLimited
         else if has ''unexpected http response status: 429'' then ErrProxyRateLimited
         else if statusCode = 429 \<or> has ''status 429'' \<or> has ''429'' then ErrTargetRateLimited
         else if has ''connection refused'' then ErrConnRefused
         else if has ''timeout'' \<or> has ''deadline exceeded'' then ErrTimeout
         else if has ''eof'' \<or> has ''reset by peer'' then ErrReset
         else if has ''tls'' \<or> has ''handshake'' then ErrTLS
         else if has ''reality'' then ErrReality
         else if has ''utls'' then ErrConfig
         else ErrProxyError)"

text \<open>
  The defaults for a result without status or category, written out twice in the code: at the head of
  \<open>PutWithTransition\<close> and in the migration of version 1 files.
\<close>

definition default_status :: "result \<Rightarrow> result" where
  "default_status r =
     (if res_Status r = NoStatus
      then r \<lparr> res_Status := (if res_Passed r then StatusPassed else StatusFailed) \<rparr> else r)"

definition default_category :: "result \<Rightarrow> result" where
  "default_category r =
     (if res_Category r = NoCategory then
        r \<lparr> res_Category :=
              (if res_Status r = StatusPassed then ErrNone
               else if res_Reason r \<noteq> [] \<or> res_StatusCode r \<noteq> 0 then
                 let cat = deriveCategory (res_Reason r) (res_StatusCode r)
                 in if res_Status r = StatusInconclusive \<and> cat = ErrProxyError then ErrTimeout else cat
               else if res_Status r = StatusInconclusive then ErrTimeout
               else ErrProxyError) \<rparr>
      else r)"

definition classify :: "result \<Rightarrow> result" where
  "classify r = default_category (default_status r)"

section \<open>Recording a result\<close>

definition new_record :: "scoring_config \<Rightarrow> string \<Rightarrow> string \<Rightarrow> candidate_record" where
  "new_record cfg canonical link =
     \<lparr> rec_CanonicalLink = canonical, rec_ActiveLink = link, rec_Score = 0, rec_AbsentCycles = 0,
       rec_LastPassedLatency = 0, rec_HasPassed = False, rec_Latest = zero_result,
       rec_History = NewBoundedHistory (cfg_HistoryCapacity cfg), rec_Services = [] \<rparr>"

definition result_transport_failed :: "result \<Rightarrow> bool" where
  "result_transport_failed r =
     (res_TransportEvidenceKnown r \<and> \<not> res_TransportOK r
      \<or> res_Status r = StatusFailed \<and> \<not> IsTargetSpecific (res_Category r))"

definition put_sample :: "uint64 \<Rightarrow> time \<Rightarrow> result \<Rightarrow> probe_sample" where
  "put_sample cycleID now r =
     (let sample =
            \<lparr> ps_CycleID = cycleID,
              ps_TestedAt = (if is_zero_time (res_TestedAt r) then now else res_TestedAt r),
              ps_Status = res_Status r, ps_Category = res_Category r,
              ps_StatusCode = res_StatusCode r, ps_Latency = res_Latency r,
              ps_ClaudeStatus = NoStatus, ps_ClaudeCategory = NoCategory, ps_ClaudeLatency = 0,
              ps_Attempts = (if res_Attempts r \<le> 0 then 1 else res_Attempts r),
              ps_TransportOK = res_TransportOK r, ps_TransportLatency = res_TransportLatency r,
              ps_TransportEvidenceKnown = res_TransportEvidenceKnown r, ps_Jitter = res_Jitter r \<rparr>
      in (case map_of (res_Services r) ''claude'' of
            Some c \<Rightarrow> sample \<lparr> ps_ClaudeStatus := tr_Status c, ps_ClaudeCategory := tr_Category c,
                               ps_ClaudeLatency := tr_Latency c \<rparr>
          | None \<Rightarrow>
              if result_transport_failed r
              then sample \<lparr> ps_ClaudeStatus := res_Status r, ps_ClaudeCategory := res_Category r,
                            ps_ClaudeLatency := res_Latency r \<rparr>
              else sample))"

definition target_of_result :: "result \<Rightarrow> rat \<Rightarrow> target_result" where
  "target_of_result r score =
     \<lparr> tr_Status = res_Status r, tr_Category = res_Category r, tr_StatusCode = res_StatusCode r,
       tr_Latency = res_Latency r, tr_Score = score \<rparr>"

text \<open>The services of the record after a result, for the Gemini score and the Claude score.\<close>

definition put_services :: "result \<Rightarrow> rat \<Rightarrow> rat \<Rightarrow> services \<Rightarrow> services" where
  "put_services r score claudeScore old =
     (let merged =
            (if res_Services r \<noteq> [] then AList.merge old (res_Services r)
             else if result_transport_failed r
             then map (\<lambda>(k, v). (k, if k \<noteq> ''gemini'' then target_of_result r 0 else v)) old
             else old);
          svs = AList.update ''gemini'' (target_of_result r score) merged
      in alter_key (\<lambda>c. Some (c \<lparr> tr_Score := claudeScore \<rparr>)) ''claude'' svs)"

definition set_last_passed :: "candidate_record \<Rightarrow> candidate_record" where
  "set_last_passed rec =
     (case LastPassedLatency (rec_History rec) of
        (lat, True) \<Rightarrow> rec \<lparr> rec_LastPassedLatency := lat, rec_HasPassed := True \<rparr>
      | (_, False) \<Rightarrow> rec \<lparr> rec_LastPassedLatency := 0, rec_HasPassed := False \<rparr>)"

definition put_record :: "scoring_config \<Rightarrow> bool \<Rightarrow> probe_sample \<Rightarrow> result \<Rightarrow> candidate_record \<Rightarrow> candidate_record"
where
  "put_record cfg existed sample r rec0 =
     (let lam = cfg_DecayLambda cfg; ws = weights_of cfg;
          history = Push sample (rec_History rec0);
          score = ComputeScore lam ws history;
          svs = put_services r score (ComputeScoreFor lam ws ''claude'' history) (rec_Services rec0);
          rec = set_last_passed
                  (rec0 \<lparr> rec_ActiveLink := res_Link r, rec_History := history, rec_Score := score,
                          rec_Services := svs \<rparr>);
          latest =
            r \<lparr> res_Passed := (res_Status r = StatusPassed),
                res_PreviouslyPassed := PreviouslyPassed history,
                res_ConsecutiveInconclusive := ConsecutiveInconclusive history,
                res_Warnings :=
                  (if res_Warnings r = [] \<and> existed \<and> res_Warnings (rec_Latest rec0) \<noteq> []
                   then res_Warnings (rec_Latest rec0) else res_Warnings r),
                res_Services := AList.merge (res_Services r) svs \<rparr>
      in rec \<lparr> rec_Latest := latest \<rparr>)"

definition PutWithTransition :: "(string \<Rightarrow> string) \<Rightarrow> time \<Rightarrow> result \<Rightarrow> store \<Rightarrow> store" where
  "PutWithTransition canon now r0 s =
     (let r = classify r0;
          canonical = canon (res_Link r);
          found = map_of (st_records s) canonical;
          rec0 = (case found of Some rec \<Rightarrow> rec
                  | None \<Rightarrow> new_record (st_cfg s) canonical (res_Link r));
          sample = put_sample (st_cycleID s) now r;
          rec = put_record (st_cfg s) (found \<noteq> None) sample r rec0
      in s \<lparr> st_records := AList.update canonical rec (st_records s),
             st_pendingAbsent := removeAll canonical (st_pendingAbsent s),
             st_pendingPresent := List.insert canonical (st_pendingPresent s),
             st_revision := st_revision s + 1 \<rparr>)"

section \<open>Test cycles\<close>

definition CanonicalizeLinks :: "(string \<Rightarrow> string) \<Rightarrow> string list \<Rightarrow> string list" where
  "CanonicalizeLinks canon links = remdups (map canon links)"

definition startCycleLocked :: "string list \<Rightarrow> store \<Rightarrow> store" where
  "startCycleLocked canonicalPresent s0 =
     (let s = s0 \<lparr> st_revision := st_revision s0 + 1 \<rparr>
      in if canonicalPresent = [] then
           s \<lparr> st_pendingPresent := [], st_pendingAbsent := map fst (st_records s) \<rparr>
         else
           s \<lparr> st_pendingPresent := canonicalPresent,
               st_pendingAbsent :=
                 filter (\<lambda>c. c \<notin> set canonicalPresent) (map fst (st_records s)) \<rparr>)"

definition StartCycle :: "(string \<Rightarrow> string) \<Rightarrow> string list \<Rightarrow> store \<Rightarrow> store" where
  "StartCycle canon currentLinks s = startCycleLocked (CanonicalizeLinks canon currentLinks) s"

definition count_absence :: "int \<Rightarrow> candidate_record \<Rightarrow> candidate_record option" where
  "count_absence maxAbsent rec =
     (if rec_AbsentCycles rec + 1 > maxAbsent then None
      else Some (rec \<lparr> rec_AbsentCycles := rec_AbsentCycles rec + 1 \<rparr>))"

definition FinishCycle :: "time \<Rightarrow> store \<Rightarrow> store" where
  "FinishCycle now s =
     (let evicted = fold (alter_key (count_absence (cfg_MaxAbsentCycles (st_cfg s))))
                      (st_pendingAbsent s) (st_records s);
          reset = fold (alter_key (\<lambda>rec. Some (rec \<lparr> rec_AbsentCycles := 0 \<rparr>)))
                    (st_pendingPresent s) evicted
      in s \<lparr> st_records := reset, st_pendingAbsent := [], st_pendingPresent := [],
             st_lastCycle := now, st_cycleCount := st_cycleCount s + 1,
             st_cycleID := st_cycleID s + 1, st_revision := st_revision s + 1 \<rparr>)"

section \<open>The invariant of the store\<close>

text \<open>
  What every record satisfies: it is filed under its canonical link, its buffer is well-formed and no
  deeper than the policy says, and the score, the latency of the last success, the Gemini target and
  the projected fields of the latest result are those of the history.
\<close>

definition record_derived :: "scoring_config \<Rightarrow> candidate_record \<Rightarrow> bool" where
  "record_derived cfg rec =
     (rec_Score rec = ComputeScore (cfg_DecayLambda cfg) (weights_of cfg) (rec_History rec)
      \<and> LastPassedLatency (rec_History rec) = (rec_LastPassedLatency rec, rec_HasPassed rec)
      \<and> map_of (rec_Services rec) ''gemini'' = Some (target_of_result (rec_Latest rec) (rec_Score rec))
      \<and> res_Passed (rec_Latest rec) = (res_Status (rec_Latest rec) = StatusPassed))"

definition wf_record :: "scoring_config \<Rightarrow> string \<Rightarrow> candidate_record \<Rightarrow> bool" where
  "wf_record cfg key rec =
     (rec_CanonicalLink rec = key \<and> wf_history (rec_History rec)
      \<and> bh_Capacity (rec_History rec) \<le> cfg_HistoryCapacity cfg \<and> record_derived cfg rec)"

definition wf_config :: "scoring_config \<Rightarrow> bool" where
  "wf_config cfg =
     (0 < cfg_HistoryCapacity cfg \<and> 0 < cfg_DecayLambda cfg \<and> cfg_DecayLambda cfg \<le> 1
      \<and> 0 < cfg_MinServableScore cfg \<and> 0 < cfg_MinObservationsForServing cfg
      \<and> 0 < cfg_MaxAbsentCycles cfg \<and> cfg_CategoryWeights cfg \<noteq> None)"

definition wf_store :: "store \<Rightarrow> bool" where
  "wf_store s =
     (wf_config (st_cfg s) \<and> distinct (map fst (st_records s))
      \<and> distinct (st_pendingAbsent s) \<and> distinct (st_pendingPresent s)
      \<and> set (st_pendingAbsent s) \<inter> set (st_pendingPresent s) = {}
      \<and> (\<forall>key rec. map_of (st_records s) key = Some rec \<longrightarrow> wf_record (st_cfg s) key rec))"

text \<open>The bound on absence counts, which a file written by another program could violate.\<close>

definition absence_bounded :: "store \<Rightarrow> bool" where
  "absence_bounded s =
     (\<forall>key rec. map_of (st_records s) key = Some rec \<longrightarrow>
        0 \<le> rec_AbsentCycles rec \<and> rec_AbsentCycles rec \<le> cfg_MaxAbsentCycles (st_cfg s))"

lemma fl64_pos_const [simp]: "0 < fl64 (13 / 20)"
  by (simp add: fl64_def fl64_pos_pos)

lemma wf_sane_config [wf_rules]: "wf_config (sane_config cfg)"
  by (auto simp: wf_config_def sane_config_def split: option.split)

lemma wf_NewWithConfig [wf_rules]: "wf_store (NewWithConfig path cfg)"
  by (simp add: wf_store_def NewWithConfig_def wf_rules)

lemma absence_New [wf_rules]: "absence_bounded (NewWithConfig path cfg)"
  by (simp add: absence_bounded_def NewWithConfig_def)

section \<open>Putting a result\<close>

lemma classify_keeps [simp]:
  "res_Link (classify r) = res_Link r" "res_Services (classify r) = res_Services r"
  "res_Warnings (classify r) = res_Warnings r"
  by (simp_all add: classify_def default_category_def default_status_def)

lemma set_last_passed_eq:
  "set_last_passed rec = rec \<lparr> rec_LastPassedLatency := fst (LastPassedLatency (rec_History rec)),
                               rec_HasPassed := snd (LastPassedLatency (rec_History rec)) \<rparr>"
  if "\<not> snd (LastPassedLatency (rec_History rec)) \<longrightarrow> fst (LastPassedLatency (rec_History rec)) = 0"
  using that by (auto simp: set_last_passed_def split: prod.split bool.split)

lemma LastPassedLatency_default:
  assumes "wf_history h"
  shows "\<not> snd (LastPassedLatency h) \<longrightarrow> fst (LastPassedLatency h) = 0"
proof -
  have "\<not> snd (first_some (\<lambda>s. if ps_Status s = StatusPassed then Some (ps_Latency s, True) else None) (0, False) xs)
    \<longrightarrow> fst (first_some (\<lambda>s. if ps_Status s = StatusPassed then Some (ps_Latency s, True) else None) (0, False) xs) = 0"
    for xs by (induction xs) auto
  then show ?thesis by (simp only: LastPassedLatency_eq [OF assms])
qed

lemma put_services_gemini:
  "map_of (put_services r score claude old) ''gemini'' = Some (target_of_result r score)"
  by (simp add: put_services_def Let_def map_of_alter_key update_conv')

lemma distinct_put_services:
  "distinct (map fst old) \<Longrightarrow> distinct (map fst (put_services r score claude old))"
  unfolding put_services_def Let_def
  by (intro distinct_alter_key distinct_update) (auto simp: distinct_merge comp_def case_prod_beta)

lemma put_record_fields:
  assumes "wf_history (rec_History rec0)"
  shows "rec_History (put_record cfg ex sample r rec0) = Push sample (rec_History rec0)"
    and "rec_CanonicalLink (put_record cfg ex sample r rec0) = rec_CanonicalLink rec0"
    and "rec_ActiveLink (put_record cfg ex sample r rec0) = res_Link r"
    and "rec_AbsentCycles (put_record cfg ex sample r rec0) = rec_AbsentCycles rec0"
    and "rec_Score (put_record cfg ex sample r rec0) =
      ComputeScore (cfg_DecayLambda cfg) (weights_of cfg) (Push sample (rec_History rec0))"
    and "LastPassedLatency (Push sample (rec_History rec0)) =
      (rec_LastPassedLatency (put_record cfg ex sample r rec0), rec_HasPassed (put_record cfg ex sample r rec0))"
    and "rec_Services (put_record cfg ex sample r rec0) =
      put_services r (rec_Score (put_record cfg ex sample r rec0))
        (ComputeScoreFor (cfg_DecayLambda cfg) (weights_of cfg) ''claude'' (Push sample (rec_History rec0)))
        (rec_Services rec0)"
  using LastPassedLatency_default [OF wf_Push [OF assms]]
  by (simp_all add: put_record_def Let_def set_last_passed_eq)

lemma put_record_latest:
  "res_Status (rec_Latest (put_record cfg ex sample r rec0)) = res_Status r"
  "res_Category (rec_Latest (put_record cfg ex sample r rec0)) = res_Category r"
  "res_StatusCode (rec_Latest (put_record cfg ex sample r rec0)) = res_StatusCode r"
  "res_Latency (rec_Latest (put_record cfg ex sample r rec0)) = res_Latency r"
  "res_Passed (rec_Latest (put_record cfg ex sample r rec0)) = (res_Status r = StatusPassed)"
  "res_PreviouslyPassed (rec_Latest (put_record cfg ex sample r rec0)) =
     PreviouslyPassed (Push sample (rec_History rec0))"
  "res_ConsecutiveInconclusive (rec_Latest (put_record cfg ex sample r rec0)) =
     ConsecutiveInconclusive (Push sample (rec_History rec0))"
  by (simp_all add: put_record_def Let_def)

lemma wf_put_record [wf_rules]:
  assumes "wf_history (rec_History rec0)" "bh_Capacity (rec_History rec0) \<le> cfg_HistoryCapacity cfg"
  shows "wf_record cfg (rec_CanonicalLink rec0) (put_record cfg ex sample r rec0)"
  using assms wf_Push [OF assms(1), of sample] put_record_fields(6) [OF assms(1)]
  by (simp add: wf_record_def record_derived_def put_record_fields put_record_latest put_services_gemini
      target_of_result_def)

definition put_base :: "(string \<Rightarrow> string) \<Rightarrow> result \<Rightarrow> store \<Rightarrow> candidate_record" where
  "put_base canon r s =
     (case map_of (st_records s) (canon (res_Link r)) of
        Some rec \<Rightarrow> rec | None \<Rightarrow> new_record (st_cfg s) (canon (res_Link r)) (res_Link r))"

lemma Put_records:
  "map_of (st_records (PutWithTransition canon now r s)) =
    (map_of (st_records s))(canon (res_Link r) \<mapsto>
       put_record (st_cfg s) (map_of (st_records s) (canon (res_Link r)) \<noteq> None)
         (put_sample (st_cycleID s) now (classify r)) (classify r) (put_base canon r s))"
  by (simp add: PutWithTransition_def Let_def update_conv' put_base_def del: not_None_eq
      cong: option.case_cong)

lemma Put_other_fields [simp]:
  "st_cfg (PutWithTransition canon now r s) = st_cfg s"
  "st_pendingAbsent (PutWithTransition canon now r s) = removeAll (canon (res_Link r)) (st_pendingAbsent s)"
  "st_pendingPresent (PutWithTransition canon now r s) = List.insert (canon (res_Link r)) (st_pendingPresent s)"
  "st_cycleID (PutWithTransition canon now r s) = st_cycleID s"
  "st_cycleCount (PutWithTransition canon now r s) = st_cycleCount s"
  "st_lastCycle (PutWithTransition canon now r s) = st_lastCycle s"
  by (simp_all add: PutWithTransition_def Let_def)

lemma put_base_wf:
  assumes "wf_store s"
  shows "wf_history (rec_History (put_base canon r s))"
    and "bh_Capacity (rec_History (put_base canon r s)) \<le> cfg_HistoryCapacity (st_cfg s)"
    and "rec_CanonicalLink (put_base canon r s) = canon (res_Link r)"
  using assms
  by (auto simp: put_base_def wf_store_def wf_record_def new_record_def wf_NewBoundedHistory split: option.split)
     (simp add: NewBoundedHistory_def wf_config_def Let_def)

lemma wf_Put [wf_rules]:
  assumes "wf_store s"
  shows "wf_store (PutWithTransition canon now r s)"
proof -
  have "wf_record (st_cfg s) (canon (res_Link r))
      (put_record (st_cfg s) ex sample (classify r) (put_base canon r s))" for ex sample
    using wf_put_record [OF put_base_wf(1,2) [OF assms]] put_base_wf(3) [OF assms] by metis
  moreover have "distinct (map fst (st_records (PutWithTransition canon now r s)))"
    using assms by (simp add: PutWithTransition_def Let_def distinct_update wf_store_def)
  ultimately show ?thesis
    using assms by (auto simp: wf_store_def Put_records distinct_removeAll)
qed

section \<open>Cycles\<close>

lemma Start_fields [simp]:
  "st_records (StartCycle canon L s) = st_records s"
  "st_cfg (StartCycle canon L s) = st_cfg s"
  "st_pendingPresent (StartCycle canon L s) = CanonicalizeLinks canon L"
  "st_pendingAbsent (StartCycle canon L s) =
     filter (\<lambda>c. c \<notin> canon ` set L) (map fst (st_records s))"
  "st_cycleID (StartCycle canon L s) = st_cycleID s"
  "st_cycleCount (StartCycle canon L s) = st_cycleCount s"
  "st_lastCycle (StartCycle canon L s) = st_lastCycle s"
  by (auto simp: StartCycle_def startCycleLocked_def CanonicalizeLinks_def Let_def)

lemma wf_Start [wf_rules]: "wf_store s \<Longrightarrow> wf_store (StartCycle canon L s)"
  by (auto simp: wf_store_def CanonicalizeLinks_def)

definition finish_record :: "store \<Rightarrow> string \<Rightarrow> candidate_record \<Rightarrow> candidate_record option" where
  "finish_record s k rec =
     (if k \<in> set (st_pendingAbsent s) then count_absence (cfg_MaxAbsentCycles (st_cfg s)) rec
      else if k \<in> set (st_pendingPresent s) then Some (rec \<lparr> rec_AbsentCycles := 0 \<rparr>)
      else Some rec)"

lemma Finish_records:
  assumes "wf_store s"
  shows "map_of (st_records (FinishCycle now s)) k =
    Option.bind (map_of (st_records s) k) (finish_record s k)"
proof -
  have "distinct (st_pendingAbsent s)" "distinct (st_pendingPresent s)"
    "k \<in> set (st_pendingAbsent s) \<Longrightarrow> k \<notin> set (st_pendingPresent s)"
    using assms by (auto simp: wf_store_def)
  then show ?thesis
    by (cases "map_of (st_records s) k")
       (auto simp: FinishCycle_def Let_def map_of_fold_alter_key finish_record_def)
qed

lemma Finish_fields [simp]:
  "st_cfg (FinishCycle now s) = st_cfg s"
  "st_pendingAbsent (FinishCycle now s) = []" "st_pendingPresent (FinishCycle now s) = []"
  "st_cycleID (FinishCycle now s) = st_cycleID s + 1"
  "st_cycleCount (FinishCycle now s) = st_cycleCount s + 1"
  "st_lastCycle (FinishCycle now s) = now"
  by (simp_all add: FinishCycle_def Let_def)

lemma distinct_Finish: "wf_store s \<Longrightarrow> distinct (map fst (st_records (FinishCycle now s)))"
  by (simp add: FinishCycle_def Let_def distinct_fold_alter_key wf_store_def)

lemma finish_record_wf:
  "finish_record s k rec = Some rec' \<Longrightarrow> wf_record cfg k rec \<Longrightarrow> wf_record cfg k rec'"
  by (auto simp: finish_record_def count_absence_def wf_record_def record_derived_def split: if_splits)

lemma wf_Finish [wf_rules]:
  assumes "wf_store s"
  shows "wf_store (FinishCycle now s)"
proof -
  have "wf_record (st_cfg s) k x" if "map_of (st_records (FinishCycle now s)) k = Some x" for k x
  proof -
    from that obtain y where "map_of (st_records s) k = Some y" "finish_record s k y = Some x"
      by (auto simp: Finish_records [OF assms] bind_eq_Some_conv)
    then show ?thesis using assms finish_record_wf unfolding wf_store_def by blast
  qed
  then show ?thesis
    using assms distinct_Finish [OF assms, of now] by (simp add: wf_store_def)
qed

section \<open>Sequences of operations\<close>

datatype store_op =
    OpPut result time
  | OpStart "string list"
  | OpFinish time

fun run_op :: "(string \<Rightarrow> string) \<Rightarrow> store_op \<Rightarrow> store \<Rightarrow> store" where
  "run_op canon (OpPut r now) s = PutWithTransition canon now r s"
| "run_op canon (OpStart links) s = StartCycle canon links s"
| "run_op canon (OpFinish now) s = FinishCycle now s"

lemma wf_run_op: "wf_store s \<Longrightarrow> wf_store (run_op canon op s)"
  by (cases op) (simp_all add: wf_rules)

lemma cfg_run_op [simp]: "st_cfg (run_op canon op s) = st_cfg s"
  by (cases op) simp_all

lemma wf_run_ops: "wf_store s \<Longrightarrow> wf_store (fold (run_op canon) ops s)"
  by (induction ops arbitrary: s) (auto simp: wf_run_op)

lemma cfg_run_ops [simp]: "st_cfg (fold (run_op canon) ops s) = st_cfg s"
  by (induction ops arbitrary: s) auto

lemma absence_Put:
  assumes "wf_store s" "absence_bounded s"
  shows "absence_bounded (PutWithTransition canon now r s)"
proof -
  have "0 \<le> rec_AbsentCycles (put_base canon r s)
      \<and> rec_AbsentCycles (put_base canon r s) \<le> cfg_MaxAbsentCycles (st_cfg s)"
    using assms by (auto simp: put_base_def absence_bounded_def new_record_def wf_store_def wf_config_def
        split: option.split)
  then show ?thesis
    using assms(2) put_base_wf(1) [OF assms(1)]
    by (auto simp: absence_bounded_def Put_records put_record_fields)
qed

lemma absence_Finish:
  assumes "wf_store s" "absence_bounded s"
  shows "absence_bounded (FinishCycle now s)"
  unfolding absence_bounded_def
proof (intro allI impI)
  fix k x
  assume "map_of (st_records (FinishCycle now s)) k = Some x"
  then obtain y where "map_of (st_records s) k = Some y" and x: "finish_record s k y = Some x"
    by (auto simp: Finish_records [OF assms(1)] bind_eq_Some_conv)
  with assms(2) have "0 \<le> rec_AbsentCycles y" "rec_AbsentCycles y \<le> cfg_MaxAbsentCycles (st_cfg s)"
    by (auto simp: absence_bounded_def)
  moreover have "0 < cfg_MaxAbsentCycles (st_cfg s)"
    using assms(1) by (simp add: wf_store_def wf_config_def)
  ultimately show "0 \<le> rec_AbsentCycles x \<and> rec_AbsentCycles x \<le> cfg_MaxAbsentCycles (st_cfg (FinishCycle now s))"
    using x by (auto simp: finish_record_def count_absence_def split: if_splits)
qed

lemma absence_run_ops:
  "wf_store s \<Longrightarrow> absence_bounded s \<Longrightarrow> absence_bounded (fold (run_op canon) ops s)"
proof (induction ops arbitrary: s)
  case (Cons op ops)
  have "absence_bounded (run_op canon op s)"
  proof (cases op)
    case (OpStart links)
    then show ?thesis using Cons.prems(2) by (simp add: absence_bounded_def)
  qed (use Cons.prems in \<open>simp_all add: absence_Put absence_Finish\<close>)
  with Cons show ?case by (simp add: wf_run_op)
qed simp

text \<open>A link missing from every one of a sequence of completed cycles.\<close>

definition empty_cycle :: "(string \<Rightarrow> string) \<Rightarrow> time \<Rightarrow> string list \<Rightarrow> store \<Rightarrow> store" where
  "empty_cycle canon now links s = FinishCycle now (StartCycle canon links s)"

lemma missing_cycle:
  assumes "wf_store s" "k \<notin> canon ` set links"
  shows "map_of (st_records (empty_cycle canon now links s)) k =
    Option.bind (map_of (st_records s) k) (count_absence (cfg_MaxAbsentCycles (st_cfg s)))"
proof (cases "map_of (st_records s) k")
  case (Some rec)
  then have "k \<in> fst ` set (st_records s)" by (auto dest: map_of_SomeD intro: rev_image_eqI)
  with assms Some show ?thesis
    by (simp add: empty_cycle_def Finish_records wf_Start finish_record_def)
next
  case None
  with assms show ?thesis by (simp add: empty_cycle_def Finish_records wf_Start)
qed

lemma wf_empty_cycle: "wf_store s \<Longrightarrow> wf_store (empty_cycle canon now links s)"
  by (simp add: empty_cycle_def wf_rules)

lemma cfg_empty_cycle [simp]: "st_cfg (empty_cycle canon now links s) = st_cfg s"
  by (simp add: empty_cycle_def)

lemma missing_cycles_gone:
  "wf_store s \<Longrightarrow> \<forall>L \<in> set Ls. k \<notin> canon ` set L \<Longrightarrow> map_of (st_records s) k = None \<Longrightarrow>
     map_of (st_records (fold (empty_cycle canon now) Ls s)) k = None"
  by (induction Ls arbitrary: s) (simp_all add: wf_empty_cycle missing_cycle)

lemma missing_cycles:
  assumes "wf_store s" "\<forall>L \<in> set Ls. k \<notin> canon ` set L"
    and "map_of (st_records s) k = Some rec" "rec_AbsentCycles rec \<le> cfg_MaxAbsentCycles (st_cfg s)"
  shows "map_of (st_records (fold (empty_cycle canon now) Ls s)) k =
    (if rec_AbsentCycles rec + int (length Ls) \<le> cfg_MaxAbsentCycles (st_cfg s)
     then Some (rec \<lparr> rec_AbsentCycles := rec_AbsentCycles rec + int (length Ls) \<rparr>) else None)"
  using assms
proof (induction Ls arbitrary: s rec)
  case (Cons L Ls)
  let ?s = "empty_cycle canon now L s"
  have step: "map_of (st_records ?s) k = count_absence (cfg_MaxAbsentCycles (st_cfg s)) rec"
    using Cons.prems by (simp add: missing_cycle)
  show ?case
  proof (cases "rec_AbsentCycles rec + 1 > cfg_MaxAbsentCycles (st_cfg s)")
    case True
    then have "map_of (st_records ?s) k = None" using step by (simp add: count_absence_def)
    then show ?thesis
      using Cons.prems True missing_cycles_gone [of ?s Ls k canon now] by (simp add: wf_empty_cycle)
  next
    case False
    with step have "map_of (st_records ?s) k =
        Some (rec \<lparr> rec_AbsentCycles := rec_AbsentCycles rec + 1 \<rparr>)"
      by (simp add: count_absence_def)
    then show ?thesis
      using Cons.prems False Cons.IH [of ?s "rec \<lparr> rec_AbsentCycles := rec_AbsentCycles rec + 1 \<rparr>"]
      by (simp add: wf_empty_cycle algebra_simps)
  qed
qed simp

section \<open>Concrete instances\<close>

definition demo_result :: "string \<Rightarrow> status \<Rightarrow> result" where
  "demo_result link st = zero_result \<lparr> res_Link := link, res_Status := st, res_Category := ErrNone \<rparr>"

definition demo_store :: store where
  "demo_store = PutWithTransition (\<lambda>x. x) 5 (demo_result ''a'' StatusPassed) (New [] 0)"

lemma wf_demo_store: "wf_store demo_store"
  by (simp add: demo_store_def New_def wf_rules)

lemma cfg_demo_store [simp]: "cfg_MaxAbsentCycles (st_cfg demo_store) = 2"
  by (simp add: demo_store_def New_def NewWithConfig_def sane_config_def DefaultScoringConfig_def)

lemma lookup_demo_store:
  "\<exists>rec. map_of (st_records demo_store) ''a'' = Some rec \<and> rec_AbsentCycles rec = 0"
proof -
  have "wf_store (New [] 0)" by (simp add: New_def wf_rules)
  then show ?thesis
    by (simp add: demo_store_def Put_records put_record_fields put_base_wf demo_result_def)
       (simp add: put_base_def New_def NewWithConfig_def new_record_def)
qed

section \<open>Properties\<close>

text \<open>C4: Recording a result appends exactly one sample to the history of its candidate, dropping the
  oldest one when the window is full, makes the candidate present, and touches no other record.\<close>

theorem put_appends_sample:
  fixes canon :: "string \<Rightarrow> string" and r :: result
  assumes "wf_store s"
  defines "c \<equiv> canon (res_Link r)"
    and "old \<equiv> case map_of (st_records s) (canon (res_Link r)) of
           Some rec \<Rightarrow> (ChronologicalSamples (rec_History rec), nat (bh_Capacity (rec_History rec)))
         | None \<Rightarrow> ([], nat (cfg_HistoryCapacity (st_cfg s)))"
  shows "(\<exists>rec. map_of (st_records (PutWithTransition canon now r s)) (c) = Some rec
      \<and> ChronologicalSamples (rec_History rec) =
          take_last (snd old) (fst old @ [put_sample (st_cycleID s) now (classify r)])
      \<and> res_Status (rec_Latest rec) = res_Status (classify r)
      \<and> \<not> fst (isAbsentLocked (PutWithTransition canon now r s) rec))
    \<and> (\<forall>k. k \<noteq> c \<longrightarrow>
          map_of (st_records (PutWithTransition canon now r s)) k = map_of (st_records s) k)"
proof -
  let ?b = "put_base canon r s" and ?x = "put_sample (st_cycleID s) now (classify r)"
  note b = put_base_wf [OF assms(1), of canon r]
  have samples: "ChronologicalSamples (Push ?x (rec_History ?b)) =
      take_last (nat (bh_Capacity (rec_History ?b))) (samples_of (rec_History ?b) @ [?x])"
    using b(1) by (simp add: ChronologicalSamples_eq wf_Push samples_of_Push)
  have hist: "wf_history (rec_History y)" if "map_of (st_records s) k = Some y" for k y
    using assms(1) that by (simp add: wf_store_def wf_record_def)
  have "0 < cfg_HistoryCapacity (st_cfg s)"
    using assms(1) by (simp add: wf_store_def wf_config_def)
  then have cap: "bh_Capacity (NewBoundedHistory (cfg_HistoryCapacity (st_cfg s))) = cfg_HistoryCapacity (st_cfg s)"
    by (simp add: NewBoundedHistory_def Let_def)
  have base: "(samples_of (rec_History ?b), nat (bh_Capacity (rec_History ?b))) = old"
    unfolding old_def put_base_def
    using cap by (auto simp: ChronologicalSamples_eq hist new_record_def samples_of_New split: option.split)
  show ?thesis
    using samples base b
    by (auto simp: c_def Put_records put_record_fields put_record_latest isAbsent_iff
        simp flip: base)
qed

theorem put_appends_sample_witness:
  "\<exists>rec. map_of (st_records (PutWithTransition (\<lambda>x. x) 7 (demo_result ''b'' StatusFailed) demo_store)) ''b'' = Some rec
     \<and> \<not> fst (isAbsentLocked (PutWithTransition (\<lambda>x. x) 7 (demo_result ''b'' StatusFailed) demo_store) rec)"
  using put_appends_sample [OF wf_demo_store, of "\<lambda>x. x" 7 "demo_result ''b'' StatusFailed"]
  by (auto simp: demo_result_def)

text \<open>C5: Every store reached from a new one by any sequence of recorded results, cycle starts and
  cycle ends is consistent: keys are distinct canonical links, every buffer is well-formed and within
  the policy's depth, score, last successful latency and Gemini target are those of the history, the
  pending sets are disjoint, and absence counts stay between 0 and the policy's limit.\<close>

theorem store_invariant:
  "wf_store (fold (run_op canon) ops (NewWithConfig path cfg))
   \<and> absence_bounded (fold (run_op canon) ops (NewWithConfig path cfg))"
  by (simp add: wf_run_ops absence_run_ops wf_rules)

text \<open>C6: A candidate missing from consecutive completed cycles keeps its record, with the number of
  misses counted, until the policy's limit is exceeded, and is evicted by the next completed cycle.\<close>

theorem eviction_after_limit:
  assumes "wf_store s" "absence_bounded s" "map_of (st_records s) k = Some rec"
    and "\<forall>L \<in> set Ls. k \<notin> canon ` set L"
  shows "map_of (st_records (fold (\<lambda>L t. FinishCycle now (StartCycle canon L t)) Ls s)) k =
    (if rec_AbsentCycles rec + int (length Ls) \<le> cfg_MaxAbsentCycles (st_cfg s)
     then Some (rec \<lparr> rec_AbsentCycles := rec_AbsentCycles rec + int (length Ls) \<rparr>) else None)"
proof -
  have "(\<lambda>L t. FinishCycle now (StartCycle canon L t)) = empty_cycle canon now"
    by (simp add: fun_eq_iff empty_cycle_def)
  then show ?thesis
    using assms missing_cycles [of s Ls k canon rec now] by (simp add: absence_bounded_def)
qed

theorem eviction_after_limit_witness:
  "map_of (st_records (fold (\<lambda>L t. FinishCycle 9 (StartCycle (\<lambda>x. x) L t)) [[], [''b''], []] demo_store)) ''a'' = None"
proof -
  obtain rec where rec: "map_of (st_records demo_store) ''a'' = Some rec" "rec_AbsentCycles rec = 0"
    using lookup_demo_store by blast
  have "absence_bounded demo_store"
    unfolding demo_store_def by (rule absence_Put) (simp_all add: New_def wf_rules)
  from eviction_after_limit [OF wf_demo_store this rec(1), of "[[], [''b''], []]" "\<lambda>x. x" 9] rec(2)
  show ?thesis by simp
qed

text \<open>An interrupted cycle changes no absence count and evicts nothing: whatever results are
  recorded and cycles started without one finishing, every record stays, with its count, and the
  number of completed cycles is unchanged.\<close>

theorem unfinished_cycle_commits_nothing:
  assumes "wf_store s" "\<forall>op \<in> set ops. \<forall>t. op \<noteq> OpFinish t" "map_of (st_records s) k = Some rec"
  shows "(\<exists>rec'. map_of (st_records (fold (run_op canon) ops s)) k = Some rec'
      \<and> rec_AbsentCycles rec' = rec_AbsentCycles rec)
    \<and> st_cycleCount (fold (run_op canon) ops s) = st_cycleCount s"
  using assms
proof (induction ops arbitrary: s rec)
  case (Cons op ops)
  have "\<exists>rec'. map_of (st_records (run_op canon op s)) k = Some rec'
      \<and> rec_AbsentCycles rec' = rec_AbsentCycles rec"
  proof (cases op)
    case (OpPut r now)
    then show ?thesis
      using Cons.prems(3) put_base_wf(1) [OF Cons.prems(1), of canon r]
      by (auto simp: Put_records put_record_fields) (simp add: put_base_def)
  qed (use Cons.prems in auto)
  moreover have "st_cycleCount (run_op canon op s) = st_cycleCount s"
    using Cons.prems(2) by (cases op) auto
  ultimately show ?case
    using Cons.prems wf_run_op [OF Cons.prems(1), of canon op]
      Cons.IH [of "run_op canon op s"] by fastforce
qed simp

theorem unfinished_cycle_commits_nothing_witness:
  "\<exists>rec. map_of (st_records (fold (run_op (\<lambda>x. x)) [OpStart [''b'']] demo_store)) ''a'' = Some rec
     \<and> rec_AbsentCycles rec = 0"
proof -
  obtain rec where rec: "map_of (st_records demo_store) ''a'' = Some rec" "rec_AbsentCycles rec = 0"
    using lookup_demo_store by blast
  from unfinished_cycle_commits_nothing [OF wf_demo_store _ rec(1), of "[OpStart [''b'']]" "\<lambda>x. x"] rec(2)
  show ?thesis by simp
qed

text \<open>The source-presence gate follows the candidate list: from the start of a cycle, and after
  its end, a stored candidate counts as absent exactly when the list of that cycle does not hold it.\<close>

theorem presence_follows_source:
  assumes "wf_store s" "map_of (st_records s) k = Some rec"
  shows "(fst (isAbsentLocked (StartCycle canon links s) rec) \<longleftrightarrow> k \<notin> canon ` set links)
    \<and> (\<forall>rec'. absence_bounded s \<longrightarrow>
         map_of (st_records (FinishCycle now (StartCycle canon links s))) k = Some rec' \<longrightarrow>
         (fst (isAbsentLocked (FinishCycle now (StartCycle canon links s)) rec') \<longleftrightarrow> k \<notin> canon ` set links))"
proof -
  have key: "rec_CanonicalLink rec = k" "k \<in> fst ` set (st_records s)"
    using assms by (auto simp: wf_store_def wf_record_def dest: map_of_SomeD intro: rev_image_eqI)
  moreover have "0 \<le> rec_AbsentCycles rec" if "absence_bounded s"
    using that assms(2) by (auto simp: absence_bounded_def)
  ultimately show ?thesis
    using assms
    by (auto simp: isAbsent_iff CanonicalizeLinks_def Finish_records wf_Start finish_record_def
        count_absence_def split: if_splits)
qed

theorem presence_follows_source_witness:
  "\<exists>rec. map_of (st_records demo_store) ''a'' = Some rec
     \<and> fst (isAbsentLocked (StartCycle (\<lambda>x. x) [''b''] demo_store) rec)"
proof -
  obtain rec where rec: "map_of (st_records demo_store) ''a'' = Some rec"
    using lookup_demo_store by blast
  from presence_follows_source [OF wf_demo_store rec, of "\<lambda>x. x" "[''b'']" 9] rec show ?thesis by simp
qed

text \<open>\<open>deriveCategory\<close> never reports a configuration error: every text with ``utls'' contains
  ``tls'' and is classified as a TLS error by the earlier case.\<close>

theorem config_category_unreachable:
  "deriveCategory reason statusCode \<noteq> ErrConfig"
proof -
  have "str_contains ''utls'' ''tls''" by code_simp
  then have "str_contains (to_lower reason) ''utls'' \<Longrightarrow> str_contains (to_lower reason) ''tls''"
    by (rule str_contains_trans [rotated])
  then show ?thesis by (auto simp: deriveCategory_def Let_def)
qed

end
