(* ===== verification/SortBy.thy ===== *)
theory SortBy
  imports Prelude "HOL-Library.Product_Lexorder"
begin

text \<open>
  Go's \<open>sort.Slice\<close> with a comparison function. \<open>sort_by\<close> is insertion sort, one of the results that
  the (unstable) library sort may give; the locale \<open>comparator\<close> is the interface a comparison function
  has to meet, being the order of a key, and its lemmas show that the result is sorted, a permutation
  of the input and, up to elements with the same key, the only one: neither the algorithm nor the
  order of the input (the iteration order of a map) can be observed.
\<close>

fun insert_by :: "('a \<Rightarrow> 'a \<Rightarrow> bool) \<Rightarrow> 'a \<Rightarrow> 'a list \<Rightarrow> 'a list" where
  "insert_by lt x [] = [x]"
| "insert_by lt x (y # ys) = (if lt y x then y # insert_by lt x ys else x # y # ys)"

definition sort_by :: "('a \<Rightarrow> 'a \<Rightarrow> bool) \<Rightarrow> 'a list \<Rightarrow> 'a list" where
  "sort_by lt xs = foldr (insert_by lt) xs []"

lemma mset_insert_by [simp]: "mset (insert_by lt x ys) = add_mset x (mset ys)"
  by (induction ys) auto

lemma mset_sort_by [simp]: "mset (sort_by lt xs) = mset xs"
  by (induction xs) (auto simp: sort_by_def)

lemma set_sort_by [simp]: "set (sort_by lt xs) = set xs"
  using mset_sort_by by (rule mset_eq_setD)

lemma length_sort_by [simp]: "length (sort_by lt xs) = length xs"
  using mset_sort_by by (rule mset_eq_length)

lemma distinct_sort_by [simp]: "distinct (sort_by lt xs) = distinct xs"
  using mset_sort_by by (rule mset_eq_imp_distinct_iff)

locale comparator =
  fixes lt :: "'a \<Rightarrow> 'a \<Rightarrow> bool" and key :: "'a \<Rightarrow> 'k :: linorder"
  assumes lt_iff: "lt x y \<longleftrightarrow> key x < key y"
begin

lemma sorted_insert_by: "sorted (map key ys) \<Longrightarrow> sorted (map key (insert_by lt x ys))"
proof (induction ys)
  case (Cons y ys)
  have "set (insert_by lt x ys) = insert x (set ys)"
    using mset_insert_by [of lt x ys] by (metis set_mset_add_mset_insert set_mset_mset)
  moreover have "key y \<le> key x" if "lt y x" using that by (simp add: lt_iff)
  moreover have "key x \<le> key y" if "\<not> lt y x" using that by (simp add: lt_iff not_less)
  ultimately show ?case using Cons by (auto intro: order.trans)
qed simp

lemma sorted_sort_by: "sorted (map key (sort_by lt xs))"
  by (induction xs) (auto simp: sort_by_def sorted_insert_by)

lemma sort_by_keys: "map key (sort_by lt xs) = sort (map key xs)"
proof (rule sym, rule properties_for_sort)
  show "mset (map key (sort_by lt xs)) = mset (map key xs)"
    by (simp only: mset_map mset_sort_by)
qed (rule sorted_sort_by)

text \<open>Whatever sorts correctly gives the same keys; the order of the input does not matter.\<close>

lemma sorted_unique:
  "mset ys = mset xs \<Longrightarrow> sorted (map key ys) \<Longrightarrow> map key ys = map key (sort_by lt xs)"
  unfolding sort_by_keys by (rule sym, rule properties_for_sort) (simp_all only: mset_map)

lemma sort_by_permutation: "mset ys = mset xs \<Longrightarrow> map key (sort_by lt ys) = map key (sort_by lt xs)"
  by (rule sorted_unique) (simp_all add: sorted_sort_by)

lemma sort_by_ordered:
  "i < j \<Longrightarrow> j < length xs \<Longrightarrow> \<not> lt (sort_by lt xs ! j) (sort_by lt xs ! i)"
  using sorted_sort_by [of xs] by (simp add: lt_iff not_less sorted_iff_nth_mono_less)

end

text \<open>A list sorted by a flag splits at the first element that has it.\<close>

lemma sorted_flag_split:
  "sorted (map f xs) \<Longrightarrow> xs = filter (\<lambda>x. \<not> f x) xs @ filter f xs" for f :: "'a \<Rightarrow> bool"
proof (induction xs)
  case (Cons x xs)
  show ?case
  proof (cases "f x")
    case True
    with Cons.prems have "\<forall>y \<in> set xs. f y" by auto
    then show ?thesis using True by (simp add: filter_id_conv)
  next
    case False
    with Cons show ?thesis by simp
  qed
qed simp

end
