(* ===== verification/StoreViews.thy ===== *)
theory StoreViews
  imports StoreCycle SortBy
begin

text \<open>
  The views of the candidate store, \<open>internal/store/store.go\<close>: the links that pass for a service, sorted
  or ranked, the network-healthy links, the counters, the index the user interface shows, and the
  single-record accessors. They range over the map of records in an unspecified order; the lemmas show
  that what they return does not depend on it.
\<close>

definition max_int64 :: int where
  "max_int64 = 9223372036854775807"

definition stored :: "store \<Rightarrow> candidate_record list" where
  "stored s = map snd (st_records s)"

section \<open>Passing links\<close>

definition PassingFor :: "string \<Rightarrow> store \<Rightarrow> string list" where
  "PassingFor service s =
     sort (map rec_ActiveLink (filter (\<lambda>r. isServableRecordLockedFor s (Some r) service) (stored s)))"

definition Passing :: "store \<Rightarrow> string list" where
  "Passing s = PassingFor ''gemini'' s"

record ranked_record =
  rk_activeLink :: string
  rk_score :: rat
  rk_latency :: duration
  rk_hasPassed :: bool

definition passing_entry :: "string \<Rightarrow> store \<Rightarrow> candidate_record \<Rightarrow> ranked_record" where
  "passing_entry service s r =
     (let (score, lat, hasPassed) =
            (if service = ''claude'' then
               let (score, lat) =
                     (case map_of (rec_Services r) ''claude'' of
                        Some c \<Rightarrow> (if tr_Score c > 0 then tr_Score c else rec_Score r,
                                   if tr_Latency c > 0 then tr_Latency c else rec_LastPassedLatency r)
                      | None \<Rightarrow>
                          (if bh_Count (rec_History r) > 0
                           then ComputeScoreFor (cfg_DecayLambda (st_cfg s)) (weights_of (st_cfg s))
                                  ''claude'' (rec_History r)
                           else rec_Score r,
                           rec_LastPassedLatency r));
                   (l, ok) = LastPassedLatencyFor ''claude'' (rec_History r)
               in (score, if ok then l else lat, PreviouslyPassedFor ''claude'' (rec_History r))
             else (rec_Score r, rec_LastPassedLatency r, rec_HasPassed r))
      in \<lparr> rk_activeLink = rec_ActiveLink r, rk_score = score,
           rk_latency = (if \<not> hasPassed then max_int64 else lat), rk_hasPassed = hasPassed \<rparr>)"

definition passing_less :: "ranked_record \<Rightarrow> ranked_record \<Rightarrow> bool" where
  "passing_less a b =
     (if rk_hasPassed a \<noteq> rk_hasPassed b then rk_hasPassed a
      else if rk_score a \<noteq> rk_score b then rk_score a > rk_score b
      else if rk_latency a \<noteq> rk_latency b then rk_latency a < rk_latency b
      else rk_activeLink a < rk_activeLink b)"

definition passing_entries :: "string \<Rightarrow> store \<Rightarrow> ranked_record list" where
  "passing_entries service s =
     sort_by passing_less
       (map (passing_entry service s)
         (filter (\<lambda>r. isServableRecordLockedFor s (Some r) service) (stored s)))"

definition PassingForRanked :: "string \<Rightarrow> store \<Rightarrow> string list" where
  "PassingForRanked service s = map rk_activeLink (passing_entries service s)"

definition PassingRanked :: "store \<Rightarrow> string list" where
  "PassingRanked s = PassingForRanked ''gemini'' s"

section \<open>Network-healthy links\<close>

definition NetworkPassing :: "store \<Rightarrow> string list" where
  "NetworkPassing s =
     sort (map rec_ActiveLink (filter (\<lambda>r. isNetworkHealthyRecordLocked s (Some r)) (stored s)))"

record healthy_record =
  hr_activeLink :: string
  hr_score :: rat
  hr_latency :: duration
  hr_servable :: bool

definition healthy_entry :: "store \<Rightarrow> candidate_record \<Rightarrow> healthy_record" where
  "healthy_entry s r =
     (let isServable = snd (networkHealthyStateLocked s (Some r));
          latest = rec_Latest r;
          lat =
            (if isServable then
               if rec_HasPassed r \<and> rec_LastPassedLatency r > 0 then rec_LastPassedLatency r
               else if res_Latency latest > 0 then res_Latency latest
               else max_int64
             else
               let (l, ok) = LastNetworkHealthyLatency (rec_History r)
               in if ok \<and> l > 0 then l
                  else if res_TransportLatency latest > 0 then res_TransportLatency latest
                  else if res_Latency latest > 0 then res_Latency latest
                  else max_int64)
      in \<lparr> hr_activeLink = rec_ActiveLink r, hr_score = rec_Score r, hr_latency = lat,
           hr_servable = isServable \<rparr>)"

definition healthy_less :: "healthy_record \<Rightarrow> healthy_record \<Rightarrow> bool" where
  "healthy_less a b =
     (if hr_servable a \<noteq> hr_servable b then hr_servable a
      else if hr_servable a then
        if hr_score a \<noteq> hr_score b then hr_score a > hr_score b
        else if hr_latency a \<noteq> hr_latency b then hr_latency a < hr_latency b
        else hr_activeLink a < hr_activeLink b
      else if hr_latency a \<noteq> hr_latency b then hr_latency a < hr_latency b
      else hr_activeLink a < hr_activeLink b)"

definition healthy_entries :: "store \<Rightarrow> healthy_record list" where
  "healthy_entries s =
     sort_by healthy_less
       (map (healthy_entry s) (filter (\<lambda>r. fst (networkHealthyStateLocked s (Some r))) (stored s)))"

definition NetworkPassingRanked :: "store \<Rightarrow> string list" where
  "NetworkPassingRanked s = map hr_activeLink (healthy_entries s)"

section \<open>Counters and accessors\<close>

record stats =
  stats_Total :: int
  stats_Passed :: int
  stats_Failed :: int
  stats_Inconclusive :: int
  stats_Servable :: int
  stats_GenericServable :: int
  stats_LastCycle :: time
  stats_CycleCount :: int

definition count_record :: "store \<Rightarrow> candidate_record \<Rightarrow> stats \<Rightarrow> stats" where
  "count_record s r st =
     (let st1 = (case res_Status (rec_Latest r) of
                   StatusPassed \<Rightarrow> st \<lparr> stats_Passed := stats_Passed st + 1 \<rparr>
                 | StatusFailed \<Rightarrow> st \<lparr> stats_Failed := stats_Failed st + 1 \<rparr>
                 | StatusInconclusive \<Rightarrow> st \<lparr> stats_Inconclusive := stats_Inconclusive st + 1 \<rparr>
                 | StatusRaw _ \<Rightarrow> st);
          st2 = (if isServableRecordLocked s (Some r)
                 then st1 \<lparr> stats_Servable := stats_Servable st1 + 1 \<rparr> else st1)
      in if isNetworkHealthyRecordLocked s (Some r)
         then st2 \<lparr> stats_GenericServable := stats_GenericServable st2 + 1 \<rparr> else st2)"

definition Stats :: "store \<Rightarrow> stats" where
  "Stats s =
     fold (count_record s) (stored s)
       \<lparr> stats_Total = int (length (st_records s)), stats_Passed = 0, stats_Failed = 0,
         stats_Inconclusive = 0, stats_Servable = 0, stats_GenericServable = 0,
         stats_LastCycle = st_lastCycle s, stats_CycleCount = st_cycleCount s \<rparr>"

definition All :: "store \<Rightarrow> result list" where
  "All s = sort_by (\<lambda>a b. res_Link a < res_Link b) (map rec_Latest (stored s))"

definition Get :: "(string \<Rightarrow> string) \<Rightarrow> string \<Rightarrow> store \<Rightarrow> result \<times> bool" where
  "Get canon link s =
     (case map_of (st_records s) (canon link) of
        None \<Rightarrow> (zero_result, False) | Some r \<Rightarrow> (rec_Latest r, True))"

definition Clone_record :: "candidate_record \<Rightarrow> candidate_record" where
  "Clone_record r = r \<lparr> rec_History := Clone_history (rec_History r) \<rparr>"

definition GetRecord :: "(string \<Rightarrow> string) \<Rightarrow> string \<Rightarrow> store \<Rightarrow> candidate_record option" where
  "GetRecord canon link s = map_option Clone_record (map_of (st_records s) (canon link))"

definition HasCanonicalRecord :: "string \<Rightarrow> store \<Rightarrow> bool" where
  "HasCanonicalRecord canonicalLink s = (map_of (st_records s) canonicalLink \<noteq> None)"

record candidate_snapshot =
  cs_Record :: candidate_record
  cs_Servable :: bool
  cs_Gate :: string
  cs_NetworkHealthy :: bool
  cs_TransportOK :: bool
  cs_TransportLatency :: duration
  cs_TransportEvidenceKnown :: bool

definition Snapshots :: "store \<Rightarrow> candidate_snapshot list" where
  "Snapshots s =
     map (\<lambda>r. let (servable, gate) = servabilityGateLockedFor s (Some r) ''gemini''
              in \<lparr> cs_Record = Clone_record r, cs_Servable = servable, cs_Gate = gate,
                   cs_NetworkHealthy = isNetworkHealthyRecordLocked s (Some r),
                   cs_TransportOK = res_TransportOK (rec_Latest r),
                   cs_TransportLatency = res_TransportLatency (rec_Latest r),
                   cs_TransportEvidenceKnown = res_TransportEvidenceKnown (rec_Latest r) \<rparr>)
       (stored s)"

section \<open>The index of candidates\<close>

record index_entry =
  ie_CanonicalLink :: string
  ie_ActiveLink :: string
  ie_Servable :: bool
  ie_NetworkHealthy :: bool
  ie_HasPassed :: bool
  ie_Score :: rat
  ie_LastPassedLatency :: duration
  ie_TransportLatency :: duration
  ie_TransportEvidenceKnown :: bool
  ie_TransportOK :: bool
  ie_LatestStatus :: status
  ie_LatestCategory :: error_category
  ie_HistoryCount :: int
  ie_LastCycleID :: uint64
  ie_Tier :: "8 word"
  ie_EffectiveLatency :: duration
  ie_HistoryStatuses :: "char list"
  ie_HistoryCapacity :: int
  ie_Jitter :: duration

text \<open>The bytes of a fixed array of 16, 0 where nothing is written.\<close>

definition status_byte :: "status \<Rightarrow> char" where
  "status_byte st =
     (case st of StatusPassed \<Rightarrow> CHR ''P'' | StatusFailed \<Rightarrow> CHR ''F'' | StatusInconclusive \<Rightarrow> CHR ''I''
      | StatusRaw _ \<Rightarrow> CHR 0x00)"

definition history_statuses :: "bounded_history \<Rightarrow> char list" where
  "history_statuses h =
     map (\<lambda>i. if int i < bh_Count h then status_byte (ps_Status (sample_at h (int i))) else CHR 0x00) [0..<16]"

definition index_entry_of :: "store \<Rightarrow> candidate_record \<Rightarrow> index_entry" where
  "index_entry_of s r =
     (let (netHealthy, servable) = networkHealthyStateLocked s (Some r);
          (lastSample, ok) = Last (rec_History r);
          latest = rec_Latest r
      in \<lparr> ie_CanonicalLink = rec_CanonicalLink r,
           ie_ActiveLink = (if rec_ActiveLink r = [] then rec_CanonicalLink r else rec_ActiveLink r),
           ie_Servable = servable, ie_NetworkHealthy = netHealthy, ie_HasPassed = rec_HasPassed r,
           ie_Score = rec_Score r, ie_LastPassedLatency = rec_LastPassedLatency r,
           ie_TransportLatency = res_TransportLatency latest,
           ie_TransportEvidenceKnown = res_TransportEvidenceKnown latest,
           ie_TransportOK = res_TransportOK latest,
           ie_LatestStatus = (if ok then ps_Status lastSample
                              else if res_Status latest \<noteq> NoStatus then res_Status latest else NoStatus),
           ie_LatestCategory = res_Category latest, ie_HistoryCount = bh_Count (rec_History r),
           ie_LastCycleID = (if ok then ps_CycleID lastSample else 0),
           ie_Tier = (if servable then 1 else if netHealthy then 2 else 3),
           ie_EffectiveLatency =
             (if rec_LastPassedLatency r = 0 \<and> res_TransportLatency latest > 0
              then res_TransportLatency latest else rec_LastPassedLatency r),
           ie_HistoryStatuses = history_statuses (rec_History r),
           ie_HistoryCapacity = bh_Capacity (rec_History r), ie_Jitter = res_Jitter latest \<rparr>)"

definition CandidateIndex :: "store \<Rightarrow> index_entry list" where
  "CandidateIndex s = map (index_entry_of s) (stored s)"

section \<open>The rankings are the orders of keys\<close>

definition passing_key :: "ranked_record \<Rightarrow> bool \<times> rat \<times> int \<times> string" where
  "passing_key r = (\<not> rk_hasPassed r, - rk_score r, rk_latency r, rk_activeLink r)"

definition healthy_key :: "healthy_record \<Rightarrow> bool \<times> rat \<times> int \<times> string" where
  "healthy_key r =
     (\<not> hr_servable r, if hr_servable r then - hr_score r else 0, hr_latency r, hr_activeLink r)"

interpretation passing: comparator passing_less passing_key
  by unfold_locales (auto simp: passing_less_def passing_key_def)

interpretation healthy: comparator healthy_less healthy_key
  by unfold_locales (auto simp: healthy_less_def healthy_key_def)

interpretation by_link: comparator "\<lambda>a b. res_Link a < res_Link b" res_Link
  by unfold_locales simp

lemma passing_key_link: "rk_activeLink = (\<lambda>(_, _, _, l). l) \<circ> passing_key"
  by (simp add: fun_eq_iff passing_key_def)

lemma healthy_key_link: "hr_activeLink = (\<lambda>(_, _, _, l). l) \<circ> healthy_key"
  by (simp add: fun_eq_iff healthy_key_def)

lemma passing_entry_link [simp]: "rk_activeLink (passing_entry svc s r) = rec_ActiveLink r"
  by (simp add: passing_entry_def Let_def split: prod.split)

lemma healthy_entry_link [simp]: "hr_activeLink (healthy_entry s r) = rec_ActiveLink r"
  by (simp add: healthy_entry_def Let_def)

lemma healthy_entry_servable [simp]:
  "hr_servable (healthy_entry s r) = snd (networkHealthyStateLocked s (Some r))"
  by (simp add: healthy_entry_def Let_def)

lemma sort_mset_cong: "mset xs = mset ys \<Longrightarrow> sort xs = sort ys"
  by (rule properties_for_sort) simp_all

lemma mset_PassingForRanked: "mset (PassingForRanked svc s) = mset (PassingFor svc s)"
  unfolding PassingForRanked_def passing_entries_def PassingFor_def
  by (simp only: mset_map mset_sort_by mset_sort) (simp add: multiset.map_comp comp_def)

lemma servable_state: "snd (networkHealthyStateLocked s (Some r)) = isServableRecordLocked s (Some r)"
  "isServableRecordLocked s (Some r) \<Longrightarrow> fst (networkHealthyStateLocked s (Some r))"
  by (auto simp: networkHealthyStateLocked_def Let_def isServable_gemini_iff)

lemma sorted_healthy_flag: "sorted (map (\<lambda>e. \<not> hr_servable e) (healthy_entries s))"
proof -
  have "sorted (map healthy_key (healthy_entries s))"
    unfolding healthy_entries_def by (rule healthy.sorted_sort_by)
  then show ?thesis
    unfolding sorted_map by (rule sorted_wrt_mono_rel [rotated]) (auto simp: healthy_key_def)
qed

lemma mset_healthy_entries:
  "mset (healthy_entries s) =
     mset (map (healthy_entry s) (filter (\<lambda>r. fst (networkHealthyStateLocked s (Some r))) (stored s)))"
  by (simp only: healthy_entries_def mset_sort_by)

lemma mset_servable_entries:
  "mset (map hr_activeLink (filter hr_servable (healthy_entries s))) = mset (Passing s)"
proof -
  have "mset (filter hr_servable (healthy_entries s)) = filter_mset hr_servable (mset (healthy_entries s))"
    by simp
  also have "\<dots> = mset (map (healthy_entry s)
      (filter (\<lambda>r. isServableRecordLocked s (Some r)) (stored s)))"
    unfolding mset_healthy_entries
    by (simp only: mset_filter [symmetric] filter_map filter_filter comp_def healthy_entry_servable
        servable_state(1)) (metis (no_types, lifting) servable_state(2))
  finally show ?thesis
    by (simp add: Passing_def PassingFor_def isServableRecordLocked_def multiset.map_comp comp_def)
qed

lemma Stats_fold:
  "stats_Servable (fold (count_record s) rs st) =
     stats_Servable st + int (length (filter (\<lambda>r. isServableRecordLocked s (Some r)) rs))"
  "stats_GenericServable (fold (count_record s) rs st) =
     stats_GenericServable st + int (length (filter (\<lambda>r. isNetworkHealthyRecordLocked s (Some r)) rs))"
  "stats_Total (fold (count_record s) rs st) = stats_Total st"
  "stats_Passed (fold (count_record s) rs st) + stats_Failed (fold (count_record s) rs st)
     + stats_Inconclusive (fold (count_record s) rs st)
   = stats_Passed st + stats_Failed st + stats_Inconclusive st
     + int (length (filter (\<lambda>r. \<forall>x. res_Status (rec_Latest r) \<noteq> StatusRaw x) rs))"
  by (induction rs arbitrary: st) (auto simp: count_record_def Let_def split: status.split)

section \<open>Properties\<close>

text \<open>The ranked list of a service holds exactly the links that pass for it, and of any two of
  its entries the earlier one does not rank below the later one: proven before unproven, then by
  descending score, ascending latency and link.\<close>

theorem ranked_list_correct:
  "mset (PassingForRanked svc s) = mset (PassingFor svc s)
   \<and> (\<forall>i j. i < j \<longrightarrow> j < length (passing_entries svc s) \<longrightarrow>
        \<not> passing_less (passing_entries svc s ! j) (passing_entries svc s ! i)
        \<and> (rk_hasPassed (passing_entries svc s ! j) \<longrightarrow> rk_hasPassed (passing_entries svc s ! i)))
   \<and> (\<forall>l. l \<in> set (PassingForRanked svc s) \<longleftrightarrow>
        (\<exists>k r. (k, r) \<in> set (st_records s) \<and> rec_ActiveLink r = l \<and> isServableRecordLockedFor s (Some r) svc))"
proof (intro conjI allI impI)
  fix i j
  assume ij: "i < j" "j < length (passing_entries svc s)"
  show less: "\<not> passing_less (passing_entries svc s ! j) (passing_entries svc s ! i)"
    using ij unfolding passing_entries_def length_sort_by by (rule passing.sort_by_ordered)
  assume "rk_hasPassed (passing_entries svc s ! j)"
  with less show "rk_hasPassed (passing_entries svc s ! i)"
    by (auto simp: passing_less_def split: if_splits)
next
  fix l
  have "set (PassingForRanked svc s) = set (PassingFor svc s)"
    using mset_PassingForRanked by (rule mset_eq_setD)
  then show "l \<in> set (PassingForRanked svc s) \<longleftrightarrow>
      (\<exists>k r. (k, r) \<in> set (st_records s) \<and> rec_ActiveLink r = l \<and> isServableRecordLockedFor s (Some r) svc)"
    by (force simp: PassingFor_def stored_def)
qed (rule mset_PassingForRanked)

theorem ranked_list_correct_witness:
  "mset (PassingForRanked ''gemini'' demo_store) = {#''a''#}"
proof -
  have "PassingFor ''gemini'' demo_store = [''a'']" by code_simp
  then show ?thesis using ranked_list_correct [of "''gemini''" demo_store] by simp
qed

lemma views_permuted:
  assumes "mset rs = mset (st_records s)"
  defines "t \<equiv> s \<lparr> st_records := rs \<rparr>"
  shows "PassingFor svc t = PassingFor svc s \<and> PassingForRanked svc t = PassingForRanked svc s
    \<and> NetworkPassing t = NetworkPassing s \<and> NetworkPassingRanked t = NetworkPassingRanked s"
proof -
  have st: "mset (stored t) = mset (stored s)"
    using assms by (simp add: stored_def)
  have cfg: "st_cfg t = st_cfg s" by (simp add: t_def)
  have absent: "isAbsentLocked t = isAbsentLocked s"
    by (simp add: fun_eq_iff t_def isAbsentLocked_def)
  have score: "gate_score t = gate_score s"
    by (intro ext) (simp only: gate_score_def cfg)
  have gate: "servabilityGateLockedFor t = servabilityGateLockedFor s"
    unfolding servabilityGateLockedFor_def absent score cfg ..
  then have serv: "isServableRecordLockedFor t = isServableRecordLockedFor s"
    by (simp add: fun_eq_iff isServableRecordLockedFor_def)
  then have net: "networkHealthyStateLocked t = networkHealthyStateLocked s"
    by (intro ext) (simp only: networkHealthyStateLocked_def isServableRecordLocked_def absent cfg serv)
  have entry: "passing_entry svc t = passing_entry svc s"
    unfolding passing_entry_def cfg ..
  have hentry: "healthy_entry t = healthy_entry s"
    unfolding healthy_entry_def net ..
  have "PassingFor svc t = PassingFor svc s" "NetworkPassing t = NetworkPassing s"
    unfolding PassingFor_def NetworkPassing_def isNetworkHealthyRecordLocked_def serv net
    by (rule sort_mset_cong, simp add: st)+
  moreover have "map passing_key (passing_entries svc t) = map passing_key (passing_entries svc s)"
    unfolding passing_entries_def serv entry by (rule passing.sort_by_permutation) (simp add: st)
  moreover have "map healthy_key (healthy_entries t) = map healthy_key (healthy_entries s)"
    unfolding healthy_entries_def net hentry by (rule healthy.sort_by_permutation) (simp add: st)
  ultimately show ?thesis
    unfolding PassingForRanked_def NetworkPassingRanked_def passing_key_link healthy_key_link
    by (simp flip: map_map)
qed

text \<open>C7: What the views return does not depend on the iteration order of the map of records: two
  stores that differ only in that order give the same lists of links, sorted and ranked.\<close>

theorem views_independent_of_order:
  assumes "mset rs = mset (st_records s)"
  defines "t \<equiv> s \<lparr> st_records := rs \<rparr>"
  shows "PassingFor svc t = PassingFor svc s \<and> PassingForRanked svc t = PassingForRanked svc s
    \<and> NetworkPassing t = NetworkPassing s \<and> NetworkPassingRanked t = NetworkPassingRanked s"
  unfolding t_def by (rule views_permuted [OF assms(1)])

theorem views_independent_of_order_witness:
  "PassingForRanked ''claude'' (demo_store \<lparr> st_records := rev (st_records demo_store) \<rparr>)
     = PassingForRanked ''claude'' demo_store"
  using views_independent_of_order [of "rev (st_records demo_store)" demo_store "''claude''"] by simp

text \<open>The network-healthy list extends the Gemini list: ranked, it starts with exactly the links
  that pass for Gemini and goes on with the others; and it is a permutation of the sorted one.\<close>

theorem network_list_extends_passing:
  "(\<exists>first rest. NetworkPassingRanked s = first @ rest \<and> mset first = mset (Passing s))
   \<and> mset (NetworkPassingRanked s) = mset (NetworkPassing s)"
proof
  let ?es = "healthy_entries s"
  have "?es = filter hr_servable ?es @ filter (\<lambda>e. \<not> hr_servable e) ?es"
    using sorted_flag_split [OF sorted_healthy_flag] by simp
  then have "NetworkPassingRanked s = map hr_activeLink (filter hr_servable ?es)
      @ map hr_activeLink (filter (\<lambda>e. \<not> hr_servable e) ?es)"
    unfolding NetworkPassingRanked_def by (metis map_append)
  then show "\<exists>first rest. NetworkPassingRanked s = first @ rest \<and> mset first = mset (Passing s)"
    using mset_servable_entries by blast
  show "mset (NetworkPassingRanked s) = mset (NetworkPassing s)"
    unfolding NetworkPassingRanked_def NetworkPassing_def mset_map mset_healthy_entries
    by (simp add: multiset.map_comp comp_def isNetworkHealthyRecordLocked_def)
qed

text \<open>The counters agree with the views: they count the Gemini list, the network-healthy list and
  the records, each at most the next, and no record is counted under two outcomes.\<close>

theorem stats_agree_with_views:
  "stats_Servable (Stats s) = int (length (Passing s))
   \<and> stats_GenericServable (Stats s) = int (length (NetworkPassing s))
   \<and> stats_Servable (Stats s) \<le> stats_GenericServable (Stats s)
   \<and> stats_GenericServable (Stats s) \<le> stats_Total (Stats s)
   \<and> stats_Passed (Stats s) + stats_Failed (Stats s) + stats_Inconclusive (Stats s) \<le> stats_Total (Stats s)"
proof -
  have len: "length (stored s) = length (st_records s)" by (simp add: stored_def)
  have "length (filter (\<lambda>r. isServableRecordLocked s (Some r)) rs)
      \<le> length (filter (\<lambda>r. isNetworkHealthyRecordLocked s (Some r)) rs)" for rs
    by (induction rs) (auto simp: isNetworkHealthyRecordLocked_def servable_state)
  then show ?thesis
    using length_filter_le [of _ "stored s"]
    by (simp add: Stats_def Stats_fold Passing_def PassingFor_def NetworkPassing_def len
        isServableRecordLocked_def flip: len)
qed

end
