(* ===== verification/JsonText.thy ===== *)
theory JsonText
  imports Prelude
begin

text \<open>
  The JSON text layer of the state file, \<open>internal/store/store.go\<close>: \<open>appendJSONString\<close> and the decimal
  printers of \<open>writeSnapshotJSON\<close>, and the scanner \<open>fastJSONParser\<close>. The parser's state, the data and
  a position in it, is the suffix of the data from that position.

  A parser function gives the value and the remaining suffix, rejects the input (\<open>ok == false\<close>), or
  panics; only the allocation of the list of samples can panic. The loops over the members of an
  object and the elements of an array take the length of the remaining input as fuel; each round
  consumes at least one byte, so it does not run out (\<open>members_fuel\<close>).
\<close>

datatype 'a parsed = Parsed 'a string | Rejected | Panicked

section \<open>Printing\<close>

abbreviation quote_char :: char where "quote_char \<equiv> CHR 0x22"
abbreviation backslash :: char where "backslash \<equiv> CHR 0x5C"

definition char_code :: "char \<Rightarrow> nat" where
  "char_code c = of_char c"

definition hex_chars :: string where
  "hex_chars = ''0123456789abcdef''"

definition escape_char :: "char \<Rightarrow> string" where
  "escape_char c =
     (if c = quote_char then [backslash, quote_char]
      else if c = backslash then [backslash, backslash]
      else if char_code c < 32 then
        if c = CHR 0x08 then [backslash, CHR ''b'']
        else if c = CHR 0x0C then [backslash, CHR ''f'']
        else if c = CHR 0x0A then [backslash, CHR ''n'']
        else if c = CHR 0x0D then [backslash, CHR ''r'']
        else if c = CHR 0x09 then [backslash, CHR ''t'']
        else [backslash] @ ''u00'' @ [hex_chars ! (char_code c div 16), hex_chars ! (char_code c mod 16)]
      else [c])"

definition json_string :: "string \<Rightarrow> string" where
  "json_string s = [quote_char] @ concat (map escape_char s) @ [quote_char]"

fun print_nat :: "nat \<Rightarrow> string" where
  "print_nat n = (if n < 10 then [char_of (48 + n)] else print_nat (n div 10) @ [char_of (48 + n mod 10)])"

declare print_nat.simps [simp del]

definition print_int :: "int \<Rightarrow> string" where
  "print_int i = (if i < 0 then CHR ''-'' # print_nat (nat (- i)) else print_nat (nat i))"

section \<open>Scanning\<close>

definition is_json_space :: "char \<Rightarrow> bool" where
  "is_json_space b = (b = CHR '' '' \<or> b = CHR 0x09 \<or> b = CHR 0x0D \<or> b = CHR 0x0A)"

definition skipWhitespace :: "string \<Rightarrow> string" where
  "skipWhitespace s = dropWhile is_json_space s"

definition consume :: "char \<Rightarrow> string \<Rightarrow> string option" where
  "consume expected s =
     (case skipWhitespace s of [] \<Rightarrow> None | b # t \<Rightarrow> if b = expected then Some t else None)"

definition isHexDigit :: "char \<Rightarrow> bool" where
  "isHexDigit c = (let n = char_code c in 48 \<le> n \<and> n \<le> 57 \<or> 97 \<le> n \<and> n \<le> 102 \<or> 65 \<le> n \<and> n \<le> 70)"

definition hex_val :: "char \<Rightarrow> nat" where
  "hex_val c = (let n = char_code c in if n \<le> 57 then n - 48 else if n \<le> 70 then n - 55 else n - 87)"

definition parseHex4 :: "string \<Rightarrow> nat option" where
  "parseHex4 b =
     (if length b < 4 \<or> \<not> list_all isHexDigit (take 4 b) then None
      else Some (foldl (\<lambda>v c. 16 * v + hex_val c) 0 (take 4 b)))"

text \<open>\<open>utf8.AppendRune\<close>: a surrogate is written as the replacement character.\<close>

definition utf8_encode :: "nat \<Rightarrow> string" where
  "utf8_encode r =
     (let r = (if 0xD800 \<le> r \<and> r \<le> 0xDFFF \<or> r > 0x10FFFF then 0xFFFD else r)
      in if r < 0x80 then [char_of r]
         else if r < 0x800 then [char_of (0xC0 + r div 64), char_of (0x80 + r mod 64)]
         else if r < 0x10000 then
           [char_of (0xE0 + r div 4096), char_of (0x80 + r div 64 mod 64), char_of (0x80 + r mod 64)]
         else
           [char_of (0xF0 + r div 262144), char_of (0x80 + r div 4096 mod 64),
            char_of (0x80 + r div 64 mod 64), char_of (0x80 + r mod 64)])"

definition is_surrogate :: "nat \<Rightarrow> bool" where
  "is_surrogate r = (0xD800 \<le> r \<and> r \<le> 0xDFFF)"

text \<open>\<open>utf16.DecodeRune\<close>; an invalid pair gives the replacement character.\<close>

definition decode_pair :: "nat \<Rightarrow> nat \<Rightarrow> nat" where
  "decode_pair r1 r2 =
     (if 0xD800 \<le> r1 \<and> r1 < 0xDC00 \<and> 0xDC00 \<le> r2 \<and> r2 < 0xE000
      then (r1 - 0xD800) * 1024 + (r2 - 0xDC00) + 0x10000 else 0xFFFD)"

definition simple_escape :: "char \<Rightarrow> char option" where
  "simple_escape e =
     map_of [(quote_char, quote_char), (backslash, backslash), (CHR ''/'', CHR ''/''),
             (CHR ''b'', CHR 0x08), (CHR ''f'', CHR 0x0C), (CHR ''n'', CHR 0x0A),
             (CHR ''r'', CHR 0x0D), (CHR ''t'', CHR 0x09)] e"

fun unescapeJSON :: "string \<Rightarrow> string option" where
  "unescapeJSON [] = Some []"
| "unescapeJSON (b # s) =
     (if b = backslash then
        (case s of [] \<Rightarrow> None
         | e # s1 \<Rightarrow>
             (case simple_escape e of
                Some c \<Rightarrow> map_option (Cons c) (unescapeJSON s1)
              | None \<Rightarrow>
                  if e = CHR ''u'' then
                    (case parseHex4 s1 of
                       None \<Rightarrow> None
                     | Some r1 \<Rightarrow>
                         let s2 = drop 4 s1
                         in if is_surrogate r1 then
                              (case (if take 2 s2 = [backslash, CHR ''u''] then parseHex4 (drop 2 s2) else None) of
                                 Some r2 \<Rightarrow>
                                   if decode_pair r1 r2 \<noteq> 0xFFFD
                                   then map_option (append (utf8_encode (decode_pair r1 r2)))
                                          (unescapeJSON (drop 6 s2))
                                   else map_option (append (utf8_encode 0xFFFD)) (unescapeJSON s2)
                               | None \<Rightarrow> map_option (append (utf8_encode 0xFFFD)) (unescapeJSON s2))
                            else map_option (append (utf8_encode r1)) (unescapeJSON s2))
                  else None))
      else map_option (Cons b) (unescapeJSON s))"

text \<open>The raw text up to the closing quote, whether it has escapes, and the rest.\<close>

fun scan_string :: "string \<Rightarrow> (string \<times> bool \<times> string) option" where
  "scan_string [] = None"
| "scan_string (b # s) =
     (if b = quote_char then Some ([], False, s)
      else if char_code b < 32 then None
      else if b = backslash then
        (case s of [] \<Rightarrow> None
         | e # s1 \<Rightarrow>
             if simple_escape e \<noteq> None then
               map_option (\<lambda>(raw, _, rest). (b # e # raw, True, rest)) (scan_string s1)
             else if e = CHR ''u'' \<and> parseHex4 s1 \<noteq> None then
               map_option (\<lambda>(raw, _, rest). (b # e # take 4 s1 @ raw, True, rest)) (scan_string (drop 4 s1))
             else None)
      else map_option (\<lambda>(raw, esc, rest). (b # raw, esc, rest)) (scan_string s))"

definition parseStringBytes :: "string \<Rightarrow> (string \<times> string) option" where
  "parseStringBytes s =
     (case consume quote_char s of
        None \<Rightarrow> None
      | Some s1 \<Rightarrow>
          (case scan_string s1 of
             None \<Rightarrow> None
           | Some (raw, hasEscapes, rest) \<Rightarrow>
               if \<not> hasEscapes then Some (raw, rest)
               else map_option (\<lambda>v. (v, rest)) (unescapeJSON raw)))"

definition isIdentChar :: "char \<Rightarrow> bool" where
  "isIdentChar b =
     (let n = char_code b
      in 97 \<le> n \<and> n \<le> 122 \<or> 65 \<le> n \<and> n \<le> 90 \<or> 48 \<le> n \<and> n \<le> 57 \<or> b = CHR ''_'')"

definition ends_value :: "string \<Rightarrow> bool" where
  "ends_value s =
     (case s of [] \<Rightarrow> True
      | b # _ \<Rightarrow> b = CHR '','' \<or> b = CHR ''}'' \<or> b = CHR '']'' \<or> is_json_space b)"

text \<open>The integer part of a number: 0, or digits without a leading zero.\<close>

definition scan_digits :: "string \<Rightarrow> (string \<times> string) option" where
  "scan_digits s =
     (case s of [] \<Rightarrow> None
      | d # t \<Rightarrow>
          if d = CHR ''0'' then
            (case t of e # _ \<Rightarrow> if is_digit e then None else Some ([d], t) | [] \<Rightarrow> Some ([d], t))
          else if is_digit d then Some (takeWhile is_digit s, dropWhile is_digit s)
          else None)"

definition decimal :: "string \<Rightarrow> nat" where
  "decimal ds = foldl (\<lambda>v c. 10 * v + digit_val c) 0 ds"

definition parseInt :: "string \<Rightarrow> (int \<times> string) option" where
  "parseInt s0 =
     (let s = skipWhitespace s0;
          neg = (s \<noteq> [] \<and> hd s = CHR ''-'');
          body = (if neg then tl s else s)
      in case scan_digits body of
           None \<Rightarrow> None
         | Some (ds, rest) \<Rightarrow>
             if \<not> ends_value rest then None
             else let v = (if neg then - int (decimal ds) else int (decimal ds))
                  in if - (2 ^ 63) \<le> v \<and> v < 2 ^ 63 then Some (v, rest) else None)"

definition parseUint :: "string \<Rightarrow> (64 word \<times> string) option" where
  "parseUint s0 =
     (case scan_digits (skipWhitespace s0) of
        None \<Rightarrow> None
      | Some (ds, rest) \<Rightarrow>
          if \<not> ends_value rest then None
          else if decimal ds < 2 ^ 64 then Some (of_nat (decimal ds), rest) else None)"

definition parse_literal :: "string \<Rightarrow> string \<Rightarrow> string option" where
  "parse_literal lit s =
     (if has_prefix s lit
      then (case drop (length lit) s of
              b # _ \<Rightarrow> if isIdentChar b then None else Some (drop (length lit) s)
            | [] \<Rightarrow> Some [])
      else None)"

definition parseBool :: "string \<Rightarrow> (bool \<times> string) option" where
  "parseBool s0 =
     (let s = skipWhitespace s0
      in if has_prefix s ''true'' then map_option (Pair True) (parse_literal ''true'' s)
         else if has_prefix s ''false'' then map_option (Pair False) (parse_literal ''false'' s)
         else None)"

definition parseNumber :: "string \<Rightarrow> string option" where
  "parseNumber s0 =
     (let s = skipWhitespace s0;
          body = (if s \<noteq> [] \<and> hd s = CHR ''-'' then tl s else s);
          digits1 = (\<lambda>t. if t \<noteq> [] \<and> is_digit (hd t) then Some (dropWhile is_digit t) else None)
      in case scan_digits body of
           None \<Rightarrow> None
         | Some (_, t1) \<Rightarrow>
             (case (if t1 \<noteq> [] \<and> hd t1 = CHR ''.'' then digits1 (tl t1) else Some t1) of
                None \<Rightarrow> None
              | Some t2 \<Rightarrow>
                  (case (if t2 \<noteq> [] \<and> (hd t2 = CHR ''e'' \<or> hd t2 = CHR ''E'')
                         then let t3 = tl t2
                              in digits1 (if t3 \<noteq> [] \<and> (hd t3 = CHR ''+'' \<or> hd t3 = CHR ''-'') then tl t3 else t3)
                         else Some t2) of
                     None \<Rightarrow> None
                   | Some t4 \<Rightarrow> if ends_value t4 then Some t4 else None)))"

section \<open>Objects and arrays\<close>

text \<open>
  The loop over the members of an object, after the opening brace and when the object is not empty;
  \<open>h\<close> handles one member, given its key and the value built so far.
\<close>

fun members :: "nat \<Rightarrow> (string \<Rightarrow> 'a \<Rightarrow> string \<Rightarrow> 'a parsed) \<Rightarrow> 'a \<Rightarrow> string \<Rightarrow> 'a parsed" where
  "members 0 h a s = Rejected"
| "members (Suc n) h a s =
     (case parseStringBytes s of
        None \<Rightarrow> Rejected
      | Some (key, s1) \<Rightarrow>
          (case consume (CHR '':'') s1 of
             None \<Rightarrow> Rejected
           | Some s2 \<Rightarrow>
               (case h key a s2 of
                  Parsed a' s3 \<Rightarrow>
                    (case consume (CHR ''}'') s3 of
                       Some s4 \<Rightarrow> Parsed a' s4
                     | None \<Rightarrow>
                         (case consume (CHR '','') s3 of
                            None \<Rightarrow> Rejected
                          | Some s5 \<Rightarrow>
                              let s6 = skipWhitespace s5
                              in if s6 \<noteq> [] \<and> hd s6 = CHR ''}'' then Rejected
                                 else members n h a' s6))
                | Rejected \<Rightarrow> Rejected
                | Panicked \<Rightarrow> Panicked)))"

definition parse_object :: "(string \<Rightarrow> 'a \<Rightarrow> string \<Rightarrow> 'a parsed) \<Rightarrow> 'a \<Rightarrow> string \<Rightarrow> 'a parsed" where
  "parse_object h a s =
     (case consume (CHR ''{'') s of
        None \<Rightarrow> Rejected
      | Some s1 \<Rightarrow>
          (case consume (CHR ''}'') s1 of
             Some s2 \<Rightarrow> Parsed a s2
           | None \<Rightarrow> members (length s1) h a s1))"

fun elements :: "nat \<Rightarrow> (string \<Rightarrow> 'a parsed) \<Rightarrow> 'a list \<Rightarrow> string \<Rightarrow> 'a list parsed" where
  "elements 0 p acc s = Rejected"
| "elements (Suc n) p acc s =
     (case p s of
        Parsed x s3 \<Rightarrow>
          (case consume (CHR '']'') s3 of
             Some s4 \<Rightarrow> Parsed (acc @ [x]) s4
           | None \<Rightarrow>
               (case consume (CHR '','') s3 of
                  None \<Rightarrow> Rejected
                | Some s5 \<Rightarrow>
                    let s6 = skipWhitespace s5
                    in if s6 \<noteq> [] \<and> hd s6 = CHR '']'' then Rejected
                       else elements n p (acc @ [x]) s6))
      | Rejected \<Rightarrow> Rejected
      | Panicked \<Rightarrow> Panicked)"

definition parse_array :: "(string \<Rightarrow> 'a parsed) \<Rightarrow> string \<Rightarrow> 'a list parsed" where
  "parse_array p s =
     (case consume (CHR ''['') s of
        None \<Rightarrow> Rejected
      | Some s1 \<Rightarrow>
          (case consume (CHR '']'') s1 of
             Some s2 \<Rightarrow> Parsed [] s2
           | None \<Rightarrow> elements (length s1) p [] s1))"

definition as_parsed :: "('a \<times> string) option \<Rightarrow> 'a parsed" where
  "as_parsed r = (case r of None \<Rightarrow> Rejected | Some (v, rest) \<Rightarrow> Parsed v rest)"

text \<open>\<open>skipValue\<close>, with the nesting depth bounded by the fuel.\<close>

fun skip_value :: "nat \<Rightarrow> string \<Rightarrow> unit parsed" where
  "skip_value 0 s = Rejected"
| "skip_value (Suc n) s0 =
     (case skipWhitespace s0 of
        [] \<Rightarrow> Rejected
      | b # t \<Rightarrow>
          let s = b # t
          in if b = quote_char then as_parsed (map_option (\<lambda>(_, r). ((), r)) (parseStringBytes s))
             else if b = CHR ''{'' then parse_object (\<lambda>_ _. skip_value n) () s
             else if b = CHR ''['' then
               (case parse_array (skip_value n) s of
                  Parsed _ r \<Rightarrow> Parsed () r | Rejected \<Rightarrow> Rejected | Panicked \<Rightarrow> Panicked)
             else if b = CHR ''t'' \<or> b = CHR ''f'' then as_parsed (map_option (\<lambda>(_, r). ((), r)) (parseBool s))
             else if b = CHR ''n'' then as_parsed (map_option (Pair ()) (parse_literal ''null'' s))
             else if b = CHR ''-'' \<or> is_digit b then as_parsed (map_option (Pair ()) (parseNumber s))
             else Rejected)"

definition skipValue :: "string \<Rightarrow> unit parsed" where
  "skipValue s = skip_value (length s) s"

section \<open>Strings: the scanner reads what the printer writes\<close>

lemma skipWhitespace_Cons [simp]: "\<not> is_json_space b \<Longrightarrow> skipWhitespace (b # s) = b # s"
  by (simp add: skipWhitespace_def)

lemma skipWhitespace_Nil [simp]: "skipWhitespace [] = []"
  by (simp add: skipWhitespace_def)

lemma skipWhitespace_idem [simp]: "skipWhitespace (skipWhitespace s) = skipWhitespace s"
  by (simp add: skipWhitespace_def)

lemma length_skipWhitespace: "length (skipWhitespace s) \<le> length s"
  by (simp add: skipWhitespace_def length_dropWhile_le)

lemma consume_Cons: "\<not> is_json_space b \<Longrightarrow> consume c (b # s) = (if b = c then Some s else None)"
  by (simp add: consume_def)

lemma json_space_simps [simp]:
  "\<not> is_json_space quote_char" "\<not> is_json_space (CHR '':'')" "\<not> is_json_space (CHR '','')"
  "\<not> is_json_space (CHR ''}'')" "\<not> is_json_space (CHR ''{'')" "\<not> is_json_space (CHR '']'')"
  "\<not> is_json_space (CHR ''['')" "\<not> is_json_space (CHR ''-'')" "\<not> is_json_space (CHR ''t'')"
  "\<not> is_json_space (CHR ''f'')"
  by (simp_all add: is_json_space_def)

lemma char_code_less: "char_code c < 256"
  by (simp add: char_code_def)

lemma char_of_code [simp]: "char_of (char_code c) = c"
  by (simp add: char_code_def)

definition control_escape :: "nat \<Rightarrow> bool" where
  "control_escape n =
     (let e = escape_char (char_of n)
      in hd e = backslash
         \<and> (case simple_escape (hd (tl e)) of
              Some c \<Rightarrow> e = [backslash, hd (tl e)] \<and> c = char_of n
            | None \<Rightarrow> length e = 6 \<and> hd (tl e) = CHR ''u'' \<and> parseHex4 (drop 2 e) = Some n))"

lemma control_escapes: "list_all control_escape [0..<32]"
  by code_simp

text \<open>An escaped character, seen by the scanner and by the decoder.\<close>

lemma escape_cases:
  obtains (plain) "escape_char c = [c]" "c \<noteq> quote_char" "c \<noteq> backslash" "32 \<le> char_code c"
  | (short) e where "escape_char c = [backslash, e]" "simple_escape e = Some c"
  | (unicode) h where "escape_char c = backslash # CHR ''u'' # h" "length h = 4"
      "parseHex4 h = Some (char_code c)" "char_code c < 32" "simple_escape (CHR ''u'') = None"
proof (cases "c = quote_char \<or> c = backslash")
  case True
  then show ?thesis using short by (auto simp: escape_char_def simple_escape_def)
next
  case False
  show ?thesis
  proof (cases "char_code c < 32")
    case True
    then have "control_escape (char_code c)"
      using control_escapes by (simp add: list_all_iff)
    then have *: "let e = escape_char c in hd e = backslash \<and>
        (case simple_escape (hd (tl e)) of
           Some x \<Rightarrow> e = [backslash, hd (tl e)] \<and> x = c
         | None \<Rightarrow> length e = 6 \<and> hd (tl e) = CHR ''u'' \<and> parseHex4 (drop 2 e) = Some (char_code c))"
      unfolding control_escape_def char_of_code .
    show ?thesis
    proof (cases "simple_escape (hd (tl (escape_char c)))")
      case None
      with * have e: "length (escape_char c) = 6" "hd (escape_char c) = backslash"
        "hd (tl (escape_char c)) = CHR ''u''" "parseHex4 (drop 2 (escape_char c)) = Some (char_code c)"
        by (simp_all add: Let_def)
      then have "escape_char c = backslash # CHR ''u'' # drop 2 (escape_char c)"
        by (cases "escape_char c"; cases "tl (escape_char c)") auto
      then show ?thesis using unicode e True None by force
    next
      case (Some x)
      with * have "escape_char c = [backslash, hd (tl (escape_char c))]" "x = c"
        by (simp_all add: Let_def)
      with Some show ?thesis using short by metis
    qed
  next
    case False
    with \<open>\<not> (c = quote_char \<or> c = backslash)\<close> show ?thesis
      using plain by (auto simp: escape_char_def)
  qed
qed

lemma parseHex4_append: "length h = 4 \<Longrightarrow> parseHex4 (h @ s) = parseHex4 h"
  by (simp add: parseHex4_def)

lemma utf8_ascii: "char_code c < 32 \<Longrightarrow> utf8_encode (char_code c) = [c]"
  by (simp add: utf8_encode_def Let_def)

lemma backslash_code: "\<not> char_code backslash < 32" "char_code quote_char = 34"
  by (simp_all add: char_code_def)

lemma scan_string_escape:
  "\<exists>esc. scan_string (concat (map escape_char s) @ quote_char # rest) =
     Some (concat (map escape_char s), esc, rest)
   \<and> (\<not> esc \<longrightarrow> concat (map escape_char s) = s)"
proof (induction s)
  case (Cons c s)
  then obtain esc where IH: "scan_string (concat (map escape_char s) @ quote_char # rest) =
      Some (concat (map escape_char s), esc, rest)" "\<not> esc \<longrightarrow> concat (map escape_char s) = s"
    by blast
  show ?case
  proof (cases c rule: escape_cases)
    case plain
    then show ?thesis using IH by auto
  next
    case (short e)
    then show ?thesis using IH by (auto simp: backslash_code)
  next
    case (unicode h)
    then show ?thesis using IH by (auto simp: backslash_code parseHex4_append)
  qed
qed (auto intro: exI [of _ False])

lemma unescape_escape: "unescapeJSON (concat (map escape_char s)) = Some s"
proof (induction s)
  case (Cons c s)
  show ?case
  proof (cases c rule: escape_cases)
    case (unicode h)
    then have "\<not> is_surrogate (char_code c)" by (simp add: is_surrogate_def)
    with unicode Cons show ?thesis by (simp add: parseHex4_append utf8_ascii Let_def)
  qed (use Cons in auto)
qed simp

lemma parse_json_string [parse_simps, simp]:
  "parseStringBytes (json_string s @ rest) = Some (s, rest)"
proof -
  obtain esc where "scan_string (concat (map escape_char s) @ quote_char # rest) =
      Some (concat (map escape_char s), esc, rest)" "\<not> esc \<longrightarrow> concat (map escape_char s) = s"
    using scan_string_escape by blast
  then show ?thesis
    by (auto simp: parseStringBytes_def json_string_def consume_Cons unescape_escape)
qed

section \<open>Numbers\<close>

lemma digit_char:
  assumes "d < 10"
  shows "is_digit (char_of (48 + d))" "digit_val (char_of (48 + d)) = d"
    "char_of (48 + d) = CHR ''0'' \<longleftrightarrow> d = 0" "\<not> is_json_space (char_of (48 + d))"
    "char_of (48 + d) \<noteq> CHR ''-''"
proof -
  have "\<forall>d \<in> set [0..<10]. is_digit (char_of (48 + d)) \<and> digit_val (char_of (48 + d)) = d
      \<and> (char_of (48 + d) = CHR ''0'' \<longleftrightarrow> d = 0) \<and> \<not> is_json_space (char_of (48 + d))
      \<and> char_of (48 + d) \<noteq> CHR ''-''"
    by code_simp
  with assms show "is_digit (char_of (48 + d))" "digit_val (char_of (48 + d)) = d"
    "char_of (48 + d) = CHR ''0'' \<longleftrightarrow> d = 0" "\<not> is_json_space (char_of (48 + d))"
    "char_of (48 + d) \<noteq> CHR ''-''"
    by simp_all
qed

lemma print_nat_digits: "list_all is_digit (print_nat n)"
  by (induction n rule: print_nat.induct) (subst print_nat.simps, simp add: digit_char)

lemma print_nat_ne [simp]: "print_nat n \<noteq> []"
  by (subst print_nat.simps) simp

lemma print_nat_hd: "0 < n \<Longrightarrow> hd (print_nat n) \<noteq> CHR ''0''"
  by (induction n rule: print_nat.induct) (subst print_nat.simps, simp add: digit_char)

lemma print_nat_zero [simp]: "print_nat 0 = ''0''"
  by code_simp

lemma print_nat_hd_chars:
  "\<not> is_json_space (hd (print_nat n))" "hd (print_nat n) \<noteq> CHR ''-''"
  by (induction n rule: print_nat.induct) (subst print_nat.simps, simp add: digit_char)+

lemma decimal_snoc: "decimal (ds @ [d]) = 10 * decimal ds + digit_val d"
  by (simp add: decimal_def)

lemma decimal_print_nat [simp]: "decimal (print_nat n) = n"
proof (induction n rule: print_nat.induct)
  case (1 n)
  show ?case
  proof (cases "n < 10")
    case True
    then show ?thesis by (subst print_nat.simps) (simp add: decimal_def digit_char)
  next
    case False
    with 1 show ?thesis by (subst print_nat.simps) (simp add: decimal_snoc digit_char)
  qed
qed

text \<open>What may follow a value inside an object or array.\<close>

definition follows :: "string \<Rightarrow> bool" where
  "follows s = (\<exists>t. s = CHR '','' # t \<or> s = CHR ''}'' # t \<or> s = CHR '']'' # t)"

lemma follows_simps [simp]:
  "follows (CHR '','' # t)" "follows (CHR ''}'' # t)" "follows (CHR '']'' # t)"
  by (auto simp: follows_def)

lemma follows_ends: "follows s \<Longrightarrow> ends_value s"
  by (auto simp: follows_def ends_value_def)

lemma follows_no_digit: "follows s \<Longrightarrow> \<exists>c t. s = c # t \<and> \<not> is_digit c"
  unfolding follows_def by (elim exE disjE) (simp_all add: is_digit_def)

lemma scan_digits_print:
  assumes "follows rest"
  shows "scan_digits (print_nat n @ rest) = Some (print_nat n, rest)"
proof -
  obtain c t where rest: "rest = c # t" "\<not> is_digit c" using follows_no_digit [OF assms] by blast
  obtain d ds where p: "print_nat n = d # ds" by (cases "print_nat n") auto
  show ?thesis
  proof (cases "n = 0")
    case True
    then show ?thesis using rest by (simp add: scan_digits_def)
  next
    case False
    then have "d \<noteq> CHR ''0''" using print_nat_hd [of n] p by simp
    moreover have "\<forall>x \<in> set (d # ds). is_digit x" using print_nat_digits [of n] p by (simp add: list_all_iff)
    ultimately show ?thesis using rest p by (simp add: scan_digits_def)
  qed
qed

lemma parse_print_int [parse_simps, simp]:
  assumes "follows rest" "- (2 ^ 63) \<le> i" "i < 2 ^ 63"
  shows "parseInt (print_int i @ rest) = Some (i, rest)"
proof -
  have ws: "skipWhitespace (print_nat n @ t) = print_nat n @ t" for n t
    using print_nat_hd_chars(1) [of n] by (cases "print_nat n") auto
  have hd: "hd (print_nat n) \<noteq> CHR ''-''" for n by (rule print_nat_hd_chars)
  show ?thesis
    using assms scan_digits_print [OF assms(1)] follows_ends [OF assms(1)]
    by (auto simp: parseInt_def print_int_def Let_def ws hd)
qed

lemma parse_print_uint [parse_simps, simp]:
  fixes w :: "64 word"
  assumes "follows rest"
  shows "parseUint (print_nat (unat w) @ rest) = Some (w, rest)"
proof -
  have "skipWhitespace (print_nat n @ t) = print_nat n @ t" for n t
    using print_nat_hd_chars(1) [of n] by (cases "print_nat n") auto
  moreover have "unat w < 2 ^ 64" using unsigned_less [of w] by simp
  ultimately show ?thesis
    using scan_digits_print [OF assms] follows_ends [OF assms] by (simp add: parseUint_def)
qed

lemma parse_print_true [parse_simps, simp]:
  assumes "follows rest"
  shows "parseBool (''true'' @ rest) = Some (True, rest)"
  using assms by (auto simp: follows_def parseBool_def Let_def parse_literal_def isIdentChar_def char_code_def)

section \<open>Objects and arrays are read as they are printed\<close>

definition json_member :: "string \<times> string \<Rightarrow> string" where
  "json_member kv = [quote_char] @ fst kv @ [quote_char] @ '':'' @ snd kv"

definition json_object :: "(string \<times> string) list \<Rightarrow> string" where
  "json_object fields = ''{'' @ join_with '','' (map json_member fields) @ ''}''"

definition json_array :: "string list \<Rightarrow> string" where
  "json_array ts = ''['' @ join_with '','' ts @ '']''"

definition plain_char :: "char \<Rightarrow> bool" where
  "plain_char c = (32 \<le> char_code c \<and> c \<noteq> quote_char \<and> c \<noteq> backslash)"

lemma scan_plain: "list_all plain_char k \<Longrightarrow> scan_string (k @ quote_char # rest) = Some (k, False, rest)"
  by (induction k) (auto simp: plain_char_def)

lemma parse_plain_key:
  "list_all plain_char k \<Longrightarrow> parseStringBytes (quote_char # k @ quote_char # rest) = Some (k, rest)"
  by (simp add: parseStringBytes_def consume_Cons scan_plain)

text \<open>What a handler makes of a printed value, and that it does so whatever follows.\<close>

definition apply_member :: "(string \<Rightarrow> 'a \<Rightarrow> string \<Rightarrow> 'a parsed) \<Rightarrow> string \<times> string \<Rightarrow> 'a \<Rightarrow> 'a" where
  "apply_member h kv a = (case h (fst kv) a (snd kv @ ''}'') of Parsed a' _ \<Rightarrow> a' | _ \<Rightarrow> a)"

definition good_member :: "(string \<Rightarrow> 'a \<Rightarrow> string \<Rightarrow> 'a parsed) \<Rightarrow> string \<times> string \<Rightarrow> bool" where
  "good_member h kv =
     (list_all plain_char (fst kv)
      \<and> (\<forall>a r. follows r \<longrightarrow> h (fst kv) a (snd kv @ r) = Parsed (apply_member h kv a) r))"

lemma json_member_append:
  "json_member kv @ r = quote_char # fst kv @ quote_char # CHR '':'' # snd kv @ r"
  by (simp add: json_member_def)

lemma members_fields:
  assumes "fields \<noteq> []" "length fields \<le> n" "list_all (good_member h) fields"
  shows "members n h a (join_with '','' (map json_member fields) @ CHR ''}'' # rest) =
    Parsed (fold (apply_member h) fields a) rest"
  using assms
proof (induction fields arbitrary: n a)
  case (Cons f fs)
  from Cons.prems(2) obtain m where n: "n = Suc m" "length fs \<le> m" by (cases n) auto
  have good: "list_all plain_char (fst f)"
    "\<And>a r. follows r \<Longrightarrow> h (fst f) a (snd f @ r) = Parsed (apply_member h f a) r"
    using Cons.prems(3) by (simp_all add: good_member_def)
  show ?case
  proof (cases fs)
    case Nil
    then show ?thesis
      using n good by (simp add: json_member_def parse_plain_key consume_Cons)
  next
    case (Cons g gs)
    then have "join_with '','' (map json_member (f # fs)) =
        json_member f @ CHR '','' # join_with '','' (map json_member fs)" by simp
    moreover have "skipWhitespace (join_with '','' (map json_member fs) @ CHR ''}'' # rest) =
        join_with '','' (map json_member fs) @ CHR ''}'' # rest"
      "hd (join_with '','' (map json_member fs) @ CHR ''}'' # rest) = quote_char"
      unfolding Cons by (cases gs; simp add: json_member_def)+
    moreover have "members m h (apply_member h f a) (join_with '','' (map json_member fs) @ CHR ''}'' # rest) =
        Parsed (fold (apply_member h) fs (apply_member h f a)) rest"
      using Cons Cons.IH [of m "apply_member h f a"] Cons.prems n by simp
    ultimately show ?thesis
      using n good by (simp add: json_member_append parse_plain_key consume_Cons)
  qed
qed simp

lemma length_join_members: "length fields \<le> length (join_with '','' (map json_member fields))"
proof (induction fields)
  case (Cons f fs)
  then show ?case by (cases fs) (simp_all add: json_member_def)
qed simp

lemma parse_json_object [parse_simps]:
  assumes "list_all (good_member h) fields"
  shows "parse_object h a (json_object fields @ rest) = Parsed (fold (apply_member h) fields a) rest"
proof (cases fields)
  case Nil
  then show ?thesis by (simp add: parse_object_def json_object_def consume_Cons)
next
  case (Cons f fs)
  let ?body = "join_with '','' (map json_member fields)"
  have "consume (CHR ''}'') (?body @ CHR ''}'' # rest) = None"
    unfolding Cons by (cases fs) (simp_all add: json_member_def consume_Cons)
  moreover have "members (length (?body @ CHR ''}'' # rest)) h a (?body @ CHR ''}'' # rest) =
      Parsed (fold (apply_member h) fields a) rest"
    using assms length_join_members [of fields] by (intro members_fields) (auto simp: Cons)
  ultimately show ?thesis by (simp add: parse_object_def json_object_def consume_Cons)
qed

definition starts_value :: "string \<Rightarrow> bool" where
  "starts_value t = (\<exists>c u. t = c # u \<and> \<not> is_json_space c \<and> c \<noteq> CHR '']'' )"

lemma elements_fields:
  assumes "xs \<noteq> []" "length xs \<le> n"
    and "\<And>x r. x \<in> set xs \<Longrightarrow> follows r \<Longrightarrow> p (pr x @ r) = Parsed (q x) r"
    and "\<And>x. x \<in> set xs \<Longrightarrow> starts_value (pr x)"
  shows "elements n p acc (join_with '','' (map pr xs) @ CHR '']'' # rest) = Parsed (acc @ map q xs) rest"
  using assms
proof (induction xs arbitrary: n acc)
  case (Cons x xs)
  from Cons.prems(2) obtain m where n: "n = Suc m" "length xs \<le> m" by (cases n) auto
  show ?case
  proof (cases xs)
    case Nil
    then show ?thesis using n Cons.prems(3) by (simp add: consume_Cons)
  next
    case (Cons y ys)
    let ?tail = "join_with '','' (map pr xs) @ CHR '']'' # rest"
    obtain c u where y: "pr y = c # u" "\<not> is_json_space c" "c \<noteq> CHR '']''"
      using Cons.prems(4) [of y] Cons by (auto simp: starts_value_def)
    then have "skipWhitespace ?tail = ?tail" "hd ?tail \<noteq> CHR '']''"
      unfolding Cons by (cases ys; simp)+
    moreover have "elements m p (acc @ [q x]) ?tail = Parsed ((acc @ [q x]) @ map q xs) rest"
      using Cons Cons.IH [of m "acc @ [q x]"] Cons.prems n by simp
    moreover have "join_with '','' (map pr (x # xs)) @ CHR '']'' # rest = pr x @ CHR '','' # ?tail"
      using Cons by simp
    ultimately show ?thesis using n Cons.prems(3) by (simp add: consume_Cons)
  qed
qed simp

lemma length_join: "(\<And>x. x \<in> set xs \<Longrightarrow> pr x \<noteq> []) \<Longrightarrow> length xs \<le> length (join_with '','' (map pr xs))"
proof (induction xs)
  case (Cons x xs)
  then have "Suc 0 \<le> length (pr x)" by (simp add: Suc_le_eq)
  with Cons show ?case by (cases xs) auto
qed simp

lemma parse_json_array:
  assumes "\<And>x r. x \<in> set xs \<Longrightarrow> follows r \<Longrightarrow> p (pr x @ r) = Parsed (q x) r"
    and "\<And>x. x \<in> set xs \<Longrightarrow> starts_value (pr x)"
  shows "parse_array p (json_array (map pr xs) @ rest) = Parsed (map q xs) rest"
proof (cases xs)
  case Nil
  then show ?thesis by (simp add: parse_array_def json_array_def consume_Cons)
next
  case (Cons y ys)
  let ?body = "join_with '','' (map pr xs)"
  obtain c u where y: "pr y = c # u" "\<not> is_json_space c" "c \<noteq> CHR '']''"
    using assms(2) [of y] Cons by (auto simp: starts_value_def)
  then have "consume (CHR '']'') (?body @ CHR '']'' # rest) = None"
    unfolding Cons by (cases ys) (simp_all add: consume_Cons)
  moreover have "length xs \<le> length ?body"
    using assms(2) by (intro length_join) (fastforce simp: starts_value_def)
  then have "elements (length (?body @ CHR '']'' # rest)) p [] (?body @ CHR '']'' # rest) = Parsed (map q xs) rest"
    using assms elements_fields [of xs "length (?body @ CHR '']'' # rest)" p pr q "[]" rest] Cons by simp
  ultimately show ?thesis by (simp add: parse_array_def json_array_def consume_Cons)
qed

section \<open>The fuel of the loops\<close>

lemma length_consume: "consume c s = Some t \<Longrightarrow> length t < length s"
  using length_skipWhitespace [of s] by (auto simp: consume_def split: list.splits if_splits)

lemma length_scan_string: "scan_string s = Some (raw, esc, rest) \<Longrightarrow> length rest < length s"
  by (induction s arbitrary: raw esc rest rule: scan_string.induct)
     (fastforce split: if_splits list.splits)+

lemma length_parseStringBytes: "parseStringBytes s = Some (k, t) \<Longrightarrow> length t < length s"
  by (auto simp: parseStringBytes_def split: option.splits if_splits
      dest!: length_consume length_scan_string)

lemma members_Nil [simp]: "members n h a [] = Rejected"
  by (cases n) (simp_all add: parseStringBytes_def consume_def)

text \<open>More fuel than the length of the input changes nothing: the loop never stops for want of it.\<close>

lemma members_fuel:
  assumes h: "\<And>k a s a' r. h k a s = Parsed a' r \<Longrightarrow> length r \<le> length s"
  shows "length s < n \<Longrightarrow> length s < m \<Longrightarrow> members n h a s = members m h a s"
proof (induction n arbitrary: m a s)
  case (Suc n)
  then obtain m' where m: "m = Suc m'" by (cases m) auto
  have IH: "members n h a' (skipWhitespace s5) = members m' h a' (skipWhitespace s5)"
    if "parseStringBytes s = Some (key, s1)" "consume (CHR '':'') s1 = Some s2" "h key a s2 = Parsed a' s3"
      "consume (CHR '','') s3 = Some s5" for key s1 s2 a' s3 s5
  proof (rule Suc.IH)
    have "length (skipWhitespace s5) < length s"
      using length_parseStringBytes [OF that(1)] length_consume [OF that(2)] h [OF that(3)]
        length_consume [OF that(4)] length_skipWhitespace [of s5] by linarith
    then show "length (skipWhitespace s5) < n" "length (skipWhitespace s5) < m'"
      using Suc.prems m by linarith+
  qed
  show ?case
    unfolding m by (auto simp: Let_def IH split: option.split parsed.split)
qed simp

end
