(* ===== verification/StoreLoad.thy ===== *)
theory StoreLoad
  imports StoreCycle SortBy JsonText
begin

text \<open>
  Persistence of the candidate store, \<open>internal/store/store.go\<close>: what \<open>Save\<close> puts into a snapshot and
  how it replaces the file, and what \<open>Load\<close> makes of a decoded snapshot of version 2 or of the results
  of a version 1 file.

  The decoders are parameters of \<open>Load\<close>: \<open>gunzip\<close> (\<open>compress/gzip\<close>), \<open>fast\<close> (\<open>fastDecodeSnapshot\<close>,
  modelled in the theory \<open>SnapshotCodec\<close>) and \<open>slow\<close> (\<open>json.Unmarshal\<close>). The file system is a map from
  paths to contents.
\<close>

section \<open>Loading\<close>

definition gemini_target :: "candidate_record \<Rightarrow> target_result" where
  "gemini_target rec = target_of_result (rec_Latest rec) (rec_Score rec)"

definition fill_links :: "(string \<Rightarrow> string) \<Rightarrow> candidate_record \<Rightarrow> candidate_record" where
  "fill_links canon r0 =
     (let r1 = (if rec_CanonicalLink r0 = [] \<and> rec_ActiveLink r0 \<noteq> []
                then r0 \<lparr> rec_CanonicalLink := canon (rec_ActiveLink r0) \<rparr> else r0);
          r2 = (if rec_ActiveLink r1 = [] \<and> rec_CanonicalLink r1 \<noteq> []
                then r1 \<lparr> rec_ActiveLink := rec_CanonicalLink r1 \<rparr> else r1)
      in if res_Link (rec_Latest r2) = []
         then r2 \<lparr> rec_Latest := (rec_Latest r2) \<lparr> res_Link := rec_ActiveLink r2 \<rparr> \<rparr> else r2)"

definition load_record :: "(string \<Rightarrow> string) \<Rightarrow> scoring_config \<Rightarrow> candidate_record \<Rightarrow> candidate_record" where
  "load_record canon cfg r0 =
     (let r1 = fill_links canon r0;
          history = NormalizeAndValidate (cfg_HistoryCapacity cfg) (rec_History r1);
          lam = cfg_DecayLambda cfg; ws = weights_of cfg;
          r2 = set_last_passed (r1 \<lparr> rec_History := history, rec_Score := ComputeScore lam ws history \<rparr>);
          latest1 = (rec_Latest r2) \<lparr> res_Passed := (res_Status (rec_Latest r2) = StatusPassed) \<rparr>;
          latest2 = (if bh_Count history > 0
                     then latest1 \<lparr> res_PreviouslyPassed := PreviouslyPassed history,
                                    res_ConsecutiveInconclusive := ConsecutiveInconclusive history \<rparr>
                     else latest1);
          svs1 = AList.update ''gemini'' (target_of_result latest2 (rec_Score r2)) (rec_Services r2);
          (lastSmp, ok) = Last history;
          svs2 = (if ok \<and> ps_ClaudeStatus lastSmp \<noteq> NoStatus
                  then AList.update ''claude''
                         \<lparr> tr_Status = ps_ClaudeStatus lastSmp, tr_Category = ps_ClaudeCategory lastSmp,
                           tr_StatusCode = 0, tr_Latency = ps_ClaudeLatency lastSmp,
                           tr_Score = ComputeScoreFor lam ws ''claude'' history \<rparr> svs1
                  else svs1)
      in r2 \<lparr> rec_Services := svs2,
              rec_Latest := latest2 \<lparr> res_Services := AList.merge (res_Services latest2) svs2 \<rparr> \<rparr>)"

definition migrate_sample :: "int \<Rightarrow> result \<Rightarrow> probe_sample" where
  "migrate_sample cycleCount r =
     zero_sample \<lparr> ps_CycleID := word_of_int cycleCount, ps_TestedAt := res_TestedAt r,
       ps_Status := res_Status r, ps_Category := res_Category r, ps_StatusCode := res_StatusCode r,
       ps_Latency := res_Latency r, ps_Attempts := (if res_Attempts r \<le> 0 then 1 else res_Attempts r),
       ps_TransportOK := res_TransportOK r, ps_TransportLatency := res_TransportLatency r,
       ps_TransportEvidenceKnown := res_TransportEvidenceKnown r, ps_Jitter := res_Jitter r \<rparr>"

definition migrate_result ::
  "(string \<Rightarrow> string) \<Rightarrow> scoring_config \<Rightarrow> int \<Rightarrow> result \<Rightarrow> candidate_record" where
  "migrate_result canon cfg cycleCount r0 =
     (let r = classify r0;
          rec = new_record cfg (canon (res_Link r)) (res_Link r);
          history = Push (migrate_sample cycleCount r) (rec_History rec);
          score = ComputeScore (cfg_DecayLambda cfg) (weights_of cfg) history;
          target = target_of_result r score
      in rec \<lparr> rec_History := history, rec_Score := score,
               rec_LastPassedLatency := (if res_Status r = StatusPassed then res_Latency r else 0),
               rec_HasPassed := (res_Status r = StatusPassed),
               rec_Services := [(''gemini'', target)],
               rec_Latest := r \<lparr> res_Passed := (res_Status r = StatusPassed),
                                 res_Services := [(''gemini'', target)] \<rparr> \<rparr>)"

definition load_records :: "(string \<Rightarrow> string) \<Rightarrow> scoring_config \<Rightarrow> snapshot \<Rightarrow> (string \<times> candidate_record) list"
where
  "load_records canon cfg snap =
     (if sn_Version snap \<ge> 2 \<or> sn_Records snap \<noteq> [] then
        fold (\<lambda>x m. case x of None \<Rightarrow> m
                | Some r \<Rightarrow> let rec = load_record canon cfg r in AList.update (rec_CanonicalLink rec) rec m)
          (sn_Records snap) []
      else
        fold (\<lambda>r m. let rec = migrate_result canon cfg (sn_CycleCount snap) r
                    in AList.update (rec_CanonicalLink rec) rec m)
          (sn_Results snap) [])"

text \<open>The critical section of \<open>Load\<close>. The set of present links is not reset.\<close>

definition install_snapshot :: "(string \<Rightarrow> string) \<Rightarrow> snapshot \<Rightarrow> store \<Rightarrow> store" where
  "install_snapshot canon snap s =
     s \<lparr> st_lastCycle := sn_LastCycle snap, st_cycleCount := sn_CycleCount snap,
         st_cycleID := word_of_int (sn_CycleCount snap), st_revision := st_revision s + 1,
         st_records := load_records canon (st_cfg s) snap, st_pendingAbsent := [] \<rparr>"

type_synonym files = "string \<rightharpoonup> string"

text \<open>A panic of the fast decoder ends the program; it is an outcome of its own here.\<close>

datatype load_error = GzipError | JSONError | DecoderPanic

definition is_gzip :: "string \<Rightarrow> bool" where
  "is_gzip d = (length d \<ge> 2 \<and> d ! 0 = CHR 0x1F \<and> d ! 1 = CHR 0x8B)"

definition read_state :: "store \<Rightarrow> files \<Rightarrow> string option" where
  "read_state s fs =
     (let primary = PrimaryPath s; legacyPath = st_path s
      in case fs primary of Some d \<Rightarrow> Some d
         | None \<Rightarrow> if primary \<noteq> legacyPath then fs legacyPath else None)"

definition Load ::
  "(string \<Rightarrow> string) \<Rightarrow> (string \<Rightarrow> string option) \<Rightarrow> (string \<Rightarrow> snapshot parsed) \<Rightarrow>
   (string \<Rightarrow> snapshot option) \<Rightarrow> files \<Rightarrow> store \<Rightarrow> (load_error, store) outcome" where
  "Load canon gunzip fast slow fs s =
     (case read_state s fs of
        None \<Rightarrow> Inr s
      | Some raw \<Rightarrow>
          bind_ok (if is_gzip raw
                   then (case gunzip raw of None \<Rightarrow> Inl GzipError | Some d \<Rightarrow> Inr d)
                   else Inr raw)
            (\<lambda>d. case fast d of
                   Parsed snap _ \<Rightarrow> Inr (install_snapshot canon snap s)
                 | Panicked \<Rightarrow> Inl DecoderPanic
                 | Rejected \<Rightarrow>
                     (case slow d of
                        None \<Rightarrow> Inl JSONError
                      | Some snap \<Rightarrow> Inr (install_snapshot canon snap s))))"

section \<open>Saving\<close>

text \<open>The compact copy of a record: its samples unrolled, oldest first.\<close>

definition pack_samples :: "bounded_history \<Rightarrow> probe_sample list" where
  "pack_samples h =
     (let n = int (length (bh_Samples h));
          cap = (if bh_Capacity h \<le> 0 \<or> bh_Capacity h > n then n else bh_Capacity h);
          start = (if bh_Start h < 0 \<or> bh_Start h \<ge> cap then 0 else bh_Start h)
      in map (\<lambda>j. read_slot (bh_Samples h) (go_rem (start + int j) cap)) [0..<nat (bh_Count h)])"

definition pack_record :: "candidate_record \<Rightarrow> candidate_record" where
  "pack_record rec =
     (let h = rec_History rec
      in rec \<lparr> rec_History :=
                 (if bh_Count h > 0 then h \<lparr> bh_Samples := pack_samples h, bh_Start := 0 \<rparr>
                  else h \<lparr> bh_Samples := [] \<rparr>) \<rparr>)"

definition make_snapshot :: "store \<Rightarrow> snapshot" where
  "make_snapshot s =
     \<lparr> sn_Version = 2, sn_LastCycle = st_lastCycle s, sn_CycleCount = st_cycleCount s,
       sn_Records = map Some (sort_by (\<lambda>a b. rec_CanonicalLink a < rec_CanonicalLink b)
                                (map (\<lambda>(_, rec). pack_record rec) (st_records s))),
       sn_Results = [] \<rparr>"

text \<open>
  The file operations of \<open>Save\<close> and the place where one of them fails, if any: nothing is touched
  before the temporary file is opened, and every later failure removes it again. \<open>WriteFails n\<close> leaves
  the first \<open>n\<close> bytes in the temporary file before it is removed.
\<close>

datatype save_fault =
    NoFault | EnsureDirFails | StatFails | OpenFails | GzipWriterFails | WriteFails nat
  | GzipCloseFails | FlushFails | SyncFails | CloseFails | RenameFails

definition tmp_path :: "string \<Rightarrow> string" where
  "tmp_path primary = primary @ ''.tmp''"

text \<open>The states the file system goes through, the last one last, and whether \<open>Save\<close> succeeded.\<close>

definition save_trace :: "save_fault \<Rightarrow> string \<Rightarrow> string \<Rightarrow> files \<Rightarrow> files list \<times> bool" where
  "save_trace fault primary bytes fs =
     (let tmp = tmp_path primary;
          opened = fs(tmp := Some []);
          partial = (\<lambda>n. fs(tmp := Some (take n bytes)));
          full = fs(tmp := Some bytes);
          removed = fs(tmp := None);
          renamed = (fs(primary := Some bytes))(tmp := None)
      in case fault of
           EnsureDirFails \<Rightarrow> ([fs], False)
         | StatFails \<Rightarrow> ([fs], False)
         | OpenFails \<Rightarrow> ([fs], False)
         | GzipWriterFails \<Rightarrow> ([fs, opened, removed], False)
         | WriteFails n \<Rightarrow> ([fs, opened] @ map partial [0..<Suc n] @ [removed], False)
         | GzipCloseFails \<Rightarrow> ([fs, opened] @ map partial [0..<Suc (length bytes)] @ [removed], False)
         | FlushFails \<Rightarrow> ([fs, opened] @ map partial [0..<Suc (length bytes)] @ [removed], False)
         | SyncFails \<Rightarrow> ([fs, opened] @ map partial [0..<Suc (length bytes)] @ [removed], False)
         | CloseFails \<Rightarrow> ([fs, opened] @ map partial [0..<Suc (length bytes)] @ [removed], False)
         | RenameFails \<Rightarrow> ([fs, opened] @ map partial [0..<Suc (length bytes)] @ [full, removed], False)
         | NoFault \<Rightarrow> ([fs, opened] @ map partial [0..<Suc (length bytes)] @ [full, renamed], True))"

text \<open>\<open>encode\<close> stands for writing the snapshot as compressed JSON.\<close>

definition Save :: "(snapshot \<Rightarrow> string) \<Rightarrow> save_fault \<Rightarrow> store \<Rightarrow> files \<Rightarrow> files \<times> bool" where
  "Save encode fault s fs =
     (let (trace, ok) = save_trace fault (PrimaryPath s) (encode (make_snapshot s)) fs
      in (last trace, ok))"

section \<open>Loaded records satisfy the invariant\<close>

lemma set_last_passed_fields [simp]:
  "rec_History (set_last_passed rec) = rec_History rec"
  "rec_Score (set_last_passed rec) = rec_Score rec"
  "rec_Services (set_last_passed rec) = rec_Services rec"
  "rec_Latest (set_last_passed rec) = rec_Latest rec"
  "rec_CanonicalLink (set_last_passed rec) = rec_CanonicalLink rec"
  "rec_ActiveLink (set_last_passed rec) = rec_ActiveLink rec"
  "rec_AbsentCycles (set_last_passed rec) = rec_AbsentCycles rec"
  by (simp_all add: set_last_passed_def split: prod.split bool.split)

lemma set_last_passed_latency:
  assumes "wf_history (rec_History rec)"
  shows "(rec_LastPassedLatency (set_last_passed rec), rec_HasPassed (set_last_passed rec)) =
    LastPassedLatency (rec_History rec)"
  using LastPassedLatency_default [OF assms] by (simp add: set_last_passed_eq)

lemma fill_links_fields [simp]:
  "rec_History (fill_links canon rec) = rec_History rec"
  "rec_AbsentCycles (fill_links canon rec) = rec_AbsentCycles rec"
  "res_Status (rec_Latest (fill_links canon rec)) = res_Status (rec_Latest rec)"
  by (simp_all add: fill_links_def Let_def)

lemma fill_links_links:
  "rec_CanonicalLink rec \<noteq> [] \<Longrightarrow> rec_CanonicalLink (fill_links canon rec) = rec_CanonicalLink rec"
  "rec_CanonicalLink rec \<noteq> [] \<Longrightarrow> rec_ActiveLink rec \<noteq> [] \<Longrightarrow>
     rec_ActiveLink (fill_links canon rec) = rec_ActiveLink rec"
  by (simp_all add: fill_links_def Let_def)

lemma load_record_fields [simp]:
  "rec_History (load_record canon cfg r) = NormalizeAndValidate (cfg_HistoryCapacity cfg) (rec_History r)"
  "rec_Score (load_record canon cfg r) =
     ComputeScore (cfg_DecayLambda cfg) (weights_of cfg) (rec_History (load_record canon cfg r))"
  "rec_CanonicalLink (load_record canon cfg r) = rec_CanonicalLink (fill_links canon r)"
  "rec_ActiveLink (load_record canon cfg r) = rec_ActiveLink (fill_links canon r)"
  "rec_AbsentCycles (load_record canon cfg r) = rec_AbsentCycles r"
  "res_Status (rec_Latest (load_record canon cfg r)) = res_Status (rec_Latest r)"
  "res_Passed (rec_Latest (load_record canon cfg r)) = (res_Status (rec_Latest r) = StatusPassed)"
  by (simp_all add: load_record_def Let_def split: prod.split)

lemma load_record_latency:
  "(rec_LastPassedLatency (load_record canon cfg r), rec_HasPassed (load_record canon cfg r)) =
     LastPassedLatency (NormalizeAndValidate (cfg_HistoryCapacity cfg) (rec_History r))"
proof -
  let ?r = "fill_links canon r \<lparr> rec_History := NormalizeAndValidate (cfg_HistoryCapacity cfg) (rec_History r),
    rec_Score := ComputeScore (cfg_DecayLambda cfg) (weights_of cfg)
      (NormalizeAndValidate (cfg_HistoryCapacity cfg) (rec_History r)) \<rparr>"
  have "(rec_LastPassedLatency (set_last_passed ?r), rec_HasPassed (set_last_passed ?r)) =
      LastPassedLatency (rec_History ?r)"
    by (rule set_last_passed_latency) (simp add: wf_Normalize)
  then show ?thesis by (simp add: load_record_def Let_def split: prod.split)
qed

lemma load_record_gemini:
  "map_of (rec_Services (load_record canon cfg r)) ''gemini'' =
     Some (target_of_result (rec_Latest (load_record canon cfg r)) (rec_Score (load_record canon cfg r)))"
  by (simp add: load_record_def Let_def update_conv' target_of_result_def split: prod.split)

lemma wf_load_record [wf_rules]:
  assumes "0 < cfg_HistoryCapacity cfg"
  shows "wf_record cfg (rec_CanonicalLink (load_record canon cfg r)) (load_record canon cfg r)"
  using load_record_latency [of canon cfg r] assms
  by (simp add: wf_record_def record_derived_def wf_Normalize normal_capacity_le load_record_gemini)

lemma wf_migrate_result [wf_rules]:
  assumes "0 < cfg_HistoryCapacity cfg"
  shows "wf_record cfg (rec_CanonicalLink (migrate_result canon cfg n r)) (migrate_result canon cfg n r)"
proof -
  let ?c = "cfg_HistoryCapacity cfg" and ?x = "migrate_sample n (classify r)"
  have "samples_of (Push ?x (NewBoundedHistory ?c)) = [?x]"
    using assms by (simp add: samples_of_Push wf_NewBoundedHistory samples_of_New)
      (simp add: NewBoundedHistory_def Let_def)
  then have "LastPassedLatency (Push ?x (NewBoundedHistory ?c)) =
      (if res_Status (classify r) = StatusPassed then (res_Latency (classify r), True) else (0, False))"
    by (simp add: LastPassedLatency_eq wf_rules migrate_sample_def)
  then show ?thesis
    using assms
    by (simp add: wf_record_def record_derived_def migrate_result_def Let_def new_record_def wf_rules
        target_of_result_def) (simp add: NewBoundedHistory_def Let_def)
qed

definition wf_records :: "scoring_config \<Rightarrow> (string \<times> candidate_record) list \<Rightarrow> bool" where
  "wf_records cfg m =
     (distinct (map fst m) \<and> (\<forall>k rec. map_of m k = Some rec \<longrightarrow> wf_record cfg k rec))"

lemma wf_records_update:
  "wf_records cfg m \<Longrightarrow> wf_record cfg k rec \<Longrightarrow> wf_records cfg (AList.update k rec m)"
  by (auto simp: wf_records_def distinct_update update_conv' split: if_splits)

lemma wf_records_fold:
  assumes "\<And>x m. wf_records cfg m \<Longrightarrow> wf_records cfg (f x m)"
  shows "wf_records cfg m \<Longrightarrow> wf_records cfg (fold f xs m)"
  by (induction xs arbitrary: m) (simp_all add: assms)

lemma wf_load_records [wf_rules]:
  assumes "0 < cfg_HistoryCapacity cfg"
  shows "wf_records cfg (load_records canon cfg snap)"
proof -
  have nil: "wf_records cfg []" by (simp add: wf_records_def)
  show ?thesis
    unfolding load_records_def Let_def
    by (auto intro!: wf_records_fold nil wf_records_update wf_rules assms simp del: load_record_fields(3)
        split: option.split)
qed

lemma wf_install [wf_rules]:
  assumes "wf_store s"
  shows "wf_store (install_snapshot canon snap s)"
proof -
  have "wf_records (st_cfg s) (load_records canon (st_cfg s) snap)"
    using assms by (intro wf_load_records) (simp add: wf_store_def wf_config_def)
  then show ?thesis
    using assms by (simp add: wf_store_def wf_records_def install_snapshot_def)
qed

section \<open>What a saved record loads as\<close>

interpretation by_canonical: comparator "\<lambda>a b. rec_CanonicalLink a < rec_CanonicalLink b" rec_CanonicalLink
  by unfold_locales simp

lemma pack_samples_eq: "wf_history h \<Longrightarrow> pack_samples h = samples_of h"
  by (rule nth_equalityI)
     (auto simp: pack_samples_def Let_def length_samples_of wf_history_def sample_at_nth [symmetric]
        sample_at_def slot_def)

lemma pack_record_fields [simp]:
  "rec_CanonicalLink (pack_record r) = rec_CanonicalLink r"
  "rec_ActiveLink (pack_record r) = rec_ActiveLink r"
  "rec_AbsentCycles (pack_record r) = rec_AbsentCycles r"
  "rec_Latest (pack_record r) = rec_Latest r"
  by (simp_all add: pack_record_def Let_def)

lemma load_compact_samples:
  assumes "wf_history h" "bh_Capacity h \<le> m"
    and p: "bh_Capacity p = bh_Capacity h" "bh_Count p = bh_Count h"
      "bh_Samples p = samples_of h" "bh_Count h \<noteq> 0 \<longrightarrow> bh_Start p = 0" "0 \<le> bh_Start p"
  shows "samples_of (NormalizeAndValidate m p) = samples_of h"
proof -
  have len: "int (length (samples_of h)) = bh_Count h"
    using assms(1) by (simp add: length_samples_of wf_history_def)
  have "samples_of (NormalizeAndValidate m p) = take_last (nat (normal_capacity m p)) (samples_of p)"
    using p len by (intro samples_of_Normalize) auto
  moreover have "samples_of p = samples_of h"
    using p len samples_of_empty [OF assms(1)] by (cases "bh_Count h = 0") (auto simp: samples_of_def)
  moreover have "normal_capacity m p = bh_Capacity h"
    using assms by (auto simp: normal_capacity_def Let_def wf_history_def)
  moreover have "length (samples_of h) \<le> nat (bh_Capacity h)"
    using assms(1) len unfolding wf_history_def by arith
  ultimately show ?thesis by simp
qed

lemma pack_record_history:
  assumes "wf_history (rec_History r)"
  shows "bh_Capacity (rec_History (pack_record r)) = bh_Capacity (rec_History r)"
    "bh_Count (rec_History (pack_record r)) = bh_Count (rec_History r)"
    "bh_Samples (rec_History (pack_record r)) = samples_of (rec_History r)"
    "bh_Count (rec_History r) \<noteq> 0 \<longrightarrow> bh_Start (rec_History (pack_record r)) = 0"
    "0 \<le> bh_Start (rec_History (pack_record r))"
  using assms samples_of_empty [OF assms]
  by (auto simp: pack_record_def Let_def pack_samples_eq wf_history_def)

lemma load_pack_samples:
  assumes "wf_history (rec_History r)" "bh_Capacity (rec_History r) \<le> m"
  shows "samples_of (NormalizeAndValidate m (rec_History (pack_record r))) = samples_of (rec_History r)"
  using pack_record_history [OF assms(1)] by (intro load_compact_samples assms) auto

lemma load_records_lookup:
  assumes "distinct (map g xs)" "\<And>r. r \<in> set xs \<Longrightarrow> rec_CanonicalLink (f r) = g r"
  shows "map_of (fold (\<lambda>r m. AList.update (rec_CanonicalLink (f r)) (f r) m) xs m) k =
    (case find (\<lambda>r. g r = k) xs of Some r \<Rightarrow> Some (f r) | None \<Rightarrow> map_of m k)"
  using assms
proof (induction xs arbitrary: m)
  case (Cons x xs)
  have "find (\<lambda>r. g r = g x) xs = None"
    using Cons.prems(1) by (auto simp: find_None_iff) (metis imageI)
  with Cons show ?case by (cases "find (\<lambda>r. g r = k) xs") (auto simp: update_conv')
qed simp

text \<open>A saved store, its records changed by \<open>g\<close> on the way, loads record by record.\<close>

lemma load_saved_lookup:
  assumes "wf_store s" "\<And>j x. map_of (st_records s) j = Some x \<Longrightarrow> j \<noteq> []"
    and g: "\<And>r. rec_CanonicalLink (g r) = rec_CanonicalLink r"
    and recs: "sn_Records snap = map (map_option g) (sn_Records (make_snapshot s))" "sn_Version snap = 2"
  shows "map_of (load_records canon cfg snap) k =
    map_option (\<lambda>rec. load_record canon cfg (g (pack_record rec))) (map_of (st_records s) k)"
proof -
  let ?ps = "map (\<lambda>(_, rec). pack_record rec) (st_records s)"
  let ?sorted = "sort_by (\<lambda>a b. rec_CanonicalLink a < rec_CanonicalLink b) ?ps"
  have dist: "distinct (map fst (st_records s))" using assms(1) by (simp add: wf_store_def)
  have key: "rec_CanonicalLink x = j \<and> j \<noteq> []" if "(j, x) \<in> set (st_records s)" for j x
    using that assms dist by (auto simp: wf_store_def wf_record_def)
  then have keys: "map rec_CanonicalLink ?ps = map fst (st_records s)" by auto
  then have dist': "distinct (map rec_CanonicalLink ?sorted)"
    using dist by (metis mset_eq_imp_distinct_iff mset_map mset_sort_by)
  have link: "rec_CanonicalLink (load_record canon cfg (g r)) = rec_CanonicalLink r" if "r \<in> set ?sorted" for r
    using that key g by (auto simp: fill_links_links)
  have "load_records canon cfg snap =
      fold (\<lambda>r m. AList.update (rec_CanonicalLink (load_record canon cfg (g r))) (load_record canon cfg (g r)) m) ?sorted []"
    by (simp add: load_records_def recs make_snapshot_def Let_def fold_map comp_def)
  then have step: "map_of (load_records canon cfg snap) k =
      map_option (\<lambda>r. load_record canon cfg (g r)) (find (\<lambda>r. rec_CanonicalLink r = k) ?sorted)"
    using load_records_lookup [of rec_CanonicalLink ?sorted "\<lambda>r. load_record canon cfg (g r)", OF dist' link, where m = "[]" and k = k]
    by (cases "find (\<lambda>r. rec_CanonicalLink r = k) ?sorted") simp_all
  show ?thesis
  proof (cases "map_of (st_records s) k")
    case None
    then have "(k, y) \<notin> set (st_records s)" for y by (metis map_of_eq_None_iff fst_conv imageI)
    with key have "find (\<lambda>r. rec_CanonicalLink r = k) ?sorted = None"
      unfolding find_None_iff set_sort_by by auto
    with None step show ?thesis by simp
  next
    case (Some x)
    then have x: "(k, x) \<in> set (st_records s)" by (rule map_of_SomeD)
    then have "pack_record x \<in> set ?sorted" "rec_CanonicalLink (pack_record x) = k"
      using key [OF x] unfolding set_sort_by by (force, simp)
    then have "find (\<lambda>r. rec_CanonicalLink r = k) ?sorted \<noteq> None"
      unfolding find_None_iff by blast
    then obtain r where r: "find (\<lambda>r. rec_CanonicalLink r = k) ?sorted = Some r" by blast
    then obtain j y where y: "(j, y) \<in> set (st_records s)" "r = pack_record y" "rec_CanonicalLink r = k"
      unfolding find_Some_iff by (metis (no_types, lifting) nth_mem set_sort_by imageE list.set_map split_conv surj_pair)
    with key have "(k, y) \<in> set (st_records s)" by fastforce
    with x dist have "y = x" by (meson eq_key_imp_eq_value)
    with Some step r y show ?thesis by simp
  qed
qed

section \<open>Properties\<close>

text \<open>C8: Whatever decodable file is loaded, written by this program or not, the store is consistent
  afterwards: the persisted capacity, counters and derived values are not trusted, and a failed load
  leaves the store as it was.\<close>

theorem load_establishes_invariant:
  assumes "wf_store s" "Load canon gunzip fast slow fs s = Inr t"
  shows "wf_store t \<and> st_cfg t = st_cfg s
    \<and> (t = s \<or> (\<exists>snap. t = install_snapshot canon snap s \<and> st_revision t = st_revision s + 1))"
proof -
  have "t = s \<or> (\<exists>snap. t = install_snapshot canon snap s)"
    using assms(2) by (auto simp: Load_def bind_ok_eq_Inr split: option.splits parsed.splits)
  then show ?thesis
    using assms(1) by (auto simp: wf_install) (simp_all add: install_snapshot_def)
qed

theorem load_establishes_invariant_witness:
  "wf_store (install_snapshot (\<lambda>x. x)
     \<lparr> sn_Version = 1, sn_LastCycle = 0, sn_CycleCount = 3, sn_Records = [],
       sn_Results = [demo_result ''a'' StatusPassed] \<rparr> (New ''p'' 0))"
proof -
  let ?snap = "\<lparr> sn_Version = 1, sn_LastCycle = 0, sn_CycleCount = 3, sn_Records = [],
       sn_Results = [demo_result ''a'' StatusPassed] \<rparr>"
  have "wf_store (New ''p'' 0)" by (simp add: New_def wf_rules)
  moreover have "Load (\<lambda>x. x) (\<lambda>_. None) (\<lambda>_. Parsed ?snap []) (\<lambda>_. None) (\<lambda>_. Some ''{}'') (New ''p'' 0)
      = Inr (install_snapshot (\<lambda>x. x) ?snap (New ''p'' 0))"
    by (simp add: Load_def read_state_def is_gzip_def)
  ultimately show ?thesis using load_establishes_invariant by blast
qed

text \<open>Saving and loading preserves what serving depends on: under the same policy every record
  comes back under its link with the same samples in order, hence the same score and last passed
  latency, and with its absence count.\<close>

theorem save_load_roundtrip:
  assumes "wf_store s" "st_cfg t = st_cfg s"
    and "\<And>j x. map_of (st_records s) j = Some x \<Longrightarrow> j \<noteq> [] \<and> rec_ActiveLink x \<noteq> []"
    and "map_of (st_records s) k = Some rec"
  shows "\<exists>rec'. map_of (st_records (install_snapshot canon (make_snapshot s) t)) k = Some rec'
    \<and> rec_CanonicalLink rec' = k \<and> rec_ActiveLink rec' = rec_ActiveLink rec
    \<and> rec_AbsentCycles rec' = rec_AbsentCycles rec
    \<and> ChronologicalSamples (rec_History rec') = ChronologicalSamples (rec_History rec)
    \<and> rec_Score rec' = rec_Score rec
    \<and> rec_LastPassedLatency rec' = rec_LastPassedLatency rec \<and> rec_HasPassed rec' = rec_HasPassed rec
    \<and> res_Status (rec_Latest rec') = res_Status (rec_Latest rec)"
proof (intro exI conjI)
  let ?rec' = "load_record canon (st_cfg s) (pack_record rec)"
  have wf: "wf_record (st_cfg s) k rec" using assms(1,4) by (simp add: wf_store_def)
  show "map_of (st_records (install_snapshot canon (make_snapshot s) t)) k = Some ?rec'"
    using load_saved_lookup [OF assms(1), of "\<lambda>r. r" "make_snapshot s" canon "st_cfg s" k] assms
    by (auto simp: install_snapshot_def option.map_ident make_snapshot_def)
  have key: "rec_CanonicalLink rec = k" "k \<noteq> []" "rec_ActiveLink rec \<noteq> []"
    using wf assms(3,4) by (auto simp: wf_record_def)
  then show "rec_CanonicalLink ?rec' = k" "rec_ActiveLink ?rec' = rec_ActiveLink rec"
    "rec_AbsentCycles ?rec' = rec_AbsentCycles rec"
    "res_Status (rec_Latest ?rec') = res_Status (rec_Latest rec)"
    by (simp_all add: fill_links_links)
  have samples: "samples_of (rec_History ?rec') = samples_of (rec_History rec)"
    using wf by (simp add: wf_record_def load_pack_samples)
  have h: "wf_history (rec_History ?rec')" "wf_history (rec_History rec)"
    using wf by (simp_all add: wf_Normalize wf_record_def)
  show "ChronologicalSamples (rec_History ?rec') = ChronologicalSamples (rec_History rec)"
    using samples h by (simp add: ChronologicalSamples_eq del: load_record_fields)
  have "rec_Score ?rec' = ComputeScore (cfg_DecayLambda (st_cfg s)) (weights_of (st_cfg s)) (rec_History ?rec')"
    by (rule load_record_fields(2))
  also have "\<dots> = rec_Score rec"
    using samples h wf
    by (simp add: ComputeScore_eq wf_record_def record_derived_def del: load_record_fields)
  finally show "rec_Score ?rec' = rec_Score rec" .
  have "LastPassedLatency (rec_History ?rec') = LastPassedLatency (rec_History rec)"
    using samples h by (simp add: LastPassedLatency_eq del: load_record_fields)
  then show "rec_LastPassedLatency ?rec' = rec_LastPassedLatency rec" "rec_HasPassed ?rec' = rec_HasPassed rec"
    using load_record_latency [of canon "st_cfg s" "pack_record rec"] wf
    by (simp_all add: wf_record_def record_derived_def)
qed

theorem save_load_roundtrip_witness:
  "\<exists>rec. map_of (st_records (install_snapshot (\<lambda>x. x) (make_snapshot demo_store) demo_store)) ''a'' = Some rec"
proof -
  have only: "map_of (st_records demo_store) j = Some x \<Longrightarrow> j = ''a'' \<and> rec_ActiveLink x = ''a''" for j x
  proof -
    have "wf_store (New [] 0)" by (simp add: New_def wf_rules)
    then show "map_of (st_records demo_store) j = Some x \<Longrightarrow> j = ''a'' \<and> rec_ActiveLink x = ''a''"
      by (auto simp: demo_store_def Put_records put_record_fields put_base_wf demo_result_def New_def
          NewWithConfig_def split: if_splits)
  qed
  obtain rec where "map_of (st_records demo_store) ''a'' = Some rec" using lookup_demo_store by blast
  from save_load_roundtrip [OF wf_demo_store refl _ this, of "\<lambda>x. x"] only show ?thesis by fastforce
qed

text \<open>C9: Saving is atomic: in every state the file system goes through, and so after a crash at any
  point, the state file is the old one or the complete new one; nothing but it and the temporary file
  changes; after a failure the old file is in place and no temporary file that \<open>Save\<close> opened is left.\<close>

theorem save_atomic:
  "(\<forall>fs' \<in> set (fst (save_trace fault primary bytes fs)).
      (fs' primary = fs primary \<or> fs' primary = Some bytes)
      \<and> (\<forall>p. p \<noteq> primary \<longrightarrow> p \<noteq> tmp_path primary \<longrightarrow> fs' p = fs p))
   \<and> (snd (save_trace fault primary bytes fs) \<longleftrightarrow> fault = NoFault)
   \<and> (let end_state = last (fst (save_trace fault primary bytes fs))
      in (fault = NoFault \<longrightarrow> end_state = (fs(primary := Some bytes))(tmp_path primary := None))
       \<and> (fault \<noteq> NoFault \<longrightarrow> end_state = fs \<or> end_state = fs(tmp_path primary := None)))"
proof -
  have tmp: "tmp_path primary \<noteq> primary" by (simp add: tmp_path_def)
  then show ?thesis
    by (cases fault) (auto simp: save_trace_def Let_def)
qed

theorem save_atomic_witness:
  "snd (save_trace (WriteFails 1) ''s.gz'' ''ab'' (\<lambda>_. None)) = False
   \<and> last (fst (save_trace (WriteFails 1) ''s.gz'' ''ab'' (\<lambda>_. None))) = (\<lambda>_. None)"
proof -
  have "(\<lambda>_. None)(tmp_path ''s.gz'' := None) = (\<lambda>_. None :: string option)" by (simp add: fun_eq_iff)
  then show ?thesis
    using save_atomic [of "WriteFails 1" "''s.gz''" "''ab''" "\<lambda>_. None"] by (simp add: Let_def)
qed

end
