(* ===== verification/SnapshotCodec.thy ===== *)
theory SnapshotCodec
  imports StoreLoad
begin

text \<open>
  The format of the state file, \<open>internal/store/store.go\<close>: \<open>writeSnapshotJSON\<close> and the decoder
  \<open>fastDecodeSnapshot\<close>, whose nested loops over the members of objects are the loop of the theory
  \<open>JsonText\<close> with one handler per object. The text and the parsing of a time (\<open>time.RFC3339Nano\<close>, and
  \<open>time.RFC3339\<close> as a second attempt) are the parameters \<open>fmt\<close> and \<open>pt\<close>; what the round trip needs
  of them is stated as the hypothesis \<open>time_codec\<close>.
\<close>

section \<open>Writing\<close>

definition quoted :: "string \<Rightarrow> string" where
  "quoted s = [quote_char] @ s @ [quote_char]"

definition opt_field :: "bool \<Rightarrow> string \<Rightarrow> string \<Rightarrow> (string \<times> string) list" where
  "opt_field b k v = (if b then [(k, v)] else [])"

definition latest_fields :: "(time \<Rightarrow> string) \<Rightarrow> string \<Rightarrow> result \<Rightarrow> (string \<times> string) list" where
  "latest_fields fmt active l =
     opt_field (res_Link l \<noteq> [] \<and> res_Link l \<noteq> active) ''link'' (json_string (res_Link l))
     @ [(''status'', json_string (string_of_status (res_Status l))),
        (''reason'', json_string (res_Reason l))]
     @ opt_field (res_Category l \<noteq> NoCategory) ''category'' (json_string (string_of_category (res_Category l)))
     @ opt_field (res_StatusCode l \<noteq> 0) ''status_code'' (print_int (res_StatusCode l))
     @ [(''latency'', print_int (res_Latency l)),
        (''tested_at'', quoted (fmt (res_TestedAt l))),
        (''attempts'', print_int (res_Attempts l))]
     @ opt_field (res_TransportOK l) ''transport_ok'' ''true''
     @ opt_field (res_TransportLatency l > 0) ''transport_latency'' (print_int (res_TransportLatency l))
     @ opt_field (res_TransportEvidenceKnown l) ''transport_evidence_known'' ''true''
     @ opt_field (res_Jitter l > 0) ''jitter'' (print_int (res_Jitter l))
     @ opt_field (res_Warnings l \<noteq> []) ''warnings'' (json_array (map json_string (res_Warnings l)))"

definition sample_fields :: "(time \<Rightarrow> string) \<Rightarrow> probe_sample \<Rightarrow> (string \<times> string) list" where
  "sample_fields fmt s =
     [(''cycle_id'', print_nat (unat (ps_CycleID s))),
      (''tested_at'', quoted (fmt (ps_TestedAt s))),
      (''status'', json_string (string_of_status (ps_Status s))),
      (''category'', json_string (string_of_category (ps_Category s)))]
     @ opt_field (ps_StatusCode s \<noteq> 0) ''status_code'' (print_int (ps_StatusCode s))
     @ opt_field (ps_Latency s > 0) ''latency'' (print_int (ps_Latency s))
     @ [(''attempts'', print_int (ps_Attempts s))]
     @ opt_field (ps_TransportOK s) ''transport_ok'' ''true''
     @ opt_field (ps_TransportLatency s > 0) ''transport_latency'' (print_int (ps_TransportLatency s))
     @ opt_field (ps_TransportEvidenceKnown s) ''transport_evidence_known'' ''true''
     @ opt_field (ps_Jitter s > 0) ''jitter'' (print_int (ps_Jitter s))
     @ opt_field (ps_ClaudeStatus s \<noteq> NoStatus) ''claude_status''
         (json_string (string_of_status (ps_ClaudeStatus s)))
     @ opt_field (ps_ClaudeCategory s \<noteq> NoCategory) ''claude_category''
         (json_string (string_of_category (ps_ClaudeCategory s)))
     @ opt_field (ps_ClaudeLatency s > 0) ''claude_latency'' (print_int (ps_ClaudeLatency s))"

definition history_fields :: "(time \<Rightarrow> string) \<Rightarrow> bounded_history \<Rightarrow> (string \<times> string) list" where
  "history_fields fmt h =
     [(''capacity'', print_int (bh_Capacity h)), (''count'', print_int (bh_Count h)),
      (''samples'', json_array (map (\<lambda>s. json_object (sample_fields fmt s)) (bh_Samples h)))]"

definition record_fields :: "(time \<Rightarrow> string) \<Rightarrow> candidate_record \<Rightarrow> (string \<times> string) list" where
  "record_fields fmt r =
     [(''canonical_link'', json_string (rec_CanonicalLink r)),
      (''active_link'', json_string (rec_ActiveLink r))]
     @ opt_field (rec_AbsentCycles r > 0) ''absent_cycles'' (print_int (rec_AbsentCycles r))
     @ [(''latest'', json_object (latest_fields fmt (rec_ActiveLink r) (rec_Latest r))),
        (''history'', json_object (history_fields fmt (rec_History r)))]"

text \<open>The loop over the records: a comma before every record but the one at index 0.\<close>

fun print_records :: "(time \<Rightarrow> string) \<Rightarrow> nat \<Rightarrow> candidate_record option list \<Rightarrow> string" where
  "print_records fmt i [] = []"
| "print_records fmt i (None # rs) = print_records fmt (Suc i) rs"
| "print_records fmt i (Some r # rs) =
     (if i > 0 then '','' else []) @ json_object (record_fields fmt r) @ print_records fmt (Suc i) rs"

definition writeSnapshotJSON :: "(time \<Rightarrow> string) \<Rightarrow> snapshot \<Rightarrow> string" where
  "writeSnapshotJSON fmt snap =
     ''{'' @ quoted ''version'' @ '':'' @ print_int (sn_Version snap)
     @ '','' @ quoted ''last_cycle'' @ '':'' @ quoted (fmt (sn_LastCycle snap))
     @ '','' @ quoted ''cycle_count'' @ '':'' @ print_int (sn_CycleCount snap)
     @ '','' @ quoted ''records'' @ '':'' @ ''['' @ print_records fmt 0 (sn_Records snap)
     @ '']'' @ ''}''"

section \<open>Reading\<close>

definition with_value :: "(string \<Rightarrow> ('v \<times> string) option) \<Rightarrow> ('v \<Rightarrow> 'a \<Rightarrow> 'a) \<Rightarrow> 'a \<Rightarrow> string \<Rightarrow> 'a parsed" where
  "with_value p f a s = (case p s of None \<Rightarrow> Rejected | Some (v, r) \<Rightarrow> Parsed (f v a) r)"

definition parse_time :: "(string \<Rightarrow> time option) \<Rightarrow> string \<Rightarrow> (time \<times> string) option" where
  "parse_time pt s =
     (case parseStringBytes s of None \<Rightarrow> None | Some (txt, r) \<Rightarrow> map_option (\<lambda>t. (t, r)) (pt txt))"

definition then_parsed :: "('v \<Rightarrow> 'a \<Rightarrow> 'a) \<Rightarrow> 'a \<Rightarrow> 'v parsed \<Rightarrow> 'a parsed" where
  "then_parsed f a p = (case p of Parsed v r \<Rightarrow> Parsed (f v a) r | Rejected \<Rightarrow> Rejected | Panicked \<Rightarrow> Panicked)"

abbreviation skip_member :: "'a \<Rightarrow> string \<Rightarrow> 'a parsed" where
  "skip_member a s \<equiv> then_parsed (\<lambda>_ x. x) a (skipValue s)"

definition latest_member :: "(string \<Rightarrow> time option) \<Rightarrow> string \<Rightarrow> result \<Rightarrow> string \<Rightarrow> result parsed" where
  "latest_member pt key l s =
     (if key = ''link'' then with_value parseStringBytes (\<lambda>v l. l \<lparr> res_Link := v \<rparr>) l s
      else if key = ''status'' then
        with_value parseStringBytes (\<lambda>v l. l \<lparr> res_Status := status_of_string v \<rparr>) l s
      else if key = ''reason'' then with_value parseStringBytes (\<lambda>v l. l \<lparr> res_Reason := v \<rparr>) l s
      else if key = ''category'' then
        with_value parseStringBytes (\<lambda>v l. l \<lparr> res_Category := category_of_string v \<rparr>) l s
      else if key = ''status_code'' then with_value parseInt (\<lambda>v l. l \<lparr> res_StatusCode := v \<rparr>) l s
      else if key = ''latency'' then with_value parseInt (\<lambda>v l. l \<lparr> res_Latency := v \<rparr>) l s
      else if key = ''tested_at'' then with_value (parse_time pt) (\<lambda>v l. l \<lparr> res_TestedAt := v \<rparr>) l s
      else if key = ''attempts'' then with_value parseInt (\<lambda>v l. l \<lparr> res_Attempts := v \<rparr>) l s
      else if key = ''transport_ok'' then with_value parseBool (\<lambda>v l. l \<lparr> res_TransportOK := v \<rparr>) l s
      else if key = ''transport_latency'' then
        with_value parseInt (\<lambda>v l. l \<lparr> res_TransportLatency := v \<rparr>) l s
      else if key = ''transport_evidence_known'' then
        with_value parseBool (\<lambda>v l. l \<lparr> res_TransportEvidenceKnown := v \<rparr>) l s
      else if key = ''jitter'' then with_value parseInt (\<lambda>v l. l \<lparr> res_Jitter := v \<rparr>) l s
      else if key = ''warnings'' then
        then_parsed (\<lambda>ws l. l \<lparr> res_Warnings := ws \<rparr>) l
          (parse_array (\<lambda>t. as_parsed (parseStringBytes t)) s)
      else skip_member l s)"

definition sample_member ::
  "(string \<Rightarrow> time option) \<Rightarrow> string \<Rightarrow> probe_sample \<Rightarrow> string \<Rightarrow> probe_sample parsed" where
  "sample_member pt key x s =
     (if key = ''cycle_id'' then with_value parseUint (\<lambda>v x. x \<lparr> ps_CycleID := v \<rparr>) x s
      else if key = ''tested_at'' then with_value (parse_time pt) (\<lambda>v x. x \<lparr> ps_TestedAt := v \<rparr>) x s
      else if key = ''status'' then
        with_value parseStringBytes (\<lambda>v x. x \<lparr> ps_Status := status_of_string v \<rparr>) x s
      else if key = ''category'' then
        with_value parseStringBytes (\<lambda>v x. x \<lparr> ps_Category := category_of_string v \<rparr>) x s
      else if key = ''status_code'' then with_value parseInt (\<lambda>v x. x \<lparr> ps_StatusCode := v \<rparr>) x s
      else if key = ''latency'' then with_value parseInt (\<lambda>v x. x \<lparr> ps_Latency := v \<rparr>) x s
      else if key = ''attempts'' then with_value parseInt (\<lambda>v x. x \<lparr> ps_Attempts := v \<rparr>) x s
      else if key = ''transport_ok'' then with_value parseBool (\<lambda>v x. x \<lparr> ps_TransportOK := v \<rparr>) x s
      else if key = ''transport_latency'' then
        with_value parseInt (\<lambda>v x. x \<lparr> ps_TransportLatency := v \<rparr>) x s
      else if key = ''transport_evidence_known'' then
        with_value parseBool (\<lambda>v x. x \<lparr> ps_TransportEvidenceKnown := v \<rparr>) x s
      else if key = ''jitter'' then with_value parseInt (\<lambda>v x. x \<lparr> ps_Jitter := v \<rparr>) x s
      else if key = ''claude_status'' then
        with_value parseStringBytes (\<lambda>v x. x \<lparr> ps_ClaudeStatus := status_of_string v \<rparr>) x s
      else if key = ''claude_category'' then
        with_value parseStringBytes (\<lambda>v x. x \<lparr> ps_ClaudeCategory := category_of_string v \<rparr>) x s
      else if key = ''claude_latency'' then with_value parseInt (\<lambda>v x. x \<lparr> ps_ClaudeLatency := v \<rparr>) x s
      else skip_member x s)"

text \<open>
  \<open>make([]ProbeSample, 0, count)\<close> panics for a negative capacity and for one whose size, at 160 bytes
  a sample, exceeds the address space of 2^48 bytes.
\<close>

definition alloc_panics :: "int \<Rightarrow> bool" where
  "alloc_panics cap = (cap < 0 \<or> cap * 160 > 2 ^ 48)"

definition history_member ::
  "(string \<Rightarrow> time option) \<Rightarrow> string \<Rightarrow> bounded_history \<Rightarrow> string \<Rightarrow> bounded_history parsed" where
  "history_member pt key h s =
     (if key = ''capacity'' then with_value parseInt (\<lambda>v h. h \<lparr> bh_Capacity := v \<rparr>) h s
      else if key = ''count'' then with_value parseInt (\<lambda>v h. h \<lparr> bh_Count := v \<rparr>) h s
      else if key = ''start'' then with_value parseInt (\<lambda>v h. h \<lparr> bh_Start := v \<rparr>) h s
      else if key = ''samples'' then
        (case consume (CHR ''['') s of
           None \<Rightarrow> Rejected
         | Some _ \<Rightarrow>
             if alloc_panics (bh_Count h) then Panicked
             else then_parsed (\<lambda>xs h. h \<lparr> bh_Samples := xs \<rparr>) h
                    (parse_array (parse_object (sample_member pt) zero_sample) s))
      else skip_member h s)"

definition record_member ::
  "(string \<Rightarrow> time option) \<Rightarrow> string \<Rightarrow> candidate_record \<Rightarrow> string \<Rightarrow> candidate_record parsed" where
  "record_member pt key r s =
     (if key = ''canonical_link'' then
        with_value parseStringBytes (\<lambda>v r. r \<lparr> rec_CanonicalLink := v \<rparr>) r s
      else if key = ''active_link'' then
        with_value parseStringBytes (\<lambda>v r. r \<lparr> rec_ActiveLink := v \<rparr>) r s
      else if key = ''absent_cycles'' then with_value parseInt (\<lambda>v r. r \<lparr> rec_AbsentCycles := v \<rparr>) r s
      else if key = ''score'' \<or> key = ''has_passed'' \<or> key = ''last_passed_latency'' then skip_member r s
      else if key = ''latest'' then
        then_parsed (\<lambda>l r. r \<lparr> rec_Latest := l \<rparr>) r (parse_object (latest_member pt) (rec_Latest r) s)
      else if key = ''history'' then
        then_parsed (\<lambda>h r. r \<lparr> rec_History := h \<rparr>) r (parse_object (history_member pt) (rec_History r) s)
      else skip_member r s)"

definition zero_history :: bounded_history where
  "zero_history = \<lparr> bh_Capacity = 0, bh_Count = 0, bh_Start = 0, bh_Samples = [] \<rparr>"

definition zero_record :: candidate_record where
  "zero_record =
     \<lparr> rec_CanonicalLink = [], rec_ActiveLink = [], rec_Score = 0, rec_AbsentCycles = 0,
       rec_LastPassedLatency = 0, rec_HasPassed = False, rec_Latest = zero_result,
       rec_History = zero_history, rec_Services = [] \<rparr>"

definition snapshot_member ::
  "(string \<Rightarrow> time option) \<Rightarrow> string \<Rightarrow> snapshot \<times> bool \<Rightarrow> string \<Rightarrow> (snapshot \<times> bool) parsed" where
  "snapshot_member pt key st s =
     (if key = ''version'' then with_value parseInt (\<lambda>v (sn, b). (sn \<lparr> sn_Version := v \<rparr>, b)) st s
      else if key = ''last_cycle'' then
        with_value (parse_time pt) (\<lambda>v (sn, b). (sn \<lparr> sn_LastCycle := v \<rparr>, b)) st s
      else if key = ''cycle_count'' then
        with_value parseInt (\<lambda>v (sn, b). (sn \<lparr> sn_CycleCount := v \<rparr>, b)) st s
      else if key = ''records'' then
        then_parsed (\<lambda>rs (sn, _). (sn \<lparr> sn_Records := map Some rs \<rparr>, True)) st
          (parse_array (parse_object (record_member pt) zero_record) s)
      else skip_member st s)"

definition fastDecodeSnapshot :: "(string \<Rightarrow> time option) \<Rightarrow> string \<Rightarrow> snapshot parsed" where
  "fastDecodeSnapshot pt data =
     (case parse_object (snapshot_member pt)
             (\<lparr> sn_Version = 0, sn_LastCycle = 0, sn_CycleCount = 0, sn_Records = [], sn_Results = [] \<rparr>,
              False) data of
        Parsed (snap, hasRecords) rest \<Rightarrow>
          if \<not> hasRecords then Rejected
          else if skipWhitespace rest \<noteq> [] then Rejected else Parsed snap []
      | Rejected \<Rightarrow> Rejected
      | Panicked \<Rightarrow> Panicked)"

section \<open>What is written and read back\<close>

text \<open>The documented behaviour of \<open>time.Format\<close> and \<open>time.Parse\<close> the round trip relies on.\<close>

definition time_codec :: "(time \<Rightarrow> string) \<Rightarrow> (string \<Rightarrow> time option) \<Rightarrow> bool" where
  "time_codec fmt pt = (\<forall>t. pt (fmt t) = Some t \<and> list_all plain_char (fmt t))"

definition int64 :: "int \<Rightarrow> bool" where
  "int64 i = (- (2 ^ 63) \<le> i \<and> i < 2 ^ 63)"

text \<open>The values a Go record can hold: 64-bit integers, statuses and categories given by their text.\<close>

definition sample_ok :: "probe_sample \<Rightarrow> bool" where
  "sample_ok s =
     (int64 (ps_StatusCode s) \<and> int64 (ps_Latency s) \<and> int64 (ps_Attempts s)
      \<and> int64 (ps_TransportLatency s) \<and> int64 (ps_Jitter s) \<and> int64 (ps_ClaudeLatency s)
      \<and> canonical_status (ps_Status s) \<and> canonical_category (ps_Category s)
      \<and> canonical_status (ps_ClaudeStatus s) \<and> canonical_category (ps_ClaudeCategory s))"

definition latest_ok :: "result \<Rightarrow> bool" where
  "latest_ok l =
     (int64 (res_StatusCode l) \<and> int64 (res_Latency l) \<and> int64 (res_Attempts l)
      \<and> int64 (res_TransportLatency l) \<and> int64 (res_Jitter l)
      \<and> canonical_status (res_Status l) \<and> canonical_category (res_Category l))"

definition record_ok :: "candidate_record \<Rightarrow> bool" where
  "record_ok r =
     (int64 (rec_AbsentCycles r) \<and> latest_ok (rec_Latest r)
      \<and> int64 (bh_Capacity (rec_History r)) \<and> int64 (bh_Count (rec_History r))
      \<and> \<not> alloc_panics (bh_Count (rec_History r)) \<and> list_all sample_ok (bh_Samples (rec_History r)))"

text \<open>What the file keeps: negative durations, derived values and per-service results are dropped.\<close>

definition kept_sample :: "probe_sample \<Rightarrow> probe_sample" where
  "kept_sample s =
     s \<lparr> ps_Latency := max 0 (ps_Latency s), ps_TransportLatency := max 0 (ps_TransportLatency s),
         ps_Jitter := max 0 (ps_Jitter s), ps_ClaudeLatency := max 0 (ps_ClaudeLatency s) \<rparr>"

definition kept_latest :: "string \<Rightarrow> result \<Rightarrow> result" where
  "kept_latest active l =
     l \<lparr> res_Link := (if res_Link l = active then [] else res_Link l), res_Passed := False,
         res_ConsecutiveInconclusive := 0, res_PreviouslyPassed := False,
         res_TransportLatency := max 0 (res_TransportLatency l), res_Jitter := max 0 (res_Jitter l),
         res_Services := [] \<rparr>"

definition kept_record :: "candidate_record \<Rightarrow> candidate_record" where
  "kept_record r =
     zero_record \<lparr> rec_CanonicalLink := rec_CanonicalLink r, rec_ActiveLink := rec_ActiveLink r,
       rec_AbsentCycles := max 0 (rec_AbsentCycles r),
       rec_Latest := kept_latest (rec_ActiveLink r) (rec_Latest r),
       rec_History := (rec_History r) \<lparr> bh_Start := 0, bh_Samples := map kept_sample (bh_Samples (rec_History r)) \<rparr> \<rparr>"

section \<open>Each object is read as it was written\<close>

text \<open>A member is read by a handler, with an effect on the value; and a list of members.\<close>

definition reads :: "(string \<Rightarrow> 'a \<Rightarrow> string \<Rightarrow> 'a parsed) \<Rightarrow> string \<Rightarrow> string \<Rightarrow> ('a \<Rightarrow> 'a) \<Rightarrow> bool" where
  "reads h k v u = (list_all plain_char k \<and> (\<forall>a r. follows r \<longrightarrow> h k a (v @ r) = Parsed (u a) r))"

definition reads_all :: "(string \<Rightarrow> 'a \<Rightarrow> string \<Rightarrow> 'a parsed) \<Rightarrow> (string \<times> string) list \<Rightarrow> ('a \<Rightarrow> 'a) \<Rightarrow> bool" where
  "reads_all h kvs u = (list_all (good_member h) kvs \<and> fold (apply_member h) kvs = u)"

lemma reads_member: "reads h k v u \<Longrightarrow> good_member h (k, v) \<and> apply_member h (k, v) = u"
  by (auto simp: reads_def good_member_def apply_member_def fun_eq_iff list_all_iff)

lemma reads_all_Nil: "reads_all h [] (\<lambda>a. a)"
  by (simp add: reads_all_def id_def)

lemma reads_all_Cons: "reads h k v u \<Longrightarrow> reads_all h fs w \<Longrightarrow> reads_all h ((k, v) # fs) (\<lambda>a. w (u a))"
  using reads_member [of h k v u] by (auto simp: reads_all_def comp_def)

lemma reads_all_append:
  "reads_all h fs u \<Longrightarrow> reads_all h gs w \<Longrightarrow> reads_all h (fs @ gs) (\<lambda>a. w (u a))"
  by (auto simp: reads_all_def comp_def)

lemma reads_all_opt:
  "(b \<Longrightarrow> reads h k v u) \<Longrightarrow> reads_all h (opt_field b k v) (\<lambda>a. if b then u a else a)"
  using reads_member [of h k v u] by (auto simp: reads_all_def opt_field_def id_def)

lemma reads_all_object:
  "reads_all h kvs u \<Longrightarrow> parse_object h a (json_object kvs @ rest) = Parsed (u a) rest"
  by (auto simp: reads_all_def parse_json_object)

lemmas reads_all_intros = reads_all_append reads_all_Cons reads_all_Nil reads_all_opt

lemma reads_value:
  assumes "list_all plain_char k" "\<And>r. follows r \<Longrightarrow> p (v @ r) = Some (x, r)"
    and "\<And>a s. h k a s = with_value p f a s"
  shows "reads h k v (f x)"
  using assms by (simp add: reads_def with_value_def)

lemma reads_then:
  assumes "list_all plain_char k" "\<And>a r. follows r \<Longrightarrow> q a (v @ r) = Parsed (x a) r"
    and "\<And>a s. follows s \<Longrightarrow> h k a (v @ s) = then_parsed f a (q a (v @ s))"
  shows "reads h k v (\<lambda>a. f (x a) a)"
  using assms by (simp add: reads_def then_parsed_def)

lemma parse_time_quoted [parse_simps]:
  "time_codec fmt pt \<Longrightarrow> parse_time pt (quoted (fmt t) @ r) = Some (t, r)"
  using parse_plain_key [of "fmt t" r] by (simp add: time_codec_def parse_time_def quoted_def)

lemma parse_true [parse_simps]: "follows r \<Longrightarrow> parseBool (''true'' @ r) = Some (True, r)"
  by (rule parse_print_true)

lemmas parse_true_chars [parse_simps] = parse_true [simplified]

lemma parse_int64 [parse_simps]: "int64 i \<Longrightarrow> follows r \<Longrightarrow> parseInt (print_int i @ r) = Some (i, r)"
  by (simp add: int64_def)

lemma starts_json_string [simp]: "starts_value (json_string s)"
  by (simp add: starts_value_def json_string_def)

lemma starts_json_object [simp]: "starts_value (json_object fs)"
  by (simp add: starts_value_def json_object_def)

lemma parse_strings:
  "parse_array (\<lambda>t. as_parsed (parseStringBytes t)) (json_array (map json_string ws) @ r) = Parsed ws r"
  using parse_json_array [of ws "\<lambda>t. as_parsed (parseStringBytes t)" json_string "\<lambda>w. w" r]
  by (simp add: as_parsed_def)

text \<open>The handlers, one key at a time.\<close>

lemmas plain_simps = plain_char_def char_code_def

lemma sample_keys:
  "sample_member pt ''cycle_id'' x s = with_value parseUint (\<lambda>v x. x \<lparr> ps_CycleID := v \<rparr>) x s"
  "sample_member pt ''tested_at'' x s = with_value (parse_time pt) (\<lambda>v x. x \<lparr> ps_TestedAt := v \<rparr>) x s"
  "sample_member pt ''status'' x s =
     with_value parseStringBytes (\<lambda>v x. x \<lparr> ps_Status := status_of_string v \<rparr>) x s"
  "sample_member pt ''category'' x s =
     with_value parseStringBytes (\<lambda>v x. x \<lparr> ps_Category := category_of_string v \<rparr>) x s"
  "sample_member pt ''status_code'' x s = with_value parseInt (\<lambda>v x. x \<lparr> ps_StatusCode := v \<rparr>) x s"
  "sample_member pt ''latency'' x s = with_value parseInt (\<lambda>v x. x \<lparr> ps_Latency := v \<rparr>) x s"
  "sample_member pt ''attempts'' x s = with_value parseInt (\<lambda>v x. x \<lparr> ps_Attempts := v \<rparr>) x s"
  "sample_member pt ''transport_ok'' x s = with_value parseBool (\<lambda>v x. x \<lparr> ps_TransportOK := v \<rparr>) x s"
  "sample_member pt ''transport_latency'' x s =
     with_value parseInt (\<lambda>v x. x \<lparr> ps_TransportLatency := v \<rparr>) x s"
  "sample_member pt ''transport_evidence_known'' x s =
     with_value parseBool (\<lambda>v x. x \<lparr> ps_TransportEvidenceKnown := v \<rparr>) x s"
  "sample_member pt ''jitter'' x s = with_value parseInt (\<lambda>v x. x \<lparr> ps_Jitter := v \<rparr>) x s"
  "sample_member pt ''claude_status'' x s =
     with_value parseStringBytes (\<lambda>v x. x \<lparr> ps_ClaudeStatus := status_of_string v \<rparr>) x s"
  "sample_member pt ''claude_category'' x s =
     with_value parseStringBytes (\<lambda>v x. x \<lparr> ps_ClaudeCategory := category_of_string v \<rparr>) x s"
  "sample_member pt ''claude_latency'' x s = with_value parseInt (\<lambda>v x. x \<lparr> ps_ClaudeLatency := v \<rparr>) x s"
  by (simp_all add: sample_member_def)

lemma latest_keys:
  "latest_member pt ''link'' l s = with_value parseStringBytes (\<lambda>v l. l \<lparr> res_Link := v \<rparr>) l s"
  "latest_member pt ''status'' l s =
     with_value parseStringBytes (\<lambda>v l. l \<lparr> res_Status := status_of_string v \<rparr>) l s"
  "latest_member pt ''reason'' l s = with_value parseStringBytes (\<lambda>v l. l \<lparr> res_Reason := v \<rparr>) l s"
  "latest_member pt ''category'' l s =
     with_value parseStringBytes (\<lambda>v l. l \<lparr> res_Category := category_of_string v \<rparr>) l s"
  "latest_member pt ''status_code'' l s = with_value parseInt (\<lambda>v l. l \<lparr> res_StatusCode := v \<rparr>) l s"
  "latest_member pt ''latency'' l s = with_value parseInt (\<lambda>v l. l \<lparr> res_Latency := v \<rparr>) l s"
  "latest_member pt ''tested_at'' l s = with_value (parse_time pt) (\<lambda>v l. l \<lparr> res_TestedAt := v \<rparr>) l s"
  "latest_member pt ''attempts'' l s = with_value parseInt (\<lambda>v l. l \<lparr> res_Attempts := v \<rparr>) l s"
  "latest_member pt ''transport_ok'' l s = with_value parseBool (\<lambda>v l. l \<lparr> res_TransportOK := v \<rparr>) l s"
  "latest_member pt ''transport_latency'' l s =
     with_value parseInt (\<lambda>v l. l \<lparr> res_TransportLatency := v \<rparr>) l s"
  "latest_member pt ''transport_evidence_known'' l s =
     with_value parseBool (\<lambda>v l. l \<lparr> res_TransportEvidenceKnown := v \<rparr>) l s"
  "latest_member pt ''jitter'' l s = with_value parseInt (\<lambda>v l. l \<lparr> res_Jitter := v \<rparr>) l s"
  by (simp_all add: latest_member_def)

lemma record_keys:
  "record_member pt ''canonical_link'' r s =
     with_value parseStringBytes (\<lambda>v r. r \<lparr> rec_CanonicalLink := v \<rparr>) r s"
  "record_member pt ''active_link'' r s =
     with_value parseStringBytes (\<lambda>v r. r \<lparr> rec_ActiveLink := v \<rparr>) r s"
  "record_member pt ''absent_cycles'' r s = with_value parseInt (\<lambda>v r. r \<lparr> rec_AbsentCycles := v \<rparr>) r s"
  "history_member pt ''capacity'' h s = with_value parseInt (\<lambda>v h. h \<lparr> bh_Capacity := v \<rparr>) h s"
  "history_member pt ''count'' h s = with_value parseInt (\<lambda>v h. h \<lparr> bh_Count := v \<rparr>) h s"
  "snapshot_member pt ''version'' st s = with_value parseInt (\<lambda>v (sn, b). (sn \<lparr> sn_Version := v \<rparr>, b)) st s"
  "snapshot_member pt ''last_cycle'' st s =
     with_value (parse_time pt) (\<lambda>v (sn, b). (sn \<lparr> sn_LastCycle := v \<rparr>, b)) st s"
  "snapshot_member pt ''cycle_count'' st s =
     with_value parseInt (\<lambda>v (sn, b). (sn \<lparr> sn_CycleCount := v \<rparr>, b)) st s"
  by (simp_all add: record_member_def history_member_def snapshot_member_def)

lemmas reads_key =
  sample_keys [THEN reads_value [where h = "sample_member pt" for pt, rotated 2]]
  latest_keys [THEN reads_value [where h = "latest_member pt" for pt, rotated 2]]
  record_keys(1-3) [THEN reads_value [where h = "record_member pt" for pt, rotated 2]]
  record_keys(4-5) [THEN reads_value [where h = "history_member pt" for pt, rotated 2]]
  record_keys(6-8) [THEN reads_value [where h = "snapshot_member pt" for pt, rotated 2]]

lemmas sample_if =
  if_distrib [of ps_CycleID] if_distrib [of ps_TestedAt] if_distrib [of ps_Status]
  if_distrib [of ps_Category] if_distrib [of ps_StatusCode] if_distrib [of ps_Latency]
  if_distrib [of ps_ClaudeStatus] if_distrib [of ps_ClaudeCategory] if_distrib [of ps_ClaudeLatency]
  if_distrib [of ps_Attempts] if_distrib [of ps_TransportOK] if_distrib [of ps_TransportLatency]
  if_distrib [of ps_TransportEvidenceKnown] if_distrib [of ps_Jitter]

lemmas latest_if =
  if_distrib [of res_Link] if_distrib [of res_Status] if_distrib [of res_Passed]
  if_distrib [of res_Reason] if_distrib [of res_Category] if_distrib [of res_StatusCode]
  if_distrib [of res_Latency] if_distrib [of res_TestedAt] if_distrib [of res_Attempts]
  if_distrib [of res_ConsecutiveInconclusive] if_distrib [of res_PreviouslyPassed]
  if_distrib [of res_Warnings] if_distrib [of res_TransportOK] if_distrib [of res_TransportLatency]
  if_distrib [of res_TransportEvidenceKnown] if_distrib [of res_Jitter] if_distrib [of res_Services]

lemma sample_fields_read:
  assumes "time_codec fmt pt" "sample_ok s"
  shows "parse_object (sample_member pt) zero_sample (json_object (sample_fields fmt s) @ rest) =
    Parsed (kept_sample s) rest"
proof -
  note ok = assms(2) [unfolded sample_ok_def canonical_status_def canonical_category_def]
  have "\<exists>u. reads_all (sample_member pt) (sample_fields fmt s) u \<and> u zero_sample = kept_sample s"
    unfolding sample_fields_def
    apply (intro exI conjI)
     apply ((rule reads_all_intros | rule reads_key | simp add: plain_simps parse_simps assms ok)+)[1]
    apply (rule probe_sample.equality)
    apply (use ok in \<open>simp_all add: sample_if kept_sample_def max_def\<close>)
    apply (simp_all add: zero_sample_def)
    done
  then show ?thesis by (metis reads_all_object)
qed

lemma warnings_read:
  "reads (latest_member pt) ''warnings'' (json_array (map json_string ws)) (\<lambda>l. l \<lparr> res_Warnings := ws \<rparr>)"
  by (simp add: reads_def latest_member_def parse_strings then_parsed_def plain_simps)

lemma latest_fields_read:
  assumes "time_codec fmt pt" "latest_ok l"
  obtains u where "reads_all (latest_member pt) (latest_fields fmt active l) u"
    "u zero_result = kept_latest active l"
proof -
  note ok = assms(2) [unfolded latest_ok_def canonical_status_def canonical_category_def]
  have "\<exists>u. reads_all (latest_member pt) (latest_fields fmt active l) u \<and> u zero_result = kept_latest active l"
    unfolding latest_fields_def
    apply (intro exI conjI)
     apply ((rule reads_all_intros | rule reads_key warnings_read | simp add: plain_simps parse_simps assms ok)+)[1]
    apply (rule result.equality)
    apply (use ok in \<open>simp_all add: latest_if kept_latest_def max_def\<close>)
    apply (auto simp add: zero_result_def)
    done
  then show ?thesis using that by blast
qed

text \<open>
  The samples are allocated for the count that was read before them, so the members of a history are
  followed one by one.
\<close>

lemma members_step:
  assumes "list_all plain_char k" "h k a (v @ CHR '','' # quote_char # t) = Parsed a' (CHR '','' # quote_char # t)"
  shows "members (Suc n) h a (json_member (k, v) @ CHR '','' # quote_char # t) = members n h a' (quote_char # t)"
  using assms by (simp add: json_member_append parse_plain_key consume_Cons)

lemma members_last:
  assumes "list_all plain_char k" "h k a (v @ CHR ''}'' # t) = Parsed a' (CHR ''}'' # t)"
  shows "members (Suc n) h a (json_member (k, v) @ CHR ''}'' # t) = Parsed a' t"
  using assms by (simp add: json_member_append parse_plain_key consume_Cons)

lemma members_panic:
  assumes "list_all plain_char k" "h k a (v @ t) = Panicked"
  shows "members (Suc n) h a (json_member (k, v) @ t) = Panicked"
  using assms by (simp add: json_member_append parse_plain_key consume_Cons)

text \<open>A panic inside the first member of an object, or the first element of an array.\<close>

lemma object_panic:
  assumes "\<And>n. members (Suc (Suc n)) h a (json_member kv @ t) = Panicked"
  shows "parse_object h a (CHR ''{'' # json_member kv @ t) = Panicked"
proof -
  obtain n where "length (json_member kv @ t) = Suc (Suc n)" by (simp add: json_member_def)
  moreover have "consume (CHR ''}'') (json_member kv @ t) = None" by (simp add: json_member_def consume_Cons)
  moreover have "consume (CHR ''{'') (CHR ''{'' # json_member kv @ t) = Some (json_member kv @ t)"
    by (simp add: consume_Cons)
  ultimately show ?thesis using assms by (simp only: parse_object_def option.case)
qed

lemma array_panic:
  assumes "p (CHR ''{'' # t) = Panicked"
  shows "parse_array p (CHR ''['' # CHR ''{'' # t) = Panicked"
  using assms by (simp add: parse_array_def consume_Cons)

lemma samples_read:
  assumes "time_codec fmt pt" "list_all sample_ok xs"
  shows "parse_array (parse_object (sample_member pt) zero_sample)
      (json_array (map (\<lambda>s. json_object (sample_fields fmt s)) xs) @ rest) = Parsed (map kept_sample xs) rest"
  using assms by (intro parse_json_array) (auto simp: sample_fields_read list_all_iff)

lemma history_fields_read:
  assumes "time_codec fmt pt" "int64 (bh_Capacity h)" "int64 (bh_Count h)" "\<not> alloc_panics (bh_Count h)"
    "list_all sample_ok (bh_Samples h)"
  shows "parse_object (history_member pt) h0 (json_object (history_fields fmt h) @ rest) =
    Parsed (h0 \<lparr> bh_Capacity := bh_Capacity h, bh_Count := bh_Count h,
                 bh_Samples := map kept_sample (bh_Samples h) \<rparr>) rest"
proof -
  let ?arr = "json_array (map (\<lambda>s. json_object (sample_fields fmt s)) (bh_Samples h))"
  let ?m1 = "json_member (''capacity'', print_int (bh_Capacity h))"
  let ?m2 = "json_member (''count'', print_int (bh_Count h))"
  let ?m3 = "json_member (''samples'', ?arr)"
  let ?h1 = "h0 \<lparr> bh_Capacity := bh_Capacity h \<rparr>"
  let ?h2 = "?h1 \<lparr> bh_Count := bh_Count h \<rparr>"
  let ?h3 = "?h2 \<lparr> bh_Samples := map kept_sample (bh_Samples h) \<rparr>"
  have 1: "members (Suc n) (history_member pt) h0 (?m1 @ CHR '','' # ?m2 @ r) =
      members n (history_member pt) ?h1 (?m2 @ r)" for n r
  proof -
    obtain t where t: "?m2 @ r = quote_char # t" by (simp add: json_member_def)
    show ?thesis
      unfolding t
      by (rule members_step) (simp_all add: plain_simps record_keys with_value_def parse_simps assms)
  qed
  have 2: "members (Suc n) (history_member pt) ?h1 (?m2 @ CHR '','' # ?m3 @ r) =
      members n (history_member pt) ?h2 (?m3 @ r)" for n r
  proof -
    obtain t where t: "?m3 @ r = quote_char # t" by (simp add: json_member_def)
    show ?thesis
      unfolding t
      by (rule members_step) (simp_all add: plain_simps record_keys with_value_def parse_simps assms)
  qed
  have 3: "members (Suc n) (history_member pt) ?h2 (?m3 @ CHR ''}'' # rest) = Parsed ?h3 rest" for n
  proof (rule members_last)
    have "history_member pt ''samples'' ?h2 (?arr @ t) = Parsed ?h3 t" for t
      using assms samples_read [OF assms(1,5), of t]
      by (simp add: history_member_def then_parsed_def)
         (simp add: json_array_def consume_Cons then_parsed_def)
    then show "history_member pt ''samples'' ?h2 (?arr @ CHR ''}'' # rest) = Parsed ?h3 (CHR ''}'' # rest)" .
  qed (simp add: plain_simps)
  let ?body = "?m1 @ CHR '','' # ?m2 @ CHR '','' # ?m3 @ CHR ''}'' # rest"
  have obj: "json_object (history_fields fmt h) @ rest = CHR ''{'' # ?body"
    by (simp add: json_object_def history_fields_def)
  have "consume (CHR ''}'') ?body = None" by (simp add: json_member_def consume_Cons)
  moreover obtain n where n: "length ?body = Suc (Suc (Suc n))"
    by (simp add: json_member_def)
  moreover have "consume (CHR ''{'') (CHR ''{'' # ?body) = Some ?body" by (simp add: consume_Cons)
  ultimately have "parse_object (history_member pt) h0 (CHR ''{'' # ?body) = Parsed ?h3 rest"
    by (simp only: parse_object_def option.case 1 2 3)
  then show ?thesis unfolding obj by simp
qed

lemma record_fields_read:
  assumes codec: "time_codec fmt pt" and ok: "record_ok r"
  shows "parse_object (record_member pt) zero_record (json_object (record_fields fmt r) @ rest) =
    Parsed (kept_record r) rest"
proof -
  obtain u where u: "reads_all (latest_member pt) (latest_fields fmt (rec_ActiveLink r) (rec_Latest r)) u"
    "u zero_result = kept_latest (rec_ActiveLink r) (rec_Latest r)"
    using latest_fields_read [OF codec, of "rec_Latest r" "rec_ActiveLink r"] ok by (auto simp: record_ok_def)
  have latest: "reads (record_member pt) ''latest'' (json_object (latest_fields fmt (rec_ActiveLink r) (rec_Latest r)))
      (\<lambda>x. x \<lparr> rec_Latest := u (rec_Latest x) \<rparr>)"
    using reads_all_object [OF u(1)]
    by (simp add: reads_def plain_simps record_member_def then_parsed_def)
  let ?h = "rec_History r"
  have history: "reads (record_member pt) ''history'' (json_object (history_fields fmt ?h))
      (\<lambda>x. x \<lparr> rec_History := (rec_History x) \<lparr> bh_Capacity := bh_Capacity ?h, bh_Count := bh_Count ?h,
                 bh_Samples := map kept_sample (bh_Samples ?h) \<rparr> \<rparr>)"
    using history_fields_read [OF codec, of ?h] ok
    by (simp add: reads_def plain_simps record_member_def then_parsed_def record_ok_def)
  have "\<exists>w. reads_all (record_member pt) (record_fields fmt r) w \<and> w zero_record = kept_record r"
    unfolding record_fields_def
    apply (intro exI conjI)
     apply ((rule reads_all_intros | rule reads_key latest history
        | simp add: plain_simps parse_simps ok [unfolded record_ok_def])+)[1]
    apply (simp add: kept_record_def zero_record_def zero_history_def u(2) max_def)
    done
  then show ?thesis by (metis reads_all_object)
qed

lemma print_records_Some:
  "print_records fmt i (map Some rs) =
     (if i > 0 \<and> rs \<noteq> [] then '','' else []) @ join_with '','' (map (\<lambda>r. json_object (record_fields fmt r)) rs)"
proof (induction rs arbitrary: i)
  case (Cons r rs)
  then show ?case by (cases rs) simp_all
qed simp

lemma writeSnapshot_object:
  assumes "sn_Records snap = map Some rs"
  shows "writeSnapshotJSON fmt snap = json_object
    [(''version'', print_int (sn_Version snap)), (''last_cycle'', quoted (fmt (sn_LastCycle snap))),
     (''cycle_count'', print_int (sn_CycleCount snap)),
     (''records'', json_array (map (\<lambda>r. json_object (record_fields fmt r)) rs))]"
  by (simp add: writeSnapshotJSON_def json_object_def json_member_def json_array_def quoted_def assms
      print_records_Some)

lemma snapshot_decoded:
  assumes "time_codec fmt pt" "sn_Records snap = map Some rs" "\<forall>r \<in> set rs. record_ok r"
    and "int64 (sn_Version snap)" "int64 (sn_CycleCount snap)"
  shows "fastDecodeSnapshot pt (writeSnapshotJSON fmt snap) =
    Parsed (snap \<lparr> sn_Records := map (\<lambda>r. Some (kept_record r)) rs, sn_Results := [] \<rparr>) []"
proof -
  let ?arr = "json_array (map (\<lambda>r. json_object (record_fields fmt r)) rs)"
  let ?zero = "(\<lparr> sn_Version = 0, sn_LastCycle = 0, sn_CycleCount = 0, sn_Records = [], sn_Results = [] \<rparr>, False)"
  have "parse_array (parse_object (record_member pt) zero_record) (?arr @ rest) = Parsed (map kept_record rs) rest"
    for rest
    using assms(1,3) by (intro parse_json_array) (auto simp: record_fields_read)
  then have records: "reads (snapshot_member pt) ''records'' ?arr
      (\<lambda>(sn, _). (sn \<lparr> sn_Records := map Some (map kept_record rs) \<rparr>, True))"
    by (simp add: reads_def plain_simps snapshot_member_def then_parsed_def)
  have "\<exists>w. reads_all (snapshot_member pt)
      [(''version'', print_int (sn_Version snap)), (''last_cycle'', quoted (fmt (sn_LastCycle snap))),
       (''cycle_count'', print_int (sn_CycleCount snap)), (''records'', ?arr)] w
    \<and> w ?zero = (snap \<lparr> sn_Records := map (\<lambda>r. Some (kept_record r)) rs, sn_Results := [] \<rparr>, True)"
    apply (intro exI conjI)
     apply ((rule reads_all_intros | rule reads_key records | simp add: plain_simps parse_simps assms)+)[1]
    apply (simp add: comp_def)
    done
  then obtain w where "reads_all (snapshot_member pt)
      [(''version'', print_int (sn_Version snap)), (''last_cycle'', quoted (fmt (sn_LastCycle snap))),
       (''cycle_count'', print_int (sn_CycleCount snap)), (''records'', ?arr)] w"
    and w: "w ?zero = (snap \<lparr> sn_Records := map (\<lambda>r. Some (kept_record r)) rs, sn_Results := [] \<rparr>, True)"
    by blast
  from reads_all_object [OF this(1), of ?zero "[]"] show ?thesis
    by (simp add: fastDecodeSnapshot_def writeSnapshot_object [OF assms(2)] w)
qed

text \<open>A time as its decimal number, for concrete instances.\<close>

definition decimal_time :: "string \<Rightarrow> time option" where
  "decimal_time s =
     (if s \<noteq> [] \<and> hd s = CHR ''-'' then Some (- int (decimal (tl s))) else Some (int (decimal s)))"

lemma decimal_time_codec: "time_codec print_int decimal_time"
proof -
  have "is_digit c \<Longrightarrow> plain_char c" for c
    by (auto simp: plain_char_def is_digit_def char_code_def Let_def)
  then have "list_all plain_char (print_nat n)" for n
    using print_nat_digits [of n] by (auto simp: list_all_iff)
  then show ?thesis
    using print_nat_hd_chars(2) by (auto simp: time_codec_def decimal_time_def print_int_def plain_simps)
qed

section \<open>Properties\<close>

text \<open>The fast decoder reads back every state file the program writes: links, texts with quotes
  and control characters, 64-bit counters, samples and all the evidence survive; the values that are
  recomputed on load are the only ones missing.\<close>

theorem snapshot_roundtrip:
  assumes "time_codec fmt pt" "sn_Records snap = map Some rs" "\<forall>r \<in> set rs. record_ok r"
    and "int64 (sn_Version snap)" "int64 (sn_CycleCount snap)"
  shows "fastDecodeSnapshot pt (writeSnapshotJSON fmt snap) =
    Parsed (snap \<lparr> sn_Records := map (\<lambda>r. Some (kept_record r)) rs, sn_Results := [] \<rparr>) []"
  by (rule snapshot_decoded [OF assms])

theorem snapshot_roundtrip_witness:
  "fastDecodeSnapshot decimal_time (writeSnapshotJSON print_int (make_snapshot (New [] 0)))
     = Parsed (make_snapshot (New [] 0)) []"
proof -
  have "make_snapshot (New [] 0) =
      \<lparr> sn_Version = 2, sn_LastCycle = 0, sn_CycleCount = 0, sn_Records = map Some [], sn_Results = [] \<rparr>"
    by (simp add: make_snapshot_def New_def NewWithConfig_def sort_by_def)
  then show ?thesis
    using snapshot_roundtrip [OF decimal_time_codec, of "make_snapshot (New [] 0)" "[]"]
    by (simp add: int64_def)
qed

text \<open>C10: End to end, through the file: after \<open>Save\<close> and \<open>Load\<close> under the same policy every candidate
  is back under its link with its absence count, the same samples in order, and the same score. The
  hypotheses on \<open>gzip\<close> state that decompression undoes compression and that compressed data start with
  the magic bytes; those on the records, that integers fit 64 bits and durations are not negative.\<close>

theorem disk_roundtrip:
  assumes wf: "wf_store s" "st_cfg t = st_cfg s" "st_path t = st_path s"
    and codec: "time_codec fmt pt" "\<And>d. gunzip (gzip d) = Some d" "\<And>d. is_gzip (gzip d)"
    and range: "int64 (st_cycleCount s)"
      "\<And>j x. map_of (st_records s) j = Some x \<Longrightarrow> j \<noteq> [] \<and> rec_ActiveLink x \<noteq> [] \<and> record_ok (pack_record x)
         \<and> 0 \<le> rec_AbsentCycles x \<and> (\<forall>y \<in> set (ChronologicalSamples (rec_History x)). kept_sample y = y)"
  shows "\<exists>t'. Load canon gunzip (fastDecodeSnapshot pt) slow
          (fst (Save (\<lambda>sn. gzip (writeSnapshotJSON fmt sn)) NoFault s fs)) t = Inr t'
    \<and> st_cycleCount t' = st_cycleCount s \<and> st_lastCycle t' = st_lastCycle s
    \<and> (\<forall>k. map_of (st_records s) k = None \<longrightarrow> map_of (st_records t') k = None)
    \<and> (\<forall>k rec. map_of (st_records s) k = Some rec \<longrightarrow>
         (\<exists>rec'. map_of (st_records t') k = Some rec' \<and> rec_CanonicalLink rec' = k
           \<and> rec_ActiveLink rec' = rec_ActiveLink rec \<and> rec_AbsentCycles rec' = rec_AbsentCycles rec
           \<and> ChronologicalSamples (rec_History rec') = ChronologicalSamples (rec_History rec)
           \<and> rec_Score rec' = rec_Score rec))"
proof -
  let ?snap = "make_snapshot s" and ?primary = "PrimaryPath s"
  let ?bytes = "gzip (writeSnapshotJSON fmt ?snap)"
  let ?kept = "?snap \<lparr> sn_Records := map (map_option kept_record) (sn_Records ?snap), sn_Results := [] \<rparr>"
  let ?t' = "install_snapshot canon ?kept t"
  obtain rs where rs: "sn_Records ?snap = map Some rs" "set rs = (\<lambda>(_, rec). pack_record rec) ` set (st_records s)"
    by (simp add: make_snapshot_def)
  have sn: "sn_Version ?snap = 2" "sn_CycleCount ?snap = st_cycleCount s"
    by (simp_all add: make_snapshot_def)
  have lookup: "(j, x) \<in> set (st_records s) \<Longrightarrow> map_of (st_records s) j = Some x" for j x
    using wf(1) by (simp add: wf_store_def)
  have "\<forall>r \<in> set rs. record_ok r" using range(2) lookup by (auto simp: rs(2))
  then have dec: "fastDecodeSnapshot pt (writeSnapshotJSON fmt ?snap) = Parsed ?kept []"
    using snapshot_decoded [OF codec(1) rs(1)] range(1) sn by (simp add: int64_def rs(1) comp_def)
  have saved: "fst (Save (\<lambda>sn. gzip (writeSnapshotJSON fmt sn)) NoFault s fs) ?primary = Some ?bytes"
    by (simp add: Save_def save_trace_def Let_def tmp_path_def)
  have load: "Load canon gunzip (fastDecodeSnapshot pt) slow
      (fst (Save (\<lambda>sn. gzip (writeSnapshotJSON fmt sn)) NoFault s fs)) t = Inr ?t'"
  proof -
    have "PrimaryPath t = ?primary" using wf(3) by (simp add: PrimaryPath_def)
    then show ?thesis using saved by (simp add: Load_def read_state_def codec dec)
  qed
  have rec: "map_of (st_records ?t') k =
      map_option (\<lambda>rec. load_record canon (st_cfg s) (kept_record (pack_record rec))) (map_of (st_records s) k)" for k
    using load_saved_lookup [OF wf(1), of kept_record ?kept canon "st_cfg s" k] range(2) wf(2)
    by (auto simp: install_snapshot_def kept_record_def make_snapshot_def)
  have fields: "rec_CanonicalLink x' = k \<and> rec_ActiveLink x' = rec_ActiveLink x \<and> rec_AbsentCycles x' = rec_AbsentCycles x
      \<and> ChronologicalSamples (rec_History x') = ChronologicalSamples (rec_History x) \<and> rec_Score x' = rec_Score x"
    if x: "map_of (st_records s) k = Some x" "x' = load_record canon (st_cfg s) (kept_record (pack_record x))" for k x x'
  proof -
    have wfx: "wf_record (st_cfg s) k x" using wf(1) x(1) by (simp add: wf_store_def)
    then have "\<forall>y \<in> set (samples_of (rec_History x)). kept_sample y = y"
      using range(2) [OF x(1)] by (simp add: ChronologicalSamples_eq wf_record_def)
    then have same: "map kept_sample (samples_of (rec_History x)) = samples_of (rec_History x)"
      by (simp add: map_idI)
    have samples: "samples_of (rec_History x') = samples_of (rec_History x)"
      using wfx same pack_record_history [of x]
      by (simp add: x(2), intro load_compact_samples) (auto simp: wf_record_def kept_record_def zero_record_def)
    have h: "wf_history (rec_History x')" "wf_history (rec_History x)"
      using wfx by (simp_all add: x(2) wf_Normalize wf_record_def)
    have "rec_Score x' = ComputeScore (cfg_DecayLambda (st_cfg s)) (weights_of (st_cfg s)) (rec_History x')"
      unfolding x(2) by (rule load_record_fields(2))
    also have "\<dots> = rec_Score x"
      using samples h wfx by (simp add: ComputeScore_eq wf_record_def record_derived_def)
    finally have "rec_Score x' = rec_Score x" .
    moreover have "ChronologicalSamples (rec_History x') = ChronologicalSamples (rec_History x)"
      using samples h by (simp add: ChronologicalSamples_eq)
    moreover have "rec_CanonicalLink x' = k \<and> rec_ActiveLink x' = rec_ActiveLink x
        \<and> rec_AbsentCycles x' = rec_AbsentCycles x"
      using wfx range(2) [OF x(1)] by (simp add: x(2) fill_links_links kept_record_def wf_record_def zero_record_def)
    ultimately show ?thesis by blast
  qed
  show ?thesis
  proof (intro exI [of _ ?t'] conjI allI impI)
    fix k x
    assume "map_of (st_records s) k = Some x"
    with fields [OF this refl] rec [of k] show "\<exists>rec'. map_of (st_records ?t') k = Some rec' \<and> rec_CanonicalLink rec' = k
        \<and> rec_ActiveLink rec' = rec_ActiveLink x \<and> rec_AbsentCycles rec' = rec_AbsentCycles x
        \<and> ChronologicalSamples (rec_History rec') = ChronologicalSamples (rec_History x)
        \<and> rec_Score rec' = rec_Score x"
      by auto
  qed (use load rec in \<open>simp_all add: install_snapshot_def make_snapshot_def\<close>)
qed

theorem disk_roundtrip_witness:
  "\<exists>t'. Load (\<lambda>x. x) (\<lambda>d. Some (drop 2 d)) (fastDecodeSnapshot decimal_time) (\<lambda>_. None)
      (fst (Save (\<lambda>sn. CHR 0x1F # CHR 0x8B # writeSnapshotJSON print_int sn) NoFault demo_store (\<lambda>_. None)))
      demo_store = Inr t' \<and> st_cycleCount t' = 0"
proof -
  have "list_all (\<lambda>(j, x). j \<noteq> [] \<and> rec_ActiveLink x \<noteq> [] \<and> record_ok (pack_record x)
      \<and> 0 \<le> rec_AbsentCycles x
      \<and> list_all (\<lambda>y. kept_sample y = y) (ChronologicalSamples (rec_History x))) (st_records demo_store)"
    by code_simp
  then have range: "j \<noteq> [] \<and> rec_ActiveLink x \<noteq> [] \<and> record_ok (pack_record x)
      \<and> 0 \<le> rec_AbsentCycles x \<and> (\<forall>y \<in> set (ChronologicalSamples (rec_History x)). kept_sample y = y)"
    if "map_of (st_records demo_store) j = Some x" for j x
    using map_of_SomeD [OF that] by (auto simp: list_all_iff)
  have count: "st_cycleCount demo_store = 0"
    by (simp add: demo_store_def New_def NewWithConfig_def)
  show ?thesis
    using disk_roundtrip [OF wf_demo_store refl refl decimal_time_codec _ _ _ range,
        of "\<lambda>d. Some (drop 2 d)" "\<lambda>d. CHR 0x1F # CHR 0x8B # d" "\<lambda>x. x" "\<lambda>_. None" "\<lambda>_. None"]
    by (simp add: is_gzip_def count int64_def) blast
qed

text \<open>A state file whose history has a negative count crashes the program: the fast decoder
  allocates the list of samples for the count it has read, before any validation.\<close>

theorem negative_count_panics:
  assumes "c < 0" "int64 c"
  shows "fastDecodeSnapshot pt
    (''{'' @ quoted ''records'' @ '':[{'' @ quoted ''history'' @ '':{'' @ quoted ''count'' @ '':''
      @ print_int c @ '','' @ quoted ''samples'' @ '':[]}}]}'') = Panicked"
proof -
  let ?samples = "json_member (''samples'', ''[]'')"
  let ?count = "json_member (''count'', print_int c)"
  let ?hist = "CHR ''{'' # ?count @ CHR '','' # ?samples @ ''}''"
  let ?rec = "CHR ''{'' # json_member (''history'', ?hist) @ ''}''"
  obtain t where t: "?samples @ r = quote_char # t r" for r
    by (simp add: json_member_def)
  have samples: "members (Suc n) (history_member pt) (h \<lparr> bh_Count := c \<rparr>) (?samples @ r) = Panicked" for n h r
    using assms(1)
    by (intro members_panic) (simp_all add: plain_simps history_member_def consume_Cons alloc_panics_def)
  have count: "members (Suc n) (history_member pt) h (?count @ CHR '','' # ?samples @ r) =
      members n (history_member pt) (h \<lparr> bh_Count := c \<rparr>) (?samples @ r)" for n h r
    unfolding t
    by (rule members_step) (simp_all add: plain_simps record_keys with_value_def parse_simps assms)
  have hist: "parse_object (history_member pt) h (?hist @ r) = Panicked" for h r
    using object_panic [of "history_member pt" h "(''count'', print_int c)" "CHR '','' # ?samples @ CHR ''}'' # r"]
      count samples by simp
  have rec: "parse_object (record_member pt) x (?rec @ r) = Panicked" for x r
  proof -
    have "record_member pt ''history'' x (?hist @ CHR ''}'' # r) = Panicked"
      using hist by (simp add: record_member_def then_parsed_def)
    then have "members (Suc n) (record_member pt) x (json_member (''history'', ?hist) @ CHR ''}'' # r) = Panicked" for n
      by (intro members_panic) (simp_all add: plain_simps)
    from object_panic [OF this] show ?thesis by simp
  qed
  have "snapshot_member pt ''records'' st (CHR ''['' # ?rec @ '']}'') = Panicked" for st
  proof -
    have "parse_object (record_member pt) zero_record (?rec @ '']}'') = Panicked" by (rule rec)
    then have "parse_array (parse_object (record_member pt) zero_record) (CHR ''['' # ?rec @ '']}'') = Panicked"
      using array_panic by simp
    then show ?thesis by (simp add: snapshot_member_def then_parsed_def)
  qed
  then have "members (Suc n) (snapshot_member pt) st (json_member (''records'', CHR ''['' # ?rec @ '']'') @ ''}'') = Panicked"
    for n st
    by (intro members_panic) (simp_all add: plain_simps)
  from object_panic [OF this] have "parse_object (snapshot_member pt) st
      (CHR ''{'' # json_member (''records'', CHR ''['' # ?rec @ '']'') @ ''}'') = Panicked" for st .
  moreover have "''{'' @ quoted ''records'' @ '':[{'' @ quoted ''history'' @ '':{'' @ quoted ''count'' @ '':''
      @ print_int c @ '','' @ quoted ''samples'' @ '':[]}}]}''
    = CHR ''{'' # json_member (''records'', CHR ''['' # ?rec @ '']'') @ ''}''"
    by (simp add: json_member_def quoted_def)
  ultimately show ?thesis by (simp only: fastDecodeSnapshot_def parsed.case)
qed


theorem negative_count_panics_witness:
  "fastDecodeSnapshot decimal_time
    (''{'' @ quoted ''records'' @ '':[{'' @ quoted ''history'' @ '':{'' @ quoted ''count'' @ '':''
      @ print_int (- 1) @ '','' @ quoted ''samples'' @ '':[]}}]}'') = Panicked"
  by (rule negative_count_panics) (simp_all add: int64_def)

end
