(* ===== verification/EventBus.thy ===== *)
theory EventBus
  imports Prelude
begin

text \<open>
  The event bus, \<open>internal/events/bus.go\<close>: every subscriber has an unbounded queue that \<open>Publish\<close>
  appends to, a goroutine that moves events from the queue to a buffered channel, and the channel the
  subscriber reads. A step is one critical section or one channel operation; the interleaving of
  publishers, pumps and readers is the order of the steps.

  \<open>sub_got\<close> is a history variable: the events read from the channel so far. What a subscriber is due is a
  function of the calls made to the bus alone, \<open>watch\<close>, which knows nothing of queues. The property:
  nothing is lost, reordered or duplicated.
\<close>

text \<open>
  The pump of a subscriber: waiting for the queue, holding the event it is about to send, or returned
  (its channel is closed).
\<close>

datatype 'e pump = Waiting | Sending 'e | Returned

record 'e subscriber =
  sub_id :: nat
  sub_cap :: nat
  sub_ch :: "'e list"
  sub_queue :: "'e list"
  sub_pump :: "'e pump"
  sub_closed :: bool
  sub_got :: "'e list"

text \<open>Unsubscribed subscribers leave the list, but their pump and their reader run on.\<close>

record 'e bus =
  bus_subscribers :: "'e subscriber list"
  bus_former :: "'e subscriber list"
  bus_closed :: bool
  bus_next :: nat

definition newSubscriber :: "nat \<Rightarrow> nat \<Rightarrow> 'e subscriber" where
  "newSubscriber ident bufSize =
     \<lparr> sub_id = ident, sub_cap = bufSize, sub_ch = [], sub_queue = [], sub_pump = Waiting,
       sub_closed = False, sub_got = [] \<rparr>"

definition close_subscriber :: "'e subscriber \<Rightarrow> 'e subscriber" where
  "close_subscriber s = s \<lparr> sub_closed := True \<rparr>"

definition new_bus :: "'e bus" where
  "new_bus = \<lparr> bus_subscribers = [], bus_former = [], bus_closed = False, bus_next = 0 \<rparr>"

text \<open>The buffer size is the first optional argument, when it is not negative, else 64.\<close>

definition Subscribe :: "int list \<Rightarrow> 'e bus \<Rightarrow> 'e bus \<times> nat option" where
  "Subscribe bufSize b =
     (let size = (if bufSize \<noteq> [] \<and> hd bufSize \<ge> 0 then nat (hd bufSize) else 64)
      in if bus_closed b then (b, None)
         else (b \<lparr> bus_subscribers := bus_subscribers b @ [newSubscriber (bus_next b) size],
                   bus_next := Suc (bus_next b) \<rparr>, Some (bus_next b)))"

fun unsubscribe_from :: "nat \<Rightarrow> 'e subscriber list \<Rightarrow> 'e subscriber list \<times> 'e subscriber list" where
  "unsubscribe_from i [] = ([], [])"
| "unsubscribe_from i (s # ss) =
     (if sub_id s = i then (ss, [close_subscriber s])
      else (let (kept, gone) = unsubscribe_from i ss in (s # kept, gone)))"

definition Unsubscribe :: "nat \<Rightarrow> 'e bus \<Rightarrow> 'e bus" where
  "Unsubscribe i b =
     (let (kept, gone) = unsubscribe_from i (bus_subscribers b)
      in b \<lparr> bus_subscribers := kept, bus_former := bus_former b @ gone \<rparr>)"

definition enqueue :: "'e \<Rightarrow> 'e subscriber \<Rightarrow> 'e subscriber" where
  "enqueue e s =
     (if sub_closed s then s
      else s \<lparr> sub_queue := sub_queue s @ [e] \<rparr>)"

definition Publish :: "'e \<Rightarrow> 'e bus \<Rightarrow> 'e bus" where
  "Publish e b =
     (if bus_closed b then b else b \<lparr> bus_subscribers := map (enqueue e) (bus_subscribers b) \<rparr>)"

definition Close :: "'e bus \<Rightarrow> 'e bus" where
  "Close b =
     (if bus_closed b then b
      else b \<lparr> bus_closed := True,
               bus_former := bus_former b @ map close_subscriber (bus_subscribers b),
               bus_subscribers := [] \<rparr>)"

definition SubscriberCount :: "'e bus \<Rightarrow> nat" where
  "SubscriberCount b = length (bus_subscribers b)"

section \<open>The pump and the reader\<close>

text \<open>
  The goroutine of \<open>start\<close>: it takes the first event of the queue, or returns when the queue is empty
  and the subscriber is closed; it sends the event when the channel has room (an unbuffered channel
  hands it to a waiting reader), or returns when the subscriber is closed.
\<close>

inductive sub_step :: "'e subscriber \<Rightarrow> 'e subscriber \<Rightarrow> bool" where
  pump_take: "sub_pump s = Waiting \<Longrightarrow> sub_queue s = e # q \<Longrightarrow>
     sub_step s (s \<lparr> sub_pump := Sending e, sub_queue := q \<rparr>)"
| pump_return: "sub_pump s = Waiting \<Longrightarrow> sub_queue s = [] \<Longrightarrow> sub_closed s \<Longrightarrow>
     sub_step s (s \<lparr> sub_pump := Returned \<rparr>)"
| pump_send: "sub_pump s = Sending e \<Longrightarrow> length (sub_ch s) < sub_cap s \<Longrightarrow>
     sub_step s (s \<lparr> sub_pump := Waiting, sub_ch := sub_ch s @ [e] \<rparr>)"
| pump_handover: "sub_pump s = Sending e \<Longrightarrow> sub_cap s = 0 \<Longrightarrow>
     sub_step s (s \<lparr> sub_pump := Waiting, sub_got := sub_got s @ [e] \<rparr>)"
| pump_abandon: "sub_pump s = Sending e \<Longrightarrow> sub_closed s \<Longrightarrow>
     sub_step s (s \<lparr> sub_pump := Returned \<rparr>)"
| receive: "sub_ch s = e # c \<Longrightarrow>
     sub_step s (s \<lparr> sub_ch := c, sub_got := sub_got s @ [e] \<rparr>)"

text \<open>The calls of the bus, and the runs with the calls they made, in order; the moves in between leave no trace.\<close>

datatype 'e bus_call = CallSubscribe "int list" | CallUnsubscribe nat | CallPublish 'e | CallClose

fun perform :: "'e bus_call \<Rightarrow> 'e bus \<Rightarrow> 'e bus" where
  "perform (CallSubscribe n) b = fst (Subscribe n b)"
| "perform (CallUnsubscribe i) b = Unsubscribe i b"
| "perform (CallPublish e) b = Publish e b"
| "perform CallClose b = Close b"

inductive bus_run :: "'e bus_call list \<Rightarrow> 'e bus \<Rightarrow> bool" where
  started: "bus_run [] new_bus"
| called: "bus_run calls b \<Longrightarrow> bus_run (calls @ [c]) (perform c b)"
| subscriber_moves: "bus_run calls b \<Longrightarrow> bus_subscribers b = ss @ s # ss' \<Longrightarrow> sub_step s s' \<Longrightarrow>
     bus_run calls (b \<lparr> bus_subscribers := ss @ s' # ss' \<rparr>)"
| former_moves: "bus_run calls b \<Longrightarrow> bus_former b = ss @ s # ss' \<Longrightarrow> sub_step s s' \<Longrightarrow>
     bus_run calls (b \<lparr> bus_former := ss @ s' # ss' \<rparr>)"

section \<open>What a subscriber is due\<close>

text \<open>
  The subscription with number \<open>i\<close>, watched through the calls: still to come, after so many subscriptions;
  running, with the events published since; or over, with the events published while it ran.
\<close>

datatype 'e watched = Ahead nat | Running "'e list" | Over "'e list"

fun watch_call :: "nat \<Rightarrow> 'e bus_call \<Rightarrow> 'e watched \<Rightarrow> 'e watched" where
  "watch_call i (CallSubscribe n) (Ahead k) = (if k = i then Running [] else Ahead (Suc k))"
| "watch_call i CallClose (Ahead k) = Over []"
| "watch_call i (CallPublish e) (Running es) = Running (es @ [e])"
| "watch_call i (CallUnsubscribe j) (Running es) = (if j = i then Over es else Running es)"
| "watch_call i CallClose (Running es) = Over es"
| "watch_call i c w = w"

definition watch :: "nat \<Rightarrow> 'e bus_call list \<Rightarrow> 'e watched" where
  "watch i calls = fold (watch_call i) calls (Ahead 0)"

fun events_of :: "'e watched \<Rightarrow> 'e list" where
  "events_of (Running es) = es"
| "events_of (Over es) = es"
| "events_of (Ahead k) = []"

fun running :: "'e watched \<Rightarrow> bool" where
  "running (Running es) = True"
| "running _ = False"

definition due :: "nat \<Rightarrow> 'e bus_call list \<Rightarrow> 'e list" where
  "due i calls = events_of (watch i calls)"

lemma watch_simps [simp]:
  "watch i [] = Ahead 0"
  "watch i (calls @ [c]) = watch_call i c (watch i calls)"
  by (simp_all add: watch_def)

section \<open>Nothing is lost or reordered\<close>

fun in_pump :: "'e pump \<Rightarrow> 'e list" where
  "in_pump (Sending e) = [e]"
| "in_pump _ = []"

definition pending :: "'e subscriber \<Rightarrow> 'e list" where
  "pending s = sub_ch s @ in_pump (sub_pump s) @ sub_queue s"

definition sub_ok :: "'e list \<Rightarrow> 'e subscriber \<Rightarrow> bool" where
  "sub_ok es s =
     (length (sub_ch s) \<le> sub_cap s
      \<and> (if sub_pump s = Returned
         then sub_closed s \<and> (\<exists>lost. es = sub_got s @ sub_ch s @ lost)
         else es = sub_got s @ pending s))"

lemma sub_ok_new: "sub_ok [] (newSubscriber i n)"
  by (simp add: sub_ok_def newSubscriber_def pending_def)

lemma sub_ok_close: "sub_ok es s \<Longrightarrow> sub_ok es (close_subscriber s)"
  by (auto simp: sub_ok_def close_subscriber_def pending_def)

lemma sub_ok_enqueue: "sub_ok es s \<Longrightarrow> \<not> sub_closed s \<Longrightarrow> sub_ok (es @ [e]) (enqueue e s)"
  by (auto simp: sub_ok_def enqueue_def pending_def)

lemma sub_ok_step: "sub_step s s' \<Longrightarrow> sub_ok es s \<Longrightarrow> sub_ok es s'"
  by (induction rule: sub_step.induct) (auto simp: sub_ok_def pending_def)

lemma sub_step_frame: "sub_step s s' \<Longrightarrow> sub_closed s' = sub_closed s \<and> sub_id s' = sub_id s"
  by (induction rule: sub_step.induct) auto

text \<open>
  The invariant of the bus after its calls: each subscriber holds what it is due; the subscribers are
  exactly the subscriptions that run, numbered without repetition and open; those to come have the numbers
  from \<open>bus_next\<close> on; a closed bus has none.
\<close>

definition bus_ok :: "'e bus_call list \<Rightarrow> 'e bus \<Rightarrow> bool" where
  "bus_ok calls b =
     ((\<forall>s \<in> set (bus_subscribers b @ bus_former b). sub_ok (due (sub_id s) calls) s \<and> sub_id s < bus_next b)
      \<and> (\<forall>s \<in> set (bus_subscribers b). \<not> sub_closed s)
      \<and> (\<forall>s \<in> set (bus_former b). sub_closed s)
      \<and> distinct (map sub_id (bus_subscribers b @ bus_former b))
      \<and> (\<forall>i < bus_next b. \<exists>es. watch i calls = (if i \<in> sub_id ` set (bus_subscribers b) then Running es else Over es))
      \<and> (\<forall>i \<ge> bus_next b. watch i calls = (if bus_closed b then Over [] else Ahead (bus_next b)))
      \<and> (bus_closed b \<longrightarrow> bus_subscribers b = []))"

lemma enqueue_fields [simp]:
  "sub_id (enqueue e s) = sub_id s" "sub_closed (enqueue e s) = sub_closed s"
  by (simp_all add: enqueue_def)

lemma close_fields [simp]:
  "sub_id (close_subscriber s) = sub_id s" "sub_closed (close_subscriber s)"
  "sub_got (close_subscriber s) = sub_got s"
  by (simp_all add: close_subscriber_def)

lemma unsubscribe_split:
  "unsubscribe_from i ss = (kept, gone) \<Longrightarrow>
     (gone = [] \<and> kept = ss \<and> i \<notin> sub_id ` set ss) \<or>
     (\<exists>us s vs. ss = us @ s # vs \<and> kept = us @ vs \<and> gone = [close_subscriber s] \<and> sub_id s = i)"
proof (induction ss arbitrary: kept)
  case (Cons s ss)
  then show ?case
    by (auto split: if_splits prod.splits) (metis append_Cons append_Nil)+
qed simp

lemma bus_ok_new: "bus_ok [] new_bus"
  by (simp add: bus_ok_def new_bus_def)

lemma bus_okD:
  assumes "bus_ok calls b"
  shows "s \<in> set (bus_subscribers b) \<Longrightarrow> sub_ok (due (sub_id s) calls) s"
    and "s \<in> set (bus_former b) \<Longrightarrow> sub_ok (due (sub_id s) calls) s"
    and "s \<in> set (bus_subscribers b) \<Longrightarrow> sub_id s < bus_next b"
    and "s \<in> set (bus_former b) \<Longrightarrow> sub_id s < bus_next b"
    and "s \<in> set (bus_subscribers b) \<Longrightarrow> \<exists>es. watch (sub_id s) calls = Running es"
    and "s \<in> set (bus_former b) \<Longrightarrow> \<exists>es. watch (sub_id s) calls = Over es"
proof -
  assume s: "s \<in> set (bus_former b)"
  then have "sub_id s \<notin> sub_id ` set (bus_subscribers b)" "sub_id s < bus_next b"
    using assms by (auto simp: bus_ok_def)
  then show "\<exists>es. watch (sub_id s) calls = Over es" using assms by (auto simp: bus_ok_def)
qed (use assms in \<open>auto simp: bus_ok_def\<close>)

lemma due_Over: "watch i calls = Over es \<Longrightarrow> due i (calls @ [c]) = due i calls"
  by (cases c) (simp_all add: due_def)

lemma watch_number: "bus_ok calls b \<Longrightarrow> i < bus_next b \<Longrightarrow> \<exists>es. watch i calls = Running es \<or> watch i calls = Over es"
  by (auto simp: bus_ok_def split: if_splits)

lemma bus_ok_Subscribe:
  assumes ok: "bus_ok calls b"
  shows "bus_ok (calls @ [CallSubscribe n]) (fst (Subscribe n b))"
proof -
  have due: "due i (calls @ [CallSubscribe n]) = due i calls" if "i < bus_next b" for i
    using watch_number [OF ok that] by (auto simp: due_def)
  have old: "watch i (calls @ [CallSubscribe n]) = watch i calls" if "i < bus_next b" for i
    using watch_number [OF ok that] by auto
  show ?thesis
  proof (cases "bus_closed b")
    case True
    then show ?thesis using ok due old by (auto simp: bus_ok_def Subscribe_def)
  next
    case False
    define new :: "'a subscriber" where
      "new = newSubscriber (bus_next b) (if n \<noteq> [] \<and> hd n \<ge> 0 then nat (hd n) else 64)"
    have b': "fst (Subscribe n b) = b \<lparr> bus_subscribers := bus_subscribers b @ [new], bus_next := Suc (bus_next b) \<rparr>"
      using False by (simp add: Subscribe_def Let_def new_def)
    have new: "sub_id new = bus_next b" "\<not> sub_closed new" "sub_ok [] new"
      by (simp_all add: new_def sub_ok_new) (simp_all add: newSubscriber_def)
    have ahead: "watch i calls = Ahead (bus_next b)" if "i \<ge> bus_next b" for i
      using ok False that by (simp add: bus_ok_def)
    have "due (bus_next b) (calls @ [CallSubscribe n]) = []" by (simp add: due_def ahead)
    then show ?thesis
      unfolding b' using ok due old new ahead False
      by (auto simp: bus_ok_def less_Suc_eq)
  qed
qed

lemma bus_ok_Unsubscribe:
  assumes ok: "bus_ok calls b"
  shows "bus_ok (calls @ [CallUnsubscribe i]) (Unsubscribe i b)"
proof -
  obtain kept gone where u: "unsubscribe_from i (bus_subscribers b) = (kept, gone)" by fastforce
  have due: "due j (calls @ [CallUnsubscribe i]) = due j calls" for j
    by (cases "watch j calls") (simp_all add: due_def)
  have b': "Unsubscribe i b = b \<lparr> bus_subscribers := kept, bus_former := bus_former b @ gone \<rparr>"
    by (simp add: Unsubscribe_def u)
  from unsubscribe_split [OF u] show ?thesis
  proof (elim disjE exE conjE)
    fix us s vs
    assume split: "bus_subscribers b = us @ s # vs" "kept = us @ vs" "gone = [close_subscriber s]" "sub_id s = i"
    have dist: "distinct (map sub_id (kept @ bus_former b @ gone))"
      using ok by (auto simp: bus_ok_def split)
    have "watch j (calls @ [CallUnsubscribe i]) = watch j calls" if "j \<noteq> i" for j
      using that by (cases "watch j calls") simp_all
    moreover have "i \<notin> sub_id ` set kept" "sub_id ` set (bus_subscribers b) = insert i (sub_id ` set kept)"
      using dist split by auto
    moreover have "\<exists>es. watch i calls = Running es"
      using bus_okD(5) [OF ok, of s] split by auto
    moreover have "i < bus_next b" using ok split by (auto simp: bus_ok_def)
    ultimately show ?thesis
      using ok dist unfolding b' bus_ok_def due
      by (auto simp: sub_ok_close split)
  next
    assume none: "gone = []" "kept = bus_subscribers b" "i \<notin> sub_id ` set (bus_subscribers b)"
    have "watch j (calls @ [CallUnsubscribe i]) = watch j calls" for j
      using ok none(3) by (cases "watch j calls"; cases "j < bus_next b") (auto simp: bus_ok_def split: if_splits)
    then show ?thesis using ok unfolding b' bus_ok_def due by (simp add: none)
  qed
qed

lemma bus_ok_Publish:
  assumes ok: "bus_ok calls b"
  shows "bus_ok (calls @ [CallPublish e]) (Publish e b)"
proof (cases "bus_closed b")
  case True
  then have over: "\<exists>es. watch i calls = Over es" for i
    using ok by (cases "i < bus_next b") (auto simp: bus_ok_def)
  have "watch i (calls @ [CallPublish e]) = watch i calls" for i using over [of i] by auto
  moreover have "due i (calls @ [CallPublish e]) = due i calls" for i using over [of i] by (auto simp: due_def)
  ultimately show ?thesis using ok True over by (simp add: bus_ok_def Publish_def)
next
  case False
  have b': "Publish e b = b \<lparr> bus_subscribers := map (enqueue e) (bus_subscribers b) \<rparr>"
    using False by (simp add: Publish_def)
  have live: "sub_ok (due (sub_id s) (calls @ [CallPublish e])) (enqueue e s)" if s: "s \<in> set (bus_subscribers b)" for s
  proof -
    obtain es where "watch (sub_id s) calls = Running es" using bus_okD(5) [OF ok s] by blast
    moreover have "sub_ok (due (sub_id s) calls) s" "\<not> sub_closed s" using ok s by (auto simp: bus_ok_def)
    ultimately show ?thesis using sub_ok_enqueue by (simp add: due_def)
  qed
  have gone: "due (sub_id s) (calls @ [CallPublish e]) = due (sub_id s) calls" if "s \<in> set (bus_former b)" for s
    using bus_okD(6) [OF ok that] due_Over by blast
  have ids: "sub_id ` enqueue e ` set (bus_subscribers b) = sub_id ` set (bus_subscribers b)"
    by (simp add: image_image)
  have low: "\<exists>es. watch i (calls @ [CallPublish e]) = (if i \<in> sub_id ` set (bus_subscribers b) then Running es else Over es)"
    if i: "i < bus_next b" for i
  proof -
    obtain es where "watch i calls = (if i \<in> sub_id ` set (bus_subscribers b) then Running es else Over es)"
      using ok i by (auto simp: bus_ok_def)
    then show ?thesis by (cases "i \<in> sub_id ` set (bus_subscribers b)") auto
  qed
  have high: "watch i (calls @ [CallPublish e]) = Ahead (bus_next b)" if "i \<ge> bus_next b" for i
    using ok that False by (simp add: bus_ok_def)
  have all: "\<forall>s \<in> set (bus_subscribers (Publish e b) @ bus_former (Publish e b)).
      sub_ok (due (sub_id s) (calls @ [CallPublish e])) s \<and> sub_id s < bus_next (Publish e b)"
    unfolding b' using live gone bus_okD(2-4) [OF ok] by auto
  show ?thesis
    unfolding bus_ok_def
  proof (intro conjI all)
    show "\<forall>i < bus_next (Publish e b). \<exists>es. watch i (calls @ [CallPublish e]) =
        (if i \<in> sub_id ` set (bus_subscribers (Publish e b)) then Running es else Over es)"
      using low by (simp add: b' ids del: watch_simps)
    show "\<forall>i \<ge> bus_next (Publish e b). watch i (calls @ [CallPublish e]) =
        (if bus_closed (Publish e b) then Over [] else Ahead (bus_next (Publish e b)))"
      using high False by (simp add: b' del: watch_simps)
  qed (use ok False in \<open>simp_all add: b' bus_ok_def comp_def ids\<close>)
qed

lemma bus_ok_Close:
  assumes ok: "bus_ok calls b"
  shows "bus_ok (calls @ [CallClose]) (Close b)"
proof -
  have due: "due i (calls @ [CallClose]) = due i calls" for i
    by (cases "watch i calls") (simp_all add: due_def)
  have low: "\<exists>es. watch i (calls @ [CallClose]) = Over es" if "i < bus_next b" for i
    using watch_number [OF ok that] by auto
  have high: "watch i (calls @ [CallClose]) = Over []" if "i \<ge> bus_next b" for i
    using ok that by (auto simp: bus_ok_def split: if_splits)
  show ?thesis
  proof (cases "bus_closed b")
    case True
    then show ?thesis using ok low high by (auto simp: bus_ok_def Close_def due)
  next
    case False
    then show ?thesis
      using ok low high by (auto simp: bus_ok_def Close_def due sub_ok_close comp_def)
  qed
qed

lemma bus_ok_moves:
  assumes "bus_ok calls b" "sub_step s s'"
  shows "bus_subscribers b = ss @ s # ss' \<Longrightarrow> bus_ok calls (b \<lparr> bus_subscribers := ss @ s' # ss' \<rparr>)"
    and "bus_former b = ss @ s # ss' \<Longrightarrow> bus_ok calls (b \<lparr> bus_former := ss @ s' # ss' \<rparr>)"
  using assms sub_step_frame [OF assms(2)] sub_ok_step [OF assms(2)] by (auto simp: bus_ok_def)

lemma bus_ok_run: "bus_run calls b \<Longrightarrow> bus_ok calls b"
proof (induction rule: bus_run.induct)
  case (called calls b c)
  then show ?case
    by (cases c) (simp_all add: bus_ok_Subscribe bus_ok_Unsubscribe bus_ok_Publish bus_ok_Close)
qed (simp_all add: bus_ok_new bus_ok_moves)


section \<open>Everything arrives\<close>

text \<open>An open subscriber whose pump and reader keep moving receives everything it was sent.\<close>

lemma deliver_one:
  assumes "sub_ok es s" "\<not> sub_closed s" "pending s = e # rest"
  obtains s' where "sub_step\<^sup>*\<^sup>* s s'" "sub_ok es s'" "\<not> sub_closed s'"
    "sub_got s' = sub_got s @ [e]" "pending s' = rest"
proof -
  have running: "sub_pump s \<noteq> Returned" using assms(1,2) by (auto simp: sub_ok_def)
  show thesis
  proof (cases "sub_ch s")
    case (Cons x c)
    let ?s = "s \<lparr> sub_ch := c, sub_got := sub_got s @ [x] \<rparr>"
    have step: "sub_step s ?s" by (rule receive [OF Cons])
    have "x = e" "pending ?s = rest" using assms(3) Cons by (simp_all add: pending_def)
    then show thesis
      using that [of ?s] step sub_ok_step [OF step assms(1)] assms(2) by auto
  next
    case Nil
    have hand: "\<exists>s'. sub_step\<^sup>*\<^sup>* t s' \<and> sub_ok es s' \<and> \<not> sub_closed s'
        \<and> sub_got s' = sub_got t @ [x] \<and> pending s' = sub_queue t"
      if t: "sub_ok es t" "\<not> sub_closed t" "sub_ch t = []" "sub_pump t = Sending x" for t x
    proof (cases "sub_cap t = 0")
      case True
      have step: "sub_step t (t \<lparr> sub_pump := Waiting, sub_got := sub_got t @ [x] \<rparr>)"
        by (rule pump_handover [OF t(4) True])
      show ?thesis
        by (rule exI [of _ "t \<lparr> sub_pump := Waiting, sub_got := sub_got t @ [x] \<rparr>"])
           (use step sub_ok_step [OF step t(1)] t in \<open>auto simp: pending_def\<close>)
    next
      case False
      let ?t = "t \<lparr> sub_pump := Waiting, sub_ch := sub_ch t @ [x] \<rparr>"
      let ?u = "?t \<lparr> sub_ch := [], sub_got := sub_got ?t @ [x] \<rparr>"
      have step1: "sub_step t ?t" using False t(3) by (intro pump_send [OF t(4)]) simp
      have step2: "sub_step ?t ?u" using t(3) by (intro receive) simp
      have "sub_ok es ?u" using sub_ok_step [OF step2 sub_ok_step [OF step1 t(1)]] .
      moreover have "sub_step\<^sup>*\<^sup>* t ?u" using step1 step2 by (rule converse_rtranclp_into_rtranclp [OF _ r_into_rtranclp])
      ultimately show ?thesis
        by (intro exI [of _ ?u]) (use t in \<open>auto simp: pending_def\<close>)
    qed
    show thesis
    proof (cases "sub_pump s")
      case (Sending x)
      then have "x = e" "sub_queue s = rest" using assms(3) Nil by (simp_all add: pending_def)
      then show thesis using hand [OF assms(1,2) Nil Sending] that by auto
    next
      case Waiting
      then have q: "sub_queue s = e # rest" using assms(3) Nil by (simp add: pending_def)
      let ?t = "s \<lparr> sub_pump := Sending e, sub_queue := rest \<rparr>"
      have step: "sub_step s ?t" by (rule pump_take [OF Waiting q])
      have "sub_ok es ?t" by (rule sub_ok_step [OF step assms(1)])
      then obtain u where "sub_step\<^sup>*\<^sup>* ?t u" "sub_ok es u" "\<not> sub_closed u"
        "sub_got u = sub_got s @ [e]" "pending u = rest"
        using hand [of ?t e] assms(2) Nil by auto
      then show thesis using that [of u] converse_rtranclp_into_rtranclp [of sub_step, OF step] by simp
    next
      case Returned
      then show thesis using running by simp
    qed
  qed
qed

lemma deliver_all:
  assumes "sub_ok es s" "\<not> sub_closed s"
  shows "\<exists>s'. sub_step\<^sup>*\<^sup>* s s' \<and> sub_got s' = es"
  using assms
proof (induction "pending s" arbitrary: s)
  case Nil
  then show ?case by (intro exI [of _ s]) (auto simp: sub_ok_def split: if_splits)
next
  case (Cons e rest)
  obtain s' where "sub_step\<^sup>*\<^sup>* s s'" "sub_ok es s'" "\<not> sub_closed s'" "pending s' = rest"
    using deliver_one [OF Cons.prems Cons.hyps(2) [symmetric]] by metis
  with Cons.hyps(1) [of s'] show ?case by (metis rtranclp_trans)
qed

section \<open>Properties\<close>







text \<open>Everything published to an open subscriber can be received: after every run its pump and its reader
  can go on, with no further call, until it has read all it is due. No step of the pump blocks for good.\<close>

theorem bus_delivery_completes:
  assumes "bus_run calls b" "s \<in> set (bus_subscribers b)"
  shows "\<exists>s'. sub_step\<^sup>*\<^sup>* s s' \<and> sub_got s' = due (sub_id s) calls"
proof -
  have "sub_ok (due (sub_id s) calls) s" "\<not> sub_closed s"
    using bus_ok_run [OF assms(1)] assms(2) by (auto simp: bus_ok_def)
  then show ?thesis using deliver_all by blast
qed

end
