(* ===== verification/LinkTypes.thy ===== *)
theory LinkTypes
  imports Prelude
begin

text \<open>
  A candidate (\<open>internal/parser/parser.go\<close>): the share link, what the parser made of it, and the notes
  the parser took. The outbound options are a parameter here; the theory \<open>LinkParser\<close> gives the ones the
  parser builds.
\<close>

record 'o candidate =
  cand_Link :: string
  cand_Outbound :: 'o
  cand_Warnings :: "string list"

end
