(* ===== verification/Rotation.thy ===== *)
theory Rotation
  imports LinkTypes SortBy
begin

text \<open>
  The least-recently-tested rotation of candidates, \<open>internal/scheduler/rotation.go\<close>: the time each
  canonical link was last tested, and the selection of at most \<open>probeLimit\<close> candidates per cycle.
  The main result is fairness: with a limit of \<open>k\<close>, every one of \<open>n\<close> candidates is selected within
  \<open>n / k\<close> cycles, rounded up.
\<close>

type_synonym rotator = "(string \<times> time) list"

definition newCandidateRotator :: rotator where
  "newCandidateRotator = []"

definition RecordTested :: "(string \<Rightarrow> string) \<Rightarrow> string \<Rightarrow> time \<Rightarrow> rotator \<Rightarrow> rotator" where
  "RecordTested canon link testedAt r =
     (if link = [] \<or> is_zero_time testedAt then r
      else let canonical = canon link
           in case map_of r canonical of
                Some prev \<Rightarrow> if prev < testedAt then AList.update canonical testedAt r else r
              | None \<Rightarrow> AList.update canonical testedAt r)"

definition PruneStale :: "(string \<Rightarrow> string) \<Rightarrow> string list \<Rightarrow> rotator \<Rightarrow> rotator" where
  "PruneStale canon linkSet r =
     (let presentCanonical = canon ` set linkSet
      in filter (\<lambda>(k, _). k \<in> presentCanonical) r)"

record 'o candidate_meta =
  cm_cand :: "'o candidate"
  cm_canonical :: string
  cm_lastTested :: time
  cm_origIndex :: nat

definition meta_less :: "'o candidate_meta \<Rightarrow> 'o candidate_meta \<Rightarrow> bool" where
  "meta_less a b =
     (if cm_lastTested a \<noteq> cm_lastTested b then cm_lastTested a < cm_lastTested b
      else if cm_canonical a \<noteq> cm_canonical b then cm_canonical a < cm_canonical b
      else cm_origIndex a < cm_origIndex b)"

definition last_tested :: "(string \<Rightarrow> string) \<Rightarrow> rotator \<Rightarrow> 'o candidate \<Rightarrow> time" where
  "last_tested canon r c = (case map_of r (canon (cand_Link c)) of Some t \<Rightarrow> t | None \<Rightarrow> 0)"

definition candidate_metas :: "(string \<Rightarrow> string) \<Rightarrow> rotator \<Rightarrow> 'o candidate list \<Rightarrow> 'o candidate_meta list" where
  "candidate_metas canon r cs =
     map (\<lambda>(i, c). \<lparr> cm_cand = c, cm_canonical = canon (cand_Link c),
                     cm_lastTested = last_tested canon r c, cm_origIndex = i \<rparr>) (enumerate 0 cs)"

definition SelectCandidates ::
  "(string \<Rightarrow> string) \<Rightarrow> rotator \<Rightarrow> 'o candidate list \<Rightarrow> int \<Rightarrow> 'o candidate list" where
  "SelectCandidates canon r cs probeLimit =
     (if cs = [] then []
      else let sorted = sort_by meta_less (candidate_metas canon r cs);
               limit = (if probeLimit > 0 \<and> probeLimit < int (length sorted) then nat probeLimit
                        else length sorted)
           in map cm_cand (take limit sorted))"

section \<open>The order of the candidates\<close>

definition meta_key :: "'o candidate_meta \<Rightarrow> time \<times> string \<times> nat" where
  "meta_key m = (cm_lastTested m, cm_canonical m, cm_origIndex m)"

interpretation lrt: comparator meta_less meta_key
  by unfold_locales (auto simp: meta_less_def meta_key_def)

definition urgency :: "(string \<Rightarrow> string) \<Rightarrow> rotator \<Rightarrow> 'o candidate \<Rightarrow> time \<times> string" where
  "urgency canon r c = (last_tested canon r c, canon (cand_Link c))"

text \<open>How many candidates come before \<open>c\<close>.\<close>

definition rank :: "(string \<Rightarrow> string) \<Rightarrow> rotator \<Rightarrow> 'o candidate list \<Rightarrow> 'o candidate \<Rightarrow> nat" where
  "rank canon r cs c = length (filter (\<lambda>d. urgency canon r d < urgency canon r c) cs)"

lemma filter_less_sorted:
  fixes ks :: "'k :: linorder list"
  assumes "sorted ks" "distinct ks" "j < length ks"
  shows "length (filter (\<lambda>k. k < ks ! j) ks) = j"
proof -
  have "filter (\<lambda>k. k < ks ! j) (take j ks) = take j ks"
    using assms by (auto simp: filter_id_conv in_set_conv_nth sorted_iff_nth_mono_less nth_eq_iff_index_eq
        less_le)
  moreover have "filter (\<lambda>k. k < ks ! j) (drop j ks) = []"
    using assms by (auto simp: filter_empty_conv in_set_conv_nth not_less sorted_iff_nth_mono)
  ultimately show ?thesis
    using assms(3) by (metis append_take_drop_id append_Nil2 filter_append length_take min.absorb4)
qed

lemma candidate_metas_nth:
  "i < length cs \<Longrightarrow> candidate_metas canon r cs ! i =
     \<lparr> cm_cand = cs ! i, cm_canonical = canon (cand_Link (cs ! i)),
       cm_lastTested = last_tested canon r (cs ! i), cm_origIndex = i \<rparr>"
  by (simp add: candidate_metas_def nth_enumerate_eq)

lemma length_candidate_metas [simp]: "length (candidate_metas canon r cs) = length cs"
  by (simp add: candidate_metas_def)

lemma map_cand_metas [simp]: "map cm_cand (candidate_metas canon r cs) = cs"
  by (rule nth_equalityI) (simp_all add: candidate_metas_nth)

lemma mset_sorted_cands: "mset (map cm_cand (sort_by meta_less (candidate_metas canon r cs))) = mset cs"
proof -
  have "mset (map cm_cand (candidate_metas canon r cs)) = mset cs" by (simp only: map_cand_metas)
  then show ?thesis by (simp only: mset_map mset_sort_by)
qed

lemma distinct_meta_keys: "distinct (map meta_key (candidate_metas canon r cs))"
  by (auto simp: distinct_conv_nth candidate_metas_nth meta_key_def)

lemma filter_metas_rank:
  assumes "distinct (map (\<lambda>c. canon (cand_Link c)) cs)" "i < length cs"
  shows "length (filter (\<lambda>m. meta_key m < meta_key (candidate_metas canon r cs ! i)) (candidate_metas canon r cs)) =
    rank canon r cs (cs ! i)"
proof -
  let ?ms = "candidate_metas canon r cs"
  have "meta_key m < meta_key (?ms ! i) \<longleftrightarrow> urgency canon r (cm_cand m) < urgency canon r (cs ! i)"
    if m: "m \<in> set ?ms" for m
  proof -
    obtain j where j: "j < length cs" "m = ?ms ! j"
      using m by (auto simp: in_set_conv_nth)
    have "canon (cand_Link (cs ! j)) = canon (cand_Link (cs ! i)) \<longleftrightarrow> j = i"
      using assms j(1) by (auto simp: distinct_conv_nth)
    then show ?thesis
      using j assms(2) by (auto simp: candidate_metas_nth meta_key_def urgency_def)
  qed
  then have "filter (\<lambda>m. meta_key m < meta_key (?ms ! i)) ?ms =
      filter ((\<lambda>c. urgency canon r c < urgency canon r (cs ! i)) \<circ> cm_cand) ?ms"
    by (intro filter_cong) (simp_all add: comp_def)
  then show ?thesis
    by (simp add: rank_def flip: length_map [of cm_cand] filter_map)
qed

text \<open>A candidate is selected exactly when fewer than the limit come before it.\<close>

lemma selected_iff_rank:
  assumes "distinct (map (\<lambda>c. canon (cand_Link c)) cs)" "c \<in> set cs" "0 < k"
  shows "c \<in> set (SelectCandidates canon r cs k) \<longleftrightarrow> rank canon r cs c < nat k"
proof -
  let ?ms = "candidate_metas canon r cs" and ?sorted = "sort_by meta_less (candidate_metas canon r cs)"
  let ?lim = "if k < int (length cs) then nat k else length cs"
  obtain i where i: "i < length cs" "cs ! i = c" using assms(2) by (auto simp: in_set_conv_nth)
  have "?ms ! i \<in> set ?sorted" using i by simp
  then obtain j where j: "j < length ?sorted" "?sorted ! j = ?ms ! i"
    unfolding in_set_conv_nth by blast
  have keys: "distinct (map meta_key ?sorted)"
    using distinct_meta_keys mset_eq_imp_distinct_iff [of "map meta_key ?sorted" "map meta_key ?ms"]
    by (metis mset_map mset_sort_by)
  have "rank canon r cs c = length (filter (\<lambda>m. meta_key m < meta_key (?ms ! i)) ?ms)"
    using filter_metas_rank [OF assms(1) i(1)] i(2) by simp
  also have "\<dots> = length (filter (\<lambda>m. meta_key m < meta_key (?ms ! i)) ?sorted)"
    by (metis mset_filter mset_sort_by size_mset)
  also have "\<dots> = length (filter (\<lambda>x. x < map meta_key ?sorted ! j) (map meta_key ?sorted))"
    using j by (simp add: filter_map comp_def)
  also have "\<dots> = j"
    using keys j(1) lrt.sorted_sort_by [of ?ms] by (intro filter_less_sorted) simp_all
  finally have rank: "rank canon r cs c = j" .
  have "cs \<noteq> []" using i by auto
  then have sel: "SelectCandidates canon r cs k = map cm_cand (take ?lim ?sorted)"
    using assms(3) by (simp add: SelectCandidates_def)
  have cands: "distinct (map cm_cand ?sorted)"
  proof -
    have "distinct cs" using assms(1) by (simp add: distinct_map)
    then show ?thesis using mset_eq_imp_distinct_iff [OF mset_sorted_cands] by blast
  qed
  have nth: "map cm_cand ?sorted ! j = c" using j i by (simp add: candidate_metas_nth)
  have "c \<in> set (take ?lim (map cm_cand ?sorted)) \<longleftrightarrow> j < ?lim"
  proof
    assume "c \<in> set (take ?lim (map cm_cand ?sorted))"
    then obtain l where "l < ?lim" "l < length ?sorted" "map cm_cand ?sorted ! l = c"
      by (auto simp: in_set_conv_nth)
    with cands nth j(1) show "j < ?lim" by (metis length_map nth_eq_iff_index_eq)
  next
    assume "j < ?lim"
    with nth j(1) show "c \<in> set (take ?lim (map cm_cand ?sorted))"
      by (auto simp: in_set_conv_nth intro!: exI [of _ j])
  qed
  moreover have "j < ?lim \<longleftrightarrow> j < nat k" using j(1) by auto
  ultimately show ?thesis by (simp add: sel rank take_map)
qed

section \<open>Cycles\<close>

lemma set_SelectCandidates: "set (SelectCandidates canon r cs k) \<subseteq> set cs"
proof -
  have "cm_cand ` set (candidate_metas canon r cs) = set cs"
    using map_cand_metas [of canon r cs] by (metis list.set_map)
  then show ?thesis
    by (auto simp: SelectCandidates_def Let_def split: if_splits dest!: in_set_takeD)
qed

lemma length_SelectCandidates:
  "0 < k \<Longrightarrow> length (SelectCandidates canon r cs k) = min (nat k) (length cs)"
  by (auto simp: SelectCandidates_def Let_def)

lemma distinct_SelectCandidates:
  assumes "distinct cs"
  shows "distinct (SelectCandidates canon r cs k)"
proof -
  let ?sorted = "sort_by meta_less (candidate_metas canon r cs)"
  have "distinct (map cm_cand ?sorted)" using assms mset_eq_imp_distinct_iff [OF mset_sorted_cands] by blast
  then have "distinct (take n (map cm_cand ?sorted))" for n by simp
  then show ?thesis by (simp add: SelectCandidates_def Let_def take_map)
qed

text \<open>
  One cycle over the same candidates: stale entries are pruned, the selected candidates are probed and
  their times recorded. \<open>at\<close> gives the time a link is tested at in this cycle.
\<close>

definition record_all :: "(string \<Rightarrow> string) \<Rightarrow> 'o candidate list \<Rightarrow> (string \<Rightarrow> time) \<Rightarrow> rotator \<Rightarrow> rotator" where
  "record_all canon sel at r = fold (\<lambda>c. RecordTested canon (cand_Link c) (at (cand_Link c))) sel r"

fun rotation_run :: "(string \<Rightarrow> string) \<Rightarrow> 'o candidate list \<Rightarrow> int \<Rightarrow> rotator \<Rightarrow> (string \<Rightarrow> time) list
    \<Rightarrow> 'o candidate list list" where
  "rotation_run canon cs k r [] = []"
| "rotation_run canon cs k r (at # ats) =
     (let r' = PruneStale canon (map cand_Link cs) r;
          sel = SelectCandidates canon r' cs k
      in sel # rotation_run canon cs k (record_all canon sel at r') ats)"

lemma last_tested_Prune:
  "c \<in> set cs \<Longrightarrow> last_tested canon (PruneStale canon (map cand_Link cs) r) c = last_tested canon r c"
proof -
  assume "c \<in> set cs"
  then have "canon (cand_Link c) \<in> canon ` set (map cand_Link cs)" by auto
  then have "map_of (PruneStale canon (map cand_Link cs) r) (canon (cand_Link c)) = map_of r (canon (cand_Link c))"
    unfolding PruneStale_def Let_def by (induction r) auto
  then show ?thesis by (simp add: last_tested_def)
qed

lemma last_tested_Record:
  assumes "cand_Link d \<noteq> []" "at (cand_Link d) \<noteq> 0" "last_tested canon r d < at (cand_Link d)"
  shows "last_tested canon (RecordTested canon (cand_Link d) (at (cand_Link d)) r) c =
    (if canon (cand_Link c) = canon (cand_Link d) then at (cand_Link d) else last_tested canon r c)"
  using assms
  by (auto simp: RecordTested_def is_zero_time_def last_tested_def update_conv' Let_def split: option.split)

lemma last_tested_record_all:
  assumes "distinct (map (\<lambda>c. canon (cand_Link c)) (c # sel))"
    and "\<forall>d \<in> set sel. cand_Link d \<noteq> [] \<and> at (cand_Link d) \<noteq> 0 \<and> last_tested canon r d < at (cand_Link d)"
  shows "last_tested canon (record_all canon sel at r) c = last_tested canon r c"
  using assms
proof (induction sel arbitrary: r)
  case (Cons d sel)
  let ?r = "RecordTested canon (cand_Link d) (at (cand_Link d)) r"
  have step: "last_tested canon ?r e =
      (if canon (cand_Link e) = canon (cand_Link d) then at (cand_Link d) else last_tested canon r e)" for e :: "'b candidate"
    using Cons.prems(2) by (intro last_tested_Record) auto
  have "last_tested canon (record_all canon sel at ?r) c = last_tested canon ?r c"
    using Cons.prems by (intro Cons.IH) (auto simp: step, metis imageI)
  then show ?case using Cons.prems(1) step [of c] by (simp add: record_all_def)
qed (simp add: record_all_def)

lemma last_tested_recorded:
  assumes "distinct (map (\<lambda>c. canon (cand_Link c)) sel)" "c \<in> set sel"
    and "\<forall>d \<in> set sel. cand_Link d \<noteq> [] \<and> at (cand_Link d) \<noteq> 0 \<and> last_tested canon r d < at (cand_Link d)"
  shows "last_tested canon (record_all canon sel at r) c = at (cand_Link c)"
  using assms
proof (induction sel arbitrary: r)
  case (Cons d sel)
  let ?r = "RecordTested canon (cand_Link d) (at (cand_Link d)) r"
  have step: "last_tested canon ?r e =
      (if canon (cand_Link e) = canon (cand_Link d) then at (cand_Link d) else last_tested canon r e)" for e :: "'b candidate"
    using Cons.prems(3) by (intro last_tested_Record) auto
  have "canon (cand_Link e) \<noteq> canon (cand_Link d)" if "e \<in> set sel" for e
    using that Cons.prems(1) by (force simp: image_iff)
  then have later: "\<forall>e \<in> set sel. cand_Link e \<noteq> [] \<and> at (cand_Link e) \<noteq> 0 \<and> last_tested canon ?r e < at (cand_Link e)"
    using Cons.prems(3) by (simp add: step)
  show ?case
  proof (cases "c = d")
    case True
    have "last_tested canon (record_all canon sel at ?r) d = last_tested canon ?r d"
      using Cons.prems(1) later by (intro last_tested_record_all) auto
    then show ?thesis using True step [of d] by (simp add: record_all_def)
  next
    case False
    then show ?thesis using Cons.prems Cons.IH [of ?r] later by (simp add: record_all_def)
  qed
qed simp

text \<open>
  The times of a cycle lie after everything recorded before it: after all times in the state, and
  after all times of the cycles before.
\<close>

definition later_than :: "(string \<Rightarrow> string) \<Rightarrow> 'o candidate list \<Rightarrow> rotator \<Rightarrow> (string \<Rightarrow> time) list \<Rightarrow> bool" where
  "later_than canon cs r ats =
     ((\<forall>at \<in> set ats. \<forall>c \<in> set cs. \<forall>l. 0 < at l \<and> last_tested canon r c < at l)
      \<and> sorted_wrt (\<lambda>f g. \<forall>l m. f l < g m) ats)"

lemma rank_mono:
  assumes "urgency canon r c \<le> urgency canon r d"
  shows "rank canon r cs c \<le> rank canon r cs d"
proof -
  have "filter (\<lambda>e. urgency canon r e < urgency canon r c) cs =
      filter (\<lambda>e. urgency canon r e < urgency canon r c) (filter (\<lambda>e. urgency canon r e < urgency canon r d) cs)"
    using assms by (auto intro!: filter_cong)
  then show ?thesis unfolding rank_def by (metis length_filter_le)
qed

definition rotation_ok :: "(string \<Rightarrow> string) \<Rightarrow> 'o candidate list \<Rightarrow> bool" where
  "rotation_ok canon cs =
     (distinct (map (\<lambda>c. canon (cand_Link c)) cs) \<and> (\<forall>c \<in> set cs. cand_Link c \<noteq> []))"

lemma sel_distinct:
  assumes "rotation_ok canon cs"
  shows "distinct (map (\<lambda>c. canon (cand_Link c)) (SelectCandidates canon r cs k))"
    and "distinct (SelectCandidates canon r cs k)"
proof -
  have "distinct cs" "inj_on (\<lambda>c. canon (cand_Link c)) (set cs)"
    using assms by (auto simp: rotation_ok_def distinct_map)
  then show "distinct (SelectCandidates canon r cs k)"
    "distinct (map (\<lambda>c. canon (cand_Link c)) (SelectCandidates canon r cs k))"
    using distinct_SelectCandidates inj_on_subset [OF _ set_SelectCandidates]
    by (auto simp: distinct_map)
qed

text \<open>A cycle moves every candidate it leaves out forward by the limit.\<close>

lemma cycle_last_tested:
  assumes ok: "rotation_ok canon cs" and later: "later_than canon cs r (at # ats)" and c: "c \<in> set cs"
    and sel_def: "sel = SelectCandidates canon r cs k"
  shows "last_tested canon (record_all canon sel at r) c =
    (if c \<in> set sel then at (cand_Link c) else last_tested canon r c)"
proof -
  have sub: "set sel \<subseteq> set cs" unfolding sel_def by (rule set_SelectCandidates)
  have d: "distinct (map (\<lambda>c. canon (cand_Link c)) sel)" unfolding sel_def by (rule sel_distinct [OF ok])
  have times: "\<forall>d \<in> set sel. cand_Link d \<noteq> [] \<and> at (cand_Link d) \<noteq> 0 \<and> last_tested canon r d < at (cand_Link d)"
  proof
    fix d assume "d \<in> set sel"
    then have d: "d \<in> set cs" using sub by blast
    then have "0 < at (cand_Link d)" "last_tested canon r d < at (cand_Link d)"
      using later by (simp_all add: later_than_def)
    moreover have "cand_Link d \<noteq> []" using d ok by (simp add: rotation_ok_def)
    ultimately show "cand_Link d \<noteq> [] \<and> at (cand_Link d) \<noteq> 0 \<and> last_tested canon r d < at (cand_Link d)"
      by auto
  qed
  show ?thesis
  proof (cases "c \<in> set sel")
    case True
    then show ?thesis using last_tested_recorded [OF d True times] by simp
  next
    case False
    have "canon (cand_Link c) \<notin> (\<lambda>c. canon (cand_Link c)) ` set sel"
      using False c sub ok by (auto simp: rotation_ok_def distinct_map inj_on_def)
    then show ?thesis using False d last_tested_record_all [OF _ times, of c] by simp
  qed
qed

lemma length_filter_split:
  "length (filter P xs) = length (filter (\<lambda>x. P x \<and> x \<notin> A) xs) + length (filter (\<lambda>x. P x \<and> x \<in> A) xs)"
  by (induction xs) auto

lemma cycle_rank:
  assumes ok: "rotation_ok canon cs" and later: "later_than canon cs r (at # ats)" and c: "c \<in> set cs"
    and k: "0 < k" and left: "c \<notin> set (SelectCandidates canon r cs k)"
  shows "rank canon (record_all canon (SelectCandidates canon r cs k) at r) cs c + nat k = rank canon r cs c"
proof -
  let ?sel = "SelectCandidates canon r cs k"
  let ?r = "record_all canon ?sel at r"
  let ?u = "urgency canon r"
  have dist: "distinct (map (\<lambda>c. canon (cand_Link c)) cs)" "distinct cs"
    using ok by (auto simp: rotation_ok_def distinct_map)
  have sel: "d \<in> set ?sel \<longleftrightarrow> rank canon r cs d < nat k" if "d \<in> set cs" for d
    by (rule selected_iff_rank [OF dist(1) that k])
  have before: "?u d < ?u c" if "d \<in> set cs" "d \<in> set ?sel" for d
  proof (rule ccontr)
    assume "\<not> ?u d < ?u c"
    then have "rank canon r cs c \<le> rank canon r cs d" by (intro rank_mono) simp
    with that left sel c show False by fastforce
  qed
  have after: "urgency canon ?r d < urgency canon ?r c \<longleftrightarrow> ?u d < ?u c \<and> d \<notin> set ?sel" if d: "d \<in> set cs" for d
  proof -
    have lt: "last_tested canon r c < at (cand_Link d)" using later c by (simp add: later_than_def)
    have c': "last_tested canon ?r c = last_tested canon r c"
      using cycle_last_tested [OF ok later c refl, of k] left by simp
    have d': "last_tested canon ?r d = (if d \<in> set ?sel then at (cand_Link d) else last_tested canon r d)"
      by (rule cycle_last_tested [OF ok later d refl])
    show ?thesis
    proof (cases "d \<in> set ?sel")
      case True
      then show ?thesis using lt unfolding urgency_def c' d' by simp
    next
      case False
      then show ?thesis unfolding urgency_def c' d' by simp
    qed
  qed
  have "rank canon ?r cs c = length (filter (\<lambda>d. ?u d < ?u c \<and> d \<notin> set ?sel) cs)"
    unfolding rank_def by (rule arg_cong [of _ _ length], rule filter_cong [OF refl after])
  moreover have "length (filter (\<lambda>d. ?u d < ?u c \<and> d \<in> set ?sel) cs) = nat k"
  proof -
    have "filter (\<lambda>d. ?u d < ?u c \<and> d \<in> set ?sel) cs = filter (\<lambda>d. d \<in> set ?sel) cs"
      using before by (auto intro!: filter_cong)
    moreover have "length (filter (\<lambda>d. d \<in> set ?sel) cs) = card (set ?sel)"
      using distinct_card [OF distinct_filter [OF dist(2), of "\<lambda>d. d \<in> set ?sel"]]
        set_SelectCandidates [of canon r cs k] by (simp add: Int_absorb1 flip: Int_def)
    moreover have "card (set ?sel) = min (nat k) (length cs)"
      using distinct_card [OF sel_distinct(2) [OF ok, of r k]] length_SelectCandidates [OF k, of canon r cs]
      by simp
    moreover have "nat k \<le> length cs"
    proof -
      have "nat k \<le> rank canon r cs c" using sel [OF c] left by simp
      also have "\<dots> \<le> length cs" by (simp add: rank_def)
      finally show ?thesis .
    qed
    ultimately show ?thesis by simp
  qed
  moreover have "rank canon r cs c = length (filter (\<lambda>d. ?u d < ?u c \<and> d \<notin> set ?sel) cs)
      + length (filter (\<lambda>d. ?u d < ?u c \<and> d \<in> set ?sel) cs)"
    unfolding rank_def by (rule length_filter_split)
  ultimately show ?thesis by simp
qed


lemma rank_cong:
  assumes "\<And>d. d \<in> set cs \<Longrightarrow> last_tested canon r d = last_tested canon r' d" "c \<in> set cs"
  shows "rank canon r cs c = rank canon r' cs c"
  using assms by (auto simp: rank_def urgency_def intro!: arg_cong [of _ _ length] filter_cong)

lemma later_than_cong:
  assumes "\<And>d. d \<in> set cs \<Longrightarrow> last_tested canon r d = last_tested canon r' d" "later_than canon cs r ats"
  shows "later_than canon cs r' ats"
  using assms by (auto simp: later_than_def)

lemma later_than_next:
  assumes ok: "rotation_ok canon cs" and later: "later_than canon cs r (at # ats)"
  shows "later_than canon cs (record_all canon (SelectCandidates canon r cs k) at r) ats"
proof -
  have "last_tested canon (record_all canon (SelectCandidates canon r cs k) at r) c < f l"
    if "f \<in> set ats" "c \<in> set cs" for f l c
    using cycle_last_tested [OF ok later that(2) refl] later that by (simp add: later_than_def)
  then show ?thesis using later by (simp add: later_than_def)
qed

lemma rotation_reaches:
  assumes "rotation_ok canon cs" "later_than canon cs r ats" "c \<in> set cs" "0 < k"
    and "rank canon r cs c < nat k * length ats"
  shows "c \<in> set (concat (rotation_run canon cs k r ats))"
  using assms(2,5)
proof (induction ats arbitrary: r)
  case (Cons at ats)
  let ?r = "PruneStale canon (map cand_Link cs) r"
  let ?next = "record_all canon (SelectCandidates canon ?r cs k) at ?r"
  have same: "\<And>d. d \<in> set cs \<Longrightarrow> last_tested canon r d = last_tested canon ?r d"
    by (simp add: last_tested_Prune)
  have later: "later_than canon cs ?r (at # ats)"
    using later_than_cong [OF same Cons.prems(1)] by simp
  show ?case
  proof (cases "c \<in> set (SelectCandidates canon ?r cs k)")
    case False
    have "rank canon ?next cs c + nat k = rank canon r cs c"
      using cycle_rank [OF assms(1) later assms(3,4) False] rank_cong [OF same assms(3)] by simp
    then have "rank canon ?next cs c < nat k * length ats"
      using Cons.prems(2) by simp
    then show ?thesis
      using Cons.IH [OF later_than_next [OF assms(1) later]] by (simp add: Let_def)
  qed (simp add: Let_def)
qed simp

lemma rank_less_length: "c \<in> set cs \<Longrightarrow> rank canon r cs c < length cs"
  unfolding rank_def by (rule length_filter_less) auto

section \<open>Properties\<close>

text \<open>C11: Every candidate is probed: with a positive limit \<open>k\<close> and cycles whose probe times move
  forward, a run of \<open>m\<close> cycles with \<open>k * m \<ge> n\<close> selects each of the \<open>n\<close> candidates at least once,
  whatever the rotator recorded before.\<close>

theorem rotation_fair:
  assumes "rotation_ok canon cs" "later_than canon cs r ats" "0 < k"
    and "length cs \<le> nat k * length ats" and "c \<in> set cs"
  shows "c \<in> set (concat (rotation_run canon cs k r ats))"
  using assms rank_less_length [of c cs canon r] by (intro rotation_reaches) simp_all

definition demo_candidates :: "unit candidate list" where
  "demo_candidates = map (\<lambda>l. \<lparr> cand_Link = l, cand_Outbound = (), cand_Warnings = [] \<rparr>)
     [''vless://a'', ''vless://b'', ''vless://c'', ''vless://d'', ''vless://e'']"

theorem rotation_fair_witness:
  "demo_candidates ! 4 \<in> set (concat (rotation_run id demo_candidates 2
     [(''vless://a'', 50), (''vless://e'', 70)] [\<lambda>_. 100, \<lambda>_. 200, \<lambda>_. 300]))"
proof (rule rotation_fair)
  show "later_than id demo_candidates [(''vless://a'', 50), (''vless://e'', 70)] [\<lambda>_. 100, \<lambda>_. 200, \<lambda>_. 300]"
    by (simp add: later_than_def demo_candidates_def last_tested_def)
qed (simp_all add: rotation_ok_def demo_candidates_def)

text \<open>A selection never repeats or invents a candidate, has exactly the limit's size when there are
  that many candidates, and every candidate it takes was tested no later than every candidate it
  leaves out; candidates never tested come first.\<close>

theorem selection_least_recently_tested:
  assumes "rotation_ok canon cs" "0 < k"
  shows "distinct (SelectCandidates canon r cs k)
    \<and> set (SelectCandidates canon r cs k) \<subseteq> set cs
    \<and> length (SelectCandidates canon r cs k) = min (nat k) (length cs)
    \<and> (\<forall>c \<in> set (SelectCandidates canon r cs k). \<forall>d \<in> set cs - set (SelectCandidates canon r cs k).
          last_tested canon r c \<le> last_tested canon r d)"
proof -
  have dist: "distinct (map (\<lambda>c. canon (cand_Link c)) cs)"
    using assms(1) by (simp add: rotation_ok_def)
  have "last_tested canon r c \<le> last_tested canon r d"
    if c: "c \<in> set (SelectCandidates canon r cs k)"
      and d: "d \<in> set cs" "d \<notin> set (SelectCandidates canon r cs k)" for c d
  proof -
    have "c \<in> set cs" using c set_SelectCandidates by blast
    then have "rank canon r cs c < rank canon r cs d"
      using c d selected_iff_rank [OF dist _ assms(2), of _ r] by (metis leI order_less_le_trans)
    then have "\<not> urgency canon r d \<le> urgency canon r c"
      using rank_mono leD by blast
    then show ?thesis by (auto simp: urgency_def)
  qed
  then show ?thesis
    using sel_distinct(2) [OF assms(1)] set_SelectCandidates length_SelectCandidates [OF assms(2)] by blast
qed

theorem selection_least_recently_tested_witness:
  "map cand_Link (SelectCandidates id [(''vless://a'', 50), (''vless://c'', 70)] demo_candidates 3) =
     [''vless://b'', ''vless://d'', ''vless://e''] \<and>
   distinct (SelectCandidates id [(''vless://a'', 50)] demo_candidates 3)"
proof
  show "distinct (SelectCandidates id [(''vless://a'', 50)] demo_candidates 3)"
    by (rule conjunct1 [OF selection_least_recently_tested])
       (simp_all add: rotation_ok_def demo_candidates_def)
qed code_simp

end
