(* ===== verification/ConfigTypes.thy ===== *)
theory ConfigTypes
  imports Prelude
begin

text \<open>
  The configuration (\<open>internal/config/config.go\<close>, \<open>source.go\<close>): its records, with the fields of the Go
  structs in their order, and the accessors that other components call. A pointer to an optional
  value (\<open>*bool\<close>, \<open>*int\<close>) is an option. The deep copies (\<open>Clone\<close>) are the identity on values.
\<close>

record source_item =
  src_ID :: string
  src_URL :: string
  src_Name :: string
  src_Enabled :: bool
  src_AddedAt :: time

record gemini_config =
  gem_URL :: string
  gem_BlockPhrases :: "string list"

record claude_config =
  cla_EnabledRaw :: "bool option"
  cla_URL :: string
  cla_TimeoutRaw :: string
  cla_DialTimeoutRaw :: string
  cla_Enabled :: bool
  cla_Timeout :: duration
  cla_DialTimeout :: duration

record test_config =
  tc_HealthURL :: string
  tc_HealthTimeoutRaw :: string
  tc_Gemini :: gemini_config
  tc_Claude :: claude_config
  tc_TargetURL :: string
  tc_BlockPhrases :: "string list"
  tc_TimeoutRaw :: string
  tc_DialTimeoutRaw :: string
  tc_Concurrency :: int
  tc_RateLimitRPS :: int
  tc_MaxRetriesRaw :: "int option"
  tc_RetryBackoffRaw :: string
  tc_MaxInconclusiveCycles :: int
  tc_JitterSamplesRaw :: "int option"
  tc_HealthTimeout :: duration
  tc_Timeout :: duration
  tc_DialTimeout :: duration
  tc_RetryBackoff :: duration
  tc_MaxRetries :: int
  tc_JitterSamples :: int

record serve_config =
  srv_Listen :: string
  srv_Path :: string
  srv_Format :: string

record publishing_config =
  pub_Enabled :: bool
  pub_Repository :: string
  pub_Branch :: string
  pub_RemoteURL :: string

record config =
  cf_Sources :: "source_item list"
  cf_FetchIntervalRaw :: string
  cf_Test :: test_config
  cf_Serve :: serve_config
  cf_Publishing :: publishing_config
  cf_StateFile :: string
  cf_Headless :: bool
  cf_ProbeLimit :: int
  cf_FlagMode :: string
  cf_FetchInterval :: duration

abbreviation (input) seconds :: "int \<Rightarrow> duration" where "seconds n \<equiv> n * 1000000000"
abbreviation (input) minutes :: "int \<Rightarrow> duration" where "minutes n \<equiv> n * 60000000000"
abbreviation (input) hours :: "int \<Rightarrow> duration" where "hours n \<equiv> n * 3600000000000"

definition EnabledSourceURLs :: "config \<Rightarrow> string list" where
  "EnabledSourceURLs c = map src_URL (filter src_Enabled (cf_Sources c))"

definition SourceURLs :: "config \<Rightarrow> string list" where
  "SourceURLs c = map src_URL (cf_Sources c)"

section \<open>Which changes need a restart\<close>

text \<open>\<open>RequiresRestart\<close> of \<open>propagation.go\<close>.\<close>

definition RequiresRestart :: "config \<Rightarrow> config \<Rightarrow> string list" where
  "RequiresRestart old new =
     (if srv_Listen (cf_Serve old) \<noteq> srv_Listen (cf_Serve new) then [''serve.listen''] else [])
     @ (if srv_Path (cf_Serve old) \<noteq> srv_Path (cf_Serve new) then [''serve.path''] else [])
     @ (if cf_StateFile old \<noteq> cf_StateFile new then [''state_file''] else [])
     @ (if cf_Headless old \<noteq> cf_Headless new then [''headless''] else [])"

definition IsRestartRequired :: "config \<Rightarrow> config \<Rightarrow> bool" where
  "IsRestartRequired old new = (0 < length (RequiresRestart old new))"

lemma RequiresRestart_refl [simp]: "RequiresRestart c c = []"
  by (simp add: RequiresRestart_def)

end
