(* ===== verification/EventTypes.thy ===== *)
theory EventTypes
  imports LinkTypes ConfigTypes StoreTypes
begin

text \<open>The events of the bus, \<open>internal/events/events.go\<close>: one constructor per Go type.\<close>

record progress_metrics =
  pm_Completed :: int
  pm_Total :: int
  pm_Passed :: int
  pm_Failed :: int
  pm_Inconclusive :: int

definition zero_metrics :: progress_metrics where
  "zero_metrics =
     \<lparr> pm_Completed = 0, pm_Total = 0, pm_Passed = 0, pm_Failed = 0, pm_Inconclusive = 0 \<rparr>"

text \<open>
  The arguments are the fields in their order: a start time; a total and the candidates; the metrics
  and a result; the metrics, the duration, whether the cycle was cancelled and the servable count; for
  the publications the times, the repository and the branch, and the commit or the error.
\<close>

datatype 'o event =
    ConfigUpdated config config
  | CycleStarted time
  | CandidatesLoaded int "'o candidate list"
  | ProbeCompleted progress_metrics result
  | CycleFinished progress_metrics duration bool int
  | PublishingStarted time string string
  | PublishingFinished time time duration string string string
  | PublishingFailed time time duration string string string
  | SchedulerPaused time
  | SchedulerResumed time

end
