(* ===== verification/Scheduler.thy ===== *)
theory Scheduler
  imports StoreViews StoreLoad Rotation EventTypes
begin

text \<open>
  The scheduler, \<open>internal/scheduler/scheduler.go\<close>: its control state (pause flag, the channels of
  capacity one, the telemetry of the last cycle) and the test cycle that drives the source, the
  parser, the probe pool, the store and the publisher.

  A channel of capacity one is an option. What the cycle asks the world for is a record of inputs,
  \<open>cycle_input\<close>: the links and errors \<open>source.FetchAll\<close> returns, the results the pool delivers in the
  order of its callbacks, the progress it announces on the bus, and whether it dispatched every candidate, whether the context is cancelled
  where the code looks, the clock, and where \<open>Save\<close> fails. \<open>parse\<close> is \<open>parser.Parse\<close>, \<open>None\<close> for an error.
\<close>

section \<open>State\<close>

record scheduler =
  sd_cfg :: config
  sd_hasPublisher :: bool
  sd_rotator :: rotator
  sd_intervalCh :: "duration option"
  sd_Trigger :: "unit option"
  sd_inCycle :: bool
  sd_lastCycleStart :: time
  sd_lastCycleEnd :: time
  sd_lastCycleDur :: duration
  sd_lastCycleMetrics :: progress_metrics
  sd_lastCancelled :: bool
  sd_lastServable :: int
  sd_paused :: bool
  sd_pauseCh :: "bool option"
  sd_nextEstimate :: time
  sd_completedCount :: int

definition New_scheduler :: "config \<Rightarrow> scheduler" where
  "New_scheduler cfg =
     \<lparr> sd_cfg = cfg, sd_hasPublisher = False, sd_rotator = newCandidateRotator,
       sd_intervalCh = None, sd_Trigger = None, sd_inCycle = False, sd_lastCycleStart = 0,
       sd_lastCycleEnd = 0, sd_lastCycleDur = 0, sd_lastCycleMetrics = zero_metrics,
       sd_lastCancelled = False, sd_lastServable = 0, sd_paused = False, sd_pauseCh = None,
       sd_nextEstimate = 0, sd_completedCount = 0 \<rparr>"

text \<open>The cycle interval; an interval that is not positive counts as an hour.\<close>

definition effective_interval :: "config \<Rightarrow> duration" where
  "effective_interval cfg = (if cf_FetchInterval cfg \<le> 0 then hours 1 else cf_FetchInterval cfg)"

definition updateNextEstimateLocked :: "time \<Rightarrow> scheduler \<Rightarrow> scheduler" where
  "updateNextEstimateLocked now s =
     (if sd_paused s then s \<lparr> sd_nextEstimate := 0 \<rparr>
      else s \<lparr> sd_nextEstimate := now + effective_interval (sd_cfg s) \<rparr>)"

definition clearNextEstimateLocked :: "scheduler \<Rightarrow> scheduler" where
  "clearNextEstimateLocked s = s \<lparr> sd_nextEstimate := 0 \<rparr>"

definition InitNextEstimate :: "time \<Rightarrow> scheduler \<Rightarrow> scheduler" where
  "InitNextEstimate now s = updateNextEstimateLocked now s"

section \<open>Control operations\<close>

text \<open>
  The nested selects that replace whatever a channel of capacity one holds: send; if it is full, drain
  it and send again.
\<close>

definition try_send :: "'a \<Rightarrow> 'a option \<Rightarrow> 'a option" where
  "try_send v ch = (case ch of None \<Rightarrow> Some v | Some old \<Rightarrow> Some old)"

definition send_latest :: "'a \<Rightarrow> 'a option \<Rightarrow> 'a option" where
  "send_latest v ch = (case ch of None \<Rightarrow> Some v | Some _ \<Rightarrow> try_send v None)"

lemma send_latest [simp]: "send_latest v ch = Some v"
  by (simp add: send_latest_def try_send_def split: option.split)

definition Pause :: "scheduler \<Rightarrow> scheduler \<times> bool" where
  "Pause s =
     (if sd_paused s then (s, False)
      else (let s1 = clearNextEstimateLocked (s \<lparr> sd_paused := True \<rparr>)
            in (s1 \<lparr> sd_pauseCh := send_latest True (sd_pauseCh s1) \<rparr>, True)))"

definition Resume :: "time \<Rightarrow> scheduler \<Rightarrow> scheduler \<times> bool" where
  "Resume now s =
     (if \<not> sd_paused s then (s, False)
      else (let s1 = updateNextEstimateLocked now (s \<lparr> sd_paused := False \<rparr>)
            in (s1 \<lparr> sd_pauseCh := send_latest False (sd_pauseCh s1) \<rparr>, True)))"

definition NextCycleEstimate :: "scheduler \<Rightarrow> time" where
  "NextCycleEstimate s = (if sd_paused s then 0 else sd_nextEstimate s)"

definition ResetControlState :: "scheduler \<Rightarrow> scheduler" where
  "ResetControlState s =
     (clearNextEstimateLocked (s \<lparr> sd_paused := False \<rparr>)) \<lparr> sd_pauseCh := None, sd_Trigger := None \<rparr>"

definition UpdateConfig :: "config \<Rightarrow> scheduler \<Rightarrow> scheduler" where
  "UpdateConfig newCfg s0 =
     (let oldInterval = cf_FetchInterval (sd_cfg s0);
          s = s0 \<lparr> sd_cfg := newCfg \<rparr>;
          newInterval = cf_FetchInterval (sd_cfg s)
      in if newInterval \<noteq> oldInterval \<and> newInterval > 0
         then s \<lparr> sd_intervalCh := send_latest newInterval (sd_intervalCh s) \<rparr> else s)"

section \<open>The test cycle\<close>

text \<open>What surrounds the scheduler: the store, its files, the events published, the publications.\<close>

record 'o world =
  w_sched :: scheduler
  w_store :: store
  w_files :: files
  w_events :: "'o event list"
  w_publications :: "store list"

definition emit :: "'o event \<Rightarrow> 'o world \<Rightarrow> 'o world" where
  "emit e w = w \<lparr> w_events := w_events w @ [e] \<rparr>"

definition publishCycleStarted :: "time \<Rightarrow> 'o world \<Rightarrow> 'o world" where
  "publishCycleStarted startedAt w =
     emit (CycleStarted startedAt)
       (w \<lparr> w_sched := (w_sched w) \<lparr> sd_inCycle := True, sd_lastCycleStart := startedAt \<rparr> \<rparr>)"

text \<open>The critical section of \<open>publishCycleFinished\<close>; \<open>end\<close> and \<open>now\<close> are its two readings of the clock.\<close>

definition finish_locked ::
  "time \<Rightarrow> time \<Rightarrow> progress_metrics \<Rightarrow> duration \<Rightarrow> bool \<Rightarrow> int \<Rightarrow> scheduler \<Rightarrow> scheduler" where
  "finish_locked ended now metrics dur cancelled servable s =
     updateNextEstimateLocked now
       (s \<lparr> sd_inCycle := False, sd_lastCycleEnd := ended, sd_lastCycleDur := dur,
           sd_lastCycleMetrics := metrics, sd_lastCancelled := cancelled,
           sd_lastServable := servable, sd_completedCount := sd_completedCount s + 1 \<rparr>)"

definition publishCycleFinished ::
  "time \<Rightarrow> time \<Rightarrow> progress_metrics \<Rightarrow> duration \<Rightarrow> bool \<Rightarrow> int \<Rightarrow> 'o world \<Rightarrow> 'o world" where
  "publishCycleFinished ended now metrics dur cancelled servable w =
     emit (CycleFinished metrics dur cancelled servable)
       (w \<lparr> w_sched := finish_locked ended now metrics dur cancelled servable (w_sched w) \<rparr>)"

record cycle_input =
  ci_start :: time
  ci_links :: "string list"
  ci_fetchErrs :: nat
  ci_results :: "(result \<times> time) list"
  ci_progress :: "(progress_metrics \<times> result) list"
  ci_dispatched :: bool
  ci_cancelled :: bool
  ci_finishNow :: time
  ci_fault :: save_fault
  ci_duration :: duration
  ci_ended :: time
  ci_now :: time

record tally =
  ty_passed :: int
  ty_failed :: int
  ty_inconclusive :: int
  ty_regionBlocked :: int
  ty_timeout :: int

definition zero_tally :: tally where
  "zero_tally =
     \<lparr> ty_passed = 0, ty_failed = 0, ty_inconclusive = 0, ty_regionBlocked = 0, ty_timeout = 0 \<rparr>"

definition count_result :: "result \<Rightarrow> tally \<Rightarrow> tally" where
  "count_result r t =
     (case res_Status r of
        StatusPassed \<Rightarrow> t \<lparr> ty_passed := ty_passed t + 1 \<rparr>
      | StatusFailed \<Rightarrow>
          let t1 = t \<lparr> ty_failed := ty_failed t + 1 \<rparr>
          in if res_Category r = ErrRegionBlocked then t1 \<lparr> ty_regionBlocked := ty_regionBlocked t1 + 1 \<rparr>
             else if res_Category r = ErrTimeout then t1 \<lparr> ty_timeout := ty_timeout t1 + 1 \<rparr>
             else t1
      | StatusInconclusive \<Rightarrow> t \<lparr> ty_inconclusive := ty_inconclusive t + 1 \<rparr>
      | StatusRaw _ \<Rightarrow> t)"

text \<open>The callback of the pool, called with the time at which the store reads the clock.\<close>

definition on_result ::
  "(string \<Rightarrow> string) \<Rightarrow> result \<times> time \<Rightarrow> store \<times> rotator \<times> tally \<Rightarrow> store \<times> rotator \<times> tally" where
  "on_result canon rn st =
     (let (r, now) = rn; (s, rot, t) = st
      in (PutWithTransition canon now r s, RecordTested canon (res_Link r) (res_TestedAt r) rot,
          count_result r t))"

text \<open>The candidates of a cycle: the links that parse, in order.\<close>

definition parse_links :: "(string \<Rightarrow> 'o candidate option) \<Rightarrow> string list \<Rightarrow> 'o candidate list" where
  "parse_links parse links = List.map_filter parse links"

definition save_store :: "(snapshot \<Rightarrow> string) \<Rightarrow> save_fault \<Rightarrow> 'o world \<Rightarrow> 'o world" where
  "save_store encode fault w = w \<lparr> w_files := fst (Save encode fault (w_store w) (w_files w)) \<rparr>"

definition servable_count :: "store \<Rightarrow> int" where
  "servable_count s = stats_Servable (Stats s)"

text \<open>The part of the cycle that runs once the links are known.\<close>

definition probe_phase ::
  "(string \<Rightarrow> string) \<Rightarrow> (string \<Rightarrow> 'o candidate option) \<Rightarrow> int \<Rightarrow> cycle_input \<Rightarrow> 'o world \<Rightarrow>
   'o world \<times> 'o candidate list \<times> tally" where
  "probe_phase canon parse probeLimit inp w =
     (let links = ci_links inp;
          s1 = StartCycle canon links (w_store w);
          rot1 = PruneStale canon links (sd_rotator (w_sched w));
          cands = SelectCandidates canon rot1 (parse_links parse links) probeLimit;
          (s2, rot2, t) = fold (on_result canon) (ci_results inp) (s1, rot1, zero_tally);
          w1 = fold (\<lambda>(m, r). emit (ProbeCompleted m r)) (ci_progress inp) (emit (CandidatesLoaded (int (length cands)) cands) w)
      in (w1 \<lparr> w_store := s2, w_sched := (w_sched w1) \<lparr> sd_rotator := rot2 \<rparr> \<rparr>, cands, t))"

definition cycle_metrics :: "int \<Rightarrow> int \<Rightarrow> tally \<Rightarrow> progress_metrics" where
  "cycle_metrics completed tot t =
     \<lparr> pm_Completed = completed, pm_Total = tot, pm_Passed = ty_passed t, pm_Failed = ty_failed t,
       pm_Inconclusive = ty_inconclusive t \<rparr>"

definition runCycleWithRunner ::
  "(string \<Rightarrow> string) \<Rightarrow> (string \<Rightarrow> 'o candidate option) \<Rightarrow> (snapshot \<Rightarrow> string) \<Rightarrow> cycle_input \<Rightarrow>
   'o world \<Rightarrow> 'o world" where
  "runCycleWithRunner canon parse encode inp w0 =
     (let w = publishCycleStarted (ci_start inp) w0;
          sources = EnabledSourceURLs (sd_cfg (w_sched w));
          probeLimit = cf_ProbeLimit (sd_cfg (w_sched w));
          finish = publishCycleFinished (ci_ended inp) (ci_now inp);
          dur = ci_duration inp
      in if sources = [] then
           finish zero_metrics dur (ci_cancelled inp) (servable_count (w_store w)) w
         else if ci_links inp = [] \<and> ci_fetchErrs inp > 0 then
           finish zero_metrics dur (ci_cancelled inp) (servable_count (w_store w)) w
         else
           let (w1, cands, t) = probe_phase canon parse probeLimit inp w;
               tot = int (length cands)
           in if \<not> ci_dispatched inp \<or> ci_cancelled inp then
                let w2 = save_store encode (ci_fault inp) w1
                in finish (cycle_metrics (ty_passed t + ty_failed t + ty_inconclusive t) tot t)
                     dur True (servable_count (w_store w2)) w2
              else
                let w2 = w1 \<lparr> w_store := FinishCycle (ci_finishNow inp) (w_store w1) \<rparr>;
                    w3 = save_store encode (ci_fault inp) w2;
                    w4 = finish (cycle_metrics tot tot t) dur False (servable_count (w_store w3)) w3
                in if sd_hasPublisher (w_sched w)
                   then w4 \<lparr> w_publications := w_publications w4 @ [w_store w4] \<rparr> else w4)"


section \<open>What a cycle does\<close>

text \<open>
  The three outcomes of a cycle: no enabled source or nothing fetched but errors (\<open>aborts\<close>), an
  interrupted one, and a complete one.
\<close>

definition aborts :: "cycle_input \<Rightarrow> 'o world \<Rightarrow> bool" where
  "aborts inp w =
     (EnabledSourceURLs (sd_cfg (w_sched w)) = [] \<or> ci_links inp = [] \<and> ci_fetchErrs inp > 0)"

definition interrupted :: "cycle_input \<Rightarrow> bool" where
  "interrupted inp = (\<not> ci_dispatched inp \<or> ci_cancelled inp)"

definition cycle_ops :: "cycle_input \<Rightarrow> store_op list" where
  "cycle_ops inp =
     OpStart (ci_links inp) # map (\<lambda>(r, now). OpPut r now) (ci_results inp)
     @ (if interrupted inp then [] else [OpFinish (ci_finishNow inp)])"

lemma fold_on_result:
  "fold (on_result canon) rs (s, rot, t) =
     (fold (run_op canon) (map (\<lambda>(r, now). OpPut r now) rs) s,
      fold (\<lambda>(r, _). RecordTested canon (res_Link r) (res_TestedAt r)) rs rot,
      fold (\<lambda>(r, _). count_result r) rs t)"
  by (induction rs arbitrary: s rot t) (auto simp: on_result_def)

text \<open>What the pool announces on the bus while it runs.\<close>

definition progress_events :: "cycle_input \<Rightarrow> 'o event list" where
  "progress_events inp = map (\<lambda>(m, r). ProbeCompleted m r) (ci_progress inp)"

lemma fold_emit:
  "fold (\<lambda>(m, r). emit (ProbeCompleted m r)) ps w = w \<lparr> w_events := w_events w @ map (\<lambda>(m, r). ProbeCompleted m r) ps \<rparr>"
  by (induction ps arbitrary: w) (auto simp: emit_def)

lemma finish_world [simp]:
  "w_store (publishCycleFinished ended now m d c n w) = w_store w"
  "w_files (publishCycleFinished ended now m d c n w) = w_files w"
  "w_publications (publishCycleFinished ended now m d c n w) = w_publications w"
  "w_events (publishCycleFinished ended now m d c n w) = w_events w @ [CycleFinished m d c n]"
  "w_sched (publishCycleFinished ended now m d c n w) = finish_locked ended now m d c n (w_sched w)"
  by (simp_all add: publishCycleFinished_def emit_def)

lemma start_world [simp]:
  "w_store (publishCycleStarted t w) = w_store w"
  "w_files (publishCycleStarted t w) = w_files w"
  "w_publications (publishCycleStarted t w) = w_publications w"
  "w_events (publishCycleStarted t w) = w_events w @ [CycleStarted t]"
  "w_sched (publishCycleStarted t w) = (w_sched w) \<lparr> sd_inCycle := True, sd_lastCycleStart := t \<rparr>"
  by (simp_all add: publishCycleStarted_def emit_def)

lemma save_world [simp]:
  "w_store (save_store encode fault w) = w_store w"
  "w_publications (save_store encode fault w) = w_publications w"
  "w_events (save_store encode fault w) = w_events w"
  "w_sched (save_store encode fault w) = w_sched w"
  by (simp_all add: save_store_def)

lemma locked_fields [simp]:
  "sd_rotator (finish_locked ended now m d c n s) = sd_rotator s"
  "sd_cfg (finish_locked ended now m d c n s) = sd_cfg s"
  "sd_paused (finish_locked ended now m d c n s) = sd_paused s"
  "sd_pauseCh (finish_locked ended now m d c n s) = sd_pauseCh s"
  "sd_Trigger (finish_locked ended now m d c n s) = sd_Trigger s"
  "sd_intervalCh (finish_locked ended now m d c n s) = sd_intervalCh s"
  "\<not> sd_inCycle (finish_locked ended now m d c n s)"
  "sd_completedCount (finish_locked ended now m d c n s) = sd_completedCount s + 1"
  by (simp_all add: finish_locked_def updateNextEstimateLocked_def)

text \<open>The candidates a cycle selects and what it counts.\<close>

definition cycle_candidates ::
  "(string \<Rightarrow> string) \<Rightarrow> (string \<Rightarrow> 'o candidate option) \<Rightarrow> cycle_input \<Rightarrow> scheduler \<Rightarrow> 'o candidate list" where
  "cycle_candidates canon parse inp s =
     SelectCandidates canon (PruneStale canon (ci_links inp) (sd_rotator s))
       (parse_links parse (ci_links inp)) (cf_ProbeLimit (sd_cfg s))"

definition cycle_tally :: "cycle_input \<Rightarrow> tally" where
  "cycle_tally inp = fold (\<lambda>(r, _). count_result r) (ci_results inp) zero_tally"

definition cycle_rotator :: "(string \<Rightarrow> string) \<Rightarrow> cycle_input \<Rightarrow> rotator \<Rightarrow> rotator" where
  "cycle_rotator canon inp rot =
     fold (\<lambda>(r, _). RecordTested canon (res_Link r) (res_TestedAt r)) (ci_results inp)
       (PruneStale canon (ci_links inp) rot)"

definition probed_store :: "(string \<Rightarrow> string) \<Rightarrow> cycle_input \<Rightarrow> store \<Rightarrow> store" where
  "probed_store canon inp s =
     fold (run_op canon) (map (\<lambda>(r, now). OpPut r now) (ci_results inp)) (StartCycle canon (ci_links inp) s)"

lemma probe_phase_eq:
  "probe_phase canon parse (cf_ProbeLimit (sd_cfg (w_sched w))) inp w =
     (w \<lparr> w_store := probed_store canon inp (w_store w),
          w_sched := (w_sched w) \<lparr> sd_rotator := cycle_rotator canon inp (sd_rotator (w_sched w)) \<rparr>,
          w_events := w_events w @ CandidatesLoaded (int (length (cycle_candidates canon parse inp (w_sched w))))
                                      (cycle_candidates canon parse inp (w_sched w)) # progress_events inp \<rparr>,
      cycle_candidates canon parse inp (w_sched w), cycle_tally inp)"
  by (simp add: probe_phase_def fold_on_result Let_def fold_emit progress_events_def emit_def cycle_candidates_def cycle_tally_def
      cycle_rotator_def probed_store_def)

lemma aborted_cycle:
  assumes "aborts inp w"
  shows "runCycleWithRunner canon parse encode inp w =
    publishCycleFinished (ci_ended inp) (ci_now inp) zero_metrics (ci_duration inp) (ci_cancelled inp)
      (servable_count (w_store w)) (publishCycleStarted (ci_start inp) w)"
  using assms by (auto simp: runCycleWithRunner_def Let_def aborts_def)

lemma cycle_candidates_start [simp]:
  "cycle_candidates canon parse inp (s \<lparr> sd_inCycle := b, sd_lastCycleStart := t \<rparr>) =
     cycle_candidates canon parse inp s"
  by (simp add: cycle_candidates_def)

lemma probe_phase_started:
  "probe_phase canon parse (cf_ProbeLimit (sd_cfg (w_sched w))) inp (publishCycleStarted t w) =
     ((publishCycleStarted t w) \<lparr> w_store := probed_store canon inp (w_store w),
          w_sched := (w_sched (publishCycleStarted t w)) \<lparr> sd_rotator := cycle_rotator canon inp (sd_rotator (w_sched w)) \<rparr>,
          w_events := w_events (publishCycleStarted t w)
            @ CandidatesLoaded (int (length (cycle_candidates canon parse inp (w_sched w))))
                 (cycle_candidates canon parse inp (w_sched w)) # progress_events inp \<rparr>,
      cycle_candidates canon parse inp (w_sched w), cycle_tally inp)"
  using probe_phase_eq [of canon parse "publishCycleStarted t w" inp] by simp

text \<open>The effect of a cycle that is not aborted, field by field.\<close>

lemma run_cycle_fields:
  assumes "\<not> aborts inp w"
    and w'_def: "w' = runCycleWithRunner canon parse encode inp w"
  shows "w_store w' = fold (run_op canon) (cycle_ops inp) (w_store w)"
    and "w_files w' = fst (Save encode (ci_fault inp) (w_store w') (w_files w))"
    and "w_publications w' =
      w_publications w @ (if \<not> interrupted inp \<and> sd_hasPublisher (w_sched w) then [w_store w'] else [])"
    and "w_events w' = w_events w @
      [CycleStarted (ci_start inp),
       CandidatesLoaded (int (length (cycle_candidates canon parse inp (w_sched w))))
         (cycle_candidates canon parse inp (w_sched w))] @ progress_events inp @
      [CycleFinished
         (cycle_metrics
           (if interrupted inp
            then ty_passed (cycle_tally inp) + ty_failed (cycle_tally inp) + ty_inconclusive (cycle_tally inp)
            else int (length (cycle_candidates canon parse inp (w_sched w))))
           (int (length (cycle_candidates canon parse inp (w_sched w)))) (cycle_tally inp))
         (ci_duration inp) (interrupted inp) (servable_count (w_store w'))]"
    and "sd_rotator (w_sched w') = cycle_rotator canon inp (sd_rotator (w_sched w))"
    and "sd_paused (w_sched w') = sd_paused (w_sched w)"
    and "sd_completedCount (w_sched w') = sd_completedCount (w_sched w) + 1"
    and "\<not> sd_inCycle (w_sched w')"
proof -
  have ab: "EnabledSourceURLs (sd_cfg (w_sched w)) \<noteq> []" "\<not> (ci_links inp = [] \<and> ci_fetchErrs inp > 0)"
    using assms(1) by (auto simp: aborts_def)
  show "w_store w' = fold (run_op canon) (cycle_ops inp) (w_store w)"
    unfolding w'_def using ab
    by (cases "ci_links inp") (simp_all add: runCycleWithRunner_def Let_def probe_phase_started cycle_ops_def interrupted_def
        probed_store_def)
  show "w_files w' = fst (Save encode (ci_fault inp) (w_store w') (w_files w))"
    unfolding w'_def using ab
    by (cases "ci_links inp") (simp_all add: runCycleWithRunner_def Let_def probe_phase_started save_store_def)
  show "w_publications w' =
      w_publications w @ (if \<not> interrupted inp \<and> sd_hasPublisher (w_sched w) then [w_store w'] else [])"
    unfolding w'_def using ab
    by (cases "ci_links inp") (simp_all add: runCycleWithRunner_def Let_def probe_phase_started interrupted_def)
  show "w_events w' = w_events w @
      [CycleStarted (ci_start inp),
       CandidatesLoaded (int (length (cycle_candidates canon parse inp (w_sched w))))
         (cycle_candidates canon parse inp (w_sched w))] @ progress_events inp @
      [CycleFinished
         (cycle_metrics
           (if interrupted inp
            then ty_passed (cycle_tally inp) + ty_failed (cycle_tally inp) + ty_inconclusive (cycle_tally inp)
            else int (length (cycle_candidates canon parse inp (w_sched w))))
           (int (length (cycle_candidates canon parse inp (w_sched w)))) (cycle_tally inp))
         (ci_duration inp) (interrupted inp) (servable_count (w_store w'))]"
    unfolding w'_def using ab
    by (cases "ci_links inp") (simp_all add: runCycleWithRunner_def Let_def probe_phase_started interrupted_def)
  show "sd_rotator (w_sched w') = cycle_rotator canon inp (sd_rotator (w_sched w))"
    "sd_paused (w_sched w') = sd_paused (w_sched w)"
    "sd_completedCount (w_sched w') = sd_completedCount (w_sched w) + 1" "\<not> sd_inCycle (w_sched w')"
    unfolding w'_def using ab
    by ((cases "ci_links inp"; simp add: runCycleWithRunner_def Let_def probe_phase_started)+)
qed


section \<open>Properties\<close>

text \<open>C13: A cycle without an enabled source, and one whose fetch returned errors and no link, changes
  nothing but the telemetry: the store, the state file, the rotation and the publications stay as
  they are, and subscribers see the start and the end of an empty cycle. A suspended or unreachable
  source never wipes the candidates.\<close>

theorem aborted_cycle_changes_nothing:
  assumes "EnabledSourceURLs (sd_cfg (w_sched w)) = [] \<or> ci_links inp = [] \<and> ci_fetchErrs inp > 0"
  shows "w_store (runCycleWithRunner canon parse encode inp w) = w_store w
    \<and> w_files (runCycleWithRunner canon parse encode inp w) = w_files w
    \<and> w_publications (runCycleWithRunner canon parse encode inp w) = w_publications w
    \<and> sd_rotator (w_sched (runCycleWithRunner canon parse encode inp w)) = sd_rotator (w_sched w)
    \<and> w_events (runCycleWithRunner canon parse encode inp w) = w_events w @
         [CycleStarted (ci_start inp),
          CycleFinished zero_metrics (ci_duration inp) (ci_cancelled inp) (servable_count (w_store w))]"
proof -
  have "aborts inp w" using assms by (simp add: aborts_def)
  then show ?thesis by (simp add: aborted_cycle)
qed

definition demo_config :: config where
  "demo_config =
     \<lparr> cf_Sources = [\<lparr> src_ID = ''a'', src_URL = ''https://a/'', src_Name = ''a'', src_Enabled = True, src_AddedAt = 1 \<rparr>],
       cf_FetchIntervalRaw = ''3h'',
       cf_Test = \<lparr> tc_HealthURL = [], tc_HealthTimeoutRaw = [],
         tc_Gemini = \<lparr> gem_URL = [], gem_BlockPhrases = [''blocked''] \<rparr>,
         tc_Claude = \<lparr> cla_EnabledRaw = None, cla_URL = [], cla_TimeoutRaw = [], cla_DialTimeoutRaw = [],
                       cla_Enabled = True, cla_Timeout = 0, cla_DialTimeout = 0 \<rparr>,
         tc_TargetURL = [], tc_BlockPhrases = [], tc_TimeoutRaw = ''10s'', tc_DialTimeoutRaw = [],
         tc_Concurrency = 20, tc_RateLimitRPS = 0, tc_MaxRetriesRaw = None, tc_RetryBackoffRaw = [],
         tc_MaxInconclusiveCycles = 2, tc_JitterSamplesRaw = None, tc_HealthTimeout = 0, tc_Timeout = 0,
         tc_DialTimeout = 0, tc_RetryBackoff = 0, tc_MaxRetries = 0, tc_JitterSamples = 0 \<rparr>,
       cf_Serve = \<lparr> srv_Listen = [], srv_Path = [], srv_Format = [] \<rparr>,
       cf_Publishing = \<lparr> pub_Enabled = False, pub_Repository = [], pub_Branch = [], pub_RemoteURL = [] \<rparr>,
       cf_StateFile = ''/s'', cf_Headless = True, cf_ProbeLimit = 2, cf_FlagMode = [],
       cf_FetchInterval = hours 3 \<rparr>"

definition demo_world :: "unit world" where
  "demo_world =
     \<lparr> w_sched = New_scheduler demo_config, w_store = demo_store, w_files = (\<lambda>_. None),
       w_events = [], w_publications = [] \<rparr>"

definition demo_input :: cycle_input where
  "demo_input =
     \<lparr> ci_start = 100, ci_links = [''vless://a''], ci_fetchErrs = 0,
       ci_results = [(demo_result ''vless://a'' StatusPassed, 110)],
       ci_progress = [(\<lparr> pm_Completed = 1, pm_Total = 1, pm_Passed = 1, pm_Failed = 0, pm_Inconclusive = 0 \<rparr>,
                       demo_result ''vless://a'' StatusPassed)], ci_dispatched = True, ci_cancelled = False,
       ci_finishNow = 120, ci_fault = NoFault, ci_duration = 20, ci_ended = 121, ci_now = 122 \<rparr>"

theorem aborted_cycle_changes_nothing_witness:
  "w_store (runCycleWithRunner id (\<lambda>_. None) (\<lambda>_. []) (demo_input \<lparr> ci_links := [], ci_fetchErrs := 1 \<rparr>) demo_world)
     = demo_store"
proof -
  let ?i = "demo_input \<lparr> ci_links := [], ci_fetchErrs := 1 \<rparr>"
  have "w_store (runCycleWithRunner id (\<lambda>_. None) (\<lambda>_. []) ?i demo_world) = w_store demo_world"
    by (rule conjunct1 [OF aborted_cycle_changes_nothing]) simp
  then show ?thesis by (simp add: demo_world_def)
qed

text \<open>C14: Every other cycle is a run of store operations: the links of the source start the cycle, each
  probe result is recorded, and the cycle is finished exactly when every candidate was dispatched and
  the context not cancelled. The state so reached is saved, published only after a complete cycle and
  when a publisher is set, and keeps the invariant of the store. Subscribers see its start, the candidates,
  what the pool announces and its end.\<close>

theorem cycle_refines_store_operations:
  assumes "EnabledSourceURLs (sd_cfg (w_sched w)) \<noteq> []" "ci_links inp \<noteq> [] \<or> ci_fetchErrs inp = 0"
    and "wf_store (w_store w)"
  shows "w_store (runCycleWithRunner canon parse encode inp w) =
      fold (run_op canon)
        (OpStart (ci_links inp) # map (\<lambda>(r, now). OpPut r now) (ci_results inp)
         @ (if ci_dispatched inp \<and> \<not> ci_cancelled inp then [OpFinish (ci_finishNow inp)] else []))
        (w_store w)
    \<and> w_files (runCycleWithRunner canon parse encode inp w) =
        fst (Save encode (ci_fault inp) (w_store (runCycleWithRunner canon parse encode inp w)) (w_files w))
    \<and> w_publications (runCycleWithRunner canon parse encode inp w) = w_publications w @
        (if ci_dispatched inp \<and> \<not> ci_cancelled inp \<and> sd_hasPublisher (w_sched w)
         then [w_store (runCycleWithRunner canon parse encode inp w)] else [])
    \<and> (\<exists>metrics cancelled. w_events (runCycleWithRunner canon parse encode inp w) = w_events w @
         [CycleStarted (ci_start inp), CandidatesLoaded (int (length (cycle_candidates canon parse inp (w_sched w))))
            (cycle_candidates canon parse inp (w_sched w))]
         @ map (\<lambda>(m, r). ProbeCompleted m r) (ci_progress inp)
         @ [CycleFinished metrics (ci_duration inp) cancelled
              (servable_count (w_store (runCycleWithRunner canon parse encode inp w)))])
    \<and> wf_store (w_store (runCycleWithRunner canon parse encode inp w))"
proof -
  have "\<not> aborts inp w" using assms by (auto simp: aborts_def)
  note f = run_cycle_fields [OF this refl, of canon parse encode]
  show ?thesis
    unfolding f(1) f(2) f(3) f(4)
    using wf_run_ops [OF assms(3), of canon "cycle_ops inp"]
    by (auto simp: cycle_ops_def interrupted_def progress_events_def)
qed

theorem cycle_refines_store_operations_witness:
  "wf_store (w_store (runCycleWithRunner id (\<lambda>_. None) (\<lambda>_. []) demo_input demo_world))"
proof -
  have "EnabledSourceURLs (sd_cfg (w_sched demo_world)) \<noteq> []" by code_simp
  moreover have "ci_links demo_input \<noteq> [] \<or> ci_fetchErrs demo_input = 0" by (simp add: demo_input_def)
  moreover have "wf_store (w_store demo_world)" using wf_demo_store by (simp add: demo_world_def)
  ultimately show ?thesis using cycle_refines_store_operations by blast
qed

end
