(* ===== verification/Control.thy ===== *)
theory Control
  imports Scheduler
begin

text \<open>
  The life cycle of the scheduler, \<open>internal/scheduler/control.go\<close>, and its event loop, \<open>Run\<close> in
  \<open>scheduler.go\<close>. Callers start, stop, pause, resume and trigger the scheduler from any goroutine
  while the loop runs in another: a step is one critical section or one channel operation, the
  interleaving is the order of the steps.

  Every \<open>Start\<close> appends a loop; loops are never removed, so that a loop is named by its index. The
  ticker is not part of the state: a tick may come whenever the loop waits. A cycle is its two
  critical sections, the start and the end; the theory \<open>Scheduler\<close> says what happens in between.
\<close>

datatype state = StateIdle | StateRunning | StatePaused

fun string_of_state :: "state \<Rightarrow> string" where
  "string_of_state StateIdle = ''IDLE''"
| "string_of_state StateRunning = ''RUNNING''"
| "string_of_state StatePaused = ''PAUSED''"

datatype control_error =
    ErrSchedulerAlreadyRunning | ErrSchedulerNotRunning | ErrSchedulerAlreadyPaused
  | ErrSchedulerNotPaused | ErrSchedulerPaused | ErrNotConfigured | ErrContext

text \<open>
  Where a loop stands: started, after its first estimate, in a cycle, after a cycle, waiting in its
  select, and the three steps of leaving (reset of the control state, \<open>running\<close> cleared, \<open>done\<close> closed).
\<close>

datatype phase =
    Booting | Ready | InCycle | AfterCycle | Selecting | Leaving | WasReset | NotRunning | Finished

record loop =
  lp_phase :: phase
  lp_cancelled :: bool

text \<open>Where a call of \<open>Stop\<close> that took effect stands; it holds the loop it read.\<close>

datatype stopper = Cancelling "nat option" "nat option" | AwaitingDone "nat option" | AwaitingOps | Resetting | Clearing

record control =
  ct_sched :: "scheduler option"
  ct_running :: bool
  ct_stopping :: bool
  ct_cancel :: "nat option"
  ct_done :: "nat option"
  ct_activeOps :: nat
  ct_loops :: "loop list"
  ct_stopper :: "stopper option"

definition NewControlService :: "scheduler option \<Rightarrow> control" where
  "NewControlService sched =
     \<lparr> ct_sched = sched, ct_running = False, ct_stopping = False, ct_cancel = None, ct_done = None,
       ct_activeOps = 0, ct_loops = [], ct_stopper = None \<rparr>"

section \<open>The operations of the service\<close>

definition Start :: "bool \<Rightarrow> time \<Rightarrow> control \<Rightarrow> control_error option \<times> control" where
  "Start ctxErr now c =
     (if ctxErr then (Some ErrContext, c)
      else if ct_running c \<or> ct_stopping c then (Some ErrSchedulerAlreadyRunning, c)
      else (case ct_sched c of
              None \<Rightarrow> (Some ErrNotConfigured, c)
            | Some s \<Rightarrow>
                (None, c \<lparr> ct_sched := Some (InitNextEstimate now (ResetControlState s)),
                           ct_running := True,
                           ct_cancel := Some (length (ct_loops c)),
                           ct_done := Some (length (ct_loops c)),
                           ct_loops := ct_loops c @ [\<lparr> lp_phase = Booting, lp_cancelled = False \<rparr>] \<rparr>)))"

text \<open>The first critical section of \<open>Stop\<close>; a stopped service is left alone.\<close>

definition Stop_begin :: "control \<Rightarrow> control" where
  "Stop_begin c =
     (if \<not> ct_running c \<or> ct_stopping c then c
      else c \<lparr> ct_stopping := True, ct_running := False, ct_cancel := None,
               ct_stopper := Some (Cancelling (ct_cancel c) (ct_done c)) \<rparr>)"

definition Pause_ctl :: "control \<Rightarrow> control_error option \<times> control" where
  "Pause_ctl c =
     (if \<not> ct_running c \<or> ct_stopping c then (Some ErrSchedulerNotRunning, c)
      else (case ct_sched c of
              None \<Rightarrow> (Some ErrNotConfigured, c)
            | Some s \<Rightarrow>
                (case Pause s of
                   (_, False) \<Rightarrow> (Some ErrSchedulerAlreadyPaused, c)
                 | (s', True) \<Rightarrow> (None, c \<lparr> ct_sched := Some s', ct_activeOps := ct_activeOps c + 1 \<rparr>))))"

definition Resume_ctl :: "time \<Rightarrow> control \<Rightarrow> control_error option \<times> control" where
  "Resume_ctl now c =
     (if \<not> ct_running c \<or> ct_stopping c then (Some ErrSchedulerNotRunning, c)
      else (case ct_sched c of
              None \<Rightarrow> (Some ErrNotConfigured, c)
            | Some s \<Rightarrow>
                (case Resume now s of
                   (_, False) \<Rightarrow> (Some ErrSchedulerNotPaused, c)
                 | (s', True) \<Rightarrow> (None, c \<lparr> ct_sched := Some s', ct_activeOps := ct_activeOps c + 1 \<rparr>))))"

definition Trigger_ctl :: "control \<Rightarrow> control_error option \<times> control" where
  "Trigger_ctl c =
     (if \<not> ct_running c \<or> ct_stopping c then (Some ErrSchedulerNotRunning, c)
      else (case ct_sched c of
              None \<Rightarrow> (Some ErrNotConfigured, c)
            | Some s \<Rightarrow>
                if sd_paused s then (Some ErrSchedulerPaused, c)
                else (None, c \<lparr> ct_sched := Some (s \<lparr> sd_Trigger := try_send () (sd_Trigger s) \<rparr>) \<rparr>)))"

definition TriggerNow :: "control \<Rightarrow> bool \<times> control" where
  "TriggerNow c = (let (err, c') = Trigger_ctl c in (err = None, c'))"

definition IsPaused_ctl :: "control \<Rightarrow> bool" where
  "IsPaused_ctl c =
     (ct_running c \<and> \<not> ct_stopping c \<and> (case ct_sched c of None \<Rightarrow> False | Some s \<Rightarrow> sd_paused s))"

definition IsRunning :: "control \<Rightarrow> bool" where
  "IsRunning c = (ct_running c \<and> \<not> ct_stopping c)"

record sched_status =
  ss_State :: state
  ss_Running :: bool
  ss_Paused :: bool
  ss_CycleActive :: bool
  ss_NextCycleEstimate :: time
  ss_LastCycleStart :: time
  ss_LastCycleEnd :: time
  ss_LastDuration :: duration
  ss_LastMetrics :: progress_metrics
  ss_LastCancelled :: bool
  ss_LastServable :: int
  ss_CycleCount :: int

definition zero_status :: sched_status where
  "zero_status =
     \<lparr> ss_State = StateIdle, ss_Running = False, ss_Paused = False, ss_CycleActive = False,
       ss_NextCycleEstimate = 0, ss_LastCycleStart = 0, ss_LastCycleEnd = 0, ss_LastDuration = 0,
       ss_LastMetrics = zero_metrics, ss_LastCancelled = False, ss_LastServable = 0, ss_CycleCount = 0 \<rparr>"

definition with_last_cycle :: "scheduler \<Rightarrow> sched_status \<Rightarrow> sched_status" where
  "with_last_cycle s st =
     st \<lparr> ss_LastCycleStart := sd_lastCycleStart s, ss_LastCycleEnd := sd_lastCycleEnd s,
          ss_LastDuration := sd_lastCycleDur s, ss_LastMetrics := sd_lastCycleMetrics s,
          ss_LastCancelled := sd_lastCancelled s, ss_LastServable := sd_lastServable s,
          ss_CycleCount := sd_completedCount s \<rparr>"

definition Status_ctl :: "control \<Rightarrow> sched_status" where
  "Status_ctl c =
     (case ct_sched c of
        None \<Rightarrow> zero_status
      | Some s \<Rightarrow>
          if \<not> ct_running c \<or> ct_stopping c then with_last_cycle s zero_status
          else with_last_cycle s
                 (zero_status \<lparr> ss_Running := True, ss_Paused := sd_paused s,
                    ss_State := (if sd_paused s then StatePaused else StateRunning),
                    ss_NextCycleEstimate := (if sd_paused s then 0 else NextCycleEstimate s),
                    ss_CycleActive := sd_inCycle s \<rparr>))"

section \<open>The event loop\<close>

text \<open>
  One step of the loop, as an event of its select or of the code around it. The result is \<open>None\<close> when
  the event cannot happen in the state. \<open>Tick\<close> and \<open>Notified\<close> (a configuration event from the bus) come
  from outside; \<open>Ended\<close> is the end of the running cycle with what it publishes.
\<close>

datatype loop_event =
    Estimate time | Begin time | Ended time time progress_metrics duration bool int | DrainInterval
  | CtxDone | Tick time | Triggered time | PauseSignal | Notified config | IntervalSignal time
  | LeaveReset

text \<open>\<open>publishCycleStarted\<close>, its critical section.\<close>

definition begin_locked :: "time \<Rightarrow> scheduler \<Rightarrow> scheduler" where
  "begin_locked now s = s \<lparr> sd_inCycle := True, sd_lastCycleStart := now \<rparr>"

fun select_step :: "loop_event \<Rightarrow> bool \<Rightarrow> scheduler \<Rightarrow> (phase \<times> scheduler) option" where
  "select_step CtxDone cancelled s = (if cancelled then Some (Leaving, s) else None)"
| "select_step (Tick now) cancelled s =
     Some (if sd_paused s then (Selecting, s) else (InCycle, begin_locked now s))"
| "select_step (Triggered now) cancelled s =
     (case sd_Trigger s of
        None \<Rightarrow> None
      | Some _ \<Rightarrow>
          let s1 = s \<lparr> sd_Trigger := None \<rparr>
          in Some (if sd_paused s1 then (Selecting, s1) else (InCycle, begin_locked now s1)))"
| "select_step PauseSignal cancelled s =
     (case sd_pauseCh s of None \<Rightarrow> None | Some _ \<Rightarrow> Some (Selecting, s \<lparr> sd_pauseCh := None \<rparr>))"
| "select_step (Notified cfg) cancelled s = Some (Selecting, UpdateConfig cfg s)"
| "select_step (IntervalSignal now) cancelled s =
     (case sd_intervalCh s of
        None \<Rightarrow> None
      | Some d \<Rightarrow>
          let s1 = s \<lparr> sd_intervalCh := None \<rparr>
          in Some (Selecting, if d > 0 then updateNextEstimateLocked now s1 else s1))"
| "select_step _ cancelled s = None"

definition loop_step :: "loop_event \<Rightarrow> bool \<Rightarrow> phase \<Rightarrow> scheduler \<Rightarrow> (phase \<times> scheduler) option" where
  "loop_step ev cancelled ph s =
     (case ph of
        Booting \<Rightarrow> (case ev of Estimate now \<Rightarrow> Some (Ready, InitNextEstimate now s) | _ \<Rightarrow> None)
      | Ready \<Rightarrow> (case ev of Begin now \<Rightarrow> Some (InCycle, begin_locked now s) | _ \<Rightarrow> None)
      | InCycle \<Rightarrow> (case ev of Ended ended now m d c n \<Rightarrow> Some (AfterCycle, finish_locked ended now m d c n s)
                            | _ \<Rightarrow> None)
      | AfterCycle \<Rightarrow> (case ev of DrainInterval \<Rightarrow> Some (Selecting, s \<lparr> sd_intervalCh := None \<rparr>) | _ \<Rightarrow> None)
      | Selecting \<Rightarrow> select_step ev cancelled s
      | Leaving \<Rightarrow> (case ev of LeaveReset \<Rightarrow> Some (WasReset, ResetControlState s) | _ \<Rightarrow> None)
      | _ \<Rightarrow> None)"

section \<open>The steps of the whole\<close>

definition set_phase :: "nat \<Rightarrow> phase \<Rightarrow> control \<Rightarrow> control" where
  "set_phase l ph c = c \<lparr> ct_loops := (ct_loops c)[l := (ct_loops c ! l) \<lparr> lp_phase := ph \<rparr>] \<rparr>"

definition cancel_loop :: "nat \<Rightarrow> control \<Rightarrow> control" where
  "cancel_loop l c = c \<lparr> ct_loops := (ct_loops c)[l := (ct_loops c ! l) \<lparr> lp_cancelled := True \<rparr>] \<rparr>"

inductive ctl_step :: "control \<Rightarrow> control \<Rightarrow> bool" where
  start: "ctl_step c (snd (Start ctxErr now c))"
| pause: "ctl_step c (snd (Pause_ctl c))"
| resume: "ctl_step c (snd (Resume_ctl now c))"
| trigger: "ctl_step c (snd (Trigger_ctl c))"
| update_config: "ct_sched c = Some s \<Longrightarrow> ctl_step c (c \<lparr> ct_sched := Some (UpdateConfig cfg s) \<rparr>)"
| operation_done: "0 < ct_activeOps c \<Longrightarrow> ctl_step c (c \<lparr> ct_activeOps := ct_activeOps c - 1 \<rparr>)"
| context_cancelled: "l < length (ct_loops c) \<Longrightarrow> ctl_step c (cancel_loop l c)"
| stop: "ctl_step c (Stop_begin c)"
| stop_cancel: "ct_stopper c = Some (Cancelling cancel d) \<Longrightarrow>
     ctl_step c ((case cancel of Some l \<Rightarrow> cancel_loop l c | None \<Rightarrow> c) \<lparr> ct_stopper := Some (AwaitingDone d) \<rparr>)"
| stop_done: "ct_stopper c = Some (AwaitingDone d) \<Longrightarrow>
     (case d of Some l \<Rightarrow> lp_phase (ct_loops c ! l) = Finished | None \<Rightarrow> True) \<Longrightarrow>
     ctl_step c (c \<lparr> ct_stopper := Some AwaitingOps \<rparr>)"
| stop_ops: "ct_stopper c = Some AwaitingOps \<Longrightarrow> ct_activeOps c = 0 \<Longrightarrow>
     ctl_step c (c \<lparr> ct_stopper := Some Resetting \<rparr>)"
| stop_reset: "ct_stopper c = Some Resetting \<Longrightarrow>
     ctl_step c (c \<lparr> ct_sched := map_option ResetControlState (ct_sched c), ct_stopper := Some Clearing \<rparr>)"
| stop_return: "ct_stopper c = Some Clearing \<Longrightarrow>
     ctl_step c (c \<lparr> ct_stopping := False, ct_done := None, ct_stopper := None \<rparr>)"
| loop_moves: "l < length (ct_loops c) \<Longrightarrow> ct_sched c = Some s \<Longrightarrow>
     loop_step ev (lp_cancelled (ct_loops c ! l)) (lp_phase (ct_loops c ! l)) s = Some (ph, s') \<Longrightarrow>
     ctl_step c ((set_phase l ph c) \<lparr> ct_sched := Some s' \<rparr>)"
| loop_clears_running: "l < length (ct_loops c) \<Longrightarrow> lp_phase (ct_loops c ! l) = WasReset \<Longrightarrow>
     ctl_step c ((set_phase l NotRunning c) \<lparr> ct_running := False, ct_cancel := None \<rparr>)"
| loop_closes_done: "l < length (ct_loops c) \<Longrightarrow> lp_phase (ct_loops c ! l) = NotRunning \<Longrightarrow>
     ctl_step c (set_phase l Finished c)"

inductive ctl_reachable :: "control \<Rightarrow> bool" where
  initial: "ctl_reachable (NewControlService (Some (New_scheduler cfg)))"
| further: "ctl_reachable c \<Longrightarrow> ctl_step c c' \<Longrightarrow> ctl_reachable c'"

section \<open>The invariant\<close>

text \<open>A loop is live until it has cleared \<open>running\<close>; only a live loop touches the scheduler.\<close>

definition live :: "loop \<Rightarrow> bool" where
  "live lp = (lp_phase lp \<noteq> NotRunning \<and> lp_phase lp \<noteq> Finished)"

definition live_loops :: "control \<Rightarrow> nat set" where
  "live_loops c = {l. l < length (ct_loops c) \<and> live (ct_loops c ! l)}"

text \<open>The loop that a stopper in its first steps refers to.\<close>

fun stopper_ok :: "control \<Rightarrow> stopper \<Rightarrow> bool" where
  "stopper_ok c (Cancelling cancel d) =
     (\<exists>l < length (ct_loops c). cancel = Some l \<and> d = Some l \<and> live_loops c \<subseteq> {l})"
| "stopper_ok c (AwaitingDone d) =
     (\<exists>l < length (ct_loops c). d = Some l \<and> live_loops c \<subseteq> {l} \<and>
        lp_cancelled (ct_loops c ! l))"
| "stopper_ok c AwaitingOps = (live_loops c = {})"
| "stopper_ok c Resetting = (live_loops c = {} \<and> ct_activeOps c = 0)"
| "stopper_ok c Clearing =
     (live_loops c = {} \<and> ct_activeOps c = 0 \<and>
      (\<forall>s. ct_sched c = Some s \<longrightarrow> \<not> sd_paused s \<and> sd_pauseCh s = None \<and> sd_Trigger s = None \<and> sd_nextEstimate s = 0))"

definition sched_ok :: "scheduler \<Rightarrow> bool" where
  "sched_ok s =
     ((\<forall>b. sd_pauseCh s = Some b \<longrightarrow> b = sd_paused s) \<and> (sd_paused s \<longrightarrow> sd_nextEstimate s = 0)
      \<and> (\<forall>d. sd_intervalCh s = Some d \<longrightarrow> 0 < d))"

definition ctl_ok :: "control \<Rightarrow> bool" where
  "ctl_ok c =
     ((case ct_stopper c of
         None \<Rightarrow> \<not> ct_stopping c \<and>
           (if ct_running c
            then \<exists>l. live_loops c = {l} \<and> ct_cancel c = Some l \<and> ct_done c = Some l
            else live_loops c = {})
       | Some st \<Rightarrow> ct_stopping c \<and> \<not> ct_running c \<and> ct_cancel c = None \<and> stopper_ok c st)
      \<and> (\<forall>s. ct_sched c = Some s \<longrightarrow> sched_ok s
           \<and> (sd_inCycle s \<longleftrightarrow> (\<exists>l < length (ct_loops c). lp_phase (ct_loops c ! l) = InCycle))))"


lemma live_set_phase:
  assumes "l < length (ct_loops c)"
  shows "live_loops (set_phase l ph c) =
    (if ph = NotRunning \<or> ph = Finished then live_loops c - {l} else insert l (live_loops c))"
  using assms by (auto simp: live_loops_def set_phase_def live_def nth_list_update)

lemma live_cancel_loop [simp]: "live_loops (cancel_loop l c) = live_loops c"
  by (cases "l < length (ct_loops c)")
     (auto simp: live_loops_def cancel_loop_def live_def nth_list_update list_update_beyond)

lemma live_loops_frame [simp]:
  "live_loops (c \<lparr> ct_sched := a \<rparr>) = live_loops c"
  "live_loops (c \<lparr> ct_running := b \<rparr>) = live_loops c"
  "live_loops (c \<lparr> ct_stopping := b \<rparr>) = live_loops c"
  "live_loops (c \<lparr> ct_cancel := x \<rparr>) = live_loops c"
  "live_loops (c \<lparr> ct_done := x \<rparr>) = live_loops c"
  "live_loops (c \<lparr> ct_stopper := y \<rparr>) = live_loops c"
  "live_loops (c \<lparr> ct_activeOps := n \<rparr>) = live_loops c"
  by (simp_all add: live_loops_def)

lemma set_phase_fields [simp]:
  "ct_sched (set_phase l ph c) = ct_sched c" "ct_running (set_phase l ph c) = ct_running c"
  "ct_stopping (set_phase l ph c) = ct_stopping c" "ct_cancel (set_phase l ph c) = ct_cancel c"
  "ct_done (set_phase l ph c) = ct_done c" "ct_activeOps (set_phase l ph c) = ct_activeOps c"
  "ct_stopper (set_phase l ph c) = ct_stopper c"
  "length (ct_loops (set_phase l ph c)) = length (ct_loops c)"
  by (simp_all add: set_phase_def)

lemma cancel_loop_fields [simp]:
  "ct_sched (cancel_loop l c) = ct_sched c" "ct_running (cancel_loop l c) = ct_running c"
  "ct_stopping (cancel_loop l c) = ct_stopping c" "ct_cancel (cancel_loop l c) = ct_cancel c"
  "ct_done (cancel_loop l c) = ct_done c" "ct_activeOps (cancel_loop l c) = ct_activeOps c"
  "ct_stopper (cancel_loop l c) = ct_stopper c"
  "length (ct_loops (cancel_loop l c)) = length (ct_loops c)"
  by (simp_all add: cancel_loop_def)

lemma phase_cancel_loop [simp]: "lp_phase (ct_loops (cancel_loop l c) ! k) = lp_phase (ct_loops c ! k)"
  by (cases "l < length (ct_loops c)") (auto simp: cancel_loop_def nth_list_update list_update_beyond)

lemma cancelled_cancel_loop:
  "l < length (ct_loops c) \<Longrightarrow>
     lp_cancelled (ct_loops (cancel_loop l c) ! k) = (k = l \<or> lp_cancelled (ct_loops c ! k))"
  by (auto simp: cancel_loop_def nth_list_update)

lemma set_phase_nth:
  "l < length (ct_loops c) \<Longrightarrow> lp_phase (ct_loops (set_phase l ph c) ! k) =
     (if k = l then ph else lp_phase (ct_loops c ! k))"
  "l < length (ct_loops c) \<Longrightarrow> lp_cancelled (ct_loops (set_phase l ph c) ! k) = lp_cancelled (ct_loops c ! k)"
  by (auto simp: set_phase_def nth_list_update)

text \<open>Every operation keeps the channels of the scheduler consistent with its pause flag.\<close>

named_theorems sched_ok_rules

lemma sched_ok_ops [sched_ok_rules]:
  "sched_ok s \<Longrightarrow> sched_ok (fst (Pause s))"
  "sched_ok s \<Longrightarrow> sched_ok (fst (Resume now s))"
  "sched_ok s \<Longrightarrow> sched_ok (ResetControlState s)"
  "sched_ok s \<Longrightarrow> sched_ok (InitNextEstimate now s)"
  "sched_ok s \<Longrightarrow> sched_ok (UpdateConfig cfg s)"
  "sched_ok s \<Longrightarrow> sched_ok (begin_locked now s)"
  "sched_ok s \<Longrightarrow> sched_ok (finish_locked ended now m d b n s)"
  "sched_ok s \<Longrightarrow> sched_ok (s \<lparr> sd_intervalCh := None \<rparr>)"
  "sched_ok s \<Longrightarrow> sched_ok (s \<lparr> sd_pauseCh := None \<rparr>)"
  "sched_ok s \<Longrightarrow> sched_ok (s \<lparr> sd_Trigger := t \<rparr>)"
  "sched_ok s \<Longrightarrow> sched_ok (updateNextEstimateLocked now s)"
  by (auto simp: sched_ok_def Pause_def Resume_def ResetControlState_def InitNextEstimate_def
      UpdateConfig_def begin_locked_def finish_locked_def updateNextEstimateLocked_def
      clearNextEstimateLocked_def Let_def)

lemma inCycle_ops [simp]:
  "sd_inCycle (fst (Pause s)) = sd_inCycle s"
  "sd_inCycle (fst (Resume now s)) = sd_inCycle s"
  "sd_inCycle (ResetControlState s) = sd_inCycle s"
  "sd_inCycle (InitNextEstimate now s) = sd_inCycle s"
  "sd_inCycle (UpdateConfig cfg s) = sd_inCycle s"
  "sd_inCycle (begin_locked now s)"
  "sd_inCycle (updateNextEstimateLocked now s) = sd_inCycle s"
  by (simp_all add: Pause_def Resume_def ResetControlState_def InitNextEstimate_def
      UpdateConfig_def begin_locked_def updateNextEstimateLocked_def clearNextEstimateLocked_def Let_def)

lemma select_step_ok:
  assumes "select_step ev b s = Some (ph, s')" "sched_ok s" "\<not> sd_inCycle s"
  shows "sched_ok s' \<and> (sd_inCycle s' \<longleftrightarrow> ph = InCycle) \<and> ph \<in> {Selecting, InCycle, Leaving}"
  using assms by (cases ev) (auto simp: Let_def sched_ok_rules split: if_splits option.splits)

lemma loop_step_ok:
  assumes "loop_step ev b ph s = Some (ph', s')" "sched_ok s" "sd_inCycle s \<longleftrightarrow> ph = InCycle"
  shows "sched_ok s'" "sd_inCycle s' \<longleftrightarrow> ph' = InCycle" "ph \<notin> {WasReset, NotRunning, Finished}"
    "ph' \<notin> {NotRunning, Finished}"
  using assms select_step_ok [of ev b s ph' s']
  by (cases ph; cases ev; auto simp: loop_step_def sched_ok_rules)+


lemma ctl_ok_single:
  assumes "ctl_ok c" "l \<in> live_loops c"
  shows "live_loops c = {l}"
proof -
  have "\<exists>k. live_loops c \<subseteq> {k}"
  proof (cases "ct_stopper c")
    case None
    then show ?thesis using assms(1) by (auto simp: ctl_ok_def split: if_splits)
  next
    case (Some st)
    then show ?thesis using assms(1) by (cases st) (auto simp: ctl_ok_def)
  qed
  then show ?thesis using assms(2) by blast
qed

text \<open>What concerns the scheduler alone, and what concerns the service alone.\<close>

definition sched_part :: "control \<Rightarrow> bool" where
  "sched_part c = (\<forall>s. ct_sched c = Some s \<longrightarrow> sched_ok s
     \<and> (sd_inCycle s \<longleftrightarrow> (\<exists>l < length (ct_loops c). lp_phase (ct_loops c ! l) = InCycle)))"

definition service_part :: "control \<Rightarrow> bool" where
  "service_part c = (case ct_stopper c of
       None \<Rightarrow> \<not> ct_stopping c \<and>
         (if ct_running c
          then \<exists>l. live_loops c = {l} \<and> ct_cancel c = Some l \<and> ct_done c = Some l
          else live_loops c = {})
     | Some st \<Rightarrow> ct_stopping c \<and> \<not> ct_running c \<and> ct_cancel c = None \<and> stopper_ok c st)"

lemma ctl_ok_parts: "ctl_ok c \<longleftrightarrow> service_part c \<and> sched_part c"
  by (auto simp: ctl_ok_def service_part_def sched_part_def)

lemma sched_part_frame:
  assumes "sched_part c" "ct_sched c = Some s" "sched_ok s'" "sd_inCycle s' = sd_inCycle s"
  shows "sched_part (c \<lparr> ct_sched := Some s' \<rparr>)"
  using assms by (simp add: sched_part_def)

lemma in_cycle_live: "l < length (ct_loops c) \<Longrightarrow> lp_phase (ct_loops c ! l) = InCycle \<Longrightarrow> l \<in> live_loops c"
  by (simp add: live_loops_def live_def)

lemma ok_start: "ctl_ok c \<Longrightarrow> ctl_ok (snd (Start ctxErr now c))"
proof -
  assume ok: "ctl_ok c"
  show ?thesis
  proof (cases "ctxErr \<or> ct_running c \<or> ct_stopping c \<or> ct_sched c = None")
    case True
    then show ?thesis using ok by (auto simp: Start_def split: option.split)
  next
    case False
    then obtain s where s: "ct_sched c = Some s" and st: "\<not> ct_running c" "\<not> ct_stopping c" "\<not> ctxErr"
      by auto
    let ?n = "length (ct_loops c)"
    let ?c = "snd (Start ctxErr now c)"
    have stopper: "ct_stopper c = None" and dead: "live_loops c = {}"
      using ok st by (auto simp: ctl_ok_def split: option.splits)
    have loops: "ct_loops ?c = ct_loops c @ [\<lparr> lp_phase = Booting, lp_cancelled = False \<rparr>]"
      using s st by (simp add: Start_def)
    have "live_loops ?c = {?n}"
      using dead unfolding live_loops_def loops
      by (auto simp: nth_append live_def less_Suc_eq)
    moreover have "ct_running ?c" "\<not> ct_stopping ?c" "ct_stopper ?c = None" "ct_cancel ?c = Some ?n" "ct_done ?c = Some ?n"
      using s st stopper by (simp_all add: Start_def)
    ultimately have 1: "service_part ?c" by (simp add: service_part_def)
    have "lp_phase (ct_loops c ! l) \<noteq> InCycle" if "l < ?n" for l
      using dead in_cycle_live [OF that] by auto
    then have idle: "\<not> sd_inCycle s" "\<And>l. l < Suc ?n \<Longrightarrow> lp_phase (ct_loops ?c ! l) \<noteq> InCycle"
      using ok s by (auto simp: ctl_ok_def loops nth_append less_Suc_eq)
    have "sched_ok s" using ok s by (simp add: ctl_ok_def)
    moreover have "ct_sched ?c = Some (InitNextEstimate now (ResetControlState s))" "length (ct_loops ?c) = Suc ?n"
      using s st by (simp_all add: Start_def)
    ultimately have "sched_part ?c" using idle by (auto simp: sched_part_def sched_ok_rules)
    with 1 show ?thesis by (simp add: ctl_ok_parts)
  qed
qed

lemma service_part_sched [simp]:
  "ct_stopper c = None \<Longrightarrow> service_part (c \<lparr> ct_sched := x \<rparr>) = service_part c"
  by (simp add: service_part_def)

lemma running_stopper: "ctl_ok c \<Longrightarrow> ct_running c \<Longrightarrow> ct_stopper c = None"
  by (auto simp: ctl_ok_def split: option.splits)

lemma ok_pause: "ctl_ok c \<Longrightarrow> ctl_ok (snd (Pause_ctl c))"
proof -
  assume ok: "ctl_ok c"
  show ?thesis
  proof (cases "snd (Pause_ctl c) = c")
    case False
    then obtain s where s: "ct_sched c = Some s" "ct_running c"
      "snd (Pause_ctl c) = c \<lparr> ct_sched := Some (fst (Pause s)), ct_activeOps := ct_activeOps c + 1 \<rparr>"
      by (auto simp: Pause_ctl_def split: if_splits option.splits prod.splits bool.splits)
    have none: "ct_stopper c = None" by (rule running_stopper [OF ok s(2)])
    have "sched_ok s" using ok s(1) by (simp add: ctl_ok_def)
    then have "sched_part (c \<lparr> ct_sched := Some (fst (Pause s)) \<rparr>)"
      using ok s by (intro sched_part_frame [OF _ s(1)]) (simp_all add: ctl_ok_parts sched_ok_rules)
    then show ?thesis
      using ok none unfolding s(3) by (simp add: ctl_ok_parts service_part_def sched_part_def)
  qed (use ok in simp)
qed

lemma ok_resume: "ctl_ok c \<Longrightarrow> ctl_ok (snd (Resume_ctl now c))"
proof -
  assume ok: "ctl_ok c"
  show ?thesis
  proof (cases "snd (Resume_ctl now c) = c")
    case False
    then obtain s where s: "ct_sched c = Some s" "ct_running c"
      "snd (Resume_ctl now c) = c \<lparr> ct_sched := Some (fst (Resume now s)), ct_activeOps := ct_activeOps c + 1 \<rparr>"
      by (auto simp: Resume_ctl_def split: if_splits option.splits prod.splits bool.splits)
    have none: "ct_stopper c = None" by (rule running_stopper [OF ok s(2)])
    have "sched_ok s" using ok s(1) by (simp add: ctl_ok_def)
    then have "sched_part (c \<lparr> ct_sched := Some (fst (Resume now s)) \<rparr>)"
      using ok s by (intro sched_part_frame [OF _ s(1)]) (simp_all add: ctl_ok_parts sched_ok_rules)
    then show ?thesis
      using ok none unfolding s(3) by (simp add: ctl_ok_parts service_part_def sched_part_def)
  qed (use ok in simp)
qed

lemma ok_trigger: "ctl_ok c \<Longrightarrow> ctl_ok (snd (Trigger_ctl c))"
proof -
  assume ok: "ctl_ok c"
  show ?thesis
  proof (cases "snd (Trigger_ctl c) = c")
    case False
    then obtain s where s: "ct_sched c = Some s" "ct_running c"
      "snd (Trigger_ctl c) = c \<lparr> ct_sched := Some (s \<lparr> sd_Trigger := try_send () (sd_Trigger s) \<rparr>) \<rparr>"
      by (auto simp: Trigger_ctl_def split: if_splits option.splits)
    have none: "ct_stopper c = None" by (rule running_stopper [OF ok s(2)])
    have "sched_ok s" using ok s(1) by (simp add: ctl_ok_def)
    then have "sched_part (snd (Trigger_ctl c))"
      unfolding s(3) using ok s
      by (intro sched_part_frame [OF _ s(1)]) (simp_all add: ctl_ok_parts sched_ok_rules)
    then show ?thesis
      using ok none unfolding s(3) by (simp add: ctl_ok_parts)
  qed (use ok in simp)
qed


lemma service_part_frame:
  assumes "service_part c" "ct_stopper c' = ct_stopper c" "ct_running c' = ct_running c"
    "ct_stopping c' = ct_stopping c" "ct_cancel c' = ct_cancel c" "ct_done c' = ct_done c"
    "live_loops c' = live_loops c" "\<And>st. stopper_ok c st \<Longrightarrow> stopper_ok c' st"
  shows "service_part c'"
proof (cases "ct_stopper c")
  case None
  then show ?thesis using assms(1-7) by (simp add: service_part_def)
next
  case (Some st)
  then show ?thesis using assms(1-5) assms(8) [of st] by (simp add: service_part_def)
qed

lemma UpdateConfig_fields [simp]:
  "sd_paused (UpdateConfig cfg s) = sd_paused s" "sd_pauseCh (UpdateConfig cfg s) = sd_pauseCh s"
  "sd_Trigger (UpdateConfig cfg s) = sd_Trigger s" "sd_nextEstimate (UpdateConfig cfg s) = sd_nextEstimate s"
  by (simp_all add: UpdateConfig_def Let_def)

lemma stopper_ok_update:
  "ct_sched c = Some s \<Longrightarrow> stopper_ok c st \<Longrightarrow> stopper_ok (c \<lparr> ct_sched := Some (UpdateConfig cfg s) \<rparr>) st"
  by (cases st) auto

lemma ok_update: "ctl_ok c \<Longrightarrow> ct_sched c = Some s \<Longrightarrow> ctl_ok (c \<lparr> ct_sched := Some (UpdateConfig cfg s) \<rparr>)"
proof -
  assume ok: "ctl_ok c" and s: "ct_sched c = Some s"
  have "sched_ok s" using ok s by (simp add: ctl_ok_def)
  then have "sched_part (c \<lparr> ct_sched := Some (UpdateConfig cfg s) \<rparr>)"
    using ok s by (intro sched_part_frame [OF _ s]) (simp_all add: ctl_ok_parts sched_ok_rules)
  moreover have "service_part (c \<lparr> ct_sched := Some (UpdateConfig cfg s) \<rparr>)"
    by (rule service_part_frame [of c]) (use ok stopper_ok_update [OF s] in \<open>simp_all add: ctl_ok_parts\<close>)
  ultimately show ?thesis by (simp add: ctl_ok_parts)
qed

lemma ok_operation_done:
  "ctl_ok c \<Longrightarrow> ctl_ok (c \<lparr> ct_activeOps := ct_activeOps c - 1 \<rparr>)"
proof -
  assume ok: "ctl_ok c"
  have stopper: "stopper_ok (c \<lparr> ct_activeOps := ct_activeOps c - 1 \<rparr>) st" if "stopper_ok c st" for st
    using that by (cases st) auto
  have "service_part (c \<lparr> ct_activeOps := ct_activeOps c - 1 \<rparr>)"
    by (rule service_part_frame [of c]) (use ok stopper in \<open>simp_all add: ctl_ok_parts\<close>)
  then show ?thesis using ok by (simp add: ctl_ok_parts sched_part_def)
qed

lemma sched_part_loops:
  assumes "sched_part c" "ct_sched c' = ct_sched c" "length (ct_loops c') = length (ct_loops c)"
    "\<And>l. l < length (ct_loops c) \<Longrightarrow> lp_phase (ct_loops c' ! l) = InCycle \<longleftrightarrow> lp_phase (ct_loops c ! l) = InCycle"
  shows "sched_part c'"
  using assms by (auto simp: sched_part_def)

lemma ok_cancelled: "ctl_ok c \<Longrightarrow> l < length (ct_loops c) \<Longrightarrow> ctl_ok (cancel_loop l c)"
proof -
  assume ok: "ctl_ok c" and l: "l < length (ct_loops c)"
  have stopper: "stopper_ok (cancel_loop l c) st" if "stopper_ok c st" for st
    using that by (cases st) (auto simp: cancelled_cancel_loop [OF l])
  have "service_part (cancel_loop l c)"
    by (rule service_part_frame [of c]) (use ok stopper in \<open>simp_all add: ctl_ok_parts\<close>)
  moreover have "sched_part (cancel_loop l c)"
    by (rule sched_part_loops [of c]) (use ok in \<open>simp_all add: ctl_ok_parts\<close>)
  ultimately show ?thesis by (simp add: ctl_ok_parts)
qed

lemma ok_stop_begin: "ctl_ok c \<Longrightarrow> ctl_ok (Stop_begin c)"
proof -
  assume ok: "ctl_ok c"
  show ?thesis
  proof (cases "\<not> ct_running c \<or> ct_stopping c")
    case True
    then show ?thesis using ok by (simp add: Stop_begin_def)
  next
    case False
    then obtain l where l: "live_loops c = {l}" "ct_cancel c = Some l" "ct_done c = Some l"
      using ok running_stopper [OF ok] by (auto simp: ctl_ok_parts service_part_def)
    then have "l < length (ct_loops c)" by (auto simp: live_loops_def)
    moreover have "sched_part (Stop_begin c)"
      by (rule sched_part_loops [of c]) (use ok in \<open>simp_all add: ctl_ok_parts Stop_begin_def\<close>)
    ultimately show ?thesis
      using l False by (simp add: ctl_ok_parts service_part_def Stop_begin_def)
  qed
qed

lemma ok_stopper_step:
  assumes "ctl_ok c" "ct_stopper c = Some st" "stopper_ok c st'"
  shows "ctl_ok (c \<lparr> ct_stopper := Some st' \<rparr>)"
proof -
  have "stopper_ok (c \<lparr> ct_stopper := Some st' \<rparr>) st'"
    using assms(3) by (cases st') auto
  then show ?thesis
    using assms by (simp add: ctl_ok_parts service_part_def sched_part_def)
qed

lemma ok_stop_cancel:
  assumes "ctl_ok c" "ct_stopper c = Some (Cancelling cancel d)"
  shows "ctl_ok ((case cancel of Some l \<Rightarrow> cancel_loop l c | None \<Rightarrow> c) \<lparr> ct_stopper := Some (AwaitingDone d) \<rparr>)"
proof -
  obtain l where l: "l < length (ct_loops c)" "cancel = Some l" "d = Some l" "live_loops c \<subseteq> {l}"
    using assms by (auto simp: ctl_ok_parts service_part_def)
  have "ctl_ok (cancel_loop l c)" by (rule ok_cancelled [OF assms(1) l(1)])
  then have "ctl_ok ((cancel_loop l c) \<lparr> ct_stopper := Some (AwaitingDone d) \<rparr>)"
    by (rule ok_stopper_step) (use assms(2) l in \<open>simp_all add: cancelled_cancel_loop\<close>)
  then show ?thesis by (simp add: l(2))
qed

lemma ok_stop_done:
  assumes "ctl_ok c" "ct_stopper c = Some (AwaitingDone d)"
    and "case d of Some l \<Rightarrow> lp_phase (ct_loops c ! l) = Finished | None \<Rightarrow> True"
  shows "ctl_ok (c \<lparr> ct_stopper := Some AwaitingOps \<rparr>)"
proof (rule ok_stopper_step [OF assms(1,2)])
  obtain l where "d = Some l" "live_loops c \<subseteq> {l}"
    using assms by (auto simp: ctl_ok_parts service_part_def)
  then show "stopper_ok c AwaitingOps"
    using assms(3) by (auto simp: live_loops_def live_def)
qed

lemma ok_stop_ops:
  assumes "ctl_ok c" "ct_stopper c = Some AwaitingOps" "ct_activeOps c = 0"
  shows "ctl_ok (c \<lparr> ct_stopper := Some Resetting \<rparr>)"
  using assms by (intro ok_stopper_step) (auto simp: ctl_ok_parts service_part_def)

lemma Reset_fields [simp]:
  "\<not> sd_paused (ResetControlState s)" "sd_pauseCh (ResetControlState s) = None"
  "sd_Trigger (ResetControlState s) = None" "sd_nextEstimate (ResetControlState s) = 0"
  by (simp_all add: ResetControlState_def clearNextEstimateLocked_def)

lemma ok_stop_reset:
  assumes "ctl_ok c" "ct_stopper c = Some Resetting"
  shows "ctl_ok (c \<lparr> ct_sched := map_option ResetControlState (ct_sched c), ct_stopper := Some Clearing \<rparr>)"
  using assms by (auto simp: ctl_ok_parts service_part_def sched_part_def sched_ok_rules live_loops_def)

lemma ok_stop_return:
  assumes "ctl_ok c" "ct_stopper c = Some Clearing"
  shows "ctl_ok (c \<lparr> ct_stopping := False, ct_done := None, ct_stopper := None \<rparr>)"
  using assms by (auto simp: ctl_ok_parts service_part_def sched_part_def)

lemma stopper_ok_loop:
  assumes "stopper_ok c st" "l \<in> live_loops c" "live_loops c' = live_loops c"
    "length (ct_loops c') = length (ct_loops c)"
    "\<And>k. lp_cancelled (ct_loops c' ! k) = lp_cancelled (ct_loops c ! k)"
  shows "stopper_ok c' st"
  using assms by (cases st) auto

lemma ok_loop_moves:
  assumes ok: "ctl_ok c" and l: "l < length (ct_loops c)" and s: "ct_sched c = Some s"
    and step: "loop_step ev (lp_cancelled (ct_loops c ! l)) (lp_phase (ct_loops c ! l)) s = Some (ph, s')"
  shows "ctl_ok ((set_phase l ph c) \<lparr> ct_sched := Some s' \<rparr>)"
proof -
  let ?c = "(set_phase l ph c) \<lparr> ct_sched := Some s' \<rparr>"
  have before: "sched_ok s"
    "sd_inCycle s \<longleftrightarrow> (\<exists>l < length (ct_loops c). lp_phase (ct_loops c ! l) = InCycle)"
    using ok s by (simp_all add: ctl_ok_def)
  have "lp_phase (ct_loops c ! l) \<notin> {NotRunning, Finished}"
    using step by (auto simp: loop_step_def)
  then have live: "l \<in> live_loops c" using l by (auto simp: live_loops_def live_def)
  then have single: "live_loops c = {l}" by (rule ctl_ok_single [OF ok])
  have "sd_inCycle s \<longleftrightarrow> lp_phase (ct_loops c ! l) = InCycle"
  proof
    assume "sd_inCycle s"
    then obtain k where "k < length (ct_loops c)" "lp_phase (ct_loops c ! k) = InCycle"
      using before(2) by blast
    moreover from this have "k = l" using in_cycle_live [of k c] single by simp
    ultimately show "lp_phase (ct_loops c ! l) = InCycle" by simp
  qed (use before(2) l in blast)
  note after = loop_step_ok [OF step before(1) this]
  have same: "live_loops (set_phase l ph c) = live_loops c"
    using after(4) live by (auto simp: live_set_phase [OF l])
  have idle: "lp_phase (ct_loops c ! k) \<noteq> InCycle" if "k < length (ct_loops c)" "k \<noteq> l" for k
    using in_cycle_live [of k c] that single by auto
  have "(\<exists>k < length (ct_loops c). lp_phase (ct_loops (set_phase l ph c) ! k) = InCycle) \<longleftrightarrow> ph = InCycle"
    using l idle by (auto simp: set_phase_nth)
  then have sched: "sched_part ?c" using after(1,2) by (simp add: sched_part_def set_phase_def)
  have stopper: "stopper_ok ?c st" if "stopper_ok c st" for st
    by (rule stopper_ok_loop [OF that live]) (simp_all only: same live_loops_frame, simp_all add: set_phase_nth(2) [OF l])
  have "service_part ?c"
    by (rule service_part_frame [of c]) (use ok stopper same in \<open>simp_all add: ctl_ok_parts\<close>)
  then show ?thesis using sched by (simp add: ctl_ok_parts)
qed

lemma ok_clears_running:
  assumes ok: "ctl_ok c" and l: "l < length (ct_loops c)" and ph: "lp_phase (ct_loops c ! l) = WasReset"
  shows "ctl_ok ((set_phase l NotRunning c) \<lparr> ct_running := False, ct_cancel := None \<rparr>)"
proof -
  let ?c = "(set_phase l NotRunning c) \<lparr> ct_running := False, ct_cancel := None \<rparr>"
  have "l \<in> live_loops c" using l ph by (auto simp: live_loops_def live_def)
  then have "live_loops c = {l}" by (rule ctl_ok_single [OF ok])
  then have dead: "live_loops (set_phase l NotRunning c) = {}" by (simp add: live_set_phase [OF l])
  have sched: "sched_part (set_phase l NotRunning c)"
    by (rule sched_part_loops [of c]) (use ok ph in \<open>auto simp: ctl_ok_parts set_phase_nth [OF l]\<close>)
  have stopper: "stopper_ok ?c st" if "stopper_ok c st" for st
    using that dead \<open>live_loops c = {l}\<close> by (cases st) (auto simp: set_phase_nth [OF l])
  have "service_part ?c"
  proof (cases "ct_stopper c")
    case None
    then show ?thesis using ok dead by (simp add: ctl_ok_parts service_part_def)
  next
    case (Some st)
    then show ?thesis using ok stopper [of st] by (simp add: ctl_ok_parts service_part_def)
  qed
  then show ?thesis using sched by (simp add: ctl_ok_parts sched_part_def)
qed

lemma ok_closes_done:
  assumes ok: "ctl_ok c" and l: "l < length (ct_loops c)" and ph: "lp_phase (ct_loops c ! l) = NotRunning"
  shows "ctl_ok (set_phase l Finished c)"
proof -
  have same: "live_loops (set_phase l Finished c) = live_loops c"
    using ph by (auto simp: live_set_phase [OF l]) (auto simp: live_loops_def live_def)
  have sched: "sched_part (set_phase l Finished c)"
    by (rule sched_part_loops [of c]) (use ok ph in \<open>auto simp: ctl_ok_parts set_phase_nth [OF l]\<close>)
  have stopper: "stopper_ok (set_phase l Finished c) st" if "stopper_ok c st" for st
    using that same by (cases st) (auto simp: set_phase_nth [OF l])
  have "service_part (set_phase l Finished c)"
    by (rule service_part_frame [of c]) (use ok stopper same in \<open>simp_all add: ctl_ok_parts\<close>)
  then show ?thesis using sched by (simp add: ctl_ok_parts)
qed

lemma ctl_ok_step: "ctl_step c c' \<Longrightarrow> ctl_ok c \<Longrightarrow> ctl_ok c'"
  by (induction rule: ctl_step.induct)
     (simp_all only: ok_start ok_pause ok_resume ok_trigger ok_update ok_operation_done ok_cancelled
       ok_stop_begin ok_stop_cancel ok_stop_done ok_stop_ops ok_stop_reset ok_stop_return
       ok_loop_moves ok_clears_running ok_closes_done)

lemma ctl_ok_reachable: "ctl_reachable c \<Longrightarrow> ctl_ok c"
proof (induction rule: ctl_reachable.induct)
  case (initial cfg)
  then show ?case
    by (simp add: ctl_ok_def NewControlService_def live_loops_def sched_ok_def New_scheduler_def)
next
  case (further c c')
  then show ?case using ctl_ok_step by blast
qed


section \<open>Stopping always completes\<close>

lemma sched_present: "ctl_reachable c \<Longrightarrow> ct_sched c \<noteq> None"
proof (induction rule: ctl_reachable.induct)
  case (further c c')
  from further.hyps(2) further.IH show ?case
  proof (induction rule: ctl_step.induct)
    case (stop_cancel c cancel d)
    then show ?case by (cases cancel) auto
  qed (auto simp: Start_def Pause_ctl_def Resume_ctl_def Trigger_ctl_def Stop_begin_def
      split: option.splits prod.splits bool.splits if_splits)
qed (simp add: NewControlService_def)

lemma reachable_steps: "ctl_step\<^sup>*\<^sup>* c c' \<Longrightarrow> ctl_reachable c \<Longrightarrow> ctl_reachable c'"
  by (induction rule: rtranclp_induct) (auto intro: further)

fun phase_rank :: "phase \<Rightarrow> nat" where
  "phase_rank Booting = 8" | "phase_rank Ready = 7" | "phase_rank InCycle = 6"
| "phase_rank AfterCycle = 5" | "phase_rank Selecting = 4" | "phase_rank Leaving = 3"
| "phase_rank WasReset = 2" | "phase_rank NotRunning = 1" | "phase_rank Finished = 0"

text \<open>A cancelled loop can take a step towards its end.\<close>

lemma loop_advances:
  assumes "lp_phase lp \<notin> {WasReset, NotRunning, Finished}" "lp_cancelled lp"
  shows "\<exists>ev ph s'. loop_step ev (lp_cancelled lp) (lp_phase lp) s = Some (ph, s')
    \<and> phase_rank ph < phase_rank (lp_phase lp)"
proof (cases "lp_phase lp")
  case Booting
  then show ?thesis by (intro exI [of _ "Estimate 0"]) (simp add: loop_step_def)
next
  case Ready
  then show ?thesis by (intro exI [of _ "Begin 0"]) (simp add: loop_step_def)
next
  case InCycle
  then show ?thesis by (intro exI [of _ "Ended 0 0 zero_metrics 0 True 0"]) (simp add: loop_step_def)
next
  case AfterCycle
  then show ?thesis by (intro exI [of _ DrainInterval]) (simp add: loop_step_def)
next
  case Selecting
  then show ?thesis using assms(2) by (intro exI [of _ CtxDone]) (simp add: loop_step_def)
next
  case Leaving
  then show ?thesis by (intro exI [of _ LeaveReset]) (simp add: loop_step_def)
qed (use assms in auto)

lemma awaited_loop_ends:
  assumes "ctl_reachable c" "ct_stopper c = Some (AwaitingDone (Some l))"
  shows "\<exists>c'. ctl_step\<^sup>*\<^sup>* c c' \<and> ct_stopper c' = Some (AwaitingDone (Some l))
    \<and> lp_phase (ct_loops c' ! l) = Finished"
  using assms
proof (induction "phase_rank (lp_phase (ct_loops c ! l))" arbitrary: c rule: less_induct)
  case less
  have l: "l < length (ct_loops c)" "lp_cancelled (ct_loops c ! l)"
    using ctl_ok_reachable [OF less.prems(1)] less.prems(2) by (auto simp: ctl_ok_parts service_part_def)
  show ?case
  proof (cases "lp_phase (ct_loops c ! l) = Finished")
    case True
    then show ?thesis using less.prems(2) by blast
  next
    case False
    have "\<exists>c'. ctl_step c c' \<and> ct_stopper c' = Some (AwaitingDone (Some l))
      \<and> phase_rank (lp_phase (ct_loops c' ! l)) < phase_rank (lp_phase (ct_loops c ! l))"
    proof -
      consider "lp_phase (ct_loops c ! l) = WasReset" | "lp_phase (ct_loops c ! l) = NotRunning"
        | "lp_phase (ct_loops c ! l) \<notin> {WasReset, NotRunning, Finished}"
        using False by auto
      then show ?thesis
      proof cases
        case 1
        then show ?thesis
          using loop_clears_running [OF l(1) 1] less.prems(2)
          by (intro exI [of _ "(set_phase l NotRunning c) \<lparr> ct_running := False, ct_cancel := None \<rparr>"])
             (simp add: set_phase_nth(1) [OF l(1)])
      next
        case 2
        then show ?thesis
          using loop_closes_done [OF l(1) 2] less.prems(2)
          by (intro exI [of _ "set_phase l Finished c"]) (simp add: set_phase_nth(1) [OF l(1)])
      next
        case 3
        obtain s where s: "ct_sched c = Some s" using sched_present [OF less.prems(1)] by blast
        obtain ev ph s' where step:
          "loop_step ev (lp_cancelled (ct_loops c ! l)) (lp_phase (ct_loops c ! l)) s = Some (ph, s')"
          "phase_rank ph < phase_rank (lp_phase (ct_loops c ! l))"
          using loop_advances [OF 3 l(2)] by blast
        show ?thesis
          using loop_moves [OF l(1) s step(1)] step(2) less.prems(2)
          by (intro exI [of _ "(set_phase l ph c) \<lparr> ct_sched := Some s' \<rparr>"])
             (simp add: set_phase_nth(1) [OF l(1)])
      qed
    qed
    then obtain c1 where c1: "ctl_step c c1" "ct_stopper c1 = Some (AwaitingDone (Some l))"
      "phase_rank (lp_phase (ct_loops c1 ! l)) < phase_rank (lp_phase (ct_loops c ! l))"
      by blast
    obtain c2 where "ctl_step\<^sup>*\<^sup>* c1 c2" "ct_stopper c2 = Some (AwaitingDone (Some l))"
      "lp_phase (ct_loops c2 ! l) = Finished"
      using less.hyps [OF c1(3) further [OF less.prems(1) c1(1)] c1(2)] by blast
    then show ?thesis using c1(1) by (meson converse_rtranclp_into_rtranclp)
  qed
qed

lemma operations_drain:
  assumes "ct_stopper c = Some AwaitingOps"
  shows "\<exists>c'. ctl_step\<^sup>*\<^sup>* c c' \<and> ct_stopper c' = Some AwaitingOps \<and> ct_activeOps c' = 0"
  using assms
proof (induction "ct_activeOps c" arbitrary: c)
  case (Suc n)
  let ?c = "c \<lparr> ct_activeOps := ct_activeOps c - 1 \<rparr>"
  have step: "ctl_step c ?c" using Suc.hyps(2) by (intro operation_done) simp
  obtain c' where "ctl_step\<^sup>*\<^sup>* ?c c'" "ct_stopper c' = Some AwaitingOps" "ct_activeOps c' = 0"
    using Suc.hyps(1) [of ?c] Suc.prems by (auto simp flip: Suc.hyps(2))
  then show ?case using step by (meson converse_rtranclp_into_rtranclp)
qed (rule exI, rule conjI [OF rtranclp.rtrancl_refl], simp)

lemma ops_to_clearing:
  assumes "ct_stopper c = Some AwaitingOps"
  shows "\<exists>c'. ctl_step\<^sup>*\<^sup>* c c' \<and> ct_stopper c' = Some Clearing"
proof -
  obtain c1 where c1: "ctl_step\<^sup>*\<^sup>* c c1" "ct_stopper c1 = Some AwaitingOps" "ct_activeOps c1 = 0"
    using operations_drain [OF assms] by blast
  let ?c2 = "c1 \<lparr> ct_stopper := Some Resetting \<rparr>"
  let ?c3 = "?c2 \<lparr> ct_sched := map_option ResetControlState (ct_sched ?c2), ct_stopper := Some Clearing \<rparr>"
  have "ctl_step c1 ?c2" by (rule stop_ops [OF c1(2,3)])
  moreover have "ctl_step ?c2 ?c3" by (rule stop_reset) simp
  ultimately have "ctl_step\<^sup>*\<^sup>* c ?c3"
    using c1(1) by (meson rtranclp.rtrancl_into_rtrancl)
  then show ?thesis by (intro exI [of _ ?c3]) simp
qed

lemma clearing_to_end:
  assumes "ctl_step\<^sup>*\<^sup>* c c'" "ct_stopper c' = Some Clearing"
  shows "\<exists>c'. ctl_step\<^sup>*\<^sup>* c c' \<and> ct_stopper c' = None \<and> \<not> ct_stopping c'"
  using rtranclp.rtrancl_into_rtrancl [OF assms(1) stop_return [OF assms(2)]]
  by (intro exI [of _ "c' \<lparr> ct_stopping := False, ct_done := None, ct_stopper := None \<rparr>"]) simp

lemma done_to_clearing:
  assumes "ctl_reachable c" "ct_stopper c = Some (AwaitingDone (Some l))"
  shows "\<exists>c'. ctl_step\<^sup>*\<^sup>* c c' \<and> ct_stopper c' = Some Clearing"
proof -
  obtain c1 where c1: "ctl_step\<^sup>*\<^sup>* c c1" "ct_stopper c1 = Some (AwaitingDone (Some l))"
    "lp_phase (ct_loops c1 ! l) = Finished"
    using awaited_loop_ends [OF assms] by blast
  let ?c2 = "c1 \<lparr> ct_stopper := Some AwaitingOps \<rparr>"
  have "ctl_step c1 ?c2" by (rule stop_done [OF c1(2)]) (simp add: c1(3))
  moreover obtain c3 where "ctl_step\<^sup>*\<^sup>* ?c2 c3" "ct_stopper c3 = Some Clearing"
    using ops_to_clearing [of ?c2] by auto
  ultimately show ?thesis
    using c1(1) by (meson converse_rtranclp_into_rtranclp rtranclp_trans)
qed

lemma stopping_to_clearing:
  assumes "ctl_reachable c" "ct_stopping c"
  shows "\<exists>c'. ctl_step\<^sup>*\<^sup>* c c' \<and> ct_stopper c' = Some Clearing"
proof -
  have ok: "ctl_ok c" by (rule ctl_ok_reachable [OF assms(1)])
  then obtain st where st: "ct_stopper c = Some st"
    using assms(2) by (auto simp: ctl_ok_parts service_part_def split: option.splits)
  show ?thesis
  proof (cases st)
    case (Cancelling cancel d)
    then obtain l where l: "cancel = Some l" "d = Some l"
      using ok st by (auto simp: ctl_ok_parts service_part_def)
    have step: "ctl_step c ((cancel_loop l c) \<lparr> ct_stopper := Some (AwaitingDone (Some l)) \<rparr>)"
      using stop_cancel [of c cancel d] st Cancelling l by simp
    show ?thesis
      using done_to_clearing [OF further [OF assms(1) step], of l] step
      by (auto intro: converse_rtranclp_into_rtranclp)
  next
    case (AwaitingDone d)
    then obtain l where "d = Some l"
      using ok st by (auto simp: ctl_ok_parts service_part_def)
    then show ?thesis using done_to_clearing [OF assms(1)] st AwaitingDone by simp
  next
    case AwaitingOps
    then show ?thesis using ops_to_clearing st by simp
  next
    case Resetting
    let ?c = "c \<lparr> ct_sched := map_option ResetControlState (ct_sched c), ct_stopper := Some Clearing \<rparr>"
    have "ctl_step c ?c" by (rule stop_reset) (simp add: st Resetting)
    then show ?thesis by (intro exI [of _ ?c]) auto
  qed (use st in auto)
qed

section \<open>Properties\<close>

text \<open>C15: At most one scheduler loop is live at any time, whatever callers start, stop, pause and trigger
  concurrently, and so no two cycles overlap: a cycle is marked active exactly while the one live
  loop is in it. While the service is running, \<open>cancel\<close> and \<open>done\<close> are those of that loop.\<close>

theorem single_loop:
  assumes "ctl_reachable c"
  shows "(\<forall>k \<in> live_loops c. \<forall>l \<in> live_loops c. k = l)
    \<and> (ct_running c \<longrightarrow> (\<exists>l. live_loops c = {l} \<and> ct_cancel c = Some l \<and> ct_done c = Some l))
    \<and> (\<forall>s. ct_sched c = Some s \<longrightarrow>
          (sd_inCycle s \<longleftrightarrow> (\<exists>l \<in> live_loops c. lp_phase (ct_loops c ! l) = InCycle)))"
proof -
  have ok: "ctl_ok c" by (rule ctl_ok_reachable [OF assms])
  have "k = l" if "k \<in> live_loops c" "l \<in> live_loops c" for k l
    using ctl_ok_single [OF ok that(1)] that(2) by simp
  moreover have "\<exists>l. live_loops c = {l} \<and> ct_cancel c = Some l \<and> ct_done c = Some l" if "ct_running c"
    using ok running_stopper [OF ok that] that by (simp add: ctl_ok_parts service_part_def)
  moreover have "sd_inCycle s \<longleftrightarrow> (\<exists>l \<in> live_loops c. lp_phase (ct_loops c ! l) = InCycle)"
    if "ct_sched c = Some s" for s
  proof -
    have "sd_inCycle s \<longleftrightarrow> (\<exists>l < length (ct_loops c). lp_phase (ct_loops c ! l) = InCycle)"
      using ok that by (simp add: ctl_ok_parts sched_part_def)
    then show ?thesis using in_cycle_live by (auto simp: live_loops_def)
  qed
  ultimately show ?thesis by blast
qed

definition demo_control :: control where
  "demo_control = snd (Pause_ctl (snd (Start False 5 (NewControlService (Some (New_scheduler demo_config))))))"

lemma demo_control_reachable: "ctl_reachable demo_control"
  unfolding demo_control_def
  by (rule ctl_reachable.further [OF ctl_reachable.further [OF ctl_reachable.initial ctl_step.start] ctl_step.pause])

lemma demo_control_running: "ct_running demo_control" "ct_stopper demo_control = None" "\<not> ct_stopping demo_control"
  by (simp_all add: demo_control_def Pause_ctl_def Start_def NewControlService_def Pause_def Let_def
      New_scheduler_def ResetControlState_def InitNextEstimate_def updateNextEstimateLocked_def
      clearNextEstimateLocked_def)

theorem single_loop_witness:
  "\<exists>l. live_loops demo_control = {l} \<and> ct_cancel demo_control = Some l"
  using single_loop [OF demo_control_reachable] demo_control_running(1) by blast

text \<open>When \<open>Stop\<close> returns, the scheduler has really stopped: no loop is live, no pause or resume is
  still publishing its event, the pause flag, the pause channel, the trigger channel and the estimate
  are cleared, and until then every \<open>Start\<close> was refused.\<close>

theorem stop_leaves_idle:
  assumes "ctl_reachable c" "ct_stopper c = Some Clearing" "ct_sched c = Some s"
  shows "live_loops c = {} \<and> ct_activeOps c = 0 \<and> \<not> ct_running c
    \<and> \<not> sd_paused s \<and> sd_pauseCh s = None \<and> sd_Trigger s = None \<and> sd_nextEstimate s = 0 \<and> \<not> sd_inCycle s
    \<and> Start False now c = (Some ErrSchedulerAlreadyRunning, c)"
proof -
  have ok: "ctl_ok c" by (rule ctl_ok_reachable [OF assms(1)])
  then have "live_loops c = {} \<and> ct_activeOps c = 0 \<and> \<not> ct_running c \<and> ct_stopping c
    \<and> \<not> sd_paused s \<and> sd_pauseCh s = None \<and> sd_Trigger s = None \<and> sd_nextEstimate s = 0"
    using assms(2,3) by (simp add: ctl_ok_parts service_part_def)
  moreover have "\<not> sd_inCycle s"
    using ok calculation in_cycle_live assms(3) by (auto simp: ctl_ok_parts sched_part_def)
  ultimately show ?thesis by (simp add: Start_def)
qed

theorem stop_leaves_idle_witness:
  "\<exists>c. ctl_step\<^sup>*\<^sup>* (Stop_begin demo_control) c \<and> ct_stopper c = Some Clearing \<and> live_loops c = {}"
proof -
  have r: "ctl_reachable (Stop_begin demo_control)"
    by (rule ctl_reachable.further [OF demo_control_reachable ctl_step.stop])
  moreover have "ct_stopping (Stop_begin demo_control)"
    using demo_control_running by (simp add: Stop_begin_def)
  ultimately obtain c where c: "ctl_step\<^sup>*\<^sup>* (Stop_begin demo_control) c" "ct_stopper c = Some Clearing"
    using stopping_to_clearing by blast
  have rc: "ctl_reachable c" by (rule reachable_steps [OF c(1) r])
  obtain s where "ct_sched c = Some s" using sched_present [OF rc] by blast
  then have "live_loops c = {}" using stop_leaves_idle [OF rc c(2)] by blast
  then show ?thesis using c by blast
qed

text \<open>C16: A call of \<open>Stop\<close> that took effect can always complete: from every reachable state in which one is
  in progress, the cancelled loop can run to its end (finishing the cycle it is in), the operations in
  flight can finish, and \<open>Stop\<close> returns. There is no deadlock between \<open>Stop\<close>, the loop's own clean-up
  and the other callers.\<close>

theorem stop_can_complete:
  assumes "ctl_reachable c" "ct_stopping c"
  shows "\<exists>c'. ctl_step\<^sup>*\<^sup>* c c' \<and> ct_stopper c' = None \<and> \<not> ct_stopping c'"
  using stopping_to_clearing [OF assms] clearing_to_end by blast

theorem stop_can_complete_witness:
  "\<exists>c'. ctl_step\<^sup>*\<^sup>* (Stop_begin demo_control) c' \<and> ct_stopper c' = None \<and> \<not> ct_stopping c'"
proof (rule stop_can_complete)
  show "ctl_reachable (Stop_begin demo_control)"
    by (rule ctl_reachable.further [OF demo_control_reachable ctl_step.stop])
  show "ct_stopping (Stop_begin demo_control)"
    using demo_control_running by (simp add: Stop_begin_def)
qed


text \<open>Pausing is consistent in every reachable state: a pending signal to the loop carries the current
  flag, never a stale one; a paused scheduler announces no next cycle, its loop starts none on a tick
  or a trigger, and a second pause and a trigger are refused with their errors. The status reports a
  pause only while the service is running.\<close>

theorem pause_is_consistent:
  assumes "ctl_reachable c" "ct_sched c = Some s"
  shows "(\<forall>b. sd_pauseCh s = Some b \<longrightarrow> b = sd_paused s)
    \<and> (sd_paused s \<longrightarrow> sd_nextEstimate s = 0
         \<and> select_step (Tick now) cancelled s = Some (Selecting, s)
         \<and> (\<forall>ph s'. select_step (Triggered now) cancelled s = Some (ph, s') \<longrightarrow> ph = Selecting)
         \<and> (IsRunning c \<longrightarrow> Pause_ctl c = (Some ErrSchedulerAlreadyPaused, c)
              \<and> Trigger_ctl c = (Some ErrSchedulerPaused, c)))
    \<and> (ss_State (Status_ctl c) = StatePaused \<longleftrightarrow> IsPaused_ctl c)
    \<and> (ss_State (Status_ctl c) = StateIdle \<longleftrightarrow> \<not> IsRunning c)"
proof -
  have "sched_ok s" using ctl_ok_reachable [OF assms(1)] assms(2) by (simp add: ctl_ok_def)
  moreover have "ph = Selecting" if "sd_paused s" "select_step (Triggered now) cancelled s = Some (ph, s')" for ph s'
    using that by (auto simp: Let_def split: option.splits)
  moreover have "Pause_ctl c = (Some ErrSchedulerAlreadyPaused, c) \<and> Trigger_ctl c = (Some ErrSchedulerPaused, c)"
    if "sd_paused s" "IsRunning c"
    using that assms(2) by (simp add: Pause_ctl_def Trigger_ctl_def IsRunning_def Pause_def)
  moreover have "ss_State (Status_ctl c) = StatePaused \<longleftrightarrow> IsPaused_ctl c"
    "ss_State (Status_ctl c) = StateIdle \<longleftrightarrow> \<not> IsRunning c"
    using assms(2)
    by (auto simp: Status_ctl_def IsPaused_ctl_def IsRunning_def with_last_cycle_def zero_status_def)
  ultimately show ?thesis by (auto simp: sched_ok_def)
qed

theorem pause_is_consistent_witness:
  "ss_State (Status_ctl demo_control) = StatePaused \<and> Trigger_ctl demo_control = (Some ErrSchedulerPaused, demo_control)"
proof -
  obtain s where s: "ct_sched demo_control = Some s" "sd_paused s"
    by (simp add: demo_control_def Pause_ctl_def Start_def NewControlService_def Pause_def Let_def
        New_scheduler_def ResetControlState_def InitNextEstimate_def updateNextEstimateLocked_def
        clearNextEstimateLocked_def)
  moreover have "IsRunning demo_control" using demo_control_running by (simp add: IsRunning_def)
  moreover have "IsPaused_ctl demo_control"
    using s demo_control_running by (simp add: IsPaused_ctl_def)
  ultimately show ?thesis using pause_is_consistent [OF demo_control_reachable s(1)] by blast
qed

end
