(* ===== verification/Pool.thy ===== *)
theory Pool
  imports EventTypes
begin

text \<open>
  The probe pool, \<open>RunPoolWithRunner\<close> in \<open>internal/tester/pool.go\<close>: a dispatch loop that starts one
  worker per candidate, at most \<open>Concurrency\<close> of them in flight, each of which probes its candidate,
  reports the result unless the context was cancelled meanwhile, counts it and publishes the progress.
  A step is one channel operation, one atomic operation or one call; the results of the probes are
  arbitrary, and so is the order of the steps.
\<close>

text \<open>
  A worker: in the runner; about to call back; about to count the status; about to count the
  completion; about to publish with its completion number; finished, with its result if it reported.
\<close>

datatype 'o worker =
    Probing "'o candidate"
  | Reporting "'o candidate" result
  | Counting "'o candidate" result
  | Completing "'o candidate" result
  | Publishing "'o candidate" result int
  | Ended "'o candidate" "result option"

fun in_flight :: "'o worker \<Rightarrow> bool" where
  "in_flight (Ended c r) = False"
| "in_flight _ = True"

record 'o pool =
  pl_limit :: nat
  pl_total :: int
  pl_todo :: "'o candidate list"
  pl_workers :: "'o worker list"
  pl_cancelled :: bool
  pl_loop :: "bool option"
  pl_returned :: "bool option"
  pl_results :: "('o candidate \<times> result) list"
  pl_completed :: int
  pl_passed :: int
  pl_failed :: int
  pl_inconclusive :: int
  pl_events :: "'o event list"

definition start_pool :: "nat \<Rightarrow> 'o candidate list \<Rightarrow> 'o pool" where
  "start_pool concurrency cands =
     \<lparr> pl_limit = concurrency, pl_total = int (length cands), pl_todo = cands, pl_workers = [],
       pl_cancelled = False, pl_loop = None, pl_returned = None, pl_results = [], pl_completed = 0,
       pl_passed = 0, pl_failed = 0, pl_inconclusive = 0, pl_events = [] \<rparr>"

definition count_status :: "result \<Rightarrow> 'o pool \<Rightarrow> 'o pool" where
  "count_status r p =
     (case res_Status r of
        StatusPassed \<Rightarrow> p \<lparr> pl_passed := pl_passed p + 1 \<rparr>
      | StatusFailed \<Rightarrow> p \<lparr> pl_failed := pl_failed p + 1 \<rparr>
      | StatusInconclusive \<Rightarrow> p \<lparr> pl_inconclusive := pl_inconclusive p + 1 \<rparr>
      | StatusRaw _ \<Rightarrow> p)"

definition progress :: "int \<Rightarrow> 'o pool \<Rightarrow> progress_metrics" where
  "progress ordinal p =
     \<lparr> pm_Completed = ordinal, pm_Total = pl_total p, pm_Passed = pl_passed p, pm_Failed = pl_failed p,
       pm_Inconclusive = pl_inconclusive p \<rparr>"

definition set_worker :: "nat \<Rightarrow> 'o worker \<Rightarrow> 'o pool \<Rightarrow> 'o pool" where
  "set_worker i w p = p \<lparr> pl_workers := (pl_workers p)[i := w] \<rparr>"

definition flying :: "'o pool \<Rightarrow> nat" where
  "flying p = length (filter in_flight (pl_workers p))"

text \<open>
  \<open>pl_loop\<close> is the value the dispatch loop returned with; \<open>pl_returned\<close> the value the pool returned
  with, after the deferred wait for the workers.
\<close>

inductive pool_step :: "'o pool \<Rightarrow> 'o pool \<Rightarrow> bool" where
  dispatch: "pl_loop p = None \<Longrightarrow> pl_todo p = c # rest \<Longrightarrow> flying p < pl_limit p \<Longrightarrow>
     pool_step p (p \<lparr> pl_todo := rest, pl_workers := pl_workers p @ [Probing c] \<rparr>)"
| loop_cancelled: "pl_loop p = None \<Longrightarrow> pl_todo p \<noteq> [] \<Longrightarrow> pl_cancelled p \<Longrightarrow>
     pool_step p (p \<lparr> pl_loop := Some False \<rparr>)"
| loop_done: "pl_loop p = None \<Longrightarrow> pl_todo p = [] \<Longrightarrow> pool_step p (p \<lparr> pl_loop := Some True \<rparr>)"
| cancel: "pool_step p (p \<lparr> pl_cancelled := True \<rparr>)"
| probed: "i < length (pl_workers p) \<Longrightarrow> pl_workers p ! i = Probing c \<Longrightarrow>
     pool_step p (set_worker i (if pl_cancelled p then Ended c None else Reporting c r) p)"
| report: "i < length (pl_workers p) \<Longrightarrow> pl_workers p ! i = Reporting c r \<Longrightarrow>
     pool_step p ((set_worker i (Counting c r) p) \<lparr> pl_results := pl_results p @ [(c, r)] \<rparr>)"
| count: "i < length (pl_workers p) \<Longrightarrow> pl_workers p ! i = Counting c r \<Longrightarrow>
     pool_step p (count_status r (set_worker i (Completing c r) p))"
| complete: "i < length (pl_workers p) \<Longrightarrow> pl_workers p ! i = Completing c r \<Longrightarrow>
     pool_step p ((set_worker i (Publishing c r (pl_completed p + 1)) p) \<lparr> pl_completed := pl_completed p + 1 \<rparr>)"
| publish: "i < length (pl_workers p) \<Longrightarrow> pl_workers p ! i = Publishing c r ordinal \<Longrightarrow>
     pool_step p ((set_worker i (Ended c (Some r)) p) \<lparr> pl_events := pl_events p @ [ProbeCompleted (progress ordinal p) r] \<rparr>)"
| return: "pl_loop p = Some b \<Longrightarrow> pl_returned p = None \<Longrightarrow> flying p = 0 \<Longrightarrow>
     pool_step p (p \<lparr> pl_returned := Some b \<rparr>)"

inductive pool_reachable :: "nat \<Rightarrow> 'o candidate list \<Rightarrow> 'o pool \<Rightarrow> bool" for n cands where
  initial: "pool_reachable n cands (start_pool n cands)"
| further: "pool_reachable n cands p \<Longrightarrow> pool_step p q \<Longrightarrow> pool_reachable n cands q"

section \<open>The invariant\<close>

fun cand_of :: "'o worker \<Rightarrow> 'o candidate" where
  "cand_of (Probing c) = c" | "cand_of (Reporting c r) = c" | "cand_of (Counting c r) = c"
| "cand_of (Completing c r) = c" | "cand_of (Publishing c r k) = c" | "cand_of (Ended c r) = c"

text \<open>The result a worker has called back with.\<close>

fun reported :: "'o worker \<Rightarrow> ('o candidate \<times> result) option" where
  "reported (Counting c r) = Some (c, r)"
| "reported (Completing c r) = Some (c, r)"
| "reported (Publishing c r k) = Some (c, r)"
| "reported (Ended c (Some r)) = Some (c, r)"
| "reported _ = None"

fun counted :: "'o worker \<Rightarrow> bool" where
  "counted (Publishing c r k) = True"
| "counted (Ended c (Some r)) = True"
| "counted _ = False"

fun dropped :: "'o worker \<Rightarrow> bool" where
  "dropped (Ended c None) = True"
| "dropped _ = False"

definition reports :: "'o worker list \<Rightarrow> ('o candidate \<times> result) multiset" where
  "reports ws = mset (List.map_filter reported ws)"

definition pool_ok :: "nat \<Rightarrow> 'o candidate list \<Rightarrow> 'o pool \<Rightarrow> bool" where
  "pool_ok n cands p =
     (pl_limit p = n \<and> flying p \<le> n
      \<and> map cand_of (pl_workers p) @ pl_todo p = cands
      \<and> mset (pl_results p) = reports (pl_workers p)
      \<and> pl_completed p = int (length (filter counted (pl_workers p)))
      \<and> (\<forall>w \<in> set (pl_workers p). dropped w \<longrightarrow> pl_cancelled p)
      \<and> (pl_loop p = Some True \<longrightarrow> pl_todo p = [])
      \<and> (pl_loop p = Some False \<longrightarrow> pl_cancelled p)
      \<and> (\<forall>b. pl_returned p = Some b \<longrightarrow> pl_loop p = Some b \<and> flying p = 0))"


lemma start_ok: "pool_ok n cands (start_pool n cands)"
  by (simp add: pool_ok_def start_pool_def flying_def reports_def map_filter_def)

lemma reports_append [simp]: "reports (us @ vs) = reports us + reports vs"
  by (simp add: reports_def map_filter_def)

lemma reports_Nil [simp]: "reports [] = {#}"
  by (simp add: reports_def map_filter_def)

lemma reports_Cons [simp]:
  "reports (w # ws) = (case reported w of None \<Rightarrow> {#} | Some x \<Rightarrow> {# x #}) + reports ws"
  by (simp add: reports_def map_filter_def split: option.split)

lemma count_status_fields [simp]:
  "pl_limit (count_status r p) = pl_limit p" "pl_todo (count_status r p) = pl_todo p"
  "pl_workers (count_status r p) = pl_workers p" "pl_cancelled (count_status r p) = pl_cancelled p"
  "pl_loop (count_status r p) = pl_loop p" "pl_returned (count_status r p) = pl_returned p"
  "pl_results (count_status r p) = pl_results p" "pl_completed (count_status r p) = pl_completed p"
  by (simp_all add: count_status_def split: status.split)

text \<open>The pool with the worker at \<open>i\<close> written out: what a step of that worker changes.\<close>

lemma worker_split:
  assumes "i < length ws"
  obtains us v vs where "ws = us @ v # vs" "ws ! i = v" "\<And>w. ws[i := w] = us @ w # vs"
  using id_take_nth_drop [OF assms] upd_conv_take_nth_drop [OF assms] that by blast

lemma worker_step_ok:
  assumes ok: "pool_ok n cands p" and i: "i < length (pl_workers p)"
    and flies: "in_flight (pl_workers p ! i)" and cand: "cand_of w = cand_of (pl_workers p ! i)"
    and workers: "pl_workers q = (pl_workers p)[i := w]"
    and same: "pl_limit q = pl_limit p" "pl_todo q = pl_todo p" "pl_cancelled q = pl_cancelled p"
      "pl_loop q = pl_loop p" "pl_returned q = pl_returned p"
    and results: "mset (pl_results q) + (case reported (pl_workers p ! i) of None \<Rightarrow> {#} | Some x \<Rightarrow> {# x #})
      = mset (pl_results p) + (case reported w of None \<Rightarrow> {#} | Some x \<Rightarrow> {# x #})"
    and completed: "pl_completed q + (if counted (pl_workers p ! i) then 1 else 0)
      = pl_completed p + (if counted w then 1 else 0)"
    and drop: "dropped w \<longrightarrow> pl_cancelled p"
  shows "pool_ok n cands q"
proof -
  obtain us v vs where ws: "pl_workers p = us @ v # vs" "pl_workers q = us @ w # vs"
    and v: "pl_workers p ! i = v"
    using worker_split [OF i] workers by metis
  have fly: "flying q \<le> flying p" "flying p \<noteq> 0"
    using flies [unfolded v] unfolding flying_def ws by simp_all
  have not_returned: "pl_returned p = None" using ok fly(2) by (auto simp: pool_ok_def)
  have cands: "map cand_of (pl_workers q) = map cand_of (pl_workers p)"
    using cand [unfolded v] unfolding ws by simp
  have "mset (pl_results p) = reports (us @ v # vs)"
    using ok unfolding pool_ok_def ws by blast
  then have rep: "mset (pl_results q) = reports (pl_workers q)"
    using results [unfolded v] unfolding ws by (simp add: ac_simps)
  have "pl_completed p = int (length (filter counted (us @ v # vs)))"
    using ok unfolding pool_ok_def ws by blast
  then have comp: "pl_completed q = int (length (filter counted (pl_workers q)))"
    using completed [unfolded v] unfolding ws by (simp split: if_splits)
  have "set (pl_workers q) \<subseteq> insert w (set (pl_workers p))"
    unfolding workers by (rule set_update_subset_insert)
  then have drops: "\<forall>x \<in> set (pl_workers q). dropped x \<longrightarrow> pl_cancelled q"
    using ok drop same(3) by (auto simp: pool_ok_def)
  show ?thesis
    using ok fly not_returned cands rep comp drops by (auto simp: pool_ok_def same)
qed

lemma pool_ok_step: "pool_step p q \<Longrightarrow> pool_ok n cands p \<Longrightarrow> pool_ok n cands q"
proof (induction rule: pool_step.induct)
  case (probed i p c r)
  then show ?case by - (rule worker_step_ok [of n cands p i], auto simp: set_worker_def split: if_splits)
next
  case (report i p c r)
  then show ?case by - (rule worker_step_ok [of n cands p i], auto simp: set_worker_def)
next
  case (count i p c r)
  then show ?case by - (rule worker_step_ok [of n cands p i], auto simp: set_worker_def)
next
  case (complete i p c r)
  then show ?case by - (rule worker_step_ok [of n cands p i], auto simp: set_worker_def)
next
  case (publish i p c r k)
  then show ?case by - (rule worker_step_ok [of n cands p i], auto simp: set_worker_def)
next
  case (dispatch p c rest)
  then show ?case by (auto simp: pool_ok_def flying_def)
qed (auto simp: pool_ok_def flying_def)

lemma pool_ok_reachable: "pool_reachable n cands p \<Longrightarrow> pool_ok n cands p"
  by (induction rule: pool_reachable.induct) (auto simp: start_ok intro: pool_ok_step)


section \<open>The pool returns\<close>

fun worker_rank :: "'o worker \<Rightarrow> nat" where
  "worker_rank (Probing c) = 5" | "worker_rank (Reporting c r) = 4" | "worker_rank (Counting c r) = 3"
| "worker_rank (Completing c r) = 2" | "worker_rank (Publishing c r k) = 1" | "worker_rank (Ended c r) = 0"

definition pool_rank :: "'o pool \<Rightarrow> nat" where
  "pool_rank p =
     6 * length (pl_todo p) + sum_list (map worker_rank (pl_workers p))
     + (if pl_loop p = None then 1 else 0) + (if pl_returned p = None then 1 else 0)"

lemma rank_count_status [simp]: "pool_rank (count_status r p) = pool_rank p"
  by (simp add: pool_rank_def)

lemma rank_set_worker:
  assumes "i < length (pl_workers p)" "worker_rank w < worker_rank (pl_workers p ! i)"
  shows "pool_rank (set_worker i w p) < pool_rank p"
proof -
  obtain us v vs where ws: "pl_workers p = us @ v # vs" "\<And>w. (pl_workers p)[i := w] = us @ w # vs"
    and v: "pl_workers p ! i = v"
    using worker_split [OF assms(1)] by metis
  show ?thesis
    using assms(2) [unfolded v] by (simp add: pool_rank_def set_worker_def ws(2)) (simp add: ws(1))
qed

lemma rank_frame [simp]:
  "pool_rank (p \<lparr> pl_results := a \<rparr>) = pool_rank p"
  "pool_rank (p \<lparr> pl_completed := k \<rparr>) = pool_rank p"
  "pool_rank (p \<lparr> pl_events := e \<rparr>) = pool_rank p"
  by (simp_all add: pool_rank_def)

lemma worker_moves:
  assumes "i < length (pl_workers p)" "in_flight (pl_workers p ! i)"
  shows "\<exists>q. pool_step p q \<and> pool_rank q < pool_rank p"
proof (cases "pl_workers p ! i")
  case (Probing c)
  have "pool_rank (set_worker i (if pl_cancelled p then Ended c None else Reporting c zero_result) p) < pool_rank p"
    using assms(1) Probing by (intro rank_set_worker) auto
  then show ?thesis using probed [OF assms(1) Probing] by blast
next
  case (Reporting c r)
  have "pool_rank (set_worker i (Counting c r) p) < pool_rank p"
    using assms(1) Reporting by (intro rank_set_worker) auto
  with report [OF assms(1) Reporting] show ?thesis by - (rule exI, rule conjI, assumption, simp)
next
  case (Counting c r)
  have "pool_rank (set_worker i (Completing c r) p) < pool_rank p"
    using assms(1) Counting by (intro rank_set_worker) auto
  with count [OF assms(1) Counting] show ?thesis by - (rule exI, rule conjI, assumption, simp)
next
  case (Completing c r)
  have "pool_rank (set_worker i (Publishing c r (pl_completed p + 1)) p) < pool_rank p"
    using assms(1) Completing by (intro rank_set_worker) auto
  with complete [OF assms(1) Completing] show ?thesis by - (rule exI, rule conjI, assumption, simp)
next
  case (Publishing c r k)
  have "pool_rank (set_worker i (Ended c (Some r)) p) < pool_rank p"
    using assms(1) Publishing by (intro rank_set_worker) auto
  with publish [OF assms(1) Publishing] show ?thesis by - (rule exI, rule conjI, assumption, simp)
qed (use assms in simp)

lemma pool_moves:
  assumes "pool_ok n cands p" "0 < n" "pl_returned p = None"
  shows "\<exists>q. pool_step p q \<and> pool_rank q < pool_rank p"
proof (cases "flying p = 0")
  case False
  then obtain w where "w \<in> set (pl_workers p)" "in_flight w"
    by (auto simp: flying_def filter_empty_conv)
  then obtain i where "i < length (pl_workers p)" "in_flight (pl_workers p ! i)"
    by (auto simp: in_set_conv_nth)
  then show ?thesis by (rule worker_moves)
next
  case True
  show ?thesis
  proof (cases "pl_loop p")
    case (Some b)
    have "pool_step p (p \<lparr> pl_returned := Some b \<rparr>)" by (rule return [OF Some assms(3) True])
    moreover have "pool_rank (p \<lparr> pl_returned := Some b \<rparr>) < pool_rank p"
      using assms(3) by (simp add: pool_rank_def)
    ultimately show ?thesis by blast
  next
    case None
    show ?thesis
    proof (cases "pl_todo p")
      case Nil
      have "pool_step p (p \<lparr> pl_loop := Some True \<rparr>)" by (rule loop_done [OF None Nil])
      moreover have "pool_rank (p \<lparr> pl_loop := Some True \<rparr>) < pool_rank p"
        using None by (simp add: pool_rank_def)
      ultimately show ?thesis by blast
    next
      case (Cons c rest)
      have "pool_step p (p \<lparr> pl_todo := rest, pl_workers := pl_workers p @ [Probing c] \<rparr>)"
        using assms True by (intro dispatch [OF None Cons]) (simp add: pool_ok_def)
      moreover have "pool_rank (p \<lparr> pl_todo := rest, pl_workers := pl_workers p @ [Probing c] \<rparr>) < pool_rank p"
        using Cons by (simp add: pool_rank_def)
      ultimately show ?thesis by blast
    qed
  qed
qed

lemma pool_can_return:
  assumes "pool_ok n cands p" "0 < n"
  shows "\<exists>q. pool_step\<^sup>*\<^sup>* p q \<and> pl_returned q \<noteq> None"
  using assms
proof (induction "pool_rank p" arbitrary: p rule: less_induct)
  case less
  show ?case
  proof (cases "pl_returned p = None")
    case True
    then obtain q where q: "pool_step p q" "pool_rank q < pool_rank p"
      using pool_moves [OF less.prems] by blast
    then obtain u where "pool_step\<^sup>*\<^sup>* q u" "pl_returned u \<noteq> None"
      using less.hyps [OF q(2) pool_ok_step [OF q(1) less.prems(1)] less.prems(2)] by blast
    then show ?thesis using q(1) by (meson converse_rtranclp_into_rtranclp)
  qed blast
qed

section \<open>What the results are\<close>

lemma reports_sub: "image_mset fst (reports ws) \<subseteq># mset (map cand_of ws)"
proof (induction ws)
  case (Cons w ws)
  have "image_mset fst (case reported w of None \<Rightarrow> {#} | Some x \<Rightarrow> {# x #}) \<subseteq># {# cand_of w #}"
    by (cases w rule: reported.cases) auto
  from subset_mset.add_mono [OF this Cons.IH] show ?case by simp
qed simp

lemma reports_all:
  "\<forall>w \<in> set ws. \<not> in_flight w \<and> \<not> dropped w \<Longrightarrow>
     image_mset fst (reports ws) = mset (map cand_of ws) \<and> length (filter counted ws) = length ws"
proof (induction ws)
  case (Cons w ws)
  then obtain c r where "w = Ended c (Some r)"
    by (metis dropped.simps(1) in_flight.simps(2-6) list.set_intros(1) option.exhaust worker.exhaust)
  with Cons show ?case by simp
qed simp

section \<open>Properties\<close>

text \<open>At every moment at most \<open>Concurrency\<close> probes are in flight, every candidate is reported at most
  once, and the completion numbers published are at most the number of candidates.\<close>

theorem pool_within_limits:
  assumes "pool_reachable n cands p"
  shows "flying p \<le> n \<and> mset (map fst (pl_results p)) \<subseteq># mset cands
    \<and> pl_completed p \<le> int (length cands)"
proof -
  have ok: "pool_ok n cands p" by (rule pool_ok_reachable [OF assms])
  have "mset (map fst (pl_results p)) = image_mset fst (reports (pl_workers p))"
    using ok by (simp add: pool_ok_def)
  also have "\<dots> \<subseteq># mset (map cand_of (pl_workers p))" by (rule reports_sub)
  also have "\<dots> \<subseteq># mset cands" using ok by (auto simp: pool_ok_def)
  finally have sub: "mset (map fst (pl_results p)) \<subseteq># mset cands" .
  have "length (filter counted (pl_workers p)) \<le> length (map cand_of (pl_workers p) @ pl_todo p)"
    by (simp add: le_trans [OF length_filter_le])
  then have "pl_completed p \<le> int (length cands)"
    using ok unfolding pool_ok_def by simp
  then show ?thesis using ok sub by (simp add: pool_ok_def)
qed

definition demo_cands :: "unit candidate list" where
  "demo_cands = map (\<lambda>l. \<lparr> cand_Link = l, cand_Outbound = (), cand_Warnings = [] \<rparr>) [''vless://a'', ''vless://b'']"

lemma demo_pool_reachable: "pool_reachable 1 demo_cands (start_pool 1 demo_cands)"
  by (rule initial)

lemma demo_pool_returns: "\<exists>q. pool_reachable 1 demo_cands q \<and> pl_returned q \<noteq> None"
proof -
  obtain q where "pool_step\<^sup>*\<^sup>* (start_pool 1 demo_cands) q" "pl_returned q \<noteq> None"
    using pool_can_return [OF pool_ok_reachable [OF demo_pool_reachable]] by auto
  moreover from this(1) have "pool_reachable 1 demo_cands q"
    by (induction rule: rtranclp_induct) (auto intro: pool_reachable.intros)
  ultimately show ?thesis by blast
qed

theorem pool_within_limits_witness:
  "flying (start_pool 1 demo_cands) \<le> 1 \<and> pl_completed (start_pool 1 demo_cands) \<le> int (length demo_cands)"
  using pool_within_limits [OF demo_pool_reachable] by blast

text \<open>C17: When the pool returns, no probe is in flight any more, and no later step reports or publishes
  anything; if it returns true and the context was not cancelled, every candidate was reported exactly
  once and counted; it returns false only when the context was cancelled.\<close>

theorem pool_return_complete:
  assumes "pool_reachable n cands p" "pl_returned p = Some b"
  shows "flying p = 0
    \<and> (b \<and> \<not> pl_cancelled p \<longrightarrow>
         mset (map fst (pl_results p)) = mset cands \<and> pl_completed p = int (length cands))
    \<and> (\<not> b \<longrightarrow> pl_cancelled p)
    \<and> (\<forall>q. pool_step p q \<longrightarrow> pl_results q = pl_results p \<and> pl_events q = pl_events p)"
proof -
  have ok: "pool_ok n cands p" by (rule pool_ok_reachable [OF assms(1)])
  then have fin: "pl_loop p = Some b" "flying p = 0" using assms(2) by (auto simp: pool_ok_def)
  then have ended: "\<forall>w \<in> set (pl_workers p). \<not> in_flight w"
    by (auto simp: flying_def filter_empty_conv)
  have "mset (map fst (pl_results p)) = mset cands \<and> pl_completed p = int (length cands)"
    if "b" "\<not> pl_cancelled p"
  proof -
    have "\<forall>w \<in> set (pl_workers p). \<not> in_flight w \<and> \<not> dropped w"
      using ended ok that(2) by (auto simp: pool_ok_def)
    from reports_all [OF this] show ?thesis
      using ok fin(1) that(1) by (auto simp: pool_ok_def)
  qed
  moreover have "pl_cancelled p" if "\<not> b" using ok fin(1) that by (auto simp: pool_ok_def)
  moreover have "pl_results q = pl_results p \<and> pl_events q = pl_events p" if "pool_step p q" for q
    using that
  proof (cases rule: pool_step.cases)
    case (probed i c r)
    then show ?thesis using ended nth_mem [of i "pl_workers p"] by fastforce
  next
    case (report i c r)
    then show ?thesis using ended nth_mem [of i "pl_workers p"] by fastforce
  next
    case (count i c r)
    then show ?thesis using ended nth_mem [of i "pl_workers p"] by fastforce
  next
    case (complete i c r)
    then show ?thesis using ended nth_mem [of i "pl_workers p"] by fastforce
  next
    case (publish i c r k)
    then show ?thesis using ended nth_mem [of i "pl_workers p"] by fastforce
  qed (simp_all add: fin(1))
  ultimately show ?thesis using fin(2) by blast
qed

theorem pool_return_complete_witness:
  "\<exists>q. pool_reachable 1 demo_cands q \<and> pl_returned q \<noteq> None \<and> flying q = 0"
proof -
  obtain q b where q: "pool_reachable 1 demo_cands q" "pl_returned q = Some b"
    using demo_pool_returns by blast
  then show ?thesis using pool_return_complete [OF q] by blast
qed

text \<open>C18: The pool terminates for every positive concurrency: from each reachable state there are steps
  that make it return, whether or not the context is cancelled meanwhile. With a concurrency of zero
  it cannot return while there are candidates and the context is not cancelled.\<close>

theorem pool_terminates:
  assumes "pool_reachable n cands p"
  shows "(0 < n \<longrightarrow> (\<exists>q. pool_step\<^sup>*\<^sup>* p q \<and> pl_returned q \<noteq> None))
    \<and> (n = 0 \<and> cands \<noteq> [] \<and> \<not> pl_cancelled p \<longrightarrow> pl_returned p = None)"
proof -
  have ok: "pool_ok n cands p" by (rule pool_ok_reachable [OF assms])
  have idle: "n = 0 \<longrightarrow> pl_workers p = []"
    using assms
  proof (induction rule: pool_reachable.induct)
    case (further p q)
    from further.hyps(2) further.IH pool_ok_reachable [OF further.hyps(1)] show ?case
      by (induction rule: pool_step.induct) (auto simp: set_worker_def pool_ok_def count_status_def split: status.split)
  qed (simp add: start_pool_def)
  have "pl_returned p = None" if "n = 0" "cands \<noteq> []" "\<not> pl_cancelled p"
  proof (rule ccontr)
    assume "pl_returned p \<noteq> None"
    then obtain b where "pl_loop p = Some b" using ok by (auto simp: pool_ok_def)
    with ok that(3) have "pl_todo p = []" by (cases b) (auto simp: pool_ok_def)
    with ok idle that show False by (auto simp: pool_ok_def)
  qed
  then show ?thesis using pool_can_return [OF ok] by blast
qed

theorem pool_terminates_witness:
  "\<exists>q. pool_step\<^sup>*\<^sup>* (start_pool 1 demo_cands) q \<and> pl_returned q \<noteq> None"
  using pool_terminates [OF demo_pool_reachable] by simp

end
