(* ===== verification/Base64.thy ===== *)
theory Base64
  imports Prelude
begin

text \<open>
  Go's \<open>encoding/base64\<close> and \<open>encoding/hex\<close>, as far as the program uses them: the padded standard and URL
  alphabets, the unpadded standard alphabet, decoding that skips line breaks and does not check the
  unused bits of the last character, and the tolerant \<open>b64Decode\<close> that \<open>internal/parser/parser.go\<close> and
  \<open>internal/source/fetch.go\<close> share.
\<close>

definition std_alphabet :: string where
  "std_alphabet = ''ABCDEFGHIJKLMNOPQRSTUVWXYZabcdefghijklmnopqrstuvwxyz0123456789+/''"

definition url_alphabet :: string where
  "url_alphabet = ''ABCDEFGHIJKLMNOPQRSTUVWXYZabcdefghijklmnopqrstuvwxyz0123456789-_''"

fun position :: "char \<Rightarrow> string \<Rightarrow> nat option" where
  "position c [] = None"
| "position c (x # xs) = (if x = c then Some 0 else map_option Suc (position c xs))"

definition byte :: "char \<Rightarrow> nat" where
  "byte c = of_char c"

lemma byte_less [simp]: "byte c < 256"
  by (simp add: byte_def)

lemma char_of_byte [simp]: "char_of (byte c) = c"
  by (simp add: byte_def)

section \<open>Encoding\<close>

fun encode64 :: "string \<Rightarrow> string \<Rightarrow> string" where
  "encode64 al (a # b # c # s) =
     (let v = byte a * 65536 + byte b * 256 + byte c
      in [al ! (v div 262144), al ! (v div 4096 mod 64), al ! (v div 64 mod 64), al ! (v mod 64)]
         @ encode64 al s)"
| "encode64 al [a, b] =
     (let v = byte a * 1024 + byte b * 4
      in [al ! (v div 4096), al ! (v div 64 mod 64), al ! (v mod 64), CHR ''=''])"
| "encode64 al [a] =
     (let v = byte a * 16 in [al ! (v div 64), al ! (v mod 64), CHR ''='', CHR ''=''])"
| "encode64 al [] = []"

definition EncodeToString :: "string \<Rightarrow> string" where
  "EncodeToString s = encode64 std_alphabet s"

section \<open>Decoding\<close>

text \<open>
  The quanta of four characters, on input without line breaks: a full one gives three bytes; the last
  one may be padded (or, without padding, be short) and gives one or two.
\<close>

fun decode64 :: "string \<Rightarrow> bool \<Rightarrow> string \<Rightarrow> string option" where
  "decode64 al padded (a # b # c # d # s) =
     (case (position a al, position b al, position c al, position d al) of
        (Some w, Some x, Some y, Some z) \<Rightarrow>
          (let v = w * 262144 + x * 4096 + y * 64 + z
           in map_option (\<lambda>rest. char_of (v div 65536) # char_of (v div 256 mod 256) # char_of (v mod 256) # rest)
                (decode64 al padded s))
      | (Some w, Some x, Some y, None) \<Rightarrow>
          if padded \<and> d = CHR ''='' \<and> s = []
          then (let v = w * 4096 + x * 64 + y in Some [char_of (v div 1024), char_of (v div 4 mod 256)])
          else None
      | (Some w, Some x, None, _) \<Rightarrow>
          if padded \<and> c = CHR ''='' \<and> d = CHR ''='' \<and> s = []
          then Some [char_of ((w * 64 + x) div 16)] else None
      | _ \<Rightarrow> None)"
| "decode64 al padded [a, b, c] =
     (case (position a al, position b al, position c al) of
        (Some w, Some x, Some y) \<Rightarrow>
          if padded then None
          else (let v = w * 4096 + x * 64 + y in Some [char_of (v div 1024), char_of (v div 4 mod 256)])
      | _ \<Rightarrow> None)"
| "decode64 al padded [a, b] =
     (case (position a al, position b al) of
        (Some w, Some x) \<Rightarrow> if padded then None else Some [char_of ((w * 64 + x) div 16)]
      | _ \<Rightarrow> None)"
| "decode64 al padded [a] = None"
| "decode64 al padded [] = Some []"

definition drop_newlines :: "string \<Rightarrow> string" where
  "drop_newlines s = filter (\<lambda>c. c \<noteq> CHR 0x0A \<and> c \<noteq> CHR 0x0D) s"

definition StdDecode :: "string \<Rightarrow> string option" where
  "StdDecode s = decode64 std_alphabet True (drop_newlines s)"

definition URLDecode :: "string \<Rightarrow> string option" where
  "URLDecode s = decode64 url_alphabet True (drop_newlines s)"

definition RawStdDecode :: "string \<Rightarrow> string option" where
  "RawStdDecode s = decode64 std_alphabet False (drop_newlines s)"

text \<open>\<open>b64Decode\<close>: spaces trimmed, padding completed, the standard alphabet first, then the URL one.\<close>

definition b64Decode :: "string \<Rightarrow> string option" where
  "b64Decode s0 =
     (let s1 = trim_space s0;
          pad = length s1 mod 4;
          s = (if pad \<noteq> 0 then s1 @ replicate (4 - pad) CHR ''='' else s1)
      in case StdDecode s of Some d \<Rightarrow> Some d | None \<Rightarrow> URLDecode s)"

text \<open>\<open>hex.DecodeString\<close>.\<close>

definition hex_digit :: "char \<Rightarrow> nat option" where
  "hex_digit c =
     (let n = byte c
      in if 48 \<le> n \<and> n \<le> 57 then Some (n - 48)
         else if 97 \<le> n \<and> n \<le> 102 then Some (n - 87)
         else if 65 \<le> n \<and> n \<le> 70 then Some (n - 55) else None)"

fun HexDecode :: "string \<Rightarrow> string option" where
  "HexDecode [] = Some []"
| "HexDecode [a] = None"
| "HexDecode (a # b # s) =
     (case (hex_digit a, hex_digit b) of
        (Some x, Some y) \<Rightarrow> map_option (\<lambda>rest. char_of (x * 16 + y) # rest) (HexDecode s)
      | _ \<Rightarrow> None)"

section \<open>Round trip\<close>

text \<open>An alphabet: 64 different characters, the padding character and the line breaks not among them.\<close>

definition is_alphabet :: "string \<Rightarrow> bool" where
  "is_alphabet al =
     (length al = 64 \<and> distinct al \<and> CHR ''='' \<notin> set al \<and> CHR 0x0A \<notin> set al \<and> CHR 0x0D \<notin> set al)"

lemma alphabets: "is_alphabet std_alphabet" "is_alphabet url_alphabet"
  by (simp_all add: is_alphabet_def std_alphabet_def url_alphabet_def)

lemma position_nth: "distinct al \<Longrightarrow> i < length al \<Longrightarrow> position (al ! i) al = Some i"
proof (induction al arbitrary: i)
  case (Cons x al)
  then show ?case by (cases i) auto
qed simp

lemma position_absent: "c \<notin> set al \<Longrightarrow> position c al = None"
  by (induction al) auto

lemma position_alphabet [simp]:
  "is_alphabet al \<Longrightarrow> i < 64 \<Longrightarrow> position (al ! i) al = Some i"
  "is_alphabet al \<Longrightarrow> position CHR ''='' al = None"
  by (simp_all add: is_alphabet_def position_nth position_absent)

text \<open>The arithmetic of one quantum.\<close>

lemma quantum3:
  fixes a b c :: nat
  assumes "a < 256" "b < 256" "c < 256"
  defines "v \<equiv> a * 65536 + b * 256 + c"
  shows "v div 262144 < 64" "v div 262144 * 262144 + v div 4096 mod 64 * 4096 + v div 64 mod 64 * 64 + v mod 64 = v"
    "v div 65536 = a" "v div 256 mod 256 = b" "v mod 256 = c"
proof -
  show "v div 262144 < 64" using assms by (simp add: v_def less_mult_imp_div_less)
  have "v div 64 div 64 = v div 4096" "v div 4096 div 64 = v div 262144" by (simp_all flip: div_mult2_eq)
  then show "v div 262144 * 262144 + v div 4096 mod 64 * 4096 + v div 64 mod 64 * 64 + v mod 64 = v"
    using div_mult_mod_eq [of v 64] div_mult_mod_eq [of "v div 64" 64] div_mult_mod_eq [of "v div 4096" 64]
    by linarith
  show "v div 65536 = a" using assms by (intro div_nat_eqI) (simp_all add: v_def)
  have "v div 256 = b + 256 * a" using assms by (intro div_nat_eqI) (simp_all add: v_def)
  then show "v div 256 mod 256 = b" using assms by simp
  have "v = c + 256 * (a * 256 + b)" by (simp add: v_def)
  then show "v mod 256 = c" using assms by (metis mod_less mod_mult_self2)
qed

lemma quantum2:
  fixes a b :: nat
  assumes "a < 256" "b < 256"
  defines "v \<equiv> a * 1024 + b * 4"
  shows "v div 4096 < 64" "v div 4096 * 4096 + v div 64 mod 64 * 64 + v mod 64 = v"
    "v div 1024 = a" "v div 4 mod 256 = b"
proof -
  show "v div 4096 < 64" using assms by (simp add: v_def less_mult_imp_div_less)
  have "v div 64 div 64 = v div 4096" by (simp flip: div_mult2_eq)
  then show "v div 4096 * 4096 + v div 64 mod 64 * 64 + v mod 64 = v"
    using div_mult_mod_eq [of v 64] div_mult_mod_eq [of "v div 64" 64] by linarith
  show "v div 1024 = a" using assms by (intro div_nat_eqI) (simp_all add: v_def)
  have "v div 4 = b + 256 * a" by (simp add: v_def)
  then show "v div 4 mod 256 = b" using assms by simp
qed

lemma quantum1:
  fixes a :: nat
  assumes "a < 256"
  defines "v \<equiv> a * 16"
  shows "v div 64 < 64" "v div 64 * 64 + v mod 64 = v" "v div 16 = a"
proof -
  show "v div 64 < 64" using assms by (simp add: v_def less_mult_imp_div_less)
  show "v div 64 * 64 + v mod 64 = v" by (rule div_mult_mod_eq)
  show "v div 16 = a" by (simp add: v_def)
qed

lemma decode_quantum3:
  assumes al: "is_alphabet al" and v: "v div 262144 < 64"
    "v div 262144 * 262144 + v div 4096 mod 64 * 4096 + v div 64 mod 64 * 64 + v mod 64 = v"
  shows "decode64 al padded (al ! (v div 262144) # al ! (v div 4096 mod 64) # al ! (v div 64 mod 64) # al ! (v mod 64) # s)
    = map_option (\<lambda>rest. char_of (v div 65536) # char_of (v div 256 mod 256) # char_of (v mod 256) # rest)
        (decode64 al padded s)"
  using v(1) by (simp only: decode64.simps position_alphabet(1) [OF al] pos_mod_bound mod_less_divisor
      zero_less_numeral case_prod_conv option.case Let_def v(2))

lemma decode_quantum2:
  assumes al: "is_alphabet al" and v: "v div 4096 < 64"
    "v div 4096 * 4096 + v div 64 mod 64 * 64 + v mod 64 = v"
  shows "decode64 al True [al ! (v div 4096), al ! (v div 64 mod 64), al ! (v mod 64), CHR ''='']
    = Some [char_of (v div 1024), char_of (v div 4 mod 256)]"
proof -
  have "(v div 4096 * 4096 + v div 64 mod 64 * 64 + v mod 64) div 1024 = v div 1024"
    "(v div 4096 * 4096 + v div 64 mod 64 * 64 + v mod 64) div 4 mod 256 = v div 4 mod 256"
    by (simp_all only: v(2))
  then show ?thesis
    using v(1) by (simp add: position_alphabet [OF al] Let_def del: div_mult_self1 div_mult_self2)
qed

lemma decode_quantum1:
  assumes al: "is_alphabet al" and v: "v div 64 < 64" "v div 64 * 64 + v mod 64 = v"
  shows "decode64 al True [al ! (v div 64), al ! (v mod 64), CHR ''='', CHR ''=''] = Some [char_of (v div 16)]"
proof -
  have "(v div 64 * 64 + v mod 64) div 16 = v div 16" by (simp only: v(2))
  then show ?thesis using v(1) by (simp add: position_alphabet [OF al])
qed

lemma decode64_encode64: "is_alphabet al \<Longrightarrow> decode64 al True (encode64 al s) = Some s"
proof (induction al s rule: encode64.induct)
  case (1 al a b c s)
  note q = quantum3 [OF byte_less [of a] byte_less [of b] byte_less [of c]]
  show ?case
    unfolding encode64.simps Let_def append.simps
    by (simp only: decode_quantum3 [OF 1(2) q(1,2)] 1(1) [OF refl 1(2)] option.map q(3-5) char_of_byte)
next
  case (2 al a b)
  note q = quantum2 [OF byte_less [of a] byte_less [of b]]
  show ?case
    unfolding encode64.simps Let_def by (simp only: decode_quantum2 [OF 2 q(1,2)] q(3,4) char_of_byte)
next
  case (3 al a)
  note q = quantum1 [OF byte_less [of a]]
  show ?case
    unfolding encode64.simps Let_def by (simp only: decode_quantum1 [OF 3 q(1,2)] q(3) char_of_byte)
qed simp

text \<open>The characters of an encoding: no line break, no space.\<close>

lemma set_encode64: "is_alphabet al \<Longrightarrow> set (encode64 al s) \<subseteq> insert CHR ''='' (set al)"
proof (induction al s rule: encode64.induct)
  case (1 al a b c s)
  then have "length al = 64" by (simp add: is_alphabet_def)
  with 1 quantum3(1) [OF byte_less [of a] byte_less [of b] byte_less [of c]] show ?case
    by (auto simp: Let_def)
next
  case (2 al a b)
  then have "length al = 64" by (simp add: is_alphabet_def)
  with quantum2(1) [OF byte_less [of a] byte_less [of b]] show ?case by (auto simp: Let_def)
next
  case (3 al a)
  then have "length al = 64" by (simp add: is_alphabet_def)
  with quantum1(1) [OF byte_less [of a]] show ?case by (auto simp: Let_def)
qed simp

lemma drop_newlines_encode64: "is_alphabet al \<Longrightarrow> drop_newlines (encode64 al s) = encode64 al s"
  using set_encode64 [of al s] by (auto simp: drop_newlines_def filter_id_conv is_alphabet_def)

lemma length_encode64: "4 dvd length (encode64 al s)"
proof (induction al s rule: encode64.induct)
  case (1 al a b c s)
  then have "4 dvd length (encode64 al s) + 4" by simp
  moreover have "length (encode64 al (a # b # c # s)) = length (encode64 al s) + 4"
    by (simp add: Let_def)
  ultimately show ?case by simp
next
  case (2 al a b)
  have "length (encode64 al [a, b]) = 4" by (simp add: Let_def)
  then show ?case by (simp only: dvd_refl)
next
  case (3 al a)
  have "length (encode64 al [a]) = 4" by (simp add: Let_def)
  then show ?case by (simp only: dvd_refl)
qed simp

lemma StdDecode_EncodeToString: "StdDecode (EncodeToString s) = Some s"
  by (simp add: StdDecode_def EncodeToString_def drop_newlines_encode64 decode64_encode64 alphabets)

lemma is_space_std: "c \<in> insert CHR ''='' (set std_alphabet) \<Longrightarrow> \<not> is_space c"
proof -
  have "list_all (\<lambda>c. \<not> is_space c) (CHR ''='' # std_alphabet)" by code_simp
  then show "c \<in> insert CHR ''='' (set std_alphabet) \<Longrightarrow> \<not> is_space c"
    by (auto simp: list_all_iff)
qed

lemma trim_encode: "trim_space (EncodeToString s) = EncodeToString s"
  using set_encode64 [OF alphabets(1), of s] is_space_std
  by (intro trim_space_none) (auto simp: EncodeToString_def)

text \<open>
  The tolerant decoder reads back every standard encoding, also surrounded by spaces.
\<close>

lemma b64Decode_EncodeToString: "b64Decode (EncodeToString s) = Some s"
  using length_encode64 [of std_alphabet s]
  by (simp add: b64Decode_def Let_def trim_encode StdDecode_EncodeToString)
     (simp add: EncodeToString_def mod_eq_0_iff_dvd)

end
