(* ===== verification/GoUrl.thy ===== *)
theory GoUrl
  imports Prelude SortBy Base64
begin

text \<open>
  Go's \<open>net/url\<close>, as far as the program uses it (Go 1.25): escaping in the modes of the parts of a URL,
  \<open>Parse\<close> and \<open>ParseRequestURI\<close>, \<open>Hostname\<close> and \<open>Port\<close>, \<open>String\<close>, \<open>ParseQuery\<close>, \<open>Values.Get\<close> and
  \<open>Values.Encode\<close>; with them \<open>net.JoinHostPort\<close>. Error values carry no text: the program only tests for
  an error. A map of query values is an association list in the order of first occurrence.

  A host in brackets must be a valid IPv6 address (\<open>netip.ParseAddr\<close>), written out as \<open>valid_ipv6\<close>.
\<close>

text \<open>\<open>strings.EqualFold\<close>, on the ASCII range.\<close>

definition equal_fold :: "string \<Rightarrow> string \<Rightarrow> bool" where
  "equal_fold s t = (to_lower s = to_lower t)"

section \<open>Escaping\<close>

datatype encoding =
    encodePath | encodePathSegment | encodeHost | encodeZone | encodeUserPassword
  | encodeQueryComponent | encodeFragment

definition is_alnum :: "char \<Rightarrow> bool" where
  "is_alnum c =
     (let n = byte c in 97 \<le> n \<and> n \<le> 122 \<or> 65 \<le> n \<and> n \<le> 90 \<or> 48 \<le> n \<and> n \<le> 57)"

definition shouldEscape :: "char \<Rightarrow> encoding \<Rightarrow> bool" where
  "shouldEscape c mode =
     (if is_alnum c then False
      else if (mode = encodeHost \<or> mode = encodeZone)
              \<and> c \<in> set (''!$&'' @ [CHR 0x27] @ ''()*+,;=:[]<>'' @ [CHR 0x22]) then False
      else if c \<in> set ''-_.~'' then False
      else if c \<in> set ''$&+,/:;=?@'' \<and> mode \<notin> {encodeHost, encodeZone} then
        (case mode of
           encodePath \<Rightarrow> c = CHR ''?''
         | encodePathSegment \<Rightarrow> c \<in> set ''/;,?''
         | encodeUserPassword \<Rightarrow> c \<in> set ''@/?:''
         | encodeQueryComponent \<Rightarrow> True
         | _ \<Rightarrow> False)
      else if mode = encodeFragment \<and> c \<in> set ''!()*'' then False
      else True)"

definition upperhex :: string where
  "upperhex = ''0123456789ABCDEF''"

definition escape_byte :: "encoding \<Rightarrow> char \<Rightarrow> string" where
  "escape_byte mode c =
     (if shouldEscape c mode then
        if c = CHR '' '' \<and> mode = encodeQueryComponent then ''+''
        else [CHR ''%'', upperhex ! (byte c div 16), upperhex ! (byte c mod 16)]
      else [c])"

definition escape :: "string \<Rightarrow> encoding \<Rightarrow> string" where
  "escape s mode = concat (map (escape_byte mode) s)"

text \<open>
  \<open>unescape\<close> checks every escape and every byte before it decodes; here both in one pass. \<open>None\<close> is an
  error.
\<close>

fun unescape :: "string \<Rightarrow> encoding \<Rightarrow> string option" where
  "unescape [] mode = Some []"
| "unescape (c # s) mode =
     (if c = CHR ''%'' then
        (case s of
           x # y # rest \<Rightarrow>
             (case (hex_digit x, hex_digit y) of
                (Some a, Some b) \<Rightarrow>
                  if mode = encodeHost \<and> a < 8 \<and> \<not> (x = CHR ''2'' \<and> y = CHR ''5'') then None
                  else if mode = encodeZone \<and> \<not> (x = CHR ''2'' \<and> y = CHR ''5'')
                          \<and> char_of (a * 16 + b) \<noteq> CHR '' '' \<and> shouldEscape (char_of (a * 16 + b)) encodeHost
                  then None
                  else map_option ((#) (char_of (a * 16 + b))) (unescape rest mode)
              | _ \<Rightarrow> None)
         | _ \<Rightarrow> None)
      else if c = CHR ''+'' \<and> mode = encodeQueryComponent then map_option ((#) CHR '' '') (unescape s mode)
      else if c \<noteq> CHR ''+'' \<and> (mode = encodeHost \<or> mode = encodeZone) \<and> byte c < 128 \<and> shouldEscape c mode then None
      else map_option ((#) c) (unescape s mode))"

definition PathUnescape :: "string \<Rightarrow> string option" where
  "PathUnescape s = unescape s encodePathSegment"

definition QueryUnescape :: "string \<Rightarrow> string option" where
  "QueryUnescape s = unescape s encodeQueryComponent"

section \<open>Query values\<close>

type_synonym query = "(string \<times> string list) list"

text \<open>\<open>strings.Cut\<close> at a byte: what is before and after it, and whether it occurs.\<close>

definition cut :: "char \<Rightarrow> string \<Rightarrow> string \<times> string" where
  "cut c s = (case index_any s [c] of None \<Rightarrow> (s, []) | Some i \<Rightarrow> (take i s, drop (Suc i) s))"

definition query_add :: "string \<Rightarrow> string \<Rightarrow> query \<Rightarrow> query" where
  "query_add k v q = (case map_of q k of None \<Rightarrow> q @ [(k, [v])] | Some vs \<Rightarrow> AList.update k (vs @ [v]) q)"

text \<open>One setting of the query: added to the values, or an error, which the loop remembers.\<close>

definition query_setting :: "string \<Rightarrow> query \<times> bool \<Rightarrow> query \<times> bool" where
  "query_setting setting st =
     (let (q, err) = st
      in if CHR '';'' \<in> set setting then (q, True)
         else if setting = [] then (q, err)
         else let (k, v) = cut CHR ''='' setting
              in (case QueryUnescape k of
                    None \<Rightarrow> (q, True)
                  | Some k' \<Rightarrow>
                      (case QueryUnescape v of
                         None \<Rightarrow> (q, True)
                       | Some v' \<Rightarrow> (query_add k' v' q, err))))"

definition parse_query :: "string \<Rightarrow> query \<times> bool" where
  "parse_query s = (if s = [] then ([], False) else fold query_setting (split_byte CHR ''&'' s) ([], False))"

text \<open>\<open>ParseQuery\<close> fails if some setting is bad; \<open>URL.Query\<close> keeps the good ones.\<close>

definition ParseQuery :: "string \<Rightarrow> query option" where
  "ParseQuery s = (let (q, err) = parse_query s in if err then None else Some q)"

definition Query :: "string \<Rightarrow> query" where
  "Query rawQuery = fst (parse_query rawQuery)"

definition q_get :: "query \<Rightarrow> string \<Rightarrow> string" where
  "q_get q k = (case map_of q k of Some (v # _) \<Rightarrow> v | _ \<Rightarrow> [])"

definition query_pair :: "string \<Rightarrow> string \<Rightarrow> string" where
  "query_pair k v = escape k encodeQueryComponent @ ''='' @ escape v encodeQueryComponent"

definition Encode :: "query \<Rightarrow> string" where
  "Encode q =
     join_with ''&'' (concat (map (\<lambda>(k, vs). map (query_pair k) vs) (sort_by (\<lambda>a b. fst a < fst b) q)))"

section \<open>URLs\<close>

record userinfo =
  ui_username :: string
  ui_password :: "string option"

record url =
  u_Scheme :: string
  u_Opaque :: string
  u_User :: "userinfo option"
  u_Host :: string
  u_Path :: string
  u_RawPath :: string
  u_OmitHost :: bool
  u_ForceQuery :: bool
  u_RawQuery :: string
  u_Fragment :: string

definition empty_url :: url where
  "empty_url =
     \<lparr> u_Scheme = [], u_Opaque = [], u_User = None, u_Host = [], u_Path = [], u_RawPath = [],
       u_OmitHost = False, u_ForceQuery = False, u_RawQuery = [], u_Fragment = [] \<rparr>"

text \<open>\<open>getScheme\<close>: an error for a URL that starts with a colon, else the scheme and the rest.\<close>

definition is_alpha :: "char \<Rightarrow> bool" where
  "is_alpha c = (let n = byte c in 97 \<le> n \<and> n \<le> 122 \<or> 65 \<le> n \<and> n \<le> 90)"

fun scheme_length :: "string \<Rightarrow> nat \<Rightarrow> nat option" where
  "scheme_length [] i = None"
| "scheme_length (c # s) i =
     (if is_alpha c then scheme_length s (Suc i)
      else if is_digit c \<or> c \<in> set ''+-.'' then if i = 0 then None else scheme_length s (Suc i)
      else if c = CHR '':'' then Some i else None)"

definition getScheme :: "string \<Rightarrow> (string \<times> string) option" where
  "getScheme raw =
     (case scheme_length raw 0 of
        None \<Rightarrow> Some ([], raw)
      | Some i \<Rightarrow> if i = 0 then None else Some (take i raw, drop (Suc i) raw))"

definition validUserinfo :: "string \<Rightarrow> bool" where
  "validUserinfo s = list_all (\<lambda>c. is_alnum c \<or> c \<in> set (''-._:~!$&()*+,;=%@'' @ [CHR 0x27])) s"

definition validOptionalPort :: "string \<Rightarrow> bool" where
  "validOptionalPort p = (case p of [] \<Rightarrow> True | c # ds \<Rightarrow> c = CHR '':'' \<and> list_all is_digit ds)"

text \<open>
  IPv6 addresses: groups of one to four hexadecimal digits between colons, the last one possibly a
  dotted IPv4 address that counts as two groups; eight groups, or fewer with one \<open>::\<close>; a zone after
  \<open>%\<close> must not be empty.
\<close>

definition is_hex_group :: "string \<Rightarrow> bool" where
  "is_hex_group g = (g \<noteq> [] \<and> length g \<le> 4 \<and> list_all (\<lambda>c. hex_digit c \<noteq> None) g)"

definition decimal_value :: "string \<Rightarrow> nat" where
  "decimal_value s = foldl (\<lambda>n c. n * 10 + digit_val c) 0 s"

definition is_ipv4 :: "string \<Rightarrow> bool" where
  "is_ipv4 s =
     (let ps = split_byte CHR ''.'' s
      in length ps = 4 \<and>
         list_all (\<lambda>p. p \<noteq> [] \<and> length p \<le> 3 \<and> list_all is_digit p \<and> decimal_value p \<le> 255
                      \<and> (length p > 1 \<longrightarrow> hd p \<noteq> CHR ''0'')) ps)"

text \<open>The number of 16-bit groups of a part between ellipses, if it is well-formed.\<close>

definition ipv6_groups :: "bool \<Rightarrow> string \<Rightarrow> nat option" where
  "ipv6_groups v4_allowed s =
     (if s = [] then Some 0
      else let ps = split_byte CHR '':'' s
           in if list_all is_hex_group ps then Some (length ps)
              else if v4_allowed \<and> list_all is_hex_group (butlast ps) \<and> is_ipv4 (last ps)
              then Some (length ps + 1) else None)"

definition valid_ipv6 :: "string \<Rightarrow> bool" where
  "valid_ipv6 s =
     (let (addr, zone) = cut CHR ''%'' s
      in (CHR ''%'' \<in> set s \<longrightarrow> zone \<noteq> []) \<and>
         (case str_index addr ''::'' of
            None \<Rightarrow> addr \<noteq> [] \<and> ipv6_groups True addr = Some 8
          | Some i \<Rightarrow>
              (case (ipv6_groups False (take i addr), ipv6_groups True (drop (i + 2) addr)) of
                 (Some m, Some n) \<Rightarrow> m + n \<le> 7
               | _ \<Rightarrow> False)))"

text \<open>\<open>strings.Index\<close> of a text, and the part between positions.\<close>

definition parseHost :: "string \<Rightarrow> string option" where
  "parseHost host =
     (case last_index_byte host CHR ''['' of
        Some open_at \<Rightarrow>
          (case last_index_byte host CHR '']'' of
             None \<Rightarrow> None
           | Some close_at \<Rightarrow>
               if open_at \<noteq> 0 \<or> close_at < open_at then None
               else let colonPort = drop (Suc close_at) host;
                        hostname = take (close_at - 1) (drop 1 host)
                    in if \<not> validOptionalPort colonPort then None
                       else (case (case str_index hostname ''%25'' of
                                     Some z \<Rightarrow>
                                       (case (unescape (take z hostname) encodeHost, unescape (drop z hostname) encodeZone) of
                                          (Some a, Some b) \<Rightarrow> Some (a @ b) | _ \<Rightarrow> None)
                                   | None \<Rightarrow> unescape hostname encodeHost) of
                               Some h \<Rightarrow> if valid_ipv6 h then Some (''['' @ h @ '']'' @ colonPort) else None
                             | None \<Rightarrow> None))
      | None \<Rightarrow>
          (case last_index_byte host CHR '':'' of
             Some i \<Rightarrow> if validOptionalPort (drop i host) then unescape host encodeHost else None
           | None \<Rightarrow> unescape host encodeHost))"

definition parseAuthority :: "string \<Rightarrow> (userinfo option \<times> string) option" where
  "parseAuthority authority =
     (case last_index_byte authority CHR ''@'' of
        None \<Rightarrow> map_option (Pair None) (parseHost authority)
      | Some i \<Rightarrow>
          (case parseHost (drop (Suc i) authority) of
             None \<Rightarrow> None
           | Some host \<Rightarrow>
               let userinfo = take i authority
               in if \<not> validUserinfo userinfo then None
                  else if CHR '':'' \<notin> set userinfo then
                    map_option (\<lambda>u. (Some \<lparr> ui_username = u, ui_password = None \<rparr>, host))
                      (unescape userinfo encodeUserPassword)
                  else let (username, password) = cut CHR '':'' userinfo
                       in (case (unescape username encodeUserPassword, unescape password encodeUserPassword) of
                             (Some u, Some p) \<Rightarrow> Some (Some \<lparr> ui_username = u, ui_password = Some p \<rparr>, host)
                           | _ \<Rightarrow> None)))"

definition setPath :: "string \<Rightarrow> url \<Rightarrow> url option" where
  "setPath p u =
     map_option (\<lambda>path. u \<lparr> u_Path := path, u_RawPath := (if p = escape path encodePath then [] else p) \<rparr>)
       (unescape p encodePath)"

definition has_ctl_byte :: "string \<Rightarrow> bool" where
  "has_ctl_byte s = list_ex (\<lambda>c. byte c < 32 \<or> byte c = 127) s"

definition parse_url :: "string \<Rightarrow> bool \<Rightarrow> url option" where
  "parse_url raw viaRequest =
     (if has_ctl_byte raw then None
      else if raw = [] \<and> viaRequest then None
      else if raw = ''*'' then Some (empty_url \<lparr> u_Path := ''*'' \<rparr>)
      else (case getScheme raw of
              None \<Rightarrow> None
            | Some (scheme, rest0) \<Rightarrow>
                let force = (has_suffix rest0 ''?'' \<and> length (filter (\<lambda>c. c = CHR ''?'') rest0) = 1);
                    (rest, rawQuery) = (if force then (butlast rest0, []) else cut CHR ''?'' rest0);
                    u = empty_url \<lparr> u_Scheme := to_lower scheme, u_ForceQuery := force, u_RawQuery := rawQuery \<rparr>
                in if \<not> has_prefix rest ''/'' \<and> scheme \<noteq> [] then Some (u \<lparr> u_Opaque := rest \<rparr>)
                   else if \<not> has_prefix rest ''/'' \<and> viaRequest then None
                   else if \<not> has_prefix rest ''/'' \<and> CHR '':'' \<in> set (fst (cut CHR ''/'' rest)) then None
                   else if (scheme \<noteq> [] \<or> \<not> viaRequest \<and> \<not> has_prefix rest ''///'') \<and> has_prefix rest ''//'' then
                     let authority0 = drop 2 rest;
                         (authority, path) = (case index_any authority0 ''/'' of
                                                Some i \<Rightarrow> (take i authority0, drop i authority0)
                                              | None \<Rightarrow> (authority0, []))
                     in (case parseAuthority authority of
                           None \<Rightarrow> None
                         | Some (user, host) \<Rightarrow> setPath path (u \<lparr> u_User := user, u_Host := host \<rparr>))
                   else setPath rest (u \<lparr> u_OmitHost := (scheme \<noteq> [] \<and> has_prefix rest ''/'') \<rparr>)))"

definition Parse_url :: "string \<Rightarrow> url option" where
  "Parse_url raw =
     (let (u, frag) = cut CHR ''#'' raw
      in (case parse_url u False of
            None \<Rightarrow> None
          | Some url \<Rightarrow>
              if frag = [] then Some url
              else map_option (\<lambda>f. url \<lparr> u_Fragment := f \<rparr>) (unescape frag encodeFragment)))"

definition ParseRequestURI :: "string \<Rightarrow> url option" where
  "ParseRequestURI raw = parse_url raw True"

text \<open>\<open>splitHostPort\<close>, \<open>Hostname\<close> and \<open>Port\<close>.\<close>

definition split_host_port :: "string \<Rightarrow> string \<times> string" where
  "split_host_port hostPort =
     (let (host, port) =
            (case last_index_byte hostPort CHR '':'' of
               Some i \<Rightarrow> if validOptionalPort (drop i hostPort) then (take i hostPort, drop (Suc i) hostPort)
                         else (hostPort, [])
             | None \<Rightarrow> (hostPort, []))
      in (if has_prefix host ''['' \<and> has_suffix host '']'' then take (length host - 2) (drop 1 host) else host, port))"

definition Hostname :: "url \<Rightarrow> string" where
  "Hostname u = fst (split_host_port (u_Host u))"

definition Port :: "url \<Rightarrow> string" where
  "Port u = snd (split_host_port (u_Host u))"

definition JoinHostPort :: "string \<Rightarrow> string \<Rightarrow> string" where
  "JoinHostPort host port =
     (if CHR '':'' \<in> set host then ''['' @ host @ '']:'' @ port else host @ '':'' @ port)"

section \<open>Printing\<close>

definition validEncoded :: "string \<Rightarrow> encoding \<Rightarrow> bool" where
  "validEncoded s mode =
     list_all (\<lambda>c. c \<in> set (''!$&()*+,;=:@[]%'' @ [CHR 0x27]) \<or> \<not> shouldEscape c mode) s"

definition EscapedPath :: "url \<Rightarrow> string" where
  "EscapedPath u =
     (if u_RawPath u \<noteq> [] \<and> validEncoded (u_RawPath u) encodePath \<and> unescape (u_RawPath u) encodePath = Some (u_Path u)
      then u_RawPath u
      else if u_Path u = ''*'' then ''*'' else escape (u_Path u) encodePath)"

definition string_of_userinfo :: "userinfo \<Rightarrow> string" where
  "string_of_userinfo ui =
     (let password = (case ui_password ui of None \<Rightarrow> [] | Some p \<Rightarrow> p)
      in if ui_username ui \<noteq> [] \<or> password \<noteq> []
         then escape (ui_username ui) encodeUserPassword
              @ (case ui_password ui of None \<Rightarrow> [] | Some p \<Rightarrow> '':'' @ escape p encodeUserPassword)
         else [])"

definition string_of_url :: "url \<Rightarrow> string" where
  "string_of_url u =
     (let scheme = (if u_Scheme u \<noteq> [] then u_Scheme u @ '':'' else []);
          body =
            (if u_Opaque u \<noteq> [] then scheme @ u_Opaque u
             else
               let authority =
                     (if u_Scheme u \<noteq> [] \<or> u_Host u \<noteq> [] \<or> u_User u \<noteq> None then
                        if u_OmitHost u \<and> u_Host u = [] \<and> u_User u = None then []
                        else (if u_Host u \<noteq> [] \<or> u_Path u \<noteq> [] \<or> u_User u \<noteq> None then ''//'' else [])
                             @ (case u_User u of None \<Rightarrow> [] | Some ui \<Rightarrow> string_of_userinfo ui @ ''@'')
                             @ escape (u_Host u) encodeHost
                      else []);
                   path = EscapedPath u;
                   slash = (if path \<noteq> [] \<and> \<not> has_prefix path ''/'' \<and> u_Host u \<noteq> [] then ''/'' else []);
                   pre = scheme @ authority @ slash;
                   dot = (if pre = [] \<and> CHR '':'' \<in> set (fst (cut CHR ''/'' path)) then ''./'' else [])
               in pre @ dot @ path)
      in body @ (if u_ForceQuery u \<or> u_RawQuery u \<noteq> [] then ''?'' @ u_RawQuery u else [])
              @ (if u_Fragment u \<noteq> [] then ''#'' @ escape (u_Fragment u) encodeFragment else []))"

section \<open>Positions of bytes\<close>

lemma index_any_append: "c \<notin> set s \<Longrightarrow> index_any (s @ c # t) [c] = Some (length s)"
  by (induction s) auto

lemma index_any_none: "set s \<inter> set cs = {} \<Longrightarrow> index_any s cs = None"
  by (induction s) auto

lemma last_index_none: "c \<notin> set s \<Longrightarrow> last_index_byte s c = None"
  by (induction s) auto

lemma last_index_append: "c \<notin> set t \<Longrightarrow> last_index_byte (s @ c # t) c = Some (length s)"
  by (induction s) (auto simp: last_index_none)

lemma cut_append: "c \<notin> set s \<Longrightarrow> cut c (s @ c # t) = (s, t)"
  by (simp add: cut_def index_any_append)

lemma cut_none: "c \<notin> set s \<Longrightarrow> cut c s = (s, [])"
  by (simp add: cut_def index_any_none)

text \<open>Trimming keeps what stands between two bytes that are no spaces.\<close>

lemma trim_space_solid:
  assumes "\<not> is_space a" "\<not> is_space b"
  shows "trim_space (a # s @ b # t) = a # s @ b # rev (dropWhile is_space (rev t))"
proof -
  have "dropWhile P (xs @ b # ys) = dropWhile P xs @ b # ys" if "\<not> P b" for P and xs ys :: string
    using that by (induction xs) auto
  then show ?thesis using assms by (simp add: trim_space_def)
qed

end
