(* ===== verification/GoNumbers.thy ===== *)
theory GoNumbers
  imports Float64
begin

text \<open>
  Numbers in text, as Go's \<open>strconv\<close> and \<open>time\<close> read them: \<open>Atoi\<close> (64-bit, optional sign),
  \<open>ParseUint(s, 10, 16)\<close> and \<open>time.ParseDuration\<close>. \<open>None\<close> is an error; its text does not matter.
\<close>

definition digit :: "char \<Rightarrow> int" where
  "digit c = int (digit_val c)"

definition dec_value :: "string \<Rightarrow> int" where
  "dec_value s = foldl (\<lambda>n c. n * 10 + digit c) 0 s"

definition all_digits :: "string \<Rightarrow> bool" where
  "all_digits s = (s \<noteq> [] \<and> list_all is_digit s)"

definition Atoi :: "string \<Rightarrow> int option" where
  "Atoi s =
     (let signed = (s \<noteq> [] \<and> (hd s = CHR ''+'' \<or> hd s = CHR ''-''));
          ds = (if signed then tl s else s);
          v = dec_value ds;
          n = (if signed \<and> hd s = CHR ''-'' then - v else v)
      in if all_digits ds \<and> - (2 ^ 63) \<le> n \<and> n < 2 ^ 63 then Some n else None)"

text \<open>
  The number \<open>Atoi\<close> returns beside its error, for a caller that ignores the error: 0 for bad syntax, the
  nearest 64-bit integer for a number out of range.
\<close>

definition Atoi_value :: "string \<Rightarrow> int" where
  "Atoi_value s =
     (let signed = (s \<noteq> [] \<and> (hd s = CHR ''+'' \<or> hd s = CHR ''-''));
          ds = (if signed then tl s else s);
          v = dec_value ds;
          n = (if signed \<and> hd s = CHR ''-'' then - v else v)
      in if all_digits ds then max (- (2 ^ 63)) (min n (2 ^ 63 - 1)) else 0)"

definition ParseUint16 :: "string \<Rightarrow> int option" where
  "ParseUint16 s = (if all_digits s \<and> dec_value s < 2 ^ 16 then Some (dec_value s) else None)"

text \<open>The conversion \<open>uint16(n)\<close> of a 64-bit integer keeps the low 16 bits.\<close>

definition to_uint16 :: "int \<Rightarrow> uint16" where
  "to_uint16 n = word_of_int n"

section \<open>Durations\<close>

text \<open>\<open>leadingInt\<close>: an error when the number exceeds 2^63.\<close>

fun leading_int :: "int \<Rightarrow> string \<Rightarrow> (int \<times> string) option" where
  "leading_int x [] = Some (x, [])"
| "leading_int x (c # s) =
     (if \<not> is_digit c then Some (x, c # s)
      else if x > 2 ^ 63 div 10 then None
      else let y = x * 10 + digit c in if y > 2 ^ 63 then None else leading_int y s)"

text \<open>\<open>leadingFraction\<close>: digits beyond the precision are skipped; the scale is a power of ten.\<close>

fun leading_fraction :: "int \<Rightarrow> rat \<Rightarrow> bool \<Rightarrow> string \<Rightarrow> int \<times> rat \<times> string" where
  "leading_fraction x scale overflow [] = (x, scale, [])"
| "leading_fraction x scale overflow (c # s) =
     (if \<not> is_digit c then (x, scale, c # s)
      else if overflow \<or> x > (2 ^ 63 - 1) div 10 then leading_fraction x scale True s
      else let y = x * 10 + digit c
           in if y > 2 ^ 63 then leading_fraction x scale True s
              else leading_fraction y (fmul scale 10) False s)"

definition unit_of :: "string \<Rightarrow> int option" where
  "unit_of u =
     (if u = ''ns'' then Some 1
      else if u = ''us'' \<or> u = [CHR 0xC2, CHR 0xB5, CHR ''s''] \<or> u = [CHR 0xCE, CHR 0xBC, CHR ''s''] then Some 1000
      else if u = ''ms'' then Some 1000000
      else if u = ''s'' then Some 1000000000
      else if u = ''m'' then Some 60000000000
      else if u = ''h'' then Some 3600000000000 else None)"

definition in_number :: "char \<Rightarrow> bool" where
  "in_number c = (c = CHR ''.'' \<or> is_digit c)"

text \<open>One component of a duration: its nanoseconds and the rest of the text.\<close>

definition duration_part :: "string \<Rightarrow> (int \<times> string) option" where
  "duration_part s =
     (if s = [] \<or> \<not> in_number (hd s) then None
      else (case leading_int 0 s of
              None \<Rightarrow> None
            | Some (v, s1) \<Rightarrow>
                let pre = (length s1 \<noteq> length s);
                    has_dot = (s1 \<noteq> [] \<and> hd s1 = CHR ''.'');
                    (f, scale, s2) = (if has_dot then leading_fraction 0 1 False (tl s1) else (0, 1, s1));
                    post = (has_dot \<and> length s2 \<noteq> length (tl s1));
                    u = takeWhile (\<lambda>c. \<not> in_number c) s2;
                    rest = dropWhile (\<lambda>c. \<not> in_number c) s2
                in if \<not> pre \<and> \<not> post then None
                   else if u = [] then None
                   else (case unit_of u of
                           None \<Rightarrow> None
                         | Some k \<Rightarrow>
                             if v > 2 ^ 63 div k then None
                             else let w = v * k
                                        + (if f > 0 then \<lfloor>fmul (fl64 (of_int f)) (fdiv (of_int k) scale)\<rfloor> else 0)
                                  in if f > 0 \<and> w > 2 ^ 63 then None else Some (w, rest))))"

lemma leading_int_shorter: "leading_int x s = Some (y, r) \<Longrightarrow> length r \<le> length s"
  by (induction x s rule: leading_int.induct) (auto simp: Let_def split: if_splits)

lemma leading_fraction_shorter: "leading_fraction x sc b s = (y, sc', r) \<Longrightarrow> length r \<le> length s"
  by (induction x sc b s rule: leading_fraction.induct) (auto simp: Let_def split: if_splits)

lemma duration_part_shorter:
  assumes "duration_part s = Some (w, rest)"
  shows "length rest < length s"
proof -
  obtain v s1 where v: "leading_int 0 s = Some (v, s1)"
    using assms by (auto simp: duration_part_def split: if_splits option.splits)
  define f where "f = (if s1 \<noteq> [] \<and> hd s1 = CHR ''.'' then leading_fraction 0 1 False (tl s1) else (0, 1, s1))"
  obtain x sc s2 where f2: "f = (x, sc, s2)" by (cases f) auto
  have "length s2 \<le> length s1"
    using f2 leading_fraction_shorter [of 0 1 False "tl s1" x sc s2] by (auto simp: f_def split: if_splits)
  moreover have "length s1 \<le> length s" by (rule leading_int_shorter [OF v])
  moreover have "takeWhile (\<lambda>c. \<not> in_number c) s2 \<noteq> []" "rest = dropWhile (\<lambda>c. \<not> in_number c) s2"
    using assms v f2 unfolding duration_part_def f_def
    by (auto simp: Let_def split: if_splits option.splits)
  then have "length rest < length s2"
    by (metis length_append length_greater_0_conv less_add_same_cancel2 takeWhile_dropWhile_id)
  ultimately show ?thesis by simp
qed

text \<open>The sum of the components, in a \<open>uint64\<close>.\<close>

function duration_sum :: "int \<Rightarrow> string \<Rightarrow> int option" where
  "duration_sum d s =
     (if s = [] then Some d
      else (case duration_part s of
              None \<Rightarrow> None
            | Some (w, rest) \<Rightarrow>
                let e = (d + w) mod 2 ^ 64 in if e > 2 ^ 63 then None else duration_sum e rest))"
  by auto
termination
  by (relation "measure (length \<circ> snd)") (auto dest: duration_part_shorter)

declare duration_sum.simps [simp del]

definition ParseDuration :: "string \<Rightarrow> duration option" where
  "ParseDuration s0 =
     (let signed = (s0 \<noteq> [] \<and> (hd s0 = CHR ''+'' \<or> hd s0 = CHR ''-''));
          neg = (signed \<and> hd s0 = CHR ''-'');
          s = (if signed then tl s0 else s0)
      in if s = ''0'' then Some 0
         else if s = [] then None
         else (case duration_sum 0 s of
                 None \<Rightarrow> None
               | Some d \<Rightarrow> if neg then Some (- d) else if d > 2 ^ 63 - 1 then None else Some d))"

text \<open>A duration that parses fits 64 bits.\<close>

lemma duration_sum_bound:
  "0 \<le> d \<Longrightarrow> d \<le> 2 ^ 63 \<Longrightarrow> duration_sum d s = Some e \<Longrightarrow> 0 \<le> e \<and> e \<le> 2 ^ 63"
proof (induction d s rule: duration_sum.induct)
  case (1 d s)
  show ?case
  proof (cases "s = []")
    case True
    then show ?thesis using 1(2-4) by (simp add: duration_sum.simps)
  next
    case False
    have "duration_sum d s = (case duration_part s of None \<Rightarrow> None
        | Some (w, rest) \<Rightarrow>
            let e = (d + w) mod 2 ^ 64 in if e > 2 ^ 63 then None else duration_sum e rest)"
      using False by (simp add: duration_sum.simps [of d s])
    then obtain w rest where part: "duration_part s = Some (w, rest)"
      "\<not> (d + w) mod 2 ^ 64 > 2 ^ 63" "duration_sum ((d + w) mod 2 ^ 64) rest = Some e"
      using 1(4) by (auto simp: Let_def split: option.splits if_splits)
    then show ?thesis using 1(1) [OF False part(1) refl refl] by simp
  qed
qed

lemma ParseDuration_bound:
  assumes "ParseDuration s = Some d"
  shows "- (2 ^ 63) \<le> d" "d < 2 ^ 63"
  using assms duration_sum_bound [of 0]
  by (fastforce simp: ParseDuration_def Let_def split: if_splits option.splits)+

end
