(* ===== verification/JsonValue.thy ===== *)
theory JsonValue
  imports JsonText GoNumbers
begin

text \<open>
  Go's \<open>encoding/json\<close> as the program uses it to read small objects (the vmess payload of a link, a
  source of the configuration file): the grammar of JSON values with the nesting limit of the library,
  and the decoding of an object into a struct. The scanner of strings, numbers, objects and arrays is
  that of \<open>JsonText\<close>, whose grammar is the same; here strings are also coerced to valid UTF-8.
\<close>

datatype json =
    JNull | JBool bool | JNumber string | JString string | JArray "json list"
  | JObject "(string \<times> json) list"

section \<open>UTF-8\<close>

definition in_range :: "nat \<Rightarrow> nat \<Rightarrow> char \<Rightarrow> bool" where
  "in_range lo hi c = (lo \<le> char_code c \<and> char_code c \<le> hi)"

text \<open>The length of the encoded rune at the start of a text; 0 if there is none.\<close>

definition rune_length :: "string \<Rightarrow> nat" where
  "rune_length s =
     (case s of
        [] \<Rightarrow> 0
      | a # t \<Rightarrow>
          let n = char_code a; cont = in_range 0x80 0xBF;
              byte_at = (\<lambda>i P. i < length t \<and> P (t ! i))
          in if n < 0x80 then 1
             else if 0xC2 \<le> n \<and> n \<le> 0xDF then if byte_at 0 cont then 2 else 0
             else if 0xE0 \<le> n \<and> n \<le> 0xEF then
               if byte_at 0 (if n = 0xE0 then in_range 0xA0 0xBF else if n = 0xED then in_range 0x80 0x9F else cont)
                  \<and> byte_at 1 cont then 3 else 0
             else if 0xF0 \<le> n \<and> n \<le> 0xF4 then
               if byte_at 0 (if n = 0xF0 then in_range 0x90 0xBF else if n = 0xF4 then in_range 0x80 0x8F else cont)
                  \<and> byte_at 1 cont \<and> byte_at 2 cont then 4 else 0
             else 0)"

fun coerce_utf8 :: "nat \<Rightarrow> string \<Rightarrow> string" where
  "coerce_utf8 n [] = []"
| "coerce_utf8 (Suc n) (c # s) = c # coerce_utf8 n s"
| "coerce_utf8 0 (c # s) =
     (case rune_length (c # s) of
        0 \<Rightarrow> utf8_encode 0xFFFD @ coerce_utf8 0 s
      | Suc k \<Rightarrow> c # coerce_utf8 k s)"

definition json_text :: "string \<Rightarrow> (string \<times> string) option" where
  "json_text s = map_option (\<lambda>(t, rest). (coerce_utf8 0 t, rest)) (parseStringBytes s)"

section \<open>Values\<close>

definition map_parsed :: "('a \<Rightarrow> 'b) \<Rightarrow> 'a parsed \<Rightarrow> 'b parsed" where
  "map_parsed f r = (case r of Parsed x s \<Rightarrow> Parsed (f x) s | Rejected \<Rightarrow> Rejected | Panicked \<Rightarrow> Panicked)"

text \<open>The first argument is fuel, the second the nesting depth, of which the library allows 10000.\<close>

fun json_value :: "nat \<Rightarrow> nat \<Rightarrow> string \<Rightarrow> json parsed" where
  "json_value 0 depth s = Rejected"
| "json_value (Suc n) depth s0 =
     (case skipWhitespace s0 of
        [] \<Rightarrow> Rejected
      | b # t \<Rightarrow>
          let s = b # t
          in if b = quote_char then map_parsed JString (as_parsed (json_text s))
             else if b = CHR ''{'' then
               if depth \<ge> 10000 then Rejected
               else map_parsed JObject
                      (parse_object (\<lambda>k fields u. map_parsed (\<lambda>v. fields @ [(coerce_utf8 0 k, v)]) (json_value n (Suc depth) u)) [] s)
             else if b = CHR ''['' then
               if depth \<ge> 10000 then Rejected else map_parsed JArray (parse_array (json_value n (Suc depth)) s)
             else if b = CHR ''t'' \<or> b = CHR ''f'' then map_parsed JBool (as_parsed (parseBool s))
             else if b = CHR ''n'' then as_parsed (map_option (Pair JNull) (parse_literal ''null'' s))
             else if b = CHR ''-'' \<or> is_digit b then
               as_parsed (map_option (\<lambda>rest. (JNumber (take (length s - length rest) s), rest)) (parseNumber s))
             else Rejected)"

definition parse_json :: "string \<Rightarrow> json option" where
  "parse_json s =
     (case json_value (Suc (length s)) 0 s of
        Parsed v rest \<Rightarrow> if skipWhitespace rest = [] then Some v else None
      | _ \<Rightarrow> None)"

section \<open>Objects into structs\<close>

text \<open>
  A field is its name and what a value does to the struct, or an error for a value of a wrong type.
  A key names the field with exactly that name, or else the first one up to case; unknown keys are
  ignored. A wrong type is remembered and the decoding goes on.
\<close>

type_synonym 'a field = "string \<times> (json \<Rightarrow> 'a \<Rightarrow> 'a option)"

definition find_field :: "'a field list \<Rightarrow> string \<Rightarrow> (json \<Rightarrow> 'a \<Rightarrow> 'a option) option" where
  "find_field fields k =
     (case map_of fields k of
        Some f \<Rightarrow> Some f
      | None \<Rightarrow> map_of (map (\<lambda>(n, f). (to_lower n, f)) fields) (to_lower k))"

definition set_field :: "'a field list \<Rightarrow> string \<times> json \<Rightarrow> 'a \<times> bool \<Rightarrow> 'a \<times> bool" where
  "set_field fields kv st =
     (case find_field fields (fst kv) of
        None \<Rightarrow> st
      | Some f \<Rightarrow> (case f (snd kv) (fst st) of None \<Rightarrow> (fst st, True) | Some r \<Rightarrow> (r, snd st)))"

definition decode_struct :: "'a field list \<Rightarrow> json \<Rightarrow> 'a \<Rightarrow> 'a option" where
  "decode_struct fields v r =
     (case v of
        JObject kvs \<Rightarrow> (case fold (set_field fields) kvs (r, False) of (r', err) \<Rightarrow> if err then None else Some r')
      | JNull \<Rightarrow> Some r
      | _ \<Rightarrow> None)"

definition Unmarshal :: "'a field list \<Rightarrow> string \<Rightarrow> 'a \<Rightarrow> 'a option" where
  "Unmarshal fields s r = Option.bind (parse_json s) (\<lambda>v. decode_struct fields v r)"

definition string_field :: "string \<Rightarrow> ((string \<Rightarrow> string) \<Rightarrow> 'a \<Rightarrow> 'a) \<Rightarrow> 'a field" where
  "string_field name upd =
     (name, \<lambda>v r. case v of JString s \<Rightarrow> Some (upd (\<lambda>_. s) r) | JNull \<Rightarrow> Some r | _ \<Rightarrow> None)"

definition bool_field :: "string \<Rightarrow> ((bool \<Rightarrow> bool) \<Rightarrow> 'a \<Rightarrow> 'a) \<Rightarrow> 'a field" where
  "bool_field name upd =
     (name, \<lambda>v r. case v of JBool b \<Rightarrow> Some (upd (\<lambda>_. b) r) | JNull \<Rightarrow> Some r | _ \<Rightarrow> None)"

section \<open>Numbers are read as they are printed\<close>

lemma Atoi_print_nat: "int n < 2 ^ 63 \<Longrightarrow> Atoi (print_nat n) = Some (int n)"
proof -
  have "foldl (\<lambda>v c. v * 10 + digit c) (int m) s = int (foldl (\<lambda>v c. 10 * v + digit_val c) m s)" for m s
  proof (induction s arbitrary: m)
    case (Cons a s)
    show ?case using Cons [of "m * 10 + digit_val a"] by (simp add: digit_def mult.commute)
  qed simp
  from this [of 0] have "dec_value (print_nat n) = int n"
    using decimal_print_nat [of n] by (simp add: dec_value_def decimal_def)
  moreover have "all_digits (print_nat n)" by (simp add: all_digits_def print_nat_digits)
  moreover have "\<not> is_digit CHR ''+''" "\<not> is_digit CHR ''-''" by code_simp+
  then have "hd (print_nat n) \<notin> {CHR ''+'', CHR ''-''}"
    using print_nat_digits [of n] by (cases "print_nat n") auto
  ultimately show "int n < 2 ^ 63 \<Longrightarrow> Atoi (print_nat n) = Some (int n)"
    by (simp add: Atoi_def)
qed

lemma Atoi_print_int:
  assumes "- (2 ^ 63) \<le> n" "n < 2 ^ 63"
  shows "Atoi (print_int n) = Some n"
proof (cases "n < 0")
  case False
  then show ?thesis using Atoi_print_nat [of "nat n"] assms by (simp add: print_int_def)
next
  case True
  have "foldl (\<lambda>v c. v * 10 + digit c) (int m) s = int (foldl (\<lambda>v c. 10 * v + digit_val c) m s)" for m s
  proof (induction s arbitrary: m)
    case (Cons a s)
    show ?case using Cons [of "m * 10 + digit_val a"] by (simp add: digit_def mult.commute)
  qed simp
  from this [of 0] have "dec_value (print_nat (nat (- n))) = - n"
    using decimal_print_nat [of "nat (- n)"] True by (simp add: dec_value_def decimal_def)
  moreover have "all_digits (print_nat (nat (- n)))" by (simp add: all_digits_def print_nat_digits)
  ultimately show ?thesis using True assms by (simp add: print_int_def Atoi_def)
qed

end
