(* ===== verification/LinkParser.thy ===== *)
theory LinkParser
  imports LinkTypes GoUrl GoNumbers JsonValue
begin

text \<open>
  The share-link parser, \<open>internal/parser/parser.go\<close>: \<open>Parse\<close> and the parsers of the protocols, each of
  which builds the options of a sing-box outbound. The option records below are the fields the parser
  sets, with the names of the sing-box types; the library itself is not modelled.

  A parameter: \<open>uuid\<close>, the normalisation \<open>uuid.FromString(s).String()\<close> of the UUID library. Errors are values
  of a type of their own.
\<close>

section \<open>Outbounds\<close>

record utls_options =
  utls_Fingerprint :: string

record reality_options =
  rty_PublicKey :: string
  rty_ShortID :: string

record tls_options =
  tls_ServerName :: string
  tls_Insecure :: bool
  tls_ALPN :: "string list"
  tls_Pins :: "string list"
  tls_UTLS :: "utls_options option"
  tls_Reality :: "reality_options option"

definition plain_tls :: "string \<Rightarrow> tls_options" where
  "plain_tls sni =
     \<lparr> tls_ServerName = sni, tls_Insecure = False, tls_ALPN = [], tls_Pins = [], tls_UTLS = None,
       tls_Reality = None \<rparr>"

datatype transport =
    WebSocket string "string option"
  | GRPC string
  | HTTP string "string option"

record server_options =
  srv_Server :: string
  srv_Port :: uint16

datatype options =
    VMess server_options string string int "transport option" "tls_options option"
  | VLESS server_options string string "transport option" "tls_options option"
  | Trojan server_options string "transport option" "tls_options option"
  | Shadowsocks server_options string string
  | Hysteria2 server_options "string list" string "(string \<times> string) option" tls_options
  | TUIC server_options string string string string bool bool duration tls_options

record outbound =
  ob_Type :: string
  ob_Tag :: string
  ob_Options :: options

definition outbound_of :: "string \<Rightarrow> options \<Rightarrow> outbound" where
  "outbound_of ty opts = \<lparr> ob_Type = ty, ob_Tag = [], ob_Options = opts \<rparr>"

fun server_of :: "options \<Rightarrow> server_options" where
  "server_of (VMess s uid sec aid tr tls) = s"
| "server_of (VLESS s uid flow tr tls) = s"
| "server_of (Trojan s pw tr tls) = s"
| "server_of (Shadowsocks s method pw) = s"
| "server_of (Hysteria2 s ports pw obfs tls) = s"
| "server_of (TUIC s uid pw cc udp stream zrtt hb tls) = s"

datatype parse_error =
    UnsupportedScheme | BadBase64 | BadJSON | BadPort | BadURL | MissingHostOrPort | BadCredentials
  | MalformedLegacyLink | MissingPort | MalformedIPv6 | MalformedAuthority | MissingHost | BadQuery
  | BadPortRange | EmptyPortList | MissingObfs | MissingObfsPassword | UnsupportedObfs | BadBool
  | BadPin | BadUserinfo | BadCongestionControl | BadUDPRelayMode | ConflictingUDPModes | BadHeartbeat

type_synonym 'a parse_result = "(parse_error, 'a) outcome"

definition require :: "'a option \<Rightarrow> parse_error \<Rightarrow> 'a parse_result" where
  "require x e = (case x of None \<Rightarrow> Inl e | Some y \<Rightarrow> Inr y)"

lemma require_simps [simp]: "require None e = Inl e" "require (Some x) e = Inr x"
  by (simp_all add: require_def)

section \<open>Shared helpers\<close>

definition buildTransport :: "string \<Rightarrow> string \<Rightarrow> string \<Rightarrow> transport option" where
  "buildTransport netType path host =
     (let t = to_lower netType; hosts = (if host \<noteq> [] then Some host else None)
      in if t = [] \<or> t = ''tcp'' \<or> t = ''raw'' then None
         else if t = ''ws'' then Some (WebSocket (if path = [] then ''/'' else path) hosts)
         else if t = ''grpc'' then Some (GRPC path)
         else if t = ''http'' \<or> t = ''h2'' then Some (HTTP path hosts)
         else None)"

definition cleanHostPort :: "string \<Rightarrow> string" where
  "cleanHostPort s = (case index_any s ''?/'' of Some i \<Rightarrow> take i s | None \<Rightarrow> s)"

definition splitHostPort :: "string \<Rightarrow> (string \<times> string) parse_result" where
  "splitHostPort hostport0 =
     (let hostport = cleanHostPort hostport0
      in (case last_index_byte hostport CHR '':'' of
            None \<Rightarrow> Inl MissingPort
          | Some i \<Rightarrow> Inr (take i hostport, drop (Suc i) hostport)))"

definition parseBoolParam :: "string \<Rightarrow> bool parse_result" where
  "parseBoolParam val =
     (let v = to_lower val
      in if v \<in> {''1'', ''true'', ''yes''} then Inr True
         else if v \<in> {''0'', ''false'', ''no''} then Inr False else Inl BadBool)"

text \<open>The first of several query parameters that is not empty.\<close>

fun first_param :: "query \<Rightarrow> string list \<Rightarrow> string" where
  "first_param q [] = []"
| "first_param q (k # ks) = (if q_get q k \<noteq> [] then q_get q k else first_param q ks)"

definition bool_param :: "query \<Rightarrow> string list \<Rightarrow> bool parse_result" where
  "bool_param q ks = (let v = first_param q ks in if v = [] then Inr False else parseBoolParam v)"

section \<open>Port lists\<close>

text \<open>\<open>fmt.Sprintf("%d")\<close> of a port is \<^term>\<open>print_nat\<close>.\<close>

definition port_range :: "char \<Rightarrow> string \<Rightarrow> string parse_result" where
  "port_range sep part =
     (case split_byte sep part of
        [a, b] \<Rightarrow>
          (case (ParseUint16 (trim_space a), ParseUint16 (trim_space b)) of
             (Some lo, Some hi) \<Rightarrow>
               if lo = 0 \<or> hi = 0 \<or> lo > hi then Inl BadPortRange
               else Inr (print_nat (nat lo) @ '':'' @ print_nat (nat hi))
           | _ \<Rightarrow> Inl BadPortRange)
      | _ \<Rightarrow> Inl BadPortRange)"

definition port_item :: "string \<Rightarrow> string parse_result" where
  "port_item part =
     (if CHR ''-'' \<in> set part then port_range CHR ''-'' part
      else if CHR '':'' \<in> set part then port_range CHR '':'' part
      else (case ParseUint16 part of
              None \<Rightarrow> Inl BadPort
            | Some p \<Rightarrow> if p = 0 then Inl BadPort else Inr (print_nat (nat p))))"

fun port_items :: "string list \<Rightarrow> string list parse_result" where
  "port_items [] = Inr []"
| "port_items (p # ps) =
     (let part = trim_space p
      in if part = [] then port_items ps
         else bind_ok (port_item part) (\<lambda>x. bind_ok (port_items ps) (\<lambda>xs. Inr (x # xs))))"

definition parsePortHopping :: "string \<Rightarrow> string list parse_result" where
  "parsePortHopping s =
     bind_ok (port_items (split_byte CHR '','' s)) (\<lambda>out. if out = [] then Inl EmptyPortList else Inr out)"

section \<open>URIs\<close>

record uri_parts =
  up_userinfo :: string
  up_host :: string
  up_port :: string
  up_query :: string

definition split_authority :: "string \<Rightarrow> (string \<times> string) parse_result" where
  "split_authority raw =
     (if has_prefix raw ''['' then
        (case index_any raw '']'' of
           None \<Rightarrow> Inl MalformedIPv6
         | Some i \<Rightarrow>
             let host = take (i - 1) (drop 1 raw); rest = drop (Suc i) raw
             in if has_prefix rest '':'' then Inr (host, drop 1 rest)
                else if rest \<noteq> [] then Inl MalformedAuthority else Inr (host, []))
      else (case index_any raw '':'' of
              Some i \<Rightarrow> Inr (take i raw, drop (Suc i) raw)
            | None \<Rightarrow> Inr (raw, [])))"

definition splitURI :: "string \<Rightarrow> string \<Rightarrow> uri_parts parse_result" where
  "splitURI link prefix =
     (let raw0 = trim_prefix link prefix;
          raw1 = fst (cut CHR ''#'' raw0);
          (raw2, rawQuery) = cut CHR ''?'' raw1;
          raw3 = trim_suffix raw2 ''/'';
          (userinfo0, raw) =
            (case last_index_byte raw3 CHR ''@'' of
               Some i \<Rightarrow> (take i raw3, drop (Suc i) raw3) | None \<Rightarrow> ([], raw3));
          userinfo = (case PathUnescape userinfo0 of Some u \<Rightarrow> u | None \<Rightarrow> userinfo0)
      in bind_ok (split_authority raw)
           (\<lambda>(host, port).
              if host = [] then Inl MissingHost
              else Inr \<lparr> up_userinfo = userinfo, up_host = host, up_port = port, up_query = rawQuery \<rparr>))"

text \<open>\<open>strings.ReplaceAll(q, "&amp;", "&")\<close>.\<close>

fun unescape_amp :: "string \<Rightarrow> string" where
  "unescape_amp [] = []"
| "unescape_amp (c # s) =
     (if has_prefix (c # s) ''&amp;'' then CHR ''&'' # unescape_amp (drop 4 s) else c # unescape_amp s)"

section \<open>vmess, vless, trojan\<close>

record vmess_json =
  vm_Add :: string
  vm_Port :: string
  vm_ID :: string
  vm_Aid :: string
  vm_Net :: string
  vm_Type :: string
  vm_Host :: string
  vm_Path :: string
  vm_TLS :: string
  vm_SNI :: string

definition empty_vmess :: vmess_json where
  "empty_vmess =
     \<lparr> vm_Add = [], vm_Port = [], vm_ID = [], vm_Aid = [], vm_Net = [], vm_Type = [], vm_Host = [],
       vm_Path = [], vm_TLS = [], vm_SNI = [] \<rparr>"

definition vmess_fields :: "vmess_json field list" where
  "vmess_fields =
     [string_field ''add'' vm_Add_update, string_field ''port'' vm_Port_update, string_field ''id'' vm_ID_update,
      string_field ''aid'' vm_Aid_update, string_field ''net'' vm_Net_update, string_field ''type'' vm_Type_update,
      string_field ''host'' vm_Host_update, string_field ''path'' vm_Path_update,
      string_field ''tls'' vm_TLS_update, string_field ''sni'' vm_SNI_update]"

definition vmess_outbound :: "vmess_json \<Rightarrow> outbound parse_result" where
  "vmess_outbound v =
     bind_ok (require (Atoi (vm_Port v)) BadPort)
       (\<lambda>port.
          let aid = Atoi_value (vm_Aid v);
              sni = (if vm_SNI v \<noteq> [] then vm_SNI v else if vm_Host v \<noteq> [] then vm_Host v else vm_Add v);
              tls = (if equal_fold (vm_TLS v) ''tls'' then Some (plain_tls sni) else None)
          in Inr (outbound_of ''vmess''
                    (VMess \<lparr> srv_Server = vm_Add v, srv_Port = to_uint16 port \<rparr> (vm_ID v) ''auto'' aid
                       (buildTransport (vm_Net v) (vm_Path v) (vm_Host v)) tls)))"

definition parseVMess :: "string \<Rightarrow> outbound parse_result" where
  "parseVMess link =
     bind_ok (require (b64Decode (trim_prefix link ''vmess://'')) BadBase64)
       (\<lambda>decoded. bind_ok (require (Unmarshal vmess_fields decoded empty_vmess) BadJSON) vmess_outbound)"

definition fp_warning :: "string \<Rightarrow> string" where
  "fp_warning fp =
     ''reality/tls: unsupported fp='' @ fp @ '', normalized uTLS fingerprint to chrome''"

definition buildTLS :: "query \<Rightarrow> string \<Rightarrow> tls_options option \<times> string list" where
  "buildTLS q host =
     (let security = to_lower (q_get q ''security'')
      in if security \<noteq> ''tls'' \<and> security \<noteq> ''reality'' then (None, [])
         else
           let sni = (if q_get q ''sni'' = [] then host else q_get q ''sni'');
               fp = q_get q ''fp'';
               bad = (equal_fold fp ''unsafe'' \<or> equal_fold fp ''random'');
               utls = (if fp = [] then None else Some \<lparr> utls_Fingerprint = (if bad then ''chrome'' else fp) \<rparr>);
               warnings = (if fp \<noteq> [] \<and> bad then [fp_warning fp] else []);
               tls = (plain_tls sni) \<lparr> tls_UTLS := utls \<rparr>
           in if security = ''reality'' then
                (Some (tls \<lparr> tls_UTLS := (case utls of None \<Rightarrow> Some \<lparr> utls_Fingerprint = ''chrome'' \<rparr> | Some x \<Rightarrow> Some x),
                             tls_Reality := Some \<lparr> rty_PublicKey = q_get q ''pbk'', rty_ShortID = q_get q ''sid'' \<rparr> \<rparr>),
                 warnings @ (if utls = None
                             then [''reality: missing fp query parameter, defaulted uTLS fingerprint to chrome'']
                             else []))
              else (Some tls, warnings))"

definition parseURIStyle :: "string \<Rightarrow> string \<Rightarrow> (outbound \<times> string list) parse_result" where
  "parseURIStyle link scheme =
     bind_ok (require (Parse_url link) BadURL)
       (\<lambda>u. let host = Hostname u; portStr = Port u
            in if host = [] \<or> portStr = [] then Inl MissingHostOrPort
               else bind_ok (require (Atoi portStr) BadPort)
                 (\<lambda>port.
                    let userinfo = (case u_User u of None \<Rightarrow> [] | Some ui \<Rightarrow> ui_username ui);
                        q = Query (u_RawQuery u);
                        server = \<lparr> srv_Server = host, srv_Port = to_uint16 port \<rparr>;
                        (tls, warnings) = buildTLS q host;
                        transport = buildTransport (q_get q ''type'') (q_get q ''path'') (q_get q ''host'')
                    in if scheme = ''vless'' then
                         Inr (outbound_of ''vless'' (VLESS server userinfo (q_get q ''flow'') transport tls), warnings)
                       else if scheme = ''trojan'' then
                         Inr (outbound_of ''trojan'' (Trojan server userinfo transport tls), warnings)
                       else Inl UnsupportedScheme))"

section \<open>shadowsocks\<close>

definition parseShadowsocks :: "string \<Rightarrow> outbound parse_result" where
  "parseShadowsocks link =
     (let raw = fst (cut CHR ''#'' (trim_prefix link ''ss://''));
          parts =
            (case last_index_byte raw CHR ''@'' of
               Some at_pos \<Rightarrow>
                 let creds0 = take at_pos raw;
                     hostport = cleanHostPort (drop (Suc at_pos) raw);
                     creds = (case b64Decode creds0 of
                                Some d \<Rightarrow> if CHR '':'' \<in> set d then d else creds0 | None \<Rightarrow> creds0)
                 in Inr (creds, hostport)
             | None \<Rightarrow>
                 bind_ok (require (b64Decode (cleanHostPort raw)) BadBase64)
                   (\<lambda>decoded.
                      (case last_index_byte decoded CHR ''@'' of
                         None \<Rightarrow> Inl MalformedLegacyLink
                       | Some at_pos \<Rightarrow> Inr (take at_pos decoded, drop (Suc at_pos) decoded))))
      in bind_ok parts
           (\<lambda>(creds, hostport).
              (case split2 CHR '':'' creds of
                 [method, password] \<Rightarrow>
                   bind_ok (splitHostPort hostport)
                     (\<lambda>(host, portStr).
                        bind_ok (require (Atoi portStr) BadPort)
                          (\<lambda>port. Inr (outbound_of ''shadowsocks''
                             (Shadowsocks \<lparr> srv_Server = host, srv_Port = to_uint16 port \<rparr> method password))))
               | _ \<Rightarrow> Inl BadCredentials)))"

section \<open>hysteria2\<close>

definition hysteria_ports :: "query \<Rightarrow> string \<Rightarrow> (string list \<times> uint16) parse_result" where
  "hysteria_ports q portPart =
     (let mport = first_param q [''mport'', ''ports'']
      in if mport \<noteq> [] then bind_ok (parsePortHopping mport) (\<lambda>ports. Inr (ports, 0))
         else if portPart \<noteq> [] then
           if CHR '','' \<in> set portPart \<or> CHR ''-'' \<in> set portPart \<or> CHR '':'' \<in> set portPart
           then bind_ok (parsePortHopping portPart) (\<lambda>ports. Inr (ports, 0))
           else (case ParseUint16 portPart of
                   None \<Rightarrow> Inl BadPort
                 | Some p \<Rightarrow> if p = 0 then Inl BadPort else Inr ([], to_uint16 p))
         else Inr ([], 443))"

definition hysteria_obfs :: "query \<Rightarrow> (string \<times> string) option parse_result" where
  "hysteria_obfs q =
     (let obfs = q_get q ''obfs''; pw = q_get q ''obfs-password''
      in if obfs = [] \<and> pw = [] then Inr None
         else if obfs = [] then Inl MissingObfs
         else if pw = [] then Inl MissingObfsPassword
         else if obfs \<in> {''salamander'', ''gecko''} then Inr (Some (obfs, pw))
         else Inl UnsupportedObfs)"

text \<open>A pin is 32 bytes in hexadecimal or base64, or anything in hexadecimal.\<close>

definition hysteria_pin :: "string \<Rightarrow> string list parse_result" where
  "hysteria_pin pin =
     (let pinClean = trim_space pin;
          ok32 = (\<lambda>r. case r of Some b \<Rightarrow> length b = 32 | None \<Rightarrow> False)
      in if pin = [] then Inr []
         else if ok32 (HexDecode pinClean) then Inr [the (HexDecode pinClean)]
         else if ok32 (StdDecode pinClean) then Inr [the (StdDecode pinClean)]
         else if ok32 (RawStdDecode pinClean) then Inr [the (RawStdDecode pinClean)]
         else (case HexDecode pinClean of Some b \<Rightarrow> Inr [b] | None \<Rightarrow> Inl BadPin))"

definition alpn_list :: "string \<Rightarrow> string list" where
  "alpn_list s = (if s = [] then [] else filter (\<lambda>a. a \<noteq> []) (map trim_space (split_byte CHR '','' s)))"

definition parseHysteria2 :: "string \<Rightarrow> (outbound \<times> string list) parse_result" where
  "parseHysteria2 link =
     (if \<not> has_prefix link ''hysteria2://'' \<and> \<not> has_prefix link ''hy2://'' then Inl UnsupportedScheme
      else let prefix = (if has_prefix link ''hysteria2://'' then ''hysteria2://'' else ''hy2://'')
      in bind_ok (splitURI link prefix) (\<lambda>parts.
         bind_ok (require (ParseQuery (unescape_amp (up_query parts))) BadQuery) (\<lambda>q.
         bind_ok (hysteria_ports q (up_port parts)) (\<lambda>(ports, port).
         bind_ok (hysteria_obfs q) (\<lambda>obfs.
         bind_ok (bool_param q [''insecure'', ''allow_insecure'', ''allowInsecure'']) (\<lambda>insecure.
         bind_ok (hysteria_pin (q_get q ''pinSHA256'')) (\<lambda>pins.
           let password = (if up_userinfo parts = [] then q_get q ''auth'' else up_userinfo parts);
               sni = (if q_get q ''sni'' = [] then up_host parts else q_get q ''sni'');
               tls = (plain_tls sni) \<lparr> tls_Insecure := insecure, tls_Pins := pins,
                                       tls_ALPN := alpn_list (q_get q ''alpn'') \<rparr>
           in Inr (outbound_of ''hysteria2''
                     (Hysteria2 \<lparr> srv_Server = up_host parts, srv_Port = port \<rparr> ports password obfs tls), []))))))))"

section \<open>tuic\<close>

definition tuic_choice :: "string \<Rightarrow> string list \<Rightarrow> parse_error \<Rightarrow> string parse_result" where
  "tuic_choice v allowed e = (if v = [] then Inr [] else if to_lower v \<in> set allowed then Inr (to_lower v) else Inl e)"

definition tuic_heartbeat :: "string \<Rightarrow> duration parse_result" where
  "tuic_heartbeat hb =
     (if hb = [] then Inr 0
      else (case ParseDuration hb of
              Some d \<Rightarrow> Inr d
            | None \<Rightarrow>
                (case Atoi hb of
                   Some sec \<Rightarrow>
                     if sec > 0 then Inr (sint (word_of_int (sec * 1000000000) :: 64 word)) else Inl BadHeartbeat
                 | None \<Rightarrow> Inl BadHeartbeat)))"

definition tuic_sni :: "query \<Rightarrow> string \<Rightarrow> string parse_result" where
  "tuic_sni q host =
     (let sni = first_param q [''sni'', ''peer''];
          disable = first_param q [''disable_sni'', ''disable-sni'']
      in if disable \<noteq> [] then
           bind_ok (parseBoolParam disable)
             (\<lambda>b. Inr (if b then [] else if sni = [] then host else sni))
         else Inr (if sni = [] then host else sni))"

definition parseTUIC :: "(string \<Rightarrow> string option) \<Rightarrow> string \<Rightarrow> (outbound \<times> string list) parse_result" where
  "parseTUIC uuid link =
     (if \<not> has_prefix link ''tuic://'' then Inl UnsupportedScheme
      else bind_ok (splitURI link ''tuic://'') (\<lambda>parts.
        (case split2 CHR '':'' (up_userinfo parts) of
           [rawUUID, password] \<Rightarrow>
             if rawUUID = [] \<or> password = [] then Inl BadUserinfo
             else bind_ok (require (uuid rawUUID) BadUserinfo) (\<lambda>parsedUUID.
               if up_port parts = [] then Inl MissingPort
               else bind_ok (require (ParseUint16 (up_port parts)) BadPort) (\<lambda>port.
               if port = 0 then Inl BadPort
               else bind_ok (require (ParseQuery (unescape_amp (up_query parts))) BadQuery) (\<lambda>q.
               bind_ok (tuic_choice (first_param q [''congestion_control'', ''congestion-controller''])
                          [''bbr'', ''cubic'', ''new_reno''] BadCongestionControl) (\<lambda>cc.
               bind_ok (tuic_choice (first_param q [''udp_relay_mode'', ''udp-relay-mode''])
                          [''native'', ''quic''] BadUDPRelayMode) (\<lambda>udpRelay.
               bind_ok (bool_param q [''udp_over_stream'', ''udp-over-stream'']) (\<lambda>udpStream.
               if udpStream \<and> udpRelay \<noteq> [] then Inl ConflictingUDPModes
               else bind_ok (bool_param q [''zero_rtt_handshake'', ''reduce_rtt'', ''zero-rtt-handshake'']) (\<lambda>zeroRTT.
               bind_ok (tuic_heartbeat (first_param q [''heartbeat'', ''heartbeat-interval''])) (\<lambda>heartbeat.
               bind_ok (tuic_sni q (up_host parts)) (\<lambda>sni.
               bind_ok (bool_param q [''allow_insecure'', ''insecure'', ''allowInsecure'', ''skip-cert-verify'']) (\<lambda>insecure.
                 let parsedALPN = alpn_list (q_get q ''alpn'');
                     tls = (plain_tls sni) \<lparr> tls_Insecure := insecure,
                              tls_ALPN := (if parsedALPN = [] then [''h3''] else parsedALPN) \<rparr>
                 in Inr (outbound_of ''tuic''
                      (TUIC \<lparr> srv_Server = up_host parts, srv_Port = to_uint16 port \<rparr> parsedUUID password cc
                         udpRelay udpStream zeroRTT heartbeat tls), [])))))))))))
         | _ \<Rightarrow> Inl BadUserinfo)))"

section \<open>Dispatch\<close>

definition Parse ::
  "(string \<Rightarrow> string option) \<Rightarrow> string \<Rightarrow> outbound candidate parse_result" where
  "Parse uuid link0 =
     (let link = trim_space link0;
          quiet = (\<lambda>r. bind_ok r (\<lambda>ob. Inr (ob, [])));
          result =
            (if has_prefix link ''vmess://'' then quiet (parseVMess link)
             else if has_prefix link ''vless://'' then parseURIStyle link ''vless''
             else if has_prefix link ''trojan://'' then parseURIStyle link ''trojan''
             else if has_prefix link ''ss://'' then quiet (parseShadowsocks link)
             else if has_prefix link ''hysteria2://'' \<or> has_prefix link ''hy2://'' then parseHysteria2 link
             else if has_prefix link ''tuic://'' then parseTUIC uuid link
             else Inl UnsupportedScheme)
      in bind_ok result
           (\<lambda>(ob, warnings). Inr \<lparr> cand_Link = link, cand_Outbound = ob \<lparr> ob_Tag := ''probe'' \<rparr>, cand_Warnings = warnings \<rparr>))"

end
