(* ===== verification/LinkCorrect.thy ===== *)
theory LinkCorrect
  imports LinkParser
begin

text \<open>
  What the parser of share links guarantees of a candidate it accepts, and the round trips of the
  shadowsocks links in both their forms.
\<close>

section \<open>Accepted candidates are valid\<close>

definition valid_port_item :: "string \<Rightarrow> bool" where
  "valid_port_item s =
     (\<exists>lo hi. 1 \<le> lo \<and> lo \<le> hi \<and> hi < 65536 \<and>
        (s = print_nat lo @ '':'' @ print_nat hi \<or> lo = hi \<and> s = print_nat lo))"

definition ports_valid :: "string list \<Rightarrow> uint16 \<Rightarrow> bool" where
  "ports_valid ports port =
     (if ports = [] then port \<noteq> 0 else port = 0 \<and> (\<forall>p \<in> set ports. valid_port_item p))"

fun options_valid :: "string \<Rightarrow> options \<Rightarrow> bool" where
  "options_valid ty (VMess s uid sec aid tr tls) =
     (ty = ''vmess'' \<and> sec = ''auto'' \<and> - (2 ^ 63) \<le> aid \<and> aid < 2 ^ 63)"
| "options_valid ty (VLESS s uid flow tr tls) = (ty = ''vless'' \<and> srv_Server s \<noteq> [])"
| "options_valid ty (Trojan s pw tr tls) = (ty = ''trojan'' \<and> srv_Server s \<noteq> [])"
| "options_valid ty (Shadowsocks s method pw) = (ty = ''shadowsocks'' \<and> CHR '':'' \<notin> set method)"
| "options_valid ty (Hysteria2 s ports pw obfs tls) =
     (ty = ''hysteria2'' \<and> srv_Server s \<noteq> [] \<and> ports_valid ports (srv_Port s) \<and>
      (\<forall>kind secret. obfs = Some (kind, secret) \<longrightarrow> kind \<in> {''salamander'', ''gecko''} \<and> secret \<noteq> []) \<and>
      length (tls_Pins tls) \<le> 1)"
| "options_valid ty (TUIC s uid pw cc udp stream zrtt hb tls) =
     (ty = ''tuic'' \<and> srv_Server s \<noteq> [] \<and> srv_Port s \<noteq> 0 \<and> pw \<noteq> [] \<and>
      cc \<in> {[], ''bbr'', ''cubic'', ''new_reno''} \<and> udp \<in> {[], ''native'', ''quic''} \<and>
      \<not> (stream \<and> udp \<noteq> []) \<and> - (2 ^ 63) \<le> hb \<and> hb < 2 ^ 63 \<and> tls_ALPN tls \<noteq> [])"

lemma require_eq_Inr [simp]: "require x e = Inr y \<longleftrightarrow> x = Some y"
  by (cases x) auto

lemma ParseUint16_range: "ParseUint16 s = Some n \<Longrightarrow> 0 \<le> n \<and> n < 65536"
proof -
  have "0 \<le> foldl (\<lambda>n c. n * 10 + digit c) m s" if "0 \<le> m" for m :: int
    using that by (induction s arbitrary: m) (auto simp: digit_def)
  then show "ParseUint16 s = Some n \<Longrightarrow> 0 \<le> n \<and> n < 65536"
    by (auto simp: ParseUint16_def dec_value_def split: if_splits)
qed

lemma to_uint16_eq_0: "0 < n \<Longrightarrow> n < 65536 \<Longrightarrow> to_uint16 n \<noteq> 0"
  by (simp add: to_uint16_def word_of_int_eq_0_iff zdvd_not_zless)

lemma ParseUint16_nonzero: "ParseUint16 s = Some n \<Longrightarrow> to_uint16 n = 0 \<Longrightarrow> n = 0"
  using ParseUint16_range [of s n] to_uint16_eq_0 [of n] by fastforce

lemma valid_port_itemI:
  fixes lo hi :: int
  assumes "lo \<noteq> 0" "0 \<le> lo" "lo \<le> hi" "hi < 65536"
  shows "valid_port_item (print_nat (nat lo) @ CHR '':'' # print_nat (nat hi))"
    "valid_port_item (print_nat (nat lo))"
proof -
  have "1 \<le> nat lo" "nat lo \<le> nat hi" "nat hi < 65536" "nat lo < 65536" using assms by auto
  then show "valid_port_item (print_nat (nat lo) @ CHR '':'' # print_nat (nat hi))"
    "valid_port_item (print_nat (nat lo))"
    unfolding valid_port_item_def by force+
qed

lemma port_range_valid: "port_range sep part = Inr s \<Longrightarrow> valid_port_item s"
  unfolding port_range_def
  by (clarsimp split: list.splits option.splits if_splits)
    (use ParseUint16_range valid_port_itemI(1) in force)

lemma port_item_valid: "port_item part = Inr s \<Longrightarrow> valid_port_item s"
  unfolding port_item_def
  by (clarsimp split: option.splits if_splits simp: port_range_valid)
    (use ParseUint16_range valid_port_itemI(2) in force)

lemma port_items_valid: "port_items ps = Inr out \<Longrightarrow> p \<in> set out \<Longrightarrow> valid_port_item p"
  by (induction ps arbitrary: out)
    (auto simp: Let_def bind_ok_eq_Inr split: if_splits dest: port_item_valid)

lemma parsePortHopping_valid:
  "parsePortHopping s = Inr out \<Longrightarrow> out \<noteq> [] \<and> (\<forall>p \<in> set out. valid_port_item p)"
  by (auto simp: parsePortHopping_def bind_ok_eq_Inr split: if_splits dest: port_items_valid)

lemma hysteria_ports_valid: "hysteria_ports q pt = Inr (ports, port) \<Longrightarrow> ports_valid ports port"
  unfolding hysteria_ports_def ports_valid_def Let_def
  apply (auto simp: bind_ok_eq_Inr split: if_splits option.splits dest!: parsePortHopping_valid)
  subgoal for p using ParseUint16_range [of pt p] to_uint16_eq_0 [of p] by auto
  done

lemma hysteria_obfs_valid:
  "hysteria_obfs q = Inr (Some (kind, secret)) \<Longrightarrow> kind \<in> {''salamander'', ''gecko''} \<and> secret \<noteq> []"
  by (auto simp: hysteria_obfs_def Let_def split: if_splits)

lemma hysteria_pin_valid: "hysteria_pin pin = Inr pins \<Longrightarrow> length pins \<le> 1"
  by (auto simp: hysteria_pin_def Let_def split: if_splits option.splits)

lemma splitURI_host: "splitURI link prefix = Inr parts \<Longrightarrow> up_host parts \<noteq> []"
  by (auto simp: splitURI_def Let_def bind_ok_eq_Inr split: prod.splits if_splits)

lemma tuic_choice_valid: "tuic_choice v allowed e = Inr w \<Longrightarrow> w = [] \<or> w \<in> set allowed"
  by (auto simp: tuic_choice_def split: if_splits)

lemma sint64_range: "- (2 ^ 63) \<le> sint (w :: 64 word)" "sint (w :: 64 word) < 2 ^ 63"
  using sint_range_size [of w] by (auto simp: word_size)

lemma tuic_heartbeat_valid: "tuic_heartbeat hb = Inr d \<Longrightarrow> - (2 ^ 63) \<le> d \<and> d < 2 ^ 63"
  using ParseDuration_bound [of hb d] sint64_range
  by (auto simp: tuic_heartbeat_def split: if_splits option.splits)

lemma Atoi_value_range: "- (2 ^ 63) \<le> Atoi_value s \<and> Atoi_value s < 2 ^ 63"
  by (auto simp: Atoi_value_def Let_def)

lemma split2_hd: "split2 c s = [a, b] \<Longrightarrow> c \<notin> set a"
proof -
  have "index_any s [c] = Some i \<Longrightarrow> c \<notin> set (take i s)" for i
    by (induction s arbitrary: i) (auto split: if_splits)
  then show "split2 c s = [a, b] \<Longrightarrow> c \<notin> set a"
    by (auto simp: split2_def split: option.splits)
qed

text \<open>A match on exactly two parts that succeeds.\<close>

lemma two_parts:
  "(case xs of [a, b] \<Rightarrow> f a b | _ \<Rightarrow> Inl e) = Inr y \<longleftrightarrow> (\<exists>a b. xs = [a, b] \<and> f a b = Inr y)"
  by (auto split: list.splits)

lemmas parser_simps = ok_eq_simps outbound_of_def Let_def two_parts

lemma parseVMess_valid: "parseVMess link = Inr ob \<Longrightarrow> options_valid (ob_Type ob) (ob_Options ob)"
  using Atoi_value_range by (auto simp: parseVMess_def vmess_outbound_def parser_simps)

lemma parseURIStyle_valid:
  "parseURIStyle link scheme = Inr (ob, ws) \<Longrightarrow> options_valid (ob_Type ob) (ob_Options ob)"
  by (auto simp: parseURIStyle_def parser_simps split: if_split_asm)

lemma parseShadowsocks_valid:
  "parseShadowsocks link = Inr ob \<Longrightarrow> options_valid (ob_Type ob) (ob_Options ob)"
  by (auto simp: parseShadowsocks_def parser_simps dest!: split2_hd)

lemma parseHysteria2_valid:
  "parseHysteria2 link = Inr (ob, ws) \<Longrightarrow> options_valid (ob_Type ob) (ob_Options ob)"
  by (auto simp: parseHysteria2_def parser_simps plain_tls_def simp del: first_param.simps
      dest!: hysteria_ports_valid hysteria_obfs_valid hysteria_pin_valid splitURI_host)

lemma parseTUIC_valid:
  "parseTUIC uuid link = Inr (ob, ws) \<Longrightarrow> options_valid (ob_Type ob) (ob_Options ob)"
  by (clarsimp simp: parseTUIC_def parser_simps plain_tls_def simp del: first_param.simps
      dest!: splitURI_host tuic_choice_valid tuic_heartbeat_valid)
    (auto dest: ParseUint16_nonzero)

text \<open>C19: A link that \<open>Parse\<close> accepts gives a candidate with the trimmed link, the tag "probe" and a valid
  outbound: its type is the one of its options, a hysteria2 outbound has either one non-zero port or a
  non-empty list of ports and ascending ranges between 1 and 65535, obfuscation only of a known kind and
  with a password, and at most one pin; a tuic outbound has a non-zero port, a password, known modes that
  do not conflict, a heartbeat of 64 bits and a protocol to negotiate; vless, trojan, hysteria2 and tuic
  outbounds have a host.
\<close>

theorem parsed_candidate_valid:
  assumes "Parse uuid l = Inr c"
  shows "cand_Link c = trim_space l \<and> ob_Tag (cand_Outbound c) = ''probe''
    \<and> options_valid (ob_Type (cand_Outbound c)) (ob_Options (cand_Outbound c))"
  using assms unfolding Parse_def
  by (auto simp: Let_def bind_ok_eq_Inr split: if_split_asm
      dest: parseVMess_valid parseURIStyle_valid parseShadowsocks_valid parseHysteria2_valid parseTUIC_valid)

text \<open>A tuic link with every optional part of the properties above.\<close>

definition sample_tuic :: string where
  "sample_tuic = ''tuic://7:pw@h.com:443?congestion_control=BBR&udp_relay_mode=native&heartbeat=10''"

lemma sample_tuic_accepted: "\<not> isl (Parse Some sample_tuic)"
  by code_simp

theorem parsed_candidate_valid_witness:
  "\<exists>c. Parse Some sample_tuic = Inr c \<and> options_valid (ob_Type (cand_Outbound c)) (ob_Options (cand_Outbound c))"
proof -
  obtain c where "Parse Some sample_tuic = Inr c"
    using sample_tuic_accepted by (cases "Parse Some sample_tuic") auto
  then show ?thesis using parsed_candidate_valid [of Some sample_tuic c] by blast
qed

section \<open>Round trips\<close>

lemma not_in_print_nat: "\<not> is_digit c \<Longrightarrow> c \<notin> set (print_nat n)"
  using print_nat_digits [of n] by (auto simp: list_all_iff)

lemma not_in_encoding: "c \<notin> insert CHR ''='' (set std_alphabet) \<Longrightarrow> c \<notin> set (EncodeToString s)"
  using set_encode64 [OF alphabets(1), of s] by (auto simp: EncodeToString_def)

text \<open>The two forms of a shadowsocks link, as clients write them.\<close>

definition sip002_link :: "string \<Rightarrow> string \<Rightarrow> string \<Rightarrow> nat \<Rightarrow> string \<Rightarrow> string" where
  "sip002_link method password host port remark =
     ''ss://'' @ EncodeToString (method @ '':'' @ password) @ ''@'' @ host @ '':'' @ print_nat port @ ''#'' @ remark"

definition legacy_link :: "string \<Rightarrow> string \<Rightarrow> string \<Rightarrow> nat \<Rightarrow> string \<Rightarrow> string" where
  "legacy_link method password host port remark =
     ''ss://'' @ EncodeToString (method @ '':'' @ password @ ''@'' @ host @ '':'' @ print_nat port) @ ''#'' @ remark"

definition plain_host :: "string \<Rightarrow> bool" where
  "plain_host host = (set host \<inter> {CHR ''#'', CHR ''@'', CHR ''?'', CHR ''/''} = {})"

definition shadowsocks_candidate :: "string \<Rightarrow> string \<Rightarrow> string \<Rightarrow> string \<Rightarrow> nat \<Rightarrow> outbound candidate" where
  "shadowsocks_candidate link method password host port =
     \<lparr> cand_Link = link,
       cand_Outbound = \<lparr> ob_Type = ''shadowsocks'', ob_Tag = ''probe'',
         ob_Options = Shadowsocks \<lparr> srv_Server = host, srv_Port = of_nat port \<rparr> method password \<rparr>,
       cand_Warnings = [] \<rparr>"

lemma split2_append: "c \<notin> set s \<Longrightarrow> split2 c (s @ c # t) = [s, t]"
  by (simp add: split2_def index_any_append)

lemma splitHostPort_append:
  assumes "plain_host host"
  shows "splitHostPort (host @ CHR '':'' # print_nat port) = Inr (host, print_nat port)"
proof -
  have d: "\<not> is_digit CHR ''?''" "\<not> is_digit CHR ''/''" "\<not> is_digit CHR '':''" by code_simp+
  have "set (host @ CHR '':'' # print_nat port) \<inter> set ''?/'' = {}"
    using assms d not_in_print_nat by (auto simp: plain_host_def)
  then have "cleanHostPort (host @ CHR '':'' # print_nat port) = host @ CHR '':'' # print_nat port"
    by (simp only: cleanHostPort_def index_any_none option.case)
  then show ?thesis using d by (simp add: splitHostPort_def last_index_append not_in_print_nat Let_def)
qed

lemma to_uint16_of_nat: "to_uint16 (int n) = of_nat n"
  by (simp add: to_uint16_def)

text \<open>Trimming a shadowsocks link keeps everything up to the remark.\<close>

lemma trim_ss: "\<exists>r. trim_space (''ss://'' @ s @ ''#'' @ remark) = ''ss://'' @ s @ ''#'' @ r"
proof -
  have "\<not> is_space CHR ''s''" "\<not> is_space CHR ''#''" by code_simp+
  from trim_space_solid [OF this, of "''s://'' @ s" remark] show ?thesis by auto
qed

lemma Parse_ss:
  assumes "trim_space l = ''ss://'' @ s"
  shows "Parse uuid l =
    bind_ok (parseShadowsocks (''ss://'' @ s)) (\<lambda>ob. Inr \<lparr> cand_Link = ''ss://'' @ s,
      cand_Outbound = ob \<lparr> ob_Tag := ''probe'' \<rparr>, cand_Warnings = [] \<rparr>)"
  using assms by (cases "parseShadowsocks (''ss://'' @ s)") (simp_all add: Parse_def Let_def)

text \<open>C20: A shadowsocks link in the current form (credentials in base64, then the server in clear, then any
  remark) is read back: the candidate has the method, the password and the host of the link, whatever
  bytes the password has, and the port modulo 2^16. A port number above 65535 is not rejected but wraps.
\<close>

theorem sip002_roundtrip:
  assumes "CHR '':'' \<notin> set method" "plain_host host" "int port < 2 ^ 63"
  shows "Parse uuid (sip002_link method password host port remark) =
    Inr (shadowsocks_candidate (trim_space (sip002_link method password host port remark)) method password host port)"
proof -
  let ?creds = "method @ '':'' @ password" and ?hp = "host @ '':'' @ print_nat port"
  let ?s = "EncodeToString ?creds @ ''@'' @ ?hp"
  obtain r where r: "trim_space (sip002_link method password host port remark) = ''ss://'' @ ?s @ ''#'' @ r"
    using trim_ss [of ?s remark] by (auto simp: sip002_link_def)
  have alpha: "CHR ''#'' \<notin> insert CHR ''='' (set std_alphabet)" by (simp add: std_alphabet_def)
  have digits: "\<not> is_digit CHR ''#''" "\<not> is_digit CHR ''@''" "\<not> is_digit CHR ''?''" "\<not> is_digit CHR ''/''"
    by code_simp+
  have hash: "CHR ''#'' \<notin> set ?s"
    using assms(2) not_in_encoding [OF alpha] not_in_print_nat [OF digits(1)] by (auto simp: plain_host_def)
  have at: "CHR ''@'' \<notin> set ?hp"
    using assms(2) not_in_print_nat [OF digits(2)] by (auto simp: plain_host_def)
  have "set ?hp \<inter> set ''?/'' = {}"
    using assms(2) not_in_print_nat [OF digits(3)] not_in_print_nat [OF digits(4)] by (auto simp: plain_host_def)
  then have clean: "cleanHostPort ?hp = ?hp" by (simp only: cleanHostPort_def index_any_none option.case)
  have raw: "fst (cut CHR ''#'' (trim_prefix (''ss://'' @ ?s @ ''#'' @ r) ''ss://'')) = ?s"
    using cut_append [OF hash, of r] by (simp add: trim_prefix_def)
  have last_at: "last_index_byte ?s CHR ''@'' = Some (length (EncodeToString ?creds))"
    using last_index_append [OF at] by simp
  have "parseShadowsocks (''ss://'' @ ?s @ ''#'' @ r) =
      Inr (outbound_of ''shadowsocks'' (Shadowsocks \<lparr> srv_Server = host, srv_Port = of_nat port \<rparr> method password))"
    using assms splitHostPort_append [OF assms(2), of port] clean
    unfolding parseShadowsocks_def raw Let_def last_at
    by (simp add: b64Decode_EncodeToString split2_append Atoi_print_nat to_uint16_of_nat)
  then show ?thesis
    using Parse_ss [OF r] by (simp add: r outbound_of_def shadowsocks_candidate_def)
qed

theorem sip002_roundtrip_witness:
  "Parse Some (sip002_link ''aes-256-gcm'' ''p@ss:#1'' ''h.com'' 65537 ''my node '') =
    Inr (shadowsocks_candidate (trim_space (sip002_link ''aes-256-gcm'' ''p@ss:#1'' ''h.com'' 65537 ''my node ''))
           ''aes-256-gcm'' ''p@ss:#1'' ''h.com'' 65537)
   \<and> (of_nat 65537 :: uint16) = 1"
  using sip002_roundtrip [of "''aes-256-gcm''" "''h.com''" 65537 Some "''p@ss:#1''" "''my node ''"]
  by (simp add: plain_host_def)

text \<open>A shadowsocks link in the legacy form (everything before the remark in one base64 text) is read back
  in the same way, provided that the base64 text has no slash.
\<close>

theorem legacy_roundtrip:
  assumes "CHR '':'' \<notin> set method" "plain_host host" "int port < 2 ^ 63"
    and no_slash: "CHR ''/'' \<notin> set (EncodeToString (method @ '':'' @ password @ ''@'' @ host @ '':'' @ print_nat port))"
  shows "Parse uuid (legacy_link method password host port remark) =
    Inr (shadowsocks_candidate (trim_space (legacy_link method password host port remark)) method password host port)"
proof -
  let ?hp = "host @ '':'' @ print_nat port"
  let ?text = "(method @ '':'' @ password) @ ''@'' @ ?hp"
  let ?s = "EncodeToString ?text"
  obtain r where r: "trim_space (legacy_link method password host port remark) = ''ss://'' @ ?s @ ''#'' @ r"
    using trim_ss [of ?s remark] by (auto simp: legacy_link_def)
  have alpha: "CHR ''#'' \<notin> insert CHR ''='' (set std_alphabet)" "CHR ''@'' \<notin> insert CHR ''='' (set std_alphabet)"
    "CHR ''?'' \<notin> insert CHR ''='' (set std_alphabet)"
    by (simp_all add: std_alphabet_def)
  note absent = alpha [THEN not_in_encoding, of ?text]
  have "\<not> is_digit CHR ''@''" by code_simp
  then have at: "CHR ''@'' \<notin> set ?hp"
    using assms(2) not_in_print_nat by (auto simp: plain_host_def)
  have "set ?s \<inter> set ''?/'' = {}" using absent(3) no_slash by auto
  then have clean: "cleanHostPort ?s = ?s" by (simp only: cleanHostPort_def index_any_none option.case)
  have raw: "fst (cut CHR ''#'' (trim_prefix (''ss://'' @ ?s @ ''#'' @ r) ''ss://'')) = ?s"
    using cut_append [OF absent(1), of r] by (simp add: trim_prefix_def)
  have last_at: "last_index_byte ?text CHR ''@'' = Some (length (method @ '':'' @ password))"
    using last_index_append [OF at, of "method @ '':'' @ password"] by simp
  have "parseShadowsocks (''ss://'' @ ?s @ ''#'' @ r) =
      Inr (outbound_of ''shadowsocks'' (Shadowsocks \<lparr> srv_Server = host, srv_Port = of_nat port \<rparr> method password))"
    using assms splitHostPort_append [OF assms(2), of port]
    unfolding parseShadowsocks_def raw Let_def last_index_none [OF absent(2)] clean b64Decode_EncodeToString
      require_simps option.case bind_ok_simps last_at
    by (simp add: split2_append Atoi_print_nat to_uint16_of_nat)
  then show ?thesis
    using Parse_ss [OF r] by (simp add: r outbound_of_def shadowsocks_candidate_def)
qed

theorem legacy_roundtrip_witness:
  "Parse Some (legacy_link ''aes'' ''pw'' ''h.com'' 65537 ''n'') =
    Inr (shadowsocks_candidate (trim_space (legacy_link ''aes'' ''pw'' ''h.com'' 65537 ''n'')) ''aes'' ''pw'' ''h.com'' 65537)"
proof (rule legacy_roundtrip)
  have print_65537: "print_nat 65537 = ''65537''"
    by (simp add: print_nat.simps [of 65537] print_nat.simps [of 6553] print_nat.simps [of 655]
        print_nat.simps [of 65] print_nat.simps [of 6] char_of_def bit_0)
  show "CHR ''/'' \<notin> set (EncodeToString (''aes'' @ '':'' @ ''pw'' @ ''@'' @ ''h.com'' @ '':'' @ print_nat 65537))"
    using print_65537 by (simp add: EncodeToString_def byte_def std_alphabet_def of_char_def)
qed (simp_all add: plain_host_def)

text \<open>
  With a slash in the base64 text the decoder sees only what is before the slash: the password "??????"
  makes a legacy link that the parser rejects.
\<close>

lemma legacy_slash_rejected:
  "Parse Some (legacy_link ''aes'' ''??????'' ''h.com'' 8388 ''n'') = Inl MalformedLegacyLink"
proof -
  have print_8388: "print_nat 8388 = ''8388''"
    by (simp add: print_nat.simps [of 8388] print_nat.simps [of 838] print_nat.simps [of 83] print_nat.simps [of 8]
        char_of_def bit_0)
  have e: "EncodeToString (''aes'' @ '':'' @ ''??????'' @ ''@'' @ ''h.com'' @ '':'' @ print_nat 8388)
      = ''YWVzOj8/Pz8/P0BoLmNvbTo4Mzg4''"
    using print_8388 by (simp add: EncodeToString_def byte_def std_alphabet_def of_char_def)
  have d: "b64Decode ''YWVzOj8'' = Some ''aes:?''"
    by (simp add: b64Decode_def StdDecode_def drop_newlines_def std_alphabet_def trim_space_def is_space_def
        char_of_def bit_0 bit_iff_odd)
  have c: "trim_space ''ss://YWVzOj8/Pz8/P0BoLmNvbTo4Mzg4#n'' = ''ss://YWVzOj8/Pz8/P0BoLmNvbTo4Mzg4#n''"
    "fst (cut CHR ''#'' (trim_prefix ''ss://YWVzOj8/Pz8/P0BoLmNvbTo4Mzg4#n'' ''ss://'')) = ''YWVzOj8/Pz8/P0BoLmNvbTo4Mzg4''"
    "cleanHostPort ''YWVzOj8/Pz8/P0BoLmNvbTo4Mzg4'' = ''YWVzOj8''"
    by (simp_all add: trim_space_def is_space_def cut_def trim_prefix_def cleanHostPort_def)
  have "legacy_link ''aes'' ''??????'' ''h.com'' 8388 ''n'' = ''ss://YWVzOj8/Pz8/P0BoLmNvbTo4Mzg4#n''"
    unfolding legacy_link_def e by simp
  then show ?thesis
    using Parse_ss [of "''ss://YWVzOj8/Pz8/P0BoLmNvbTo4Mzg4#n''" "''YWVzOj8/Pz8/P0BoLmNvbTo4Mzg4#n''" Some] c d
    by (simp add: parseShadowsocks_def Let_def)
qed

text \<open>A vmess payload with a numeric port, which the comment of the field expects, is rejected.\<close>

definition numeric_port_payload :: string where
  "numeric_port_payload = ''{'' @ [quote_char] @ ''port'' @ [quote_char] @ '':443}''"

lemma vmess_numeric_port_rejected:
  "parseVMess (''vmess://'' @ EncodeToString numeric_port_payload) = Inl BadJSON"
proof -
  have "Unmarshal vmess_fields numeric_port_payload empty_vmess = None" by code_simp
  then show ?thesis by (simp add: parseVMess_def trim_prefix_def b64Decode_EncodeToString)
qed

end
