(* ===== verification/Canonical.thy ===== *)
theory Canonical
  imports GoUrl LinkTypes
begin

text \<open>
  The canonical form of a share link, which is the key of a record in the store:
  \<open>internal/store/canonical.go\<close>. The store and the rotation take the canonicalisation as a parameter
  \<open>canon\<close>; here it is the function itself. The theorem shows that the order in which a link gives its
  query parameters cannot be observed in its key.
\<close>

definition canonical_host :: "url \<Rightarrow> string" where
  "canonical_host u =
     (let hostname = to_lower (Hostname u); port = Port u
      in if port \<noteq> [] then JoinHostPort hostname port
         else if CHR '':'' \<in> set hostname then ''['' @ hostname @ '']'' else hostname)"

definition sort_values :: "query \<Rightarrow> query" where
  "sort_values q = map (\<lambda>(k, vals). (k, if 1 < length vals then sort vals else vals)) q"

definition canonical_url :: "url \<Rightarrow> url" where
  "canonical_url u0 =
     (let u = u0 \<lparr> u_Scheme := to_lower (u_Scheme u0), u_Host := canonical_host u0 \<rparr>;
          q = Query (u_RawQuery u)
      in if 0 < length q then u \<lparr> u_RawQuery := Encode (sort_values q) \<rparr> else u)"

definition CanonicalizeLink :: "string \<Rightarrow> string" where
  "CanonicalizeLink raw0 =
     (let raw = trim_space raw0
      in if raw = [] then []
         else if 8 \<le> length raw \<and> equal_fold (take 8 raw) ''vmess://'' then ''vmess://'' @ drop 8 raw
         else let (body, after) = cut CHR ''#'' raw;
                  trimmedFrag = trim_space after;
                  frag = (if trimmedFrag \<noteq> [] then ''#'' @ trimmedFrag else [])
              in (case Parse_url body of
                    None \<Rightarrow> body @ frag
                  | Some u \<Rightarrow> string_of_url (canonical_url u) @ frag))"

text \<open>The set of links is a list; a nil map is \<open>None\<close>.\<close>

definition CanonicalizeLinks :: "string list option \<Rightarrow> string list option" where
  "CanonicalizeLinks currentLinks = map_option (\<lambda>links. remdups (map CanonicalizeLink links)) currentLinks"

section \<open>The well-formed settings of a query\<close>

definition good_setting :: "string \<Rightarrow> (string \<times> string) option" where
  "good_setting setting =
     (if CHR '';'' \<in> set setting \<or> setting = [] then None
      else case cut CHR ''='' setting of
        (k, v) \<Rightarrow> Option.bind (QueryUnescape k) (\<lambda>k'. map_option (Pair k') (QueryUnescape v)))"

definition good_settings :: "string list \<Rightarrow> (string \<times> string) list" where
  "good_settings ss = List.map_filter good_setting ss"

lemma fst_query_setting:
  "fst (query_setting s (q, e)) = (case good_setting s of None \<Rightarrow> q | Some (k, v) \<Rightarrow> query_add k v q)"
  by (auto simp: query_setting_def good_setting_def Let_def split: prod.split option.split)

lemma fst_fold_query_setting:
  "fst (fold query_setting ss st) = fold (\<lambda>(k, v). query_add k v) (good_settings ss) (fst st)"
proof (induction ss arbitrary: st)
  case (Cons s ss)
  obtain q e where "st = (q, e)" by (cases st)
  then show ?case using Cons [of "query_setting s st"]
    by (auto simp: fst_query_setting good_settings_def map_filter_simps split: option.split)
qed (simp add: good_settings_def map_filter_simps)

definition values_of :: "string \<Rightarrow> (string \<times> string) list \<Rightarrow> string list" where
  "values_of k kvs = map snd (filter (\<lambda>kv. fst kv = k) kvs)"

definition as_values :: "string list \<Rightarrow> string list option" where
  "as_values vs = (if vs = [] then None else Some vs)"

lemma map_of_query_add:
  "map_of (query_add k v q) j =
     (if j = k then Some ((case map_of q k of None \<Rightarrow> [] | Some vs \<Rightarrow> vs) @ [v]) else map_of q j)"
  by (auto simp: query_add_def map_add_def update_conv' split: option.split)

lemma distinct_query_add: "distinct (map fst q) \<Longrightarrow> distinct (map fst (query_add k v q))"
  by (auto simp: query_add_def distinct_update map_of_eq_None_iff split: option.split)

lemma map_of_query:
  "map_of (fold (\<lambda>(k, v). query_add k v) kvs q) j =
     (case map_of q j of None \<Rightarrow> as_values (values_of j kvs) | Some vs \<Rightarrow> Some (vs @ values_of j kvs))"
proof (induction kvs arbitrary: q)
  case (Cons kv kvs)
  obtain k v where "kv = (k, v)" by (cases kv)
  then show ?case using Cons [of "query_add k v q"]
    by (auto simp: map_of_query_add values_of_def as_values_def split: option.split)
qed (simp add: values_of_def as_values_def split: option.split)

lemma distinct_query:
  "distinct (map fst q) \<Longrightarrow> distinct (map fst (fold (\<lambda>(k, v). query_add k v) kvs q))"
  by (induction kvs arbitrary: q) (auto simp: distinct_query_add split: prod.split)

section \<open>Sorted queries\<close>

lemma sort_values_eq: "sort_values q = map (\<lambda>(k, vs). (k, sort vs)) q"
proof -
  have "(if 1 < length vs then sort vs else vs) = sort vs" for vs :: "string list"
    by (cases vs rule: list.exhaust, simp, rename_tac v ws, case_tac ws, auto)
  then show ?thesis by (simp add: sort_values_def)
qed

lemma same_alist:
  assumes "distinct (map fst q)" "distinct (map fst q')" "map_of q = map_of q'"
  shows "mset q = mset q'"
proof -
  have "set q = set q'" using assms by (metis map_of_inject_set)
  moreover have "distinct q" "distinct q'" using assms by (simp_all add: distinct_map)
  ultimately show ?thesis by (simp add: set_eq_iff_mset_eq_distinct)
qed

interpretation by_name: comparator "\<lambda>a b :: string \<times> string list. fst a < fst b" fst
  by unfold_locales simp

lemma sort_by_name_unique:
  assumes "mset q = mset q'" "distinct (map fst q)"
  shows "sort_by (\<lambda>a b. fst a < fst b) q = sort_by (\<lambda>a b. fst a < fst b) (q' :: query)"
proof -
  have keys: "map fst (sort_by (\<lambda>a b. fst a < fst b) q) = map fst (sort_by (\<lambda>a b. fst a < fst b) q')"
    by (rule by_name.sort_by_permutation [OF assms(1)])
  have "inj_on fst (set q)" using assms(2) by (simp add: distinct_map)
  then show ?thesis using keys mset_eq_setD [OF assms(1)]
    by (metis inj_on_map_eq_map set_sort_by Un_absorb)
qed

text \<open>The query of two lists of settings with the same settings is printed in the same way.\<close>

lemma Encode_same_settings:
  assumes "mset kvs = mset kvs'"
  defines "query_of \<equiv> \<lambda>l. fold (\<lambda>(k, v). query_add k v) l []"
  shows "Encode (sort_values (query_of kvs)) = Encode (sort_values (query_of kvs'))"
    and "query_of kvs = [] \<longleftrightarrow> query_of kvs' = []"
proof -
  have vals: "mset (values_of k kvs) = mset (values_of k kvs')" for k
    using assms(1) by (simp add: values_of_def)
  have nil: "values_of k kvs = [] \<longleftrightarrow> values_of k kvs' = []" for k
    using vals [of k] by (metis mset_zero_iff)
  have map: "map_of (query_of l) k = as_values (values_of k l)" for l k
    by (simp add: query_of_def map_of_query)
  have dist: "distinct (map fst (query_of l))" for l
    by (simp add: query_of_def distinct_query)
  have "map_of (sort_values (query_of l)) k = map_option sort (as_values (values_of k l))" for l k
    using map_of_map_snd [of "\<lambda>_. sort" "query_of l" k] by (simp add: sort_values_eq map)
  moreover have "sort (values_of k kvs) = sort (values_of k kvs')" for k
    using vals by (metis properties_for_sort mset_sort sorted_sort)
  ultimately have "map_of (sort_values (query_of kvs)) = map_of (sort_values (query_of kvs'))"
    using nil by (auto simp: as_values_def fun_eq_iff)
  moreover have "distinct (map fst (sort_values (query_of l)))" for l
    using dist [of l] by (simp add: sort_values_eq comp_def case_prod_beta)
  ultimately have "sort_by (\<lambda>a b. fst a < fst b) (sort_values (query_of kvs))
      = sort_by (\<lambda>a b. fst a < fst b) (sort_values (query_of kvs'))"
    by (intro sort_by_name_unique same_alist)
  then show "Encode (sort_values (query_of kvs)) = Encode (sort_values (query_of kvs'))"
    by (simp add: Encode_def)
  have "query_of l = [] \<longleftrightarrow> (\<forall>k. values_of k l = [])" for l
    by (auto simp: map as_values_def fun_eq_iff simp flip: map_of_eq_empty_iff)
  then show "query_of kvs = [] \<longleftrightarrow> query_of kvs' = []" using nil by simp
qed

lemma good_settings_mset:
  assumes "mset ss = mset ss'"
  shows "mset (good_settings ss) = mset (good_settings ss')"
proof -
  have "mset (good_settings l) = image_mset the (filter_mset (\<lambda>x. x \<noteq> None) (image_mset good_setting (mset l)))" for l
    by (induction l) (auto simp: good_settings_def map_filter_simps split: option.split)
  then show ?thesis using assms by simp
qed

section \<open>The order of the parameters does not matter\<close>

lemma Query_join:
  assumes "\<forall>s \<in> set ss. CHR ''&'' \<notin> set s"
  shows "Query (join_with ''&'' ss) = fold (\<lambda>(k, v). query_add k v) (good_settings ss) []"
proof (cases "join_with ''&'' ss = []")
  case True
  then have "ss = [] \<or> ss = [[]]" by (rule join_with_eq_Nil)
  then show ?thesis
    using True by (auto simp: Query_def parse_query_def good_settings_def good_setting_def map_filter_simps)
next
  case False
  then have "ss \<noteq> []" by auto
  with False show ?thesis
    using split_join [OF assms] fst_fold_query_setting [of ss "([], False)"]
    by (simp add: Query_def parse_query_def)
qed

lemma canonical_url_same_settings:
  assumes "mset ss = mset ss'" "\<forall>s \<in> set ss. CHR ''&'' \<notin> set s"
    and "0 < length (good_settings ss)"
  shows "canonical_url (u \<lparr> u_RawQuery := join_with ''&'' ss \<rparr>) = canonical_url (u \<lparr> u_RawQuery := join_with ''&'' ss' \<rparr>)"
proof -
  have "\<forall>s \<in> set ss'. CHR ''&'' \<notin> set s" using assms(1,2) mset_eq_setD by blast
  note q = Query_join [OF assms(2)] Query_join [OF this]
  note same = Encode_same_settings [OF good_settings_mset [OF assms(1)]]
  have "fold (\<lambda>(k, v). query_add k v) (good_settings ss) [] \<noteq> []"
  proof
    assume nil: "fold (\<lambda>(k, v). query_add k v) (good_settings ss) [] = []"
    obtain k v where "(k, v) \<in> set (good_settings ss)" using assms(3) by (cases "good_settings ss") auto
    then have "values_of k (good_settings ss) \<noteq> []" by (force simp: values_of_def filter_empty_conv)
    then show False using nil map_of_query [of "good_settings ss" "[]" k] by (simp add: as_values_def)
  qed
  then show ?thesis
    using same by (simp add: canonical_url_def Let_def q canonical_host_def Hostname_def Port_def)
qed

text \<open>Parsing a URL reads everything but its query from what precedes the query.\<close>

lemma scheme_length_query:
  assumes "scheme_length (base @ CHR ''?'' # q) i = Some n"
  shows "n < i + length base \<and> scheme_length (base @ CHR ''?'' # q') i = Some n"
  using assms
proof (induction base arbitrary: i)
  case Nil
  have "\<not> is_alpha CHR ''?''" "\<not> is_digit CHR ''?''" by code_simp+
  then show ?case using Nil by simp
next
  case (Cons c base)
  then show ?case by (fastforce split: if_splits)
qed

lemma getScheme_query:
  assumes "getScheme (base @ CHR ''?'' # q) = Some (scheme, rest)"
  shows "\<exists>b. rest = b @ CHR ''?'' # q \<and> set b \<subseteq> set base \<and> getScheme (base @ CHR ''?'' # q') = Some (scheme, b @ CHR ''?'' # q')"
proof (cases "scheme_length (base @ CHR ''?'' # q) 0")
  case None
  then have "scheme_length (base @ CHR ''?'' # q') 0 = None"
    using scheme_length_query [of base q' 0 _ q] by (cases "scheme_length (base @ CHR ''?'' # q') 0") auto
  then show ?thesis using None assms by (auto simp: getScheme_def)
next
  case (Some n)
  from scheme_length_query [OF this, of q'] have n: "n < length base" "scheme_length (base @ CHR ''?'' # q') 0 = Some n"
    by auto
  then show ?thesis
    using Some assms set_drop_subset [of "Suc n" base] by (auto simp: getScheme_def split: if_splits)
qed

lemma getScheme_query_None:
  "getScheme (base @ CHR ''?'' # q) = None \<longleftrightarrow> getScheme (base @ CHR ''?'' # q') = None"
  using getScheme_query [of base q _ _ q'] getScheme_query [of base q' _ _ q]
  by (metis not_None_eq surj_pair)

lemma no_force:
  assumes "CHR ''?'' \<notin> set b" "q \<noteq> []"
  shows "\<not> (has_suffix (b @ CHR ''?'' # q) ''?'' \<and> length (filter (\<lambda>c. c = CHR ''?'') (b @ CHR ''?'' # q)) = 1)"
proof
  assume force: "has_suffix (b @ CHR ''?'' # q) ''?'' \<and> length (filter (\<lambda>c. c = CHR ''?'') (b @ CHR ''?'' # q)) = 1"
  then have "CHR ''?'' \<notin> set q" by (auto simp: filter_empty_conv)
  moreover have "last q = CHR ''?''" using force assms(2) by (cases q rule: rev_cases) (auto simp: has_suffix_def)
  ultimately show False using assms(2) last_in_set by metis
qed

lemma setPath_query: "setPath p (u \<lparr> u_RawQuery := q \<rparr>) = map_option (\<lambda>u. u \<lparr> u_RawQuery := q \<rparr>) (setPath p u)"
  by (cases "unescape p encodePath") (simp_all add: setPath_def)

lemma parse_url_query:
  assumes "CHR ''?'' \<notin> set base" "q \<noteq> []" "q' \<noteq> []" "set q = set q'"
  shows "parse_url (base @ CHR ''?'' # q) False =
    map_option (\<lambda>u. u \<lparr> u_RawQuery := q \<rparr>) (parse_url (base @ CHR ''?'' # q') False)"
proof -
  have ctl: "has_ctl_byte (base @ CHR ''?'' # q) = has_ctl_byte (base @ CHR ''?'' # q')"
    using assms(4) by (simp add: has_ctl_byte_def list_ex_iff)
  have star: "base @ CHR ''?'' # x \<noteq> ''*''" for x by (cases base) auto
  show ?thesis
  proof (cases "getScheme (base @ CHR ''?'' # q)")
    case None
    then show ?thesis
      using getScheme_query_None [of base q q'] ctl star by (simp add: parse_url_def)
  next
    case (Some sr)
    then obtain scheme b where g: "getScheme (base @ CHR ''?'' # q) = Some (scheme, b @ CHR ''?'' # q)"
      "getScheme (base @ CHR ''?'' # q') = Some (scheme, b @ CHR ''?'' # q')" "set b \<subseteq> set base"
      using getScheme_query [of base q "fst sr" "snd sr" q'] by (cases sr) auto
    then have b: "CHR ''?'' \<notin> set b" using assms(1) by auto
    note cut = cut_append [OF b]
    have force: "(has_suffix (b @ CHR ''?'' # x) ''?'' \<and> length (filter (\<lambda>c. c = CHR ''?'') (b @ CHR ''?'' # x)) = 1) = False"
      if "x \<noteq> []" for x using no_force [OF b that] by (simp only: simp_thms)
    have nonempty: "(base @ CHR ''?'' # x = []) = False" "(base @ CHR ''?'' # x = ''*'') = False" for x
      using star by simp_all
    note parts = g force [OF assms(2)] force [OF assms(3)] cut nonempty
    define u where "u = empty_url \<lparr> u_Scheme := to_lower scheme, u_ForceQuery := False \<rparr>"
    have u: "empty_url \<lparr> u_Scheme := to_lower scheme, u_ForceQuery := False, u_RawQuery := x \<rparr> = u \<lparr> u_RawQuery := x \<rparr>" for x
      by (simp add: u_def)
    have auth: "setPath p (u \<lparr> u_RawQuery := q, u_User := user, u_Host := host \<rparr>) =
        map_option (\<lambda>u. u \<lparr> u_RawQuery := q \<rparr>) (setPath p (u \<lparr> u_RawQuery := q', u_User := user, u_Host := host \<rparr>))" for p user host
      by (cases "unescape p encodePath") (simp_all add: setPath_def u_def empty_url_def)
    have path: "setPath p (u \<lparr> u_RawQuery := q, u_OmitHost := omit \<rparr>) =
        map_option (\<lambda>u. u \<lparr> u_RawQuery := q \<rparr>) (setPath p (u \<lparr> u_RawQuery := q', u_OmitHost := omit \<rparr>))" for p omit
      by (cases "unescape p encodePath") (simp_all add: setPath_def u_def empty_url_def)
    have opaque: "u \<lparr> u_RawQuery := q, u_Opaque := w \<rparr> = (u \<lparr> u_RawQuery := q', u_Opaque := w \<rparr>) \<lparr> u_RawQuery := q \<rparr>" for w
      by (simp add: u_def empty_url_def)
    show ?thesis
      unfolding parse_url_def parts option.case prod.case Let_def if_False ctl u auth path opaque
      by (simp only: if_distrib [of "map_option _"] option.case_distrib [of "map_option _"] option.map
          prod.case_distrib [of "map_option _"] simp_thms if_False if_True prod.case cong: if_cong)
  qed
qed

lemma not_vmess_prefix:
  assumes "\<not> has_prefix (to_lower base) ''vmess://''"
  shows "\<not> equal_fold (take 8 (base @ CHR ''?'' # t)) ''vmess://''"
proof
  assume eq: "equal_fold (take 8 (base @ CHR ''?'' # t)) ''vmess://''"
  have v: "to_lower ''vmess://'' = ''vmess://''" by code_simp
  show False
  proof (cases "8 \<le> length base")
    case True
    then have "take 8 (to_lower base) = ''vmess://''"
      using eq v by (simp add: equal_fold_def to_lower_def take_map)
    then show False using assms by (metis append_take_drop_id has_prefix_append)
  next
    case False
    then have "CHR ''?'' \<in> set (take 8 (base @ CHR ''?'' # t))" by (cases "8 - length base") auto
    then have "lower_char CHR ''?'' \<in> set ''vmess://''"
      using eq v by (metis equal_fold_def image_eqI list.set_map to_lower_def)
    moreover have "lower_char CHR ''?'' \<notin> set ''vmess://''" by code_simp
    ultimately show False by blast
  qed
qed

text \<open>C21: The key of a link does not depend on the order in which the link gives its query parameters: two
  links that parse and differ only by a permutation of the settings of their queries (at least one of
  them well-formed) have the same canonical form, however often a parameter occurs.
\<close>

theorem canonical_parameter_order:
  assumes "mset ss = mset ss'" "\<forall>s \<in> set ss. CHR ''&'' \<notin> set s \<and> CHR ''#'' \<notin> set s"
    and "list_ex (\<lambda>s. good_setting s \<noteq> None) ss"
    and "base \<noteq> []" "\<not> is_space (hd base)" "CHR ''?'' \<notin> set base" "CHR ''#'' \<notin> set base"
    and "\<not> has_prefix (to_lower base) ''vmess://''"
    and "Parse_url (base @ ''?'' @ join_with ''&'' ss) \<noteq> None"
  shows "CanonicalizeLink (base @ ''?'' @ join_with ''&'' ss @ ''#'' @ remark) =
    CanonicalizeLink (base @ ''?'' @ join_with ''&'' ss' @ ''#'' @ remark)"
proof -
  let ?q = "join_with ''&'' ss" and ?q' = "join_with ''&'' ss'"
  let ?rest = "rev (dropWhile is_space (rev remark))"
  have sets: "set ss = set ss'" "length ss = length ss'"
    using assms(1) mset_eq_setD mset_eq_length by blast+
  then have same_bytes: "set ?q = set ?q'" by (simp add: set_join)
  obtain s where "s \<in> set ss" "good_setting s \<noteq> None" using assms(3) by (auto simp: list_ex_iff)
  then have "s \<noteq> []" "s \<in> set ss" by (auto simp: good_setting_def)
  then have ne: "?q \<noteq> []" "?q' \<noteq> []"
    using sets(1) by (auto simp: set_join simp flip: set_empty)
  have hash: "CHR ''#'' \<notin> set ?q" "CHR ''#'' \<notin> set ?q'" using assms(2) sets by (auto simp: set_join)
  have good: "0 < length (good_settings ss)"
    using \<open>s \<in> set ss\<close> \<open>good_setting s \<noteq> None\<close>
    by (auto simp: good_settings_def List.map_filter_def filter_empty_conv)
  have trim: "trim_space (base @ ''?'' @ x @ ''#'' @ remark) = base @ CHR ''?'' # x @ CHR ''#'' # ?rest" for x
  proof -
    have "\<not> is_space CHR ''#''" by code_simp
    then show ?thesis
      using trim_space_solid [OF assms(5), of "CHR ''#''" "tl base @ CHR ''?'' # x" remark] assms(4) by (cases base) auto
  qed
  have cut: "cut CHR ''#'' (base @ CHR ''?'' # x @ CHR ''#'' # ?rest) = (base @ CHR ''?'' # x, ?rest)"
    if "CHR ''#'' \<notin> set x" for x
    using cut_append [of "CHR ''#''" "base @ CHR ''?'' # x" ?rest] that assms(7) by simp
  have parse: "Parse_url (base @ CHR ''?'' # x) = parse_url (base @ CHR ''?'' # x) False"
    if "CHR ''#'' \<notin> set x" for x
    using cut_none [of "CHR ''#''" "base @ CHR ''?'' # x"] that assms(7)
    by (simp add: Parse_url_def split: option.split)
  have "parse_url (base @ CHR ''?'' # ?q) False =
      map_option (\<lambda>u. u \<lparr> u_RawQuery := ?q \<rparr>) (parse_url (base @ CHR ''?'' # ?q') False)"
    by (rule parse_url_query [OF assms(6) ne same_bytes])
  moreover have "parse_url (base @ CHR ''?'' # ?q') False =
      map_option (\<lambda>u. u \<lparr> u_RawQuery := ?q' \<rparr>) (parse_url (base @ CHR ''?'' # ?q') False)"
    by (rule parse_url_query [OF assms(6) ne(2,2) refl])
  ultimately have urls: "map_option canonical_url (parse_url (base @ CHR ''?'' # ?q) False) =
      map_option canonical_url (parse_url (base @ CHR ''?'' # ?q') False)"
    using canonical_url_same_settings [OF assms(1) _ good] assms(2)
    by (cases "parse_url (base @ CHR ''?'' # ?q') False") auto
  have "CanonicalizeLink (base @ ''?'' @ x @ ''#'' @ remark) =
      (let f = trim_space ?rest; frag = (if f \<noteq> [] then ''#'' @ f else [])
       in case map_option canonical_url (parse_url (base @ CHR ''?'' # x) False) of
            None \<Rightarrow> base @ CHR ''?'' # x @ frag | Some u \<Rightarrow> string_of_url u @ frag)"
    if "CHR ''#'' \<notin> set x" for x
    using assms(4) that not_vmess_prefix [OF assms(8), of "x @ CHR ''#'' # ?rest"]
    unfolding CanonicalizeLink_def trim Let_def
    by (simp add: cut parse Let_def split: option.split)
  from this [OF hash(1)] this [OF hash(2)] show ?thesis
    using urls assms(9) parse [OF hash(1)] by (cases "parse_url (base @ CHR ''?'' # ?q') False") (auto simp: Let_def)
qed

theorem canonical_parameter_order_witness:
  "CanonicalizeLink (''vless://u@H.com:443'' @ ''?'' @ join_with ''&'' [''type=ws'', ''a=1'', ''type=b''] @ ''#'' @ ''n '')
   = CanonicalizeLink (''vless://u@H.com:443'' @ ''?'' @ join_with ''&'' [''type=b'', ''type=ws'', ''a=1''] @ ''#'' @ ''n '')"
proof (rule canonical_parameter_order)
  show "\<not> has_prefix (to_lower ''vless://u@H.com:443'') ''vmess://''" by code_simp
  show "\<not> is_space (hd ''vless://u@H.com:443'')" by code_simp
  show "list_ex (\<lambda>s. good_setting s \<noteq> None) [''type=ws'', ''a=1'', ''type=b'']" by code_simp
  show "Parse_url (''vless://u@H.com:443'' @ ''?'' @ join_with ''&'' [''type=ws'', ''a=1'', ''type=b'']) \<noteq> None"
    by code_simp
qed simp_all

text \<open>
  The host of a URL is lowercased, and the base64 text of a legacy shadowsocks link stands where a URL
  has its host: two such links that differ only in the case of a letter have the same key.
\<close>

lemma canonical_conflates_legacy_links:
  "CanonicalizeLink ''ss://YWVzOnB3QGguY29tOjE='' = CanonicalizeLink ''ss://ywvzonb3qgguy29tojE=''"
  by code_simp

end
