(* ===== verification/JsonFields.thy ===== *)
theory JsonFields
  imports JsonValue
begin

text \<open>
  Decoding JSON values into the fields of Go structs with \<open>encoding/json\<close>: one combinator per type of
  field, and the reading of single values. A null leaves a field as it is, or empties a pointer or slice.
\<close>

definition opt_bool_field :: "string \<Rightarrow> ((bool option \<Rightarrow> bool option) \<Rightarrow> 'a \<Rightarrow> 'a) \<Rightarrow> 'a field" where
  "opt_bool_field name upd =
     (name, \<lambda>v r. case v of JBool b \<Rightarrow> Some (upd (\<lambda>_. Some b) r) | JNull \<Rightarrow> Some (upd (\<lambda>_. None) r) | _ \<Rightarrow> None)"

definition int_field :: "string \<Rightarrow> ((int \<Rightarrow> int) \<Rightarrow> 'a \<Rightarrow> 'a) \<Rightarrow> 'a field" where
  "int_field name upd =
     (name, \<lambda>v r. case v of JNumber s \<Rightarrow> map_option (\<lambda>n. upd (\<lambda>_. n) r) (Atoi s) | JNull \<Rightarrow> Some r | _ \<Rightarrow> None)"

definition opt_int_field :: "string \<Rightarrow> ((int option \<Rightarrow> int option) \<Rightarrow> 'a \<Rightarrow> 'a) \<Rightarrow> 'a field" where
  "opt_int_field name upd =
     (name, \<lambda>v r. case v of JNumber s \<Rightarrow> map_option (\<lambda>n. upd (\<lambda>_. Some n) r) (Atoi s)
                  | JNull \<Rightarrow> Some (upd (\<lambda>_. None) r) | _ \<Rightarrow> None)"

fun all_some :: "'a option list \<Rightarrow> 'a list option" where
  "all_some [] = Some []"
| "all_some (None # xs) = None"
| "all_some (Some x # xs) = map_option ((#) x) (all_some xs)"

definition list_field :: "string \<Rightarrow> (json \<Rightarrow> 'b option) \<Rightarrow> (('b list \<Rightarrow> 'b list) \<Rightarrow> 'a \<Rightarrow> 'a) \<Rightarrow> 'a field" where
  "list_field name dec upd =
     (name, \<lambda>v r. case v of JArray vs \<Rightarrow> map_option (\<lambda>xs. upd (\<lambda>_. xs) r) (all_some (map dec vs))
                  | JNull \<Rightarrow> Some (upd (\<lambda>_. []) r) | _ \<Rightarrow> None)"

definition struct_field :: "string \<Rightarrow> 'b field list \<Rightarrow> ('a \<Rightarrow> 'b) \<Rightarrow> (('b \<Rightarrow> 'b) \<Rightarrow> 'a \<Rightarrow> 'a) \<Rightarrow> 'a field" where
  "struct_field name fs get upd =
     (name, \<lambda>v r. map_option (\<lambda>x. upd (\<lambda>_. x) r) (decode_struct fs v (get r)))"

definition decode_string :: "json \<Rightarrow> string option" where
  "decode_string v = (case v of JString s \<Rightarrow> Some s | JNull \<Rightarrow> Some [] | _ \<Rightarrow> None)"

definition decode_int :: "json \<Rightarrow> int option" where
  "decode_int v = (case v of JNumber s \<Rightarrow> Atoi s | JNull \<Rightarrow> Some 0 | _ \<Rightarrow> None)"

definition decode_list :: "(json \<Rightarrow> 'b option) \<Rightarrow> json \<Rightarrow> 'b list option" where
  "decode_list dec v = (case v of JArray vs \<Rightarrow> all_some (map dec vs) | JNull \<Rightarrow> Some [] | _ \<Rightarrow> None)"

text \<open>
  A \<open>map[string]json.RawMessage\<close>: the members of an object, of a repeated key the last one, in no
  particular order. Null gives the empty map.
\<close>

definition decode_raw_map :: "json \<Rightarrow> (string \<times> json) list option" where
  "decode_raw_map v =
     (case v of JObject kvs \<Rightarrow> Some (AList.clearjunk (rev kvs)) | JNull \<Rightarrow> Some [] | _ \<Rightarrow> None)"

lemma all_some_Some: "all_some xs = Some ys \<longleftrightarrow> xs = map Some ys"
  by (induction xs arbitrary: ys rule: all_some.induct) auto

lemma json_member_size: "(k, w) \<in> set kvs \<Longrightarrow> size w < size (JObject kvs)"
  by (induction kvs) auto

lemma json_element_size: "w \<in> set vs \<Longrightarrow> size w < size (JArray vs)"
  by (induction vs) auto

lemma raw_map_size:
  assumes "decode_raw_map v = Some m" "map_of m k = Some w"
  shows "size w < size v"
proof (cases v)
  case (JObject kvs)
  then have "map_of (AList.clearjunk (rev kvs)) k = Some w" using assms by (simp add: decode_raw_map_def)
  then have "map_of (rev kvs) k = Some w" by (simp add: map_of_clearjunk)
  then have "(k, w) \<in> set kvs" by (metis map_of_SomeD set_rev)
  then show ?thesis unfolding JObject by (rule json_member_size)
qed (use assms in \<open>auto simp: decode_raw_map_def\<close>)

end
