(* ===== verification/Sha256.thy ===== *)
theory Sha256
  imports Prelude
begin

text \<open>
  SHA-256 (FIPS 180-4, Go's \<open>crypto/sha256\<close>), from which the configuration derives the identifiers of its
  sources: the digest of a byte string, on 32-bit words.
\<close>

unbundle bit_operations_syntax

type_synonym w32 = "32 word"

text \<open>
  The constants of FIPS 180-4: the first 32 bits of the fractional parts of the square roots of the first
  eight primes and of the cube roots of the first 64 primes. A root is found bit by bit, from the highest.
\<close>

fun root_bits :: "nat \<Rightarrow> nat \<Rightarrow> nat \<Rightarrow> nat \<Rightarrow> nat" where
  "root_bits e x 0 r = r"
| "root_bits e x (Suc k) r = root_bits e x k (if (r + 2 ^ k) ^ e \<le> x then r + 2 ^ k else r)"

definition root_fraction :: "nat \<Rightarrow> nat \<Rightarrow> w32" where
  "root_fraction e p = of_nat (root_bits e (p * 2 ^ (32 * e)) 40 0)"

definition small_primes :: "nat list" where
  "small_primes = filter (\<lambda>p. \<forall>d \<in> set [2..<p]. p mod d \<noteq> 0) [2..<312]"

definition sha_init :: "w32 list" where
  "sha_init = map (root_fraction 2) (take 8 small_primes)"

definition sha_constants :: "w32 list" where
  "sha_constants = map (root_fraction 3) small_primes"

definition rotr :: "nat \<Rightarrow> w32 \<Rightarrow> w32" where
  "rotr n x = drop_bit n x OR push_bit (32 - n) x"

definition sigma :: "nat \<Rightarrow> nat \<Rightarrow> nat \<Rightarrow> w32 \<Rightarrow> w32" where
  "sigma a b c x = rotr a x XOR rotr b x XOR drop_bit c x"

definition big_sigma :: "nat \<Rightarrow> nat \<Rightarrow> nat \<Rightarrow> w32 \<Rightarrow> w32" where
  "big_sigma a b c x = rotr a x XOR rotr b x XOR rotr c x"

text \<open>The message schedule, kept newest first: sixteen words of the block, then 48 derived ones.\<close>

fun schedule :: "nat \<Rightarrow> w32 list \<Rightarrow> w32 list" where
  "schedule 0 ws = rev ws"
| "schedule (Suc n) ws =
     schedule n ((sigma 17 19 10 (ws ! 1) + ws ! 6 + sigma 7 18 3 (ws ! 14) + ws ! 15) # ws)"

fun sha_round :: "w32 \<times> w32 \<Rightarrow> w32 list \<Rightarrow> w32 list" where
  "sha_round (k, w) [a, b, c, d, e, f, g, h] =
     (let t1 = h + big_sigma 6 11 25 e + ((e AND f) XOR (NOT e AND g)) + k + w;
          t2 = big_sigma 2 13 22 a + ((a AND b) XOR (a AND c) XOR (b AND c))
      in [t1 + t2, a, b, c, d + t1, e, f, g])"
| "sha_round kw st = st"

definition sha_block :: "w32 list \<Rightarrow> w32 list \<Rightarrow> w32 list" where
  "sha_block block st =
     map2 (+) st (fold sha_round (zip sha_constants (schedule 48 (rev block))) st)"

fun word_of_bytes :: "string \<Rightarrow> w32 list" where
  "word_of_bytes (a # b # c # d # s) =
     of_nat (((of_char a * 256 + of_char b) * 256 + of_char c) * 256 + of_char d) # word_of_bytes s"
| "word_of_bytes s = []"

definition bytes_of :: "nat \<Rightarrow> nat \<Rightarrow> string" where
  "bytes_of n v = map (\<lambda>i. char_of (v div 256 ^ (n - 1 - i) mod 256)) [0..<n]"

definition sha_pad :: "string \<Rightarrow> string" where
  "sha_pad s =
     s @ CHR 0x80 # replicate ((119 - length s mod 64) mod 64) (char_of (0 :: nat)) @ bytes_of 8 (8 * length s)"

fun sha_blocks :: "w32 list \<Rightarrow> nat \<Rightarrow> w32 list \<Rightarrow> w32 list" where
  "sha_blocks ws 0 st = st"
| "sha_blocks ws (Suc n) st = sha_blocks (drop 16 ws) n (sha_block (take 16 ws) st)"

definition Sum256 :: "string \<Rightarrow> string" where
  "Sum256 s =
     (let ws = word_of_bytes (sha_pad s)
      in concat (map (\<lambda>w. bytes_of 4 (unat w)) (sha_blocks ws (length ws div 16) sha_init)))"

text \<open>\<open>hex.EncodeToString\<close>.\<close>

definition HexEncode :: "string \<Rightarrow> string" where
  "HexEncode s =
     concat (map (\<lambda>c. [''0123456789abcdef'' ! (of_char c div 16), ''0123456789abcdef'' ! (of_char c mod 16)]) s)"

end
