(* ===== verification/Paths.thy ===== *)
theory Paths
  imports Prelude
begin

text \<open>
  Configuration and state paths, \<open>internal/paths/paths.go\<close>: the resolution with an explicit \<open>Lookup\<close>
  (environment and standard directories are its functions, \<open>None\<close> for one that is not set), the lexical
  \<open>path.Join\<close> of the standard library, and the quoting of shell arguments. The theorems: a resolved Unix
  path is absolute, and a shell reads a quoted argument back as the path it stands for.
\<close>

datatype path_error = NotConfigured | LookupFailed | DirEmpty

record lookup =
  lk_Getenv :: "(string \<Rightarrow> string) option"
  lk_UserConfigDir :: "string option option"
  lk_UserCacheDir :: "string option option"
  lk_UserHomeDir :: "string option option"
  lk_GOOS :: string

section \<open>Joining paths\<close>

text \<open>
  \<open>path.Clean\<close>: the elements between slashes, without empty ones and dots; two dots take back the element
  before them, and at the root of an absolute path have no effect.
\<close>

fun clean_elements :: "bool \<Rightarrow> string list \<Rightarrow> string list \<Rightarrow> string list" where
  "clean_elements rooted done_rev [] = rev done_rev"
| "clean_elements rooted done_rev (e # es) =
     (if e = [] \<or> e = ''.'' then clean_elements rooted done_rev es
      else if e = ''..'' then
        (case done_rev of
           [] \<Rightarrow> clean_elements rooted (if rooted then [] else [''..'']) es
         | d # ds \<Rightarrow>
             if d = ''..'' then clean_elements rooted (''..'' # d # ds) es else clean_elements rooted ds es)
      else clean_elements rooted (e # done_rev) es)"

definition path_Clean :: "string \<Rightarrow> string" where
  "path_Clean p =
     (let rooted = has_prefix p ''/'';
          cleaned = (if rooted then ''/'' else []) @ join_with ''/'' (clean_elements rooted [] (split_byte CHR ''/'' p))
      in if cleaned = [] then ''.'' else cleaned)"

definition path_Join :: "string list \<Rightarrow> string" where
  "path_Join elems =
     (let es = filter (\<lambda>e. e \<noteq> []) elems in if es = [] then [] else path_Clean (join_with ''/'' es))"

definition trim_right_slashes :: "string \<Rightarrow> string" where
  "trim_right_slashes s = rev (dropWhile (\<lambda>c. c = CHR 0x5C \<or> c = CHR ''/'') (rev s))"

definition joinPath :: "string \<Rightarrow> string list \<Rightarrow> string" where
  "joinPath goos elem =
     (if goos = ''windows''
      then join_with [CHR 0x5C] (filter (\<lambda>e. e \<noteq> []) (map trim_right_slashes elem))
      else path_Join elem)"

definition isAbsPath :: "string \<Rightarrow> string \<Rightarrow> bool" where
  "isAbsPath p goos =
     (let letter = (\<lambda>c. let n = (of_char c :: nat) in 97 \<le> n \<and> n \<le> 122 \<or> 65 \<le> n \<and> n \<le> 90);
          slash = (\<lambda>c. c = CHR 0x5C \<or> c = CHR ''/'')
      in if p = [] then False
         else if goos = ''windows'' then
           (case p of
              a # b # rest \<Rightarrow>
                (case rest of c # _ \<Rightarrow> letter a \<and> b = CHR '':'' \<and> slash c | [] \<Rightarrow> False) \<or> slash a \<and> slash b
            | _ \<Rightarrow> False)
         else has_prefix p ''/'')"

section \<open>Directories\<close>

definition AppName :: string where "AppName = ''gemsub''"
definition ConfigFileName :: string where "ConfigFileName = ''config.json''"
definition StateFileName :: string where "StateFileName = ''state.json''"

definition windows_dir :: "string option option \<Rightarrow> lookup \<Rightarrow> (path_error, string) outcome" where
  "windows_dir f lk =
     (case f of
        None \<Rightarrow> Inl NotConfigured
      | Some None \<Rightarrow> Inl LookupFailed
      | Some (Some dir) \<Rightarrow> if dir = [] then Inl DirEmpty else Inr (joinPath (lk_GOOS lk) [dir, AppName]))"

definition unix_dir :: "string \<Rightarrow> string list \<Rightarrow> lookup \<Rightarrow> (path_error, string) outcome" where
  "unix_dir xdg_name under_home lk =
     (let xdg = (case lk_Getenv lk of None \<Rightarrow> [] | Some getenv \<Rightarrow> getenv xdg_name)
      in if xdg \<noteq> [] \<and> isAbsPath xdg (lk_GOOS lk) then Inr (joinPath (lk_GOOS lk) [xdg, AppName])
         else (case lk_UserHomeDir lk of
                 None \<Rightarrow> Inl NotConfigured
               | Some None \<Rightarrow> Inl LookupFailed
               | Some (Some home) \<Rightarrow>
                   if home = [] \<or> \<not> isAbsPath home (lk_GOOS lk) then Inl DirEmpty
                   else Inr (joinPath (lk_GOOS lk) (home # under_home @ [AppName]))))"

definition ConfigDirWithLookup :: "lookup \<Rightarrow> (path_error, string) outcome" where
  "ConfigDirWithLookup lk =
     (if lk_GOOS lk = ''windows'' then windows_dir (lk_UserConfigDir lk) lk
      else unix_dir ''XDG_CONFIG_HOME'' [''.config''] lk)"

definition StateDirWithLookup :: "lookup \<Rightarrow> (path_error, string) outcome" where
  "StateDirWithLookup lk =
     (if lk_GOOS lk = ''windows'' then windows_dir (lk_UserCacheDir lk) lk
      else unix_dir ''XDG_STATE_HOME'' [''.local'', ''state''] lk)"

definition ConfigPathWithLookup :: "string \<Rightarrow> lookup \<Rightarrow> (path_error, string) outcome" where
  "ConfigPathWithLookup override lk =
     (if override \<noteq> [] then Inr override
      else bind_ok (ConfigDirWithLookup lk) (\<lambda>dir. Inr (joinPath (lk_GOOS lk) [dir, ConfigFileName])))"

definition StatePathWithLookup :: "string \<Rightarrow> lookup \<Rightarrow> (path_error, string) outcome" where
  "StatePathWithLookup override lk =
     (if override \<noteq> [] then Inr override
      else bind_ok (StateDirWithLookup lk) (\<lambda>dir. Inr (joinPath (lk_GOOS lk) [dir, StateFileName])))"

section \<open>Shell quoting\<close>

definition safe_path_char :: "char \<Rightarrow> bool" where
  "safe_path_char c =
     (let n = (of_char c :: nat)
      in 97 \<le> n \<and> n \<le> 122 \<or> 65 \<le> n \<and> n \<le> 90 \<or> 48 \<le> n \<and> n \<le> 57
         \<or> c = CHR ''/'' \<or> c = CHR 0x5C \<or> c \<in> set ''._-:@'')"

abbreviation single_quote :: char where "single_quote \<equiv> CHR 0x27"

definition replace_quote :: "string \<Rightarrow> string \<Rightarrow> string" where
  "replace_quote by s = concat (map (\<lambda>c. if c = single_quote then by else [c]) s)"

definition QuoteShellArgForGOOS :: "string \<Rightarrow> string \<Rightarrow> string" where
  "QuoteShellArgForGOOS s goos =
     (if s = [] then [single_quote, single_quote]
      else if list_all safe_path_char s then s
      else if goos = ''windows''
      then [single_quote] @ replace_quote [single_quote, single_quote] s @ [single_quote]
      else [single_quote] @ replace_quote [single_quote, CHR 0x5C, single_quote, single_quote] s @ [single_quote])"

text \<open>
  How the two shells read one word. POSIX: outside quotes a backslash takes the next byte literally, a
  byte that is special to the shell ends the literal reading (\<open>None\<close>), and quotes open a literal run.
  PowerShell: a literal in single quotes, in which two quotes stand for one; a bare word has no special
  bytes.
\<close>

fun posix_word :: "bool \<Rightarrow> string \<Rightarrow> string option" where
  "posix_word True [] = None"
| "posix_word False [] = Some []"
| "posix_word True (c # s) = (if c = single_quote then posix_word False s else map_option ((#) c) (posix_word True s))"
| "posix_word False (c # s) =
     (if c = single_quote then posix_word True s
      else if c = CHR 0x5C then (case s of [] \<Rightarrow> None | d # t \<Rightarrow> map_option ((#) d) (posix_word False t))
      else if safe_path_char c then map_option ((#) c) (posix_word False s)
      else None)"

fun powershell_quoted :: "string \<Rightarrow> string option" where
  "powershell_quoted [] = None"
| "powershell_quoted (c # s) =
     (if c = single_quote
      then (case s of
              [] \<Rightarrow> Some []
            | d # t \<Rightarrow> if d = single_quote then map_option ((#) single_quote) (powershell_quoted t) else None)
      else map_option ((#) c) (powershell_quoted s))"

definition powershell_word :: "string \<Rightarrow> string option" where
  "powershell_word s =
     (case s of
        [] \<Rightarrow> None
      | c # t \<Rightarrow> if c = single_quote then powershell_quoted t
                else if list_all safe_path_char s then Some s else None)"

lemma posix_quoted:
  "posix_word True (replace_quote [single_quote, CHR 0x5C, single_quote, single_quote] s @ single_quote # rest) =
     map_option ((@) s) (posix_word False rest)"
proof (induction s)
  case (Cons c s)
  then show ?case by (cases "posix_word False rest") (auto simp: replace_quote_def)
qed (cases "posix_word False rest"; simp add: replace_quote_def)

lemma powershell_quoted:
  "powershell_quoted (replace_quote [single_quote, single_quote] s @ [single_quote]) = Some s"
  by (induction s) (auto simp: replace_quote_def)

lemma posix_bare:
  "list_all safe_path_char s \<Longrightarrow> CHR 0x5C \<notin> set s \<Longrightarrow> posix_word False s = Some s"
proof (induction s)
  case (Cons c s)
  moreover have "\<not> safe_path_char single_quote" by code_simp
  ultimately show ?case by auto
qed simp

text \<open>A path quoted for a shell is read back by that shell: PowerShell reads every quoted path as the path
  itself, a POSIX shell every quoted path except an unquoted one with a backslash.
\<close>

theorem quoted_path_reads_back:
  "powershell_word (QuoteShellArgForGOOS s ''windows'') = Some s \<and>
   (goos \<noteq> ''windows'' \<and> (CHR 0x5C \<notin> set s \<or> \<not> list_all safe_path_char s) \<longrightarrow>
    posix_word False (QuoteShellArgForGOOS s goos) = Some s)"
proof -
  have "\<not> safe_path_char single_quote" by code_simp
  then have "powershell_word (QuoteShellArgForGOOS s ''windows'') = Some s"
    using powershell_quoted [of s]
    by (cases s) (auto simp: QuoteShellArgForGOOS_def powershell_word_def)
  then show ?thesis
    using posix_quoted [of s "[]"] posix_bare [of s] by (auto simp: QuoteShellArgForGOOS_def)
qed

theorem quoted_path_reads_back_witness:
  "posix_word False (QuoteShellArgForGOOS ([CHR ''a'', single_quote, CHR '' '']) ''linux'') = Some [CHR ''a'', single_quote, CHR '' '']"
proof -
  have "CHR 0x5C \<notin> set [CHR ''a'', single_quote, CHR '' '']" by simp
  then show ?thesis using quoted_path_reads_back [of "[CHR ''a'', single_quote, CHR '' '']" "''linux''"] by simp
qed

text \<open>
  The backslash counts as safe also for a POSIX shell, which takes it as an escape: the unquoted path loses it.
\<close>

lemma posix_backslash_lost:
  "posix_word False (QuoteShellArgForGOOS [CHR ''a'', CHR 0x5C, CHR ''b''] ''linux'') = Some ''ab''"
  by code_simp

section \<open>Resolved paths\<close>

lemma path_Join_absolute:
  assumes "has_prefix d ''/''"
  shows "has_prefix (path_Join (d # es)) ''/''"
proof -
  obtain r where d: "d = CHR ''/'' # r" using assms by (auto simp: has_prefix_iff)
  have "\<exists>t. join_with ''/'' (filter (\<lambda>e. e \<noteq> []) (d # es)) = CHR ''/'' # t"
    by (cases "filter (\<lambda>e. e \<noteq> []) es") (simp_all add: d)
  then show ?thesis by (auto simp: path_Join_def path_Clean_def d)
qed

lemma unix_dir_absolute:
  "lk_GOOS lk \<noteq> ''windows'' \<Longrightarrow> unix_dir x u lk = Inr dir \<Longrightarrow> has_prefix dir ''/''"
  by (auto simp: unix_dir_def Let_def joinPath_def isAbsPath_def path_Join_absolute split: option.splits if_splits)

text \<open>On Unix a state or configuration path that is not given explicitly is absolute, whatever the
  environment says: relative values of the environment are never used.
\<close>

theorem default_paths_absolute:
  assumes "lk_GOOS lk \<noteq> ''windows''"
    and "StatePathWithLookup [] lk = Inr p \<or> ConfigPathWithLookup [] lk = Inr p"
  shows "isAbsPath p (lk_GOOS lk)"
proof -
  have "has_prefix p ''/''"
    using assms unix_dir_absolute [OF assms(1)]
    by (auto simp: StatePathWithLookup_def ConfigPathWithLookup_def StateDirWithLookup_def ConfigDirWithLookup_def
        bind_ok_eq_Inr joinPath_def path_Join_absolute)
  moreover from this have "p \<noteq> []" by (cases p) auto
  ultimately show ?thesis using assms(1) by (simp add: isAbsPath_def Let_def)
qed

definition sample_lookup :: lookup where
  "sample_lookup =
     \<lparr> lk_Getenv = Some (\<lambda>_. ''relative/dir''), lk_UserConfigDir = None, lk_UserCacheDir = None,
       lk_UserHomeDir = Some (Some ''/home/u/''), lk_GOOS = ''linux'' \<rparr>"

theorem default_paths_absolute_witness:
  "StatePathWithLookup [] sample_lookup = Inr ''/home/u/.local/state/gemsub/state.json''
   \<and> isAbsPath ''/home/u/.local/state/gemsub/state.json'' (lk_GOOS sample_lookup)"
proof -
  have p: "StatePathWithLookup [] sample_lookup = Inr ''/home/u/.local/state/gemsub/state.json''" by code_simp
  moreover have "lk_GOOS sample_lookup \<noteq> ''windows''" by code_simp
  ultimately show ?thesis using default_paths_absolute [of sample_lookup] by blast
qed

end
