(* ===== verification/Config.thy ===== *)
theory Config
  imports ConfigTypes GoUrl GoNumbers JsonFields Sha256 Paths
begin

text \<open>
  Reading and validating the configuration, \<open>internal/config/config.go\<close> and \<open>source.go\<close>: the normal form
  of source URLs, identifiers and names of sources, the decoding and encoding of the JSON file, \<open>Validate\<close>
  and \<open>Load\<close>.

  Parameters: \<open>now\<close> is the clock, \<open>lk\<close> the environment of \<open>Paths\<close>, \<open>parse_time\<close> and \<open>print_time\<close> the RFC 3339
  codec of \<open>time.Time\<close>. The text of the file is read by \<open>parse_json\<close>; writing stops at the JSON value.
\<close>

section \<open>Source URLs\<close>

datatype url_error = EmptyURL | UnparsableURL | BadScheme | NoHost

definition strip_default_port :: "string \<Rightarrow> string \<Rightarrow> string" where
  "strip_default_port scheme host =
     (if scheme = ''http'' \<and> has_suffix host '':80'' then trim_suffix host '':80''
      else if scheme = ''https'' \<and> has_suffix host '':443'' then trim_suffix host '':443'' else host)"

definition NormalizeURL :: "string \<Rightarrow> (url_error, string) outcome" where
  "NormalizeURL raw =
     (let trimmed = trim_space raw
      in if trimmed = [] then Inl EmptyURL
         else (case ParseRequestURI trimmed of
                 None \<Rightarrow> Inl UnparsableURL
               | Some u \<Rightarrow>
                   let scheme = to_lower (u_Scheme u); host = to_lower (u_Host u)
                   in if scheme \<noteq> ''http'' \<and> scheme \<noteq> ''https'' then Inl BadScheme
                      else if host = [] then Inl NoHost
                      else Inr (string_of_url (u \<lparr> u_Scheme := scheme, u_Host := strip_default_port scheme host \<rparr>))))"

definition GenerateSourceID :: "string \<Rightarrow> string" where
  "GenerateSourceID normURL = ''src_'' @ HexEncode (take 6 (Sum256 normURL))"

definition DefaultSourceName :: "string \<Rightarrow> string" where
  "DefaultSourceName normURL =
     (case Parse_url normURL of None \<Rightarrow> normURL | Some u \<Rightarrow> if u_Host u = [] then normURL else u_Host u)"

text \<open>A URL that cannot be normalised is kept as it is, up to spaces around it.\<close>

definition normal_or_trimmed :: "string \<Rightarrow> string" where
  "normal_or_trimmed raw = (case NormalizeURL raw of Inr u \<Rightarrow> u | Inl _ \<Rightarrow> trim_space raw)"

definition NewSource :: "time \<Rightarrow> string \<Rightarrow> string option \<Rightarrow> source_item" where
  "NewSource now rawURL name =
     (let normURL = normal_or_trimmed rawURL
      in \<lparr> src_ID = GenerateSourceID normURL, src_URL = normURL,
           src_Name = (case name of Some (c # s) \<Rightarrow> c # s | _ \<Rightarrow> DefaultSourceName normURL),
           src_Enabled = True, src_AddedAt = now \<rparr>)"

definition NewSources :: "time \<Rightarrow> string list \<Rightarrow> source_item list" where
  "NewSources now urls = map (\<lambda>u. NewSource now u None) urls"

section \<open>The JSON file\<close>

text \<open>\<open>UnmarshalJSON\<close> of a source: an object, or a legacy string. (Null reads as an empty legacy string.)\<close>

record plain_source =
  ps_ID :: string
  ps_URL :: string
  ps_Name :: string
  ps_Enabled :: "bool option"
  ps_AddedAt :: "time option"

definition plain_source_fields :: "(string \<Rightarrow> time option) \<Rightarrow> plain_source field list" where
  "plain_source_fields parse_time =
     [string_field ''id'' ps_ID_update, string_field ''url'' ps_URL_update, string_field ''name'' ps_Name_update,
      opt_bool_field ''enabled'' ps_Enabled_update,
      (''added_at'', \<lambda>v r. case v of JString s \<Rightarrow> map_option (\<lambda>t. r \<lparr> ps_AddedAt := Some t \<rparr>) (parse_time s)
                             | JNull \<Rightarrow> Some (r \<lparr> ps_AddedAt := None \<rparr>) | _ \<Rightarrow> None)]"

definition UnmarshalSource :: "(string \<Rightarrow> time option) \<Rightarrow> time \<Rightarrow> json \<Rightarrow> source_item option" where
  "UnmarshalSource parse_time now v =
     (case decode_string v of
        Some str \<Rightarrow>
          let url = normal_or_trimmed str
          in Some \<lparr> src_ID = GenerateSourceID url, src_URL = url, src_Name = DefaultSourceName url,
                    src_Enabled = True, src_AddedAt = now \<rparr>
      | None \<Rightarrow>
          map_option
            (\<lambda>p. let url = normal_or_trimmed (ps_URL p)
                 in \<lparr> src_ID = (if ps_ID p = [] then GenerateSourceID url else ps_ID p), src_URL = url,
                      src_Name = (if ps_Name p = [] then DefaultSourceName url else ps_Name p),
                      src_Enabled = (case ps_Enabled p of Some b \<Rightarrow> b | None \<Rightarrow> True),
                      src_AddedAt = (case ps_AddedAt p of Some t \<Rightarrow> t | None \<Rightarrow> now) \<rparr>)
            (decode_struct (plain_source_fields parse_time) v
               \<lparr> ps_ID = [], ps_URL = [], ps_Name = [], ps_Enabled = None, ps_AddedAt = None \<rparr>))"

definition gemini_fields :: "gemini_config field list" where
  "gemini_fields =
     [string_field ''url'' gem_URL_update, list_field ''block_phrases'' decode_string gem_BlockPhrases_update]"

definition claude_fields :: "claude_config field list" where
  "claude_fields =
     [opt_bool_field ''enabled'' cla_EnabledRaw_update, string_field ''url'' cla_URL_update,
      string_field ''timeout'' cla_TimeoutRaw_update, string_field ''dial_timeout'' cla_DialTimeoutRaw_update]"

definition test_fields :: "test_config field list" where
  "test_fields =
     [string_field ''health_url'' tc_HealthURL_update, string_field ''health_timeout'' tc_HealthTimeoutRaw_update,
      struct_field ''gemini'' gemini_fields tc_Gemini tc_Gemini_update,
      struct_field ''claude'' claude_fields tc_Claude tc_Claude_update,
      string_field ''target_url'' tc_TargetURL_update,
      list_field ''block_phrases'' decode_string tc_BlockPhrases_update,
      string_field ''timeout'' tc_TimeoutRaw_update, string_field ''dial_timeout'' tc_DialTimeoutRaw_update,
      int_field ''concurrency'' tc_Concurrency_update, int_field ''rate_limit_rps'' tc_RateLimitRPS_update,
      opt_int_field ''max_retries'' tc_MaxRetriesRaw_update, string_field ''retry_backoff'' tc_RetryBackoffRaw_update,
      int_field ''max_inconclusive_cycles'' tc_MaxInconclusiveCycles_update,
      opt_int_field ''jitter_samples'' tc_JitterSamplesRaw_update]"

definition serve_fields :: "serve_config field list" where
  "serve_fields =
     [string_field ''listen'' srv_Listen_update, string_field ''path'' srv_Path_update,
      string_field ''format'' srv_Format_update]"

definition publishing_fields :: "publishing_config field list" where
  "publishing_fields =
     [bool_field ''enabled'' pub_Enabled_update, string_field ''repository'' pub_Repository_update,
      string_field ''branch'' pub_Branch_update, string_field ''remote_url'' pub_RemoteURL_update]"

definition config_fields :: "(string \<Rightarrow> time option) \<Rightarrow> time \<Rightarrow> config field list" where
  "config_fields parse_time now =
     [list_field ''sources'' (UnmarshalSource parse_time now) cf_Sources_update,
      string_field ''fetch_interval'' cf_FetchIntervalRaw_update,
      struct_field ''test'' test_fields cf_Test cf_Test_update,
      struct_field ''serve'' serve_fields cf_Serve cf_Serve_update,
      struct_field ''publishing'' publishing_fields cf_Publishing cf_Publishing_update,
      string_field ''state_file'' cf_StateFile_update, bool_field ''headless'' cf_Headless_update,
      int_field ''probe_limit'' cf_ProbeLimit_update, string_field ''flag_mode'' cf_FlagMode_update]"

definition zero_config :: config where
  "zero_config =
     \<lparr> cf_Sources = [], cf_FetchIntervalRaw = [],
       cf_Test =
         \<lparr> tc_HealthURL = [], tc_HealthTimeoutRaw = [], tc_Gemini = \<lparr> gem_URL = [], gem_BlockPhrases = [] \<rparr>,
           tc_Claude = \<lparr> cla_EnabledRaw = None, cla_URL = [], cla_TimeoutRaw = [], cla_DialTimeoutRaw = [],
                         cla_Enabled = False, cla_Timeout = 0, cla_DialTimeout = 0 \<rparr>,
           tc_TargetURL = [], tc_BlockPhrases = [], tc_TimeoutRaw = [], tc_DialTimeoutRaw = [], tc_Concurrency = 0,
           tc_RateLimitRPS = 0, tc_MaxRetriesRaw = None, tc_RetryBackoffRaw = [], tc_MaxInconclusiveCycles = 0,
           tc_JitterSamplesRaw = None, tc_HealthTimeout = 0, tc_Timeout = 0, tc_DialTimeout = 0,
           tc_RetryBackoff = 0, tc_MaxRetries = 0, tc_JitterSamples = 0 \<rparr>,
       cf_Serve = \<lparr> srv_Listen = [], srv_Path = [], srv_Format = [] \<rparr>,
       cf_Publishing = \<lparr> pub_Enabled = False, pub_Repository = [], pub_Branch = [], pub_RemoteURL = [] \<rparr>,
       cf_StateFile = [], cf_Headless = False, cf_ProbeLimit = 0, cf_FlagMode = [], cf_FetchInterval = 0 \<rparr>"

text \<open>The JSON value that \<open>json.MarshalIndent\<close> writes, with the fields that \<open>omitempty\<close> leaves out.\<close>

definition str_member :: "string \<Rightarrow> string \<Rightarrow> (string \<times> json) list" where
  "str_member name s = (if s = [] then [] else [(name, JString s)])"

definition num :: "int \<Rightarrow> json" where
  "num n = JNumber (print_int n)"

definition int_member :: "string \<Rightarrow> int \<Rightarrow> (string \<times> json) list" where
  "int_member name n = (if n = 0 then [] else [(name, num n)])"

definition opt_member :: "string \<Rightarrow> ('b \<Rightarrow> json) \<Rightarrow> 'b option \<Rightarrow> (string \<times> json) list" where
  "opt_member name enc x = (case x of None \<Rightarrow> [] | Some y \<Rightarrow> [(name, enc y)])"

definition list_member :: "string \<Rightarrow> string list \<Rightarrow> (string \<times> json) list" where
  "list_member name xs = (if xs = [] then [] else [(name, JArray (map JString xs))])"

definition source_json :: "(time \<Rightarrow> string) \<Rightarrow> source_item \<Rightarrow> json" where
  "source_json print_time s =
     JObject ([(''id'', JString (src_ID s)), (''url'', JString (src_URL s))] @ str_member ''name'' (src_Name s)
              @ [(''enabled'', JBool (src_Enabled s)), (''added_at'', JString (print_time (src_AddedAt s)))])"

definition test_json :: "test_config \<Rightarrow> json" where
  "test_json t =
     JObject
       (str_member ''health_url'' (tc_HealthURL t) @ str_member ''health_timeout'' (tc_HealthTimeoutRaw t)
        @ [(''gemini'', JObject (str_member ''url'' (gem_URL (tc_Gemini t))
                                  @ list_member ''block_phrases'' (gem_BlockPhrases (tc_Gemini t)))),
           (''claude'', JObject (opt_member ''enabled'' JBool (cla_EnabledRaw (tc_Claude t))
                                  @ str_member ''url'' (cla_URL (tc_Claude t))
                                  @ str_member ''timeout'' (cla_TimeoutRaw (tc_Claude t))
                                  @ str_member ''dial_timeout'' (cla_DialTimeoutRaw (tc_Claude t))))]
        @ str_member ''target_url'' (tc_TargetURL t) @ list_member ''block_phrases'' (tc_BlockPhrases t)
        @ [(''timeout'', JString (tc_TimeoutRaw t))] @ str_member ''dial_timeout'' (tc_DialTimeoutRaw t)
        @ [(''concurrency'', num (tc_Concurrency t))] @ int_member ''rate_limit_rps'' (tc_RateLimitRPS t)
        @ opt_member ''max_retries'' num (tc_MaxRetriesRaw t) @ str_member ''retry_backoff'' (tc_RetryBackoffRaw t)
        @ int_member ''max_inconclusive_cycles'' (tc_MaxInconclusiveCycles t)
        @ opt_member ''jitter_samples'' num (tc_JitterSamplesRaw t))"

definition config_json :: "(time \<Rightarrow> string) \<Rightarrow> config \<Rightarrow> json" where
  "config_json print_time c =
     JObject
       ([(''sources'', JArray (map (source_json print_time) (cf_Sources c))),
         (''fetch_interval'', JString (cf_FetchIntervalRaw c)), (''test'', test_json (cf_Test c)),
         (''serve'', JObject [(''listen'', JString (srv_Listen (cf_Serve c))), (''path'', JString (srv_Path (cf_Serve c))),
                              (''format'', JString (srv_Format (cf_Serve c)))]),
         (''publishing'', JObject ([(''enabled'', JBool (pub_Enabled (cf_Publishing c))),
                                    (''repository'', JString (pub_Repository (cf_Publishing c)))]
                                   @ str_member ''branch'' (pub_Branch (cf_Publishing c))
                                   @ str_member ''remote_url'' (pub_RemoteURL (cf_Publishing c)))),
         (''state_file'', JString (cf_StateFile c)), (''headless'', JBool (cf_Headless c))]
        @ int_member ''probe_limit'' (cf_ProbeLimit c) @ str_member ''flag_mode'' (cf_FlagMode c))"

section \<open>Validation\<close>

datatype config_error =
    SourcesEmpty | BadSource nat url_error | DuplicateSourceID nat | DuplicateSourceURL nat
  | BadDuration string | NotPositive string | IntervalTooShort | NoBlockPhrases | NegativeCount string
  | BadFormat | BadStatePath path_error | NoRepository | NoRemoteURL | BadFlagMode

fun validate_sources ::
  "time \<Rightarrow> nat \<Rightarrow> string list \<Rightarrow> string list \<Rightarrow> source_item list \<Rightarrow> (config_error, source_item list) outcome" where
  "validate_sources now i seenIDs seenURLs [] = Inr []"
| "validate_sources now i seenIDs seenURLs (s # ss) =
     (case NormalizeURL (src_URL s) of
        Inl e \<Rightarrow> Inl (BadSource i e)
      | Inr url \<Rightarrow>
          let sid = (if src_ID s = [] then GenerateSourceID url else src_ID s)
          in if sid \<in> set seenIDs then Inl (DuplicateSourceID i)
             else if url \<in> set seenURLs then Inl (DuplicateSourceURL i)
             else let s' = s \<lparr> src_URL := url, src_ID := sid,
                               src_Name := (if src_Name s = [] then DefaultSourceName url else src_Name s),
                               src_AddedAt := (if is_zero_time (src_AddedAt s) then now else src_AddedAt s) \<rparr>
                  in bind_ok (validate_sources now (Suc i) (sid # seenIDs) (url # seenURLs) ss) (\<lambda>r. Inr (s' # r)))"

text \<open>A duration that must parse and be positive, and one with a default for the empty text.\<close>

definition positive_duration :: "string \<Rightarrow> string \<Rightarrow> (config_error, duration) outcome" where
  "positive_duration field raw =
     (case ParseDuration raw of
        None \<Rightarrow> Inl (BadDuration field)
      | Some d \<Rightarrow> if d \<le> 0 then Inl (NotPositive field) else Inr d)"

definition duration_or :: "string \<Rightarrow> duration \<Rightarrow> string \<Rightarrow> (config_error, duration) outcome" where
  "duration_or field default_d raw = (if raw = [] then Inr default_d else positive_duration field raw)"

definition count_or :: "string \<Rightarrow> int \<Rightarrow> int option \<Rightarrow> (config_error, int) outcome" where
  "count_or field default_n raw =
     (case raw of None \<Rightarrow> Inr default_n | Some n \<Rightarrow> if n < 0 then Inl (NegativeCount field) else Inr n)"

definition validate_gemini :: "test_config \<Rightarrow> (config_error, test_config) outcome" where
  "validate_gemini t =
     (let g = tc_Gemini t;
          url = (if gem_URL g = [] then if tc_TargetURL t \<noteq> [] then tc_TargetURL t else ''https://gemini.google.com/''
                 else gem_URL g);
          phrases = (if gem_BlockPhrases g = [] \<and> tc_BlockPhrases t \<noteq> [] then tc_BlockPhrases t else gem_BlockPhrases g)
      in if phrases = [] then Inl NoBlockPhrases
         else Inr (t \<lparr> tc_Gemini := \<lparr> gem_URL = url, gem_BlockPhrases = phrases \<rparr>, tc_TargetURL := url,
                       tc_BlockPhrases := phrases \<rparr>))"

definition validate_claude :: "claude_config \<Rightarrow> (config_error, claude_config) outcome" where
  "validate_claude cla =
     bind_ok (duration_or ''test.claude.timeout'' (seconds 10) (cla_TimeoutRaw cla)) (\<lambda>timeout.
     bind_ok (duration_or ''test.claude.dial_timeout'' (seconds 5) (cla_DialTimeoutRaw cla)) (\<lambda>dialTimeout.
       Inr (cla \<lparr> cla_Enabled := (case cla_EnabledRaw cla of None \<Rightarrow> True | Some b \<Rightarrow> b),
                  cla_URL := (if cla_URL cla = [] then ''https://claude.ai/'' else cla_URL cla),
                  cla_Timeout := timeout, cla_DialTimeout := dialTimeout \<rparr>)))"

definition validate_test :: "test_config \<Rightarrow> (config_error, test_config) outcome" where
  "validate_test t0 =
     bind_ok (validate_gemini t0) (\<lambda>t.
     bind_ok (positive_duration ''test.timeout'' (tc_TimeoutRaw t)) (\<lambda>timeout.
     bind_ok (duration_or ''test.dial_timeout'' (seconds 4) (tc_DialTimeoutRaw t)) (\<lambda>dialTimeout.
     bind_ok (duration_or ''test.health_timeout''
                (if tc_DialTimeoutRaw t \<noteq> [] then dialTimeout else seconds 4) (tc_HealthTimeoutRaw t)) (\<lambda>healthTimeout.
     bind_ok (duration_or ''test.retry_backoff'' (seconds 1) (tc_RetryBackoffRaw t)) (\<lambda>retryBackoff.
     bind_ok (validate_claude (tc_Claude t)) (\<lambda>claude.
     bind_ok (count_or ''test.max_retries'' 2 (tc_MaxRetriesRaw t)) (\<lambda>maxRetries.
     bind_ok (count_or ''test.jitter_samples'' 3 (tc_JitterSamplesRaw t)) (\<lambda>jitterSamples.
       Inr (t \<lparr> tc_HealthURL := (if tc_HealthURL t = [] then ''https://www.gstatic.com/generate_204'' else tc_HealthURL t),
                tc_Timeout := timeout, tc_DialTimeout := dialTimeout, tc_HealthTimeout := healthTimeout,
                tc_RetryBackoff := retryBackoff, tc_Claude := claude, tc_MaxRetries := maxRetries,
                tc_JitterSamples := jitterSamples,
                tc_MaxInconclusiveCycles := (if tc_MaxInconclusiveCycles t \<le> 0 then 2 else tc_MaxInconclusiveCycles t),
                tc_RateLimitRPS := (if tc_RateLimitRPS t < 0 then 0 else tc_RateLimitRPS t),
                tc_Concurrency := (if tc_Concurrency t \<le> 0 then 20 else tc_Concurrency t) \<rparr>)))))))))"

definition validate_serve :: "serve_config \<Rightarrow> (config_error, serve_config) outcome" where
  "validate_serve s =
     (let format = (if srv_Format s = [] then ''base64'' else srv_Format s)
      in if format \<noteq> ''raw'' \<and> format \<noteq> ''base64'' then Inl BadFormat
         else Inr (s \<lparr> srv_Listen := (if srv_Listen s = [] then ''127.0.0.1:8765'' else srv_Listen s),
                       srv_Path := (if srv_Path s = [] then ''/sub'' else srv_Path s), srv_Format := format \<rparr>))"

definition validate_publishing :: "publishing_config \<Rightarrow> (config_error, publishing_config) outcome" where
  "validate_publishing p =
     (if pub_Enabled p \<and> pub_Repository p = [] then Inl NoRepository
      else if pub_Enabled p \<and> pub_RemoteURL p = [] then Inl NoRemoteURL
      else Inr (p \<lparr> pub_Branch := (if pub_Branch p = [] then ''main'' else pub_Branch p) \<rparr>))"

text \<open>
  \<open>Validate\<close>. A failure leaves the Go struct half normalised, which no caller reads; here it is only the
  error.
\<close>

definition Validate :: "lookup \<Rightarrow> time \<Rightarrow> config \<Rightarrow> (config_error, config) outcome" where
  "Validate lk now c =
     (if cf_Sources c = [] then Inl SourcesEmpty
      else bind_ok (validate_sources now 0 [] [] (cf_Sources c)) (\<lambda>sources.
      (case ParseDuration (cf_FetchIntervalRaw c) of
         None \<Rightarrow> Inl (BadDuration ''fetch_interval'')
       | Some fetchInterval \<Rightarrow>
           if fetchInterval < minutes 1 then Inl IntervalTooShort
           else bind_ok (validate_test (cf_Test c)) (\<lambda>test.
                bind_ok (validate_serve (cf_Serve c)) (\<lambda>serve.
                (case StatePathWithLookup (cf_StateFile c) lk of
                   Inl e \<Rightarrow> Inl (BadStatePath e)
                 | Inr state \<Rightarrow>
                     bind_ok (validate_publishing (cf_Publishing c)) (\<lambda>publishing.
                       if cf_FlagMode c \<notin> {[], ''auto'', ''unicode'', ''ascii''} then Inl BadFlagMode
                       else Inr (c \<lparr> cf_Sources := sources, cf_FetchInterval := fetchInterval, cf_Test := test,
                                     cf_Serve := serve, cf_StateFile := state, cf_Publishing := publishing \<rparr>))))))))"

datatype load_error = ReadFailed | ParseFailed | Invalid config_error

text \<open>\<open>Load\<close>, of the content of the file (\<open>None\<close> when it cannot be read).\<close>

definition load_value ::
  "(string \<Rightarrow> time option) \<Rightarrow> lookup \<Rightarrow> time \<Rightarrow> json \<Rightarrow> (load_error, config) outcome" where
  "load_value parse_time lk now v =
     (case decode_struct (config_fields parse_time now) v zero_config of
        None \<Rightarrow> Inl ParseFailed
      | Some c \<Rightarrow> (case Validate lk now c of Inl e \<Rightarrow> Inl (Invalid e) | Inr c' \<Rightarrow> Inr c'))"

definition Load ::
  "(string \<Rightarrow> time option) \<Rightarrow> lookup \<Rightarrow> time \<Rightarrow> string option \<Rightarrow> (load_error, config) outcome" where
  "Load parse_time lk now file =
     (case file of
        None \<Rightarrow> Inl ReadFailed
      | Some bytes \<Rightarrow>
          (case parse_json bytes of None \<Rightarrow> Inl ParseFailed | Some v \<Rightarrow> load_value parse_time lk now v))"

end
