(* ===== verification/ConfigCorrect.thy ===== *)
theory ConfigCorrect
  imports Config
begin

text \<open>
  What validation promises: the configuration it returns is valid, validating it again changes nothing
  when its URLs are in normal form, and a valid configuration written to the file is read back.
\<close>

section \<open>Valid configurations\<close>

definition sources_valid :: "source_item list \<Rightarrow> bool" where
  "sources_valid ss =
     (ss \<noteq> [] \<and> distinct (map src_ID ss) \<and> distinct (map src_URL ss) \<and>
      (\<forall>s \<in> set ss. src_ID s \<noteq> [] \<and> src_URL s \<noteq> [] \<and> src_Name s \<noteq> []))"

definition test_valid :: "test_config \<Rightarrow> bool" where
  "test_valid t =
     (gem_BlockPhrases (tc_Gemini t) \<noteq> [] \<and> tc_BlockPhrases t = gem_BlockPhrases (tc_Gemini t) \<and>
      gem_URL (tc_Gemini t) \<noteq> [] \<and> tc_TargetURL t = gem_URL (tc_Gemini t) \<and> tc_HealthURL t \<noteq> [] \<and>
      0 < tc_Timeout t \<and> 0 < tc_DialTimeout t \<and> 0 < tc_HealthTimeout t \<and> 0 < tc_RetryBackoff t \<and>
      cla_URL (tc_Claude t) \<noteq> [] \<and> 0 < cla_Timeout (tc_Claude t) \<and> 0 < cla_DialTimeout (tc_Claude t) \<and>
      0 \<le> tc_MaxRetries t \<and> 0 \<le> tc_JitterSamples t \<and> 0 < tc_MaxInconclusiveCycles t \<and>
      0 \<le> tc_RateLimitRPS t \<and> 0 < tc_Concurrency t)"

definition config_valid :: "config \<Rightarrow> bool" where
  "config_valid c =
     (sources_valid (cf_Sources c) \<and> minutes 1 \<le> cf_FetchInterval c \<and>
      ParseDuration (cf_FetchIntervalRaw c) = Some (cf_FetchInterval c) \<and> test_valid (cf_Test c) \<and>
      srv_Listen (cf_Serve c) \<noteq> [] \<and> srv_Path (cf_Serve c) \<noteq> [] \<and>
      srv_Format (cf_Serve c) \<in> {''raw'', ''base64''} \<and> cf_StateFile c \<noteq> [] \<and>
      pub_Branch (cf_Publishing c) \<noteq> [] \<and>
      (pub_Enabled (cf_Publishing c) \<longrightarrow> pub_Repository (cf_Publishing c) \<noteq> [] \<and> pub_RemoteURL (cf_Publishing c) \<noteq> []) \<and>
      cf_FlagMode c \<in> {[], ''auto'', ''unicode'', ''ascii''})"

lemma GenerateSourceID_ne [simp]: "GenerateSourceID url \<noteq> []"
  by (simp add: GenerateSourceID_def)

lemma DefaultSourceName_ne: "url \<noteq> [] \<Longrightarrow> DefaultSourceName url \<noteq> []"
  by (simp add: DefaultSourceName_def split: option.split)

lemma NormalizeURL_ne: "NormalizeURL raw = Inr url \<Longrightarrow> url \<noteq> []"
  by (auto simp: NormalizeURL_def Let_def string_of_url_def split: if_splits option.splits)

lemma validate_sources_valid:
  "validate_sources now i ids urls ss = Inr ss' \<Longrightarrow>
     distinct (map src_ID ss') \<and> distinct (map src_URL ss') \<and>
     set (map src_ID ss') \<inter> set ids = {} \<and> set (map src_URL ss') \<inter> set urls = {} \<and> length ss' = length ss \<and>
     (\<forall>s \<in> set ss'. src_ID s \<noteq> [] \<and> src_URL s \<noteq> [] \<and> src_Name s \<noteq> [] \<and> (now \<noteq> 0 \<longrightarrow> src_AddedAt s \<noteq> 0))"
proof (induction now i ids urls ss arbitrary: ss' rule: validate_sources.induct)
  case (2 now i ids urls s ss)
  obtain url where url: "NormalizeURL (src_URL s) = Inr url" using 2(2) by (auto split: sum.splits)
  define sid where "sid = (if src_ID s = [] then GenerateSourceID url else src_ID s)"
  define s' where "s' = s \<lparr> src_URL := url, src_ID := sid,
    src_Name := (if src_Name s = [] then DefaultSourceName url else src_Name s),
    src_AddedAt := (if is_zero_time (src_AddedAt s) then now else src_AddedAt s) \<rparr>"
  have new: "sid \<notin> set ids" "url \<notin> set urls"
    and "bind_ok (validate_sources now (Suc i) (sid # ids) (url # urls) ss) (\<lambda>r. Inr (s' # r)) = Inr ss'"
    using 2(2) url unfolding validate_sources.simps Let_def s'_def sid_def by (auto split: if_split_asm)
  then obtain r where r: "validate_sources now (Suc i) (sid # ids) (url # urls) ss = Inr r" "ss' = s' # r"
    by (auto simp: bind_ok_eq_Inr)
  have "sid \<noteq> []" "url \<noteq> []" using NormalizeURL_ne [OF url] by (auto simp: sid_def)
  moreover have "src_Name s' \<noteq> []" "now \<noteq> 0 \<longrightarrow> src_AddedAt s' \<noteq> 0" "src_ID s' = sid" "src_URL s' = url"
    using DefaultSourceName_ne [OF \<open>url \<noteq> []\<close>] by (auto simp: s'_def is_zero_time_def)
  ultimately show ?case
    using 2(1) [OF url sid_def new s'_def r(1)] new r(2) by auto
qed simp

lemma positive_duration_pos: "positive_duration f raw = Inr d \<Longrightarrow> 0 < d"
  by (auto simp: positive_duration_def split: option.splits if_splits)

lemma duration_or_pos: "duration_or f e raw = Inr d \<Longrightarrow> 0 < e \<Longrightarrow> 0 < d"
  by (auto simp: duration_or_def dest: positive_duration_pos split: if_splits)

lemma count_or_nonneg: "count_or f e raw = Inr n \<Longrightarrow> 0 \<le> e \<Longrightarrow> 0 \<le> n"
  by (auto simp: count_or_def split: option.splits if_splits)

lemma validate_claude_valid:
  "validate_claude cla = Inr cla' \<Longrightarrow> cla_URL cla' \<noteq> [] \<and> 0 < cla_Timeout cla' \<and> 0 < cla_DialTimeout cla'"
  by (auto simp: validate_claude_def bind_ok_eq_Inr dest: duration_or_pos split: if_splits)

lemma validate_gemini_valid:
  "validate_gemini t = Inr t' \<Longrightarrow>
     gem_BlockPhrases (tc_Gemini t') \<noteq> [] \<and> tc_BlockPhrases t' = gem_BlockPhrases (tc_Gemini t') \<and>
     gem_URL (tc_Gemini t') \<noteq> [] \<and> tc_TargetURL t' = gem_URL (tc_Gemini t')"
  by (auto simp: validate_gemini_def Let_def split: if_split_asm)

lemma validate_test_parts:
  assumes "validate_test t = Inr t'"
  obtains g timeout dialT healthT backoff cla retries jitter where
    "validate_gemini t = Inr g" "positive_duration ''test.timeout'' (tc_TimeoutRaw g) = Inr timeout"
    "duration_or ''test.dial_timeout'' (seconds 4) (tc_DialTimeoutRaw g) = Inr dialT"
    "duration_or ''test.health_timeout'' (if tc_DialTimeoutRaw g \<noteq> [] then dialT else seconds 4) (tc_HealthTimeoutRaw g)
     = Inr healthT"
    "duration_or ''test.retry_backoff'' (seconds 1) (tc_RetryBackoffRaw g) = Inr backoff"
    "validate_claude (tc_Claude g) = Inr cla" "count_or ''test.max_retries'' 2 (tc_MaxRetriesRaw g) = Inr retries"
    "count_or ''test.jitter_samples'' 3 (tc_JitterSamplesRaw g) = Inr jitter"
    "t' = g \<lparr> tc_HealthURL := (if tc_HealthURL g = [] then ''https://www.gstatic.com/generate_204'' else tc_HealthURL g),
                tc_Timeout := timeout, tc_DialTimeout := dialT, tc_HealthTimeout := healthT,
                tc_RetryBackoff := backoff, tc_Claude := cla, tc_MaxRetries := retries, tc_JitterSamples := jitter,
                tc_MaxInconclusiveCycles := (if tc_MaxInconclusiveCycles g \<le> 0 then 2 else tc_MaxInconclusiveCycles g),
                tc_RateLimitRPS := (if tc_RateLimitRPS g < 0 then 0 else tc_RateLimitRPS g),
                tc_Concurrency := (if tc_Concurrency g \<le> 0 then 20 else tc_Concurrency g) \<rparr>"
  using assms unfolding validate_test_def by (auto simp: bind_ok_eq_Inr)

lemma validate_test_valid:
  assumes "validate_test t = Inr t'"
  shows "test_valid t'"
  using assms
proof (cases rule: validate_test_parts)
  case (1 g timeout dialT healthT backoff cla retries jitter)
  have "0 < timeout" by (rule positive_duration_pos [OF 1(2)])
  moreover have "0 < dialT" by (rule duration_or_pos [OF 1(3)]) simp
  moreover from this have "0 < healthT" by (intro duration_or_pos [OF 1(4)]) simp
  moreover have "0 < backoff" by (rule duration_or_pos [OF 1(5)]) simp
  moreover have "0 \<le> retries" by (rule count_or_nonneg [OF 1(7)]) simp
  moreover have "0 \<le> jitter" by (rule count_or_nonneg [OF 1(8)]) simp
  ultimately show ?thesis
    using validate_gemini_valid [OF 1(1)] validate_claude_valid [OF 1(6)] by (simp add: 1(9) test_valid_def)
qed

lemma joinPath_state_ne: "joinPath goos [dir, StateFileName] \<noteq> []"
proof -
  have "trim_right_slashes ''state.json'' = ''state.json''" by code_simp
  moreover have "join_with sep ws \<noteq> []" if "ws \<noteq> []" "\<forall>w \<in> set ws. w \<noteq> []" for sep ws
    using that by (cases "(sep, ws)" rule: join_with.cases) auto
  ultimately show ?thesis
    by (auto simp: joinPath_def path_Join_def path_Clean_def StateFileName_def Let_def)
qed

lemma StatePath_ne: "StatePathWithLookup p lk = Inr r \<Longrightarrow> r \<noteq> []"
  by (auto simp: StatePathWithLookup_def bind_ok_eq_Inr joinPath_state_ne split: if_splits)

text \<open>The parts of a successful validation.\<close>

lemma Validate_parts:
  assumes "Validate lk now c = Inr c'"
  obtains sources test serve publishing interval state where
    "cf_Sources c \<noteq> []" "validate_sources now 0 [] [] (cf_Sources c) = Inr sources"
    "ParseDuration (cf_FetchIntervalRaw c) = Some interval" "minutes 1 \<le> interval"
    "validate_test (cf_Test c) = Inr test" "validate_serve (cf_Serve c) = Inr serve"
    "StatePathWithLookup (cf_StateFile c) lk = Inr state"
    "validate_publishing (cf_Publishing c) = Inr publishing" "cf_FlagMode c \<in> {[], ''auto'', ''unicode'', ''ascii''}"
    "c' = c \<lparr> cf_Sources := sources, cf_FetchInterval := interval, cf_Test := test, cf_Serve := serve,
             cf_StateFile := state, cf_Publishing := publishing \<rparr>"
  using assms unfolding Validate_def
  by (auto simp: ok_eq_simps)

text \<open>
  A configuration that passes validation is complete: sources with non-empty, distinct identifiers and
  distinct URLs, a fetch interval of at least a minute, positive timeouts, counts that are not negative,
  a known output format, a state file, and a repository and remote whenever publishing is enabled.
\<close>

lemma validate_establishes:
  assumes "Validate lk now c = Inr c'"
  shows "config_valid c'"
  using assms
proof (cases rule: Validate_parts)
  case (1 sources test serve publishing interval state)
  have "sources_valid sources"
    using validate_sources_valid [OF 1(2)] 1(1) by (auto simp: sources_valid_def)
  moreover have "srv_Listen serve \<noteq> []" "srv_Path serve \<noteq> []" "srv_Format serve \<in> {''raw'', ''base64''}"
    using 1(6) by (auto simp: validate_serve_def Let_def split: if_split_asm)
  moreover have "pub_Branch publishing \<noteq> []"
    "pub_Enabled publishing \<longrightarrow> pub_Repository publishing \<noteq> [] \<and> pub_RemoteURL publishing \<noteq> []"
    using 1(8) by (auto simp: validate_publishing_def split: if_split_asm)
  ultimately show ?thesis
    using 1(3,4,9,10) validate_test_valid [OF 1(5)] StatePath_ne [OF 1(7)] by (simp add: config_valid_def)
qed

section \<open>Validating twice\<close>

definition urls_normal :: "config \<Rightarrow> bool" where
  "urls_normal c = (\<forall>s \<in> set (cf_Sources c). NormalizeURL (src_URL s) = Inr (src_URL s))"

lemma validate_sources_again:
  assumes "\<forall>s \<in> set ss. NormalizeURL (src_URL s) = Inr (src_URL s) \<and> src_ID s \<noteq> [] \<and> src_Name s \<noteq> [] \<and> src_AddedAt s \<noteq> 0"
    and "distinct (map src_ID ss)" "distinct (map src_URL ss)"
    and "set (map src_ID ss) \<inter> set ids = {}" "set (map src_URL ss) \<inter> set urls = {}"
  shows "validate_sources now i ids urls ss = Inr ss"
  using assms
proof (induction ss arbitrary: i ids urls)
  case (Cons s ss)
  have "validate_sources now (Suc i) (src_ID s # ids) (src_URL s # urls) ss = Inr ss"
    using Cons.prems by (intro Cons.IH) auto
  then show ?case using Cons.prems by (simp add: is_zero_time_def Let_def)
qed simp

lemma validate_test_again:
  assumes "validate_test t = Inr t'"
  shows "validate_test t' = Inr t'"
  using assms
proof (cases rule: validate_test_parts)
  case (1 g timeout dialT healthT backoff cla retries jitter)
  have "validate_gemini t' = Inr t'"
    using validate_gemini_valid [OF 1(1)] by (simp add: validate_gemini_def 1(9) Let_def)
  moreover have "validate_claude cla = Inr cla"
    using 1(6) by (auto simp: validate_claude_def bind_ok_eq_Inr split: if_splits)
  ultimately show ?thesis
    using 1 by (simp add: validate_test_def)
qed

text \<open>
  Validation is idempotent on what it returns, provided that the URLs of the sources are in normal form:
  validating again, at any later time and in any environment, gives the same configuration.
\<close>

lemma validate_idempotent:
  assumes "Validate lk now c = Inr c'" "urls_normal c'" "now \<noteq> 0"
  shows "Validate lk' now' c' = Inr c'"
  using assms(1)
proof (cases rule: Validate_parts)
  case (1 sources test serve publishing interval state)
  have s: "validate_sources now' 0 [] [] sources = Inr sources"
    using validate_sources_valid [OF 1(2)] assms(2,3) 1(10)
    by (intro validate_sources_again) (auto simp: urls_normal_def)
  have "sources \<noteq> []" using validate_sources_valid [OF 1(2)] 1(1) by auto
  moreover have "validate_serve serve = Inr serve"
    using 1(6) by (auto simp: validate_serve_def Let_def split: if_split_asm)
  moreover have "validate_publishing publishing = Inr publishing"
    using 1(8) by (auto simp: validate_publishing_def split: if_split_asm)
  moreover have "StatePathWithLookup state lk' = Inr state"
    using StatePath_ne [OF 1(7)] by (simp add: StatePathWithLookup_def)
  ultimately show ?thesis
    using 1(3,4,9,10) s validate_test_again [OF 1(5)] by (auto simp: Validate_def)
qed

text \<open>
  Without that proviso it is not: a default port is stripped once per validation, and a host that is only a
  default port becomes empty, so that the validated configuration fails the next validation.
\<close>

lemma normalize_not_idempotent:
  "NormalizeURL ''http://h:80:80/'' = Inr ''http://h:80/''" "NormalizeURL ''http://h:80/'' = Inr ''http://h/''"
  "NormalizeURL ''http://:80'' = Inr ''http:''" "NormalizeURL ''http:'' = Inl NoHost"
  by code_simp+

section \<open>The file is read back\<close>

text \<open>A member that the encoder leaves out has the value that the decoder starts from.\<close>

lemma fold_str_member:
  "set_field fs (n, JString []) (r, False) = (r, False) \<Longrightarrow>
     fold (set_field fs) (str_member n s) (r, False) = set_field fs (n, JString s) (r, False)"
  by (simp add: str_member_def)

lemma fold_int_member:
  "set_field fs (n, num 0) (r, False) = (r, False) \<Longrightarrow>
     fold (set_field fs) (int_member n i) (r, False) = set_field fs (n, num i) (r, False)"
  by (simp add: int_member_def)

definition opt_value :: "('b \<Rightarrow> json) \<Rightarrow> 'b option \<Rightarrow> json" where
  "opt_value enc x = (case x of None \<Rightarrow> JNull | Some y \<Rightarrow> enc y)"

lemma fold_opt_member:
  "set_field fs (n, JNull) (r, False) = (r, False) \<Longrightarrow>
     fold (set_field fs) (opt_member n enc x) (r, False) = set_field fs (n, opt_value enc x) (r, False)"
  by (simp add: opt_member_def opt_value_def split: option.split)

lemma fold_list_member:
  "set_field fs (n, JArray []) (r, False) = (r, False) \<Longrightarrow>
     fold (set_field fs) (list_member n xs) (r, False) = set_field fs (n, JArray (map JString xs)) (r, False)"
  by (simp add: list_member_def)

lemma map_of_head: "map_of (p # ps) k = (if fst p = k then Some (snd p) else map_of ps k)"
  by (cases p) simp

definition in_int64 :: "int \<Rightarrow> bool" where
  "in_int64 n = (- (2 ^ 63) \<le> n \<and> n < 2 ^ 63)"

lemma all_some_map: "all_some (map (\<lambda>x. Some (f x)) xs) = Some (map f xs)"
  by (induction xs) auto

text \<open>What the setter of each kind of field does with the encoded value.\<close>

lemma setters [simp]:
  "snd (string_field n us) (JString s) r = Some (us (\<lambda>_. s) r)"
  "snd (bool_field n ub) (JBool b) r = Some (ub (\<lambda>_. b) r)"
  "snd (opt_bool_field n uo) (opt_value JBool x) r = Some (uo (\<lambda>_. x) r)"
  "snd (opt_bool_field n uo) (JBool b) r = Some (uo (\<lambda>_. Some b) r)"
  "snd (opt_bool_field n uo) JNull r = Some (uo (\<lambda>_. None) r)"
  "snd (opt_int_field n up) JNull r = Some (up (\<lambda>_. None) r)"
  "snd (list_field n decode_string ul) (JArray (map JString xs)) r = Some (ul (\<lambda>_. xs) r)"
  "snd (list_field n decode_string ul) (JArray []) r = Some (ul (\<lambda>_. []) r)"
  "in_int64 i \<Longrightarrow> snd (int_field n ui) (num i) r = Some (ui (\<lambda>_. i) r)"
  "(\<forall>k. j = Some k \<longrightarrow> in_int64 k) \<Longrightarrow> snd (opt_int_field n up) (opt_value num j) r = Some (up (\<lambda>_. j) r)"
  "decode_struct fs v (get r) = Some x \<Longrightarrow> snd (struct_field n fs get ust) v r = Some (ust (\<lambda>_. x) r)"
  using all_some_map [of id xs]
  by (auto simp: string_field_def bool_field_def opt_bool_field_def opt_int_field_def list_field_def int_field_def
      struct_field_def opt_value_def num_def in_int64_def Atoi_print_int decode_string_def comp_def split: option.split)

lemma field_names [simp]:
  "fst (string_field n us) = n" "fst (bool_field n ub) = n" "fst (opt_bool_field n uo) = n"
  "fst (opt_int_field n up) = n" "fst (list_field n dec ul) = n" "fst (int_field n ui) = n"
  "fst (struct_field n fs get ust) = n"
  by (simp_all add: string_field_def bool_field_def opt_bool_field_def opt_int_field_def list_field_def int_field_def
      struct_field_def)

lemma in_int64_0 [simp]: "in_int64 0"
  by (simp add: in_int64_def)

lemmas decode_simps = decode_struct_def map_of_head set_field_def find_field_def fold_str_member fold_int_member
  fold_opt_member fold_list_member

lemma decode_gemini:
  "decode_struct gemini_fields
     (JObject (str_member ''url'' (gem_URL g) @ list_member ''block_phrases'' (gem_BlockPhrases g)))
     \<lparr> gem_URL = [], gem_BlockPhrases = [] \<rparr> = Some g"
  by (simp add: decode_simps gemini_fields_def)

lemma decode_claude:
  "decode_struct claude_fields
     (JObject (opt_member ''enabled'' JBool (cla_EnabledRaw c) @ str_member ''url'' (cla_URL c)
               @ str_member ''timeout'' (cla_TimeoutRaw c) @ str_member ''dial_timeout'' (cla_DialTimeoutRaw c)))
     (tc_Claude (cf_Test zero_config)) =
   Some (c \<lparr> cla_Enabled := False, cla_Timeout := 0, cla_DialTimeout := 0 \<rparr>)"
  by (simp add: decode_simps claude_fields_def zero_config_def)

definition raw_test :: "test_config \<Rightarrow> test_config" where
  "raw_test t =
     t \<lparr> tc_Claude := (tc_Claude t) \<lparr> cla_Enabled := False, cla_Timeout := 0, cla_DialTimeout := 0 \<rparr>,
         tc_HealthTimeout := 0, tc_Timeout := 0, tc_DialTimeout := 0, tc_RetryBackoff := 0, tc_MaxRetries := 0,
         tc_JitterSamples := 0 \<rparr>"

definition raw_config :: "config \<Rightarrow> config" where
  "raw_config c = c \<lparr> cf_Test := raw_test (cf_Test c), cf_FetchInterval := 0 \<rparr>"

text \<open>The integers of the configuration are machine integers.\<close>

definition ints_ok :: "config \<Rightarrow> bool" where
  "ints_ok c =
     (in_int64 (cf_ProbeLimit c) \<and> in_int64 (tc_Concurrency (cf_Test c)) \<and> in_int64 (tc_RateLimitRPS (cf_Test c)) \<and>
      in_int64 (tc_MaxInconclusiveCycles (cf_Test c)) \<and>
      (\<forall>n. tc_MaxRetriesRaw (cf_Test c) = Some n \<longrightarrow> in_int64 n) \<and>
      (\<forall>n. tc_JitterSamplesRaw (cf_Test c) = Some n \<longrightarrow> in_int64 n))"

lemma decode_test:
  assumes "ints_ok c"
  shows "decode_struct test_fields (test_json (cf_Test c)) (cf_Test zero_config) = Some (raw_test (cf_Test c))"
proof -
  have z: "tc_Claude (cf_Test zero_config) =
      \<lparr> cla_EnabledRaw = None, cla_URL = [], cla_TimeoutRaw = [], cla_DialTimeoutRaw = [], cla_Enabled = False,
        cla_Timeout = 0, cla_DialTimeout = 0 \<rparr>"
    by (simp add: zero_config_def)
  have gemini: "snd (struct_field ''gemini'' gemini_fields tc_Gemini tc_Gemini_update)
      (JObject (str_member ''url'' (gem_URL g) @ list_member ''block_phrases'' (gem_BlockPhrases g))) r =
      Some (r \<lparr> tc_Gemini := g \<rparr>)" if "tc_Gemini r = \<lparr> gem_URL = [], gem_BlockPhrases = [] \<rparr>" for g r
    using decode_gemini [of g] that by (simp add: struct_field_def)
  have claude: "snd (struct_field ''claude'' claude_fields tc_Claude tc_Claude_update)
      (JObject (opt_member ''enabled'' JBool (cla_EnabledRaw d) @ str_member ''url'' (cla_URL d)
               @ str_member ''timeout'' (cla_TimeoutRaw d) @ str_member ''dial_timeout'' (cla_DialTimeoutRaw d))) r =
      Some (r \<lparr> tc_Claude := d \<lparr> cla_Enabled := False, cla_Timeout := 0, cla_DialTimeout := 0 \<rparr> \<rparr>)"
    if "tc_Claude r = tc_Claude (cf_Test zero_config)" for d r
    using decode_claude [of d] that by (simp add: struct_field_def)
  show ?thesis
    using assms
    unfolding test_json_def decode_struct_def [of test_fields]
    by (simp add: map_of_head set_field_def find_field_def fold_str_member fold_int_member gemini claude z
        fold_opt_member fold_list_member test_fields_def zero_config_def ints_ok_def raw_test_def)
qed

lemma decode_source:
  assumes "NormalizeURL (src_URL s) = Inr (src_URL s)" "src_ID s \<noteq> []" "src_Name s \<noteq> []"
    and "parse_time (print_time (src_AddedAt s)) = Some (src_AddedAt s)"
  shows "UnmarshalSource parse_time now (source_json print_time s) = Some s"
  using assms
  by (simp add: UnmarshalSource_def source_json_def decode_string_def decode_simps plain_source_fields_def
      normal_or_trimmed_def str_member_def Let_def)

lemma decode_sources:
  assumes "\<forall>s \<in> set ss. UnmarshalSource pt now (source_json prt s) = Some s"
  shows "all_some (map (UnmarshalSource pt now) (map (source_json prt) ss)) = Some ss"
  using assms by (induction ss) auto

lemma decode_config:
  assumes "ints_ok c" "\<forall>s \<in> set (cf_Sources c). UnmarshalSource pt now (source_json prt s) = Some s"
  shows "decode_struct (config_fields pt now) (config_json prt c) zero_config = Some (raw_config c)"
proof -
  have sources: "snd (list_field ''sources'' (UnmarshalSource pt now) cf_Sources_update)
      (JArray (map (source_json prt) (cf_Sources c))) r = Some (r \<lparr> cf_Sources := cf_Sources c \<rparr>)" for r
    using decode_sources [OF assms(2)] by (simp add: list_field_def)
  have publishing: "snd (struct_field ''publishing'' publishing_fields cf_Publishing cf_Publishing_update)
      (JObject ((''enabled'', JBool (pub_Enabled p)) # (''repository'', JString (pub_Repository p))
                # str_member ''branch'' (pub_Branch p) @ str_member ''remote_url'' (pub_RemoteURL p))) r
      = Some (r \<lparr> cf_Publishing := p \<rparr>)" if "cf_Publishing r = cf_Publishing zero_config" for p r
    using that by (simp add: decode_simps publishing_fields_def zero_config_def struct_field_def)
  have serve: "snd (struct_field ''serve'' serve_fields cf_Serve cf_Serve_update)
      (JObject [(''listen'', JString (srv_Listen s)), (''path'', JString (srv_Path s)), (''format'', JString (srv_Format s))]) r
      = Some (r \<lparr> cf_Serve := s \<rparr>)" if "cf_Serve r = cf_Serve zero_config" for s r
    using that by (simp add: decode_simps serve_fields_def zero_config_def struct_field_def)
  have test: "snd (struct_field ''test'' test_fields cf_Test cf_Test_update) (test_json (cf_Test c)) r
      = Some (r \<lparr> cf_Test := raw_test (cf_Test c) \<rparr>)" if "cf_Test r = cf_Test zero_config" for r
    using that decode_test [OF assms(1)] by (simp add: struct_field_def)
  show ?thesis
    using assms(1)
    unfolding config_json_def decode_struct_def [of "config_fields pt now"]
    by (simp add: map_of_head set_field_def find_field_def fold_str_member fold_int_member sources publishing serve test
        config_fields_def zero_config_def ints_ok_def raw_config_def)
qed

text \<open>Validation does not read what it derives.\<close>

lemma validate_test_raw: "validate_test (raw_test t) = validate_test t"
proof -
  have "validate_claude (c \<lparr> cla_Enabled := False, cla_Timeout := 0, cla_DialTimeout := 0 \<rparr>) = validate_claude c" for c
    by (simp add: validate_claude_def)
  then show ?thesis
    unfolding validate_test_def validate_gemini_def raw_test_def Let_def
    by simp
qed

lemma Validate_raw: "Validate lk now (raw_config c) = Validate lk now c"
  unfolding Validate_def raw_config_def
  by (simp add: validate_test_raw cong: option.case_cong sum.case_cong if_cong)

text \<open>C22: What the service writes to the configuration file, \<open>Load\<close> reads back exactly, derived fields included:
  for every configuration that passed validation with its URLs in normal form, at any later time.
\<close>

theorem config_file_roundtrip:
  assumes "Validate lk now c0 = Inr c" "urls_normal c" "now \<noteq> 0" "ints_ok c"
    and "\<forall>s \<in> set (cf_Sources c). parse_time (print_time (src_AddedAt s)) = Some (src_AddedAt s)"
  shows "load_value parse_time lk' now' (config_json print_time c) = Inr c"
proof -
  have "\<forall>s \<in> set (cf_Sources c). src_ID s \<noteq> [] \<and> src_Name s \<noteq> []"
    using assms(1)
  proof (cases rule: Validate_parts)
    case 1
    then show ?thesis using validate_sources_valid [OF 1(2)] by auto
  qed
  then have "\<forall>s \<in> set (cf_Sources c). UnmarshalSource parse_time now' (source_json print_time s) = Some s"
    using assms(2,5) by (auto simp: urls_normal_def decode_source)
  from decode_config [OF assms(4) this] show ?thesis
    using validate_idempotent [OF assms(1-3)] by (simp add: load_value_def Validate_raw)
qed

section \<open>A concrete configuration\<close>

definition sample_config :: config where
  "sample_config =
     zero_config \<lparr> cf_Sources := [\<lparr> src_ID = ''a'', src_URL = ''https://e.com/s'', src_Name = ''n'', src_Enabled = True,
                                    src_AddedAt = 7 \<rparr>],
       cf_FetchIntervalRaw := ''3h'',
       cf_Test := (cf_Test zero_config) \<lparr> tc_TimeoutRaw := ''10s'', tc_BlockPhrases := [''x''], tc_Concurrency := 4,
                                        tc_MaxRetriesRaw := Some 0 \<rparr>,
       cf_StateFile := ''s.json'' \<rparr>"

definition sample_valid :: config where
  "sample_valid = (case Validate sample_lookup 5 sample_config of Inr c \<Rightarrow> c | Inl _ \<Rightarrow> zero_config)"

lemma sample_durations: "ParseDuration ''3h'' = Some (hours 3)" "ParseDuration ''10s'' = Some (seconds 10)"
  by code_simp+

lemma sample_url: "NormalizeURL ''https://e.com/s'' = Inr ''https://e.com/s''"
  by code_simp

lemmas validate_defs = Validate_def validate_test_def validate_gemini_def validate_claude_def validate_serve_def
  validate_publishing_def positive_duration_def duration_or_def count_or_def StatePathWithLookup_def

lemma sample_validates: "Validate sample_lookup 5 sample_config = Inr sample_valid"
  unfolding sample_valid_def
  by (simp add: sample_config_def zero_config_def validate_defs sample_durations sample_url Let_def is_zero_time_def)

lemma sample_facts:
  "urls_normal sample_valid" "ints_ok sample_valid" "map src_AddedAt (cf_Sources sample_valid) = [7]"
  "map src_ID (cf_Sources sample_valid) = [''a'']"
  using sample_validates unfolding sample_valid_def
  by (simp_all add: sample_config_def zero_config_def validate_defs sample_durations sample_url Let_def is_zero_time_def
      urls_normal_def ints_ok_def in_int64_def)

lemma sample_stable: "Validate sample_lookup 9 sample_valid = Inr sample_valid"
  by (rule validate_idempotent [OF sample_validates sample_facts(1)]) simp

theorem config_file_roundtrip_witness:
  "load_value (\<lambda>s. if s = ''t7'' then Some 7 else None) sample_lookup 9 (config_json (\<lambda>_. ''t7'') sample_valid) = Inr sample_valid"
proof (rule config_file_roundtrip [OF sample_validates sample_facts(1) _ sample_facts(2)])
  show "\<forall>s \<in> set (cf_Sources sample_valid). (\<lambda>s. if s = ''t7'' then Some 7 else None) ((\<lambda>_. ''t7'') (src_AddedAt s)) = Some (src_AddedAt s)"
    using sample_facts(3) by auto
qed simp

end
