(* ===== verification/ConfigService.thy ===== *)
theory ConfigService
  imports ConfigCorrect
begin

text \<open>
  The configuration service, \<open>internal/config/service.go\<close>: the state behind its mutex, its transactional
  \<open>Update\<close>, \<open>Save\<close> and \<open>Reload\<close>, and \<open>AtomicWriteFile\<close>. Every operation runs under the lock, so it is one
  step; the event goes out after the lock is released.

  The file system maps a path to the JSON value a file holds. A write may fail at any of its steps; the
  step at which it does (\<open>None\<close> for no failure) is an argument. Parameters as in \<open>Config\<close>.
\<close>

section \<open>Writing a file atomically\<close>

type_synonym files = "string \<Rightarrow> json option"

datatype write_step = MkdirAll | CreateTemp | WriteTemp | SyncTemp | ChmodTemp | CloseTemp | RenameTemp

text \<open>
  The file systems a reader may see while \<open>AtomicWriteFile\<close> runs, in order, the last one being its result,
  and whether it succeeded. \<open>tmp\<close> is the name of the temporary file, \<open>partial\<close> what a failed write leaves in
  it. Its deferred function removes the temporary file unless the rename succeeded.
\<close>

definition AtomicWriteFile ::
  "write_step option \<Rightarrow> string \<Rightarrow> json option \<Rightarrow> string \<Rightarrow> json \<Rightarrow> files \<Rightarrow> files list \<times> bool" where
  "AtomicWriteFile fail tmp partial path data fs =
     (let created = fs(tmp \<mapsto> JNull); half = fs(tmp := partial); full = fs(tmp \<mapsto> data);
          cleaned = fs(tmp := None); renamed = fs(tmp := None, path \<mapsto> data)
      in case fail of
           None \<Rightarrow> ([fs, created, full, renamed], True)
         | Some MkdirAll \<Rightarrow> ([fs], False)
         | Some CreateTemp \<Rightarrow> ([fs], False)
         | Some WriteTemp \<Rightarrow> ([fs, created, half, cleaned], False)
         | Some _ \<Rightarrow> ([fs, created, full, cleaned], False))"

section \<open>The service\<close>

record config_service =
  sv_path :: string
  sv_cfg :: "config option"
  sv_initialCfg :: "config option"
  sv_bus :: bool
  sv_isFirstRun :: bool
  sv_legacyConfigDetected :: bool

datatype config_event = ConfigUpdated config config

datatype 'e service_error =
    ConfigRequired | LoadFailed load_error | MutatorNil | MutationFailed 'e | InvalidConfig config_error
  | MarshalFailed | PersistFailed | PathNotSet | NoConfig

text \<open>
  What an operation depends on beside its arguments; \<open>env_marshals\<close> says whether \<open>json.MarshalIndent\<close> succeeds, which
  it does not for a time outside the years 0 to 9999.
\<close>

record service_env =
  env_lookup :: lookup
  env_now :: time
  env_parse_time :: "string \<Rightarrow> time option"
  env_print_time :: "time \<Rightarrow> string"
  env_fail :: "write_step option"
  env_tmp :: string
  env_partial :: "json option"
  env_marshals :: "config \<Rightarrow> bool"

definition write_file :: "service_env \<Rightarrow> string \<Rightarrow> json \<Rightarrow> files \<Rightarrow> files \<times> bool" where
  "write_file env path data fs =
     (let (trace, ok) = AtomicWriteFile (env_fail env) (env_tmp env) (env_partial env) path data fs
      in (last trace, ok))"

definition load_file :: "service_env \<Rightarrow> string \<Rightarrow> files \<Rightarrow> (load_error, config) outcome" where
  "load_file env path fs =
     (case fs path of
        None \<Rightarrow> Inl ReadFailed
      | Some v \<Rightarrow> load_value (env_parse_time env) (env_lookup env) (env_now env) v)"

definition service_of :: "string \<Rightarrow> config \<Rightarrow> bool \<Rightarrow> bool \<Rightarrow> config_service" where
  "service_of path cfg bus firstRun =
     \<lparr> sv_path = path, sv_cfg = Some cfg, sv_initialCfg = Some cfg, sv_bus = bus, sv_isFirstRun = firstRun,
       sv_legacyConfigDetected = False \<rparr>"

definition NewService ::
  "service_env \<Rightarrow> string \<Rightarrow> config option \<Rightarrow> bool \<Rightarrow> files \<Rightarrow> ('e service_error, config_service) outcome" where
  "NewService env path cfg bus fs =
     (case cfg of
        Some c \<Rightarrow> (case Validate (env_lookup env) (env_now env) c of
                    Inl e \<Rightarrow> Inl (InvalidConfig e) | Inr cloned \<Rightarrow> Inr (service_of path cloned bus False))
      | None \<Rightarrow>
          if path = [] then Inl ConfigRequired
          else (case load_file env path fs of
                  Inl e \<Rightarrow> Inl (LoadFailed e) | Inr loaded \<Rightarrow> Inr (service_of path loaded bus False)))"

definition default_phrases :: "string list" where
  "default_phrases =
     [''isn'' @ [single_quote] @ ''t currently supported in your country'', ''not available in your country'',
      ''not available in your region'']"

definition DefaultConfig :: "lookup \<Rightarrow> config" where
  "DefaultConfig lk =
     zero_config \<lparr> cf_FetchIntervalRaw := ''3h'', cf_FetchInterval := hours 3,
       cf_Test := (cf_Test zero_config)
         \<lparr> tc_HealthURL := ''https://www.gstatic.com/generate_204'', tc_HealthTimeoutRaw := ''4s'',
           tc_HealthTimeout := seconds 4,
           tc_Gemini := \<lparr> gem_URL = ''https://gemini.google.com/'', gem_BlockPhrases = default_phrases \<rparr>,
           tc_TargetURL := ''https://gemini.google.com/'', tc_BlockPhrases := default_phrases,
           tc_TimeoutRaw := ''10s'', tc_Timeout := seconds 10, tc_DialTimeoutRaw := ''4s'', tc_DialTimeout := seconds 4,
           tc_Concurrency := 20, tc_MaxRetriesRaw := Some 2, tc_MaxRetries := 2, tc_RetryBackoffRaw := ''1s'',
           tc_RetryBackoff := seconds 1, tc_MaxInconclusiveCycles := 2 \<rparr>,
       cf_Serve := \<lparr> srv_Listen = ''127.0.0.1:8765'', srv_Path = ''/sub'', srv_Format = ''base64'' \<rparr>,
       cf_Publishing := (cf_Publishing zero_config) \<lparr> pub_Branch := ''main'' \<rparr>,
       cf_StateFile := (case StatePathWithLookup [] lk of Inr p \<Rightarrow> p | Inl _ \<Rightarrow> []) \<rparr>"

definition NewDefaultService :: "lookup \<Rightarrow> string \<Rightarrow> bool \<Rightarrow> config_service" where
  "NewDefaultService lk path bus = service_of path (DefaultConfig lk) bus True"

definition IsFirstRun :: "config_service \<Rightarrow> bool" where
  "IsFirstRun s = sv_isFirstRun s"

definition SetLegacyConfigDetected :: "bool \<Rightarrow> config_service \<Rightarrow> config_service" where
  "SetLegacyConfigDetected detected s = s \<lparr> sv_legacyConfigDetected := detected \<rparr>"

definition SetPath :: "string \<Rightarrow> config_service \<Rightarrow> config_service" where
  "SetPath path s = s \<lparr> sv_path := path \<rparr>"

definition SetEventPublisher :: "bool \<Rightarrow> config_service \<Rightarrow> config_service" where
  "SetEventPublisher bus s = s \<lparr> sv_bus := bus \<rparr>"

definition PendingRestartFields :: "config_service \<Rightarrow> string list" where
  "PendingRestartFields s =
     (case (sv_initialCfg s, sv_cfg s) of (Some old, Some new) \<Rightarrow> RequiresRestart old new | _ \<Rightarrow> [])"

definition Get_config :: "config_service \<Rightarrow> config" where
  "Get_config s = (case sv_cfg s of None \<Rightarrow> zero_config | Some c \<Rightarrow> c)"

type_synonym 'e service_result = "'e service_error option \<times> config_service \<times> files \<times> config_event list"

definition updated_event :: "config_service \<Rightarrow> config \<Rightarrow> config_event list" where
  "updated_event s new = (if sv_bus s then [ConfigUpdated (Get_config s) new] else [])"

definition Update ::
  "service_env \<Rightarrow> (config \<Rightarrow> ('e, config) outcome) option \<Rightarrow> config_service \<Rightarrow> files \<Rightarrow> 'e service_result" where
  "Update env mutator s fs =
     (case mutator of
        None \<Rightarrow> (Some MutatorNil, s, fs, [])
      | Some mutate \<Rightarrow>
          (case mutate (Get_config s) of
             Inl e \<Rightarrow> (Some (MutationFailed e), s, fs, [])
           | Inr c \<Rightarrow>
               (case Validate (env_lookup env) (env_now env) c of
                  Inl e \<Rightarrow> (Some (InvalidConfig e), s, fs, [])
                | Inr candidate \<Rightarrow>
                    if sv_path s \<noteq> [] \<and> \<not> env_marshals env candidate then (Some MarshalFailed, s, fs, [])
                    else
                    let (fs', ok) = (if sv_path s \<noteq> []
                                     then write_file env (sv_path s) (config_json (env_print_time env) candidate) fs
                                     else (fs, True))
                    in if \<not> ok then (Some PersistFailed, s, fs', [])
                       else (None,
                             s \<lparr> sv_cfg := Some candidate, sv_isFirstRun := False, sv_legacyConfigDetected := False \<rparr>,
                             fs', updated_event s candidate))))"

definition Save_config :: "service_env \<Rightarrow> config_service \<Rightarrow> files \<Rightarrow> 'e service_result" where
  "Save_config env s fs =
     (if sv_path s = [] then (Some PathNotSet, s, fs, [])
      else (case sv_cfg s of
              None \<Rightarrow> (Some NoConfig, s, fs, [])
            | Some c \<Rightarrow>
                if \<not> env_marshals env c then (Some MarshalFailed, s, fs, [])
                else
                let (fs', ok) = write_file env (sv_path s) (config_json (env_print_time env) c) fs
                in if \<not> ok then (Some PersistFailed, s, fs', [])
                   else (None, s \<lparr> sv_isFirstRun := False, sv_legacyConfigDetected := False \<rparr>, fs', [])))"

definition Reload :: "service_env \<Rightarrow> config_service \<Rightarrow> files \<Rightarrow> 'e service_result" where
  "Reload env s fs =
     (if sv_path s = [] then (Some PathNotSet, s, fs, [])
      else (case load_file env (sv_path s) fs of
              Inl e \<Rightarrow> (Some (LoadFailed e), s, fs, [])
            | Inr loaded \<Rightarrow> (None, s \<lparr> sv_cfg := Some loaded \<rparr>, fs, updated_event s loaded)))"

section \<open>Atomicity\<close>

text \<open>
  Whenever the writing of a file stops, by a crash between any two of its steps or by an error, the
  file has its old content or the complete new one; it has the new one exactly when the write succeeded,
  no other file than the temporary one is touched, and the temporary file is gone when it returns.
\<close>

lemma atomic_write_all_or_nothing:
  assumes "tmp \<noteq> path" "fs tmp = None"
  shows "(\<forall>seen \<in> set (fst (AtomicWriteFile fail tmp partial path data fs)).
            (seen path = fs path \<or> seen path = Some data) \<and> (\<forall>p. p \<noteq> path \<longrightarrow> p \<noteq> tmp \<longrightarrow> seen p = fs p))
    \<and> (let (trace, ok) = AtomicWriteFile fail tmp partial path data fs
       in last trace = (if ok then fs(path \<mapsto> data) else fs) \<and> (ok \<longleftrightarrow> fail = None))"
  using assms by (auto simp: AtomicWriteFile_def Let_def fun_eq_iff split: option.split write_step.split)

section \<open>Transactions\<close>

lemma write_file_result:
  assumes "env_tmp env \<noteq> path" "fs (env_tmp env) = None"
  shows "write_file env path data fs = (if env_fail env = None then (fs(path \<mapsto> data), True) else (fs, False))"
  using assms
  by (auto simp: write_file_def AtomicWriteFile_def Let_def fun_eq_iff split: option.split write_step.split)

text \<open>C23: \<open>Update\<close> is a transaction: when it fails, at whatever point, the configuration in memory, every file
  and the subscribers are as before; when it succeeds, the configuration in memory is valid, the file has
  exactly this configuration, and one event with the old and the new configuration is published.
\<close>

theorem update_transactional:
  assumes "env_tmp env \<noteq> sv_path s" "fs (env_tmp env) = None"
  shows "case Update env mutator s fs of
      (Some e, s', fs', events) \<Rightarrow> s' = s \<and> fs' = fs \<and> events = []
    | (None, s', fs', events) \<Rightarrow>
        \<exists>mutate c candidate. mutator = Some mutate \<and> mutate (Get_config s) = Inr c
          \<and> Validate (env_lookup env) (env_now env) c = Inr candidate \<and> config_valid candidate
          \<and> s' = s \<lparr> sv_cfg := Some candidate, sv_isFirstRun := False, sv_legacyConfigDetected := False \<rparr>
          \<and> fs' = (if sv_path s = [] then fs else fs(sv_path s \<mapsto> config_json (env_print_time env) candidate))
          \<and> events = (if sv_bus s then [ConfigUpdated (Get_config s) candidate] else [])"
proof (cases "\<exists>mutate c candidate. mutator = Some mutate \<and> mutate (Get_config s) = Inr c
    \<and> Validate (env_lookup env) (env_now env) c = Inr candidate")
  case False
  then show ?thesis by (auto simp: Update_def split: option.split sum.split)
next
  case True
  then obtain mutate c candidate where m: "mutator = Some mutate" "mutate (Get_config s) = Inr c"
    "Validate (env_lookup env) (env_now env) c = Inr candidate" by blast
  show ?thesis
    using m write_file_result [of env "sv_path s" fs, OF assms] validate_establishes [OF m(3)]
    by (cases "env_fail env = None"; cases "sv_path s = []"; cases "env_marshals env candidate")
      (simp_all add: Update_def updated_event_def)
qed

definition sample_env :: service_env where
  "sample_env =
     \<lparr> env_lookup = sample_lookup, env_now = 9, env_parse_time = (\<lambda>_. Some 7), env_print_time = (\<lambda>_. ''t7''),
       env_fail = None, env_tmp = ''c.tmp.1'', env_partial = None,
       env_marshals = (\<lambda>_. True) \<rparr>"

definition sample_service :: config_service where
  "sample_service = service_of ''c'' sample_valid True False"

theorem update_transactional_witness:
  "case Update sample_env (Some (\<lambda>c. Inl ''refused'')) sample_service Map.empty of
      (Some e, s', fs', events) \<Rightarrow> s' = sample_service \<and> fs' = Map.empty \<and> events = []
    | (None, s', fs', events) \<Rightarrow> False"
  using update_transactional [of sample_env sample_service Map.empty "Some (\<lambda>c. Inl ''refused'')"]
  by (auto simp: sample_env_def sample_service_def service_of_def split: prod.splits option.splits)

section \<open>Reachable services\<close>

text \<open>
  A service lives from its creation through any sequence of operations, each in its own environment, while
  others may change the files at any time. (The errors of mutators are strings here.)
\<close>

inductive svc_reachable :: "config_service \<Rightarrow> files \<Rightarrow> bool" where
  first_run: "svc_reachable (NewDefaultService lk path bus) fs"
| created: "(NewService env path cfg bus fs :: (string service_error, config_service) outcome) = Inr s \<Longrightarrow> svc_reachable s fs"
| updated: "svc_reachable s fs \<Longrightarrow> Update env mutator s fs = (err :: string service_error option, s', fs', events) \<Longrightarrow> svc_reachable s' fs'"
| saved: "svc_reachable s fs \<Longrightarrow> Save_config env s fs = (err :: string service_error option, s', fs', events) \<Longrightarrow> svc_reachable s' fs'"
| reloaded: "svc_reachable s fs \<Longrightarrow> Reload env s fs = (err :: string service_error option, s', fs', events) \<Longrightarrow> svc_reachable s' fs'"
| moved: "svc_reachable s fs \<Longrightarrow> svc_reachable (SetPath path s) fs"
| subscribed: "svc_reachable s fs \<Longrightarrow> svc_reachable (SetEventPublisher bus s) fs"
| legacy: "svc_reachable s fs \<Longrightarrow> svc_reachable (SetLegacyConfigDetected d s) fs"
| edited: "svc_reachable s fs \<Longrightarrow> svc_reachable s fs'"

lemma load_file_valid: "load_file env path fs = Inr c \<Longrightarrow> config_valid c"
  by (auto simp: load_file_def load_value_def validate_establishes split: option.splits sum.splits)

text \<open>
  The default configuration lacks sources, the Claude settings that validation fills in, and a state file where no
  path for it is known; with these it is valid.
\<close>

definition completed :: "source_item list \<Rightarrow> claude_config \<Rightarrow> string \<Rightarrow> config \<Rightarrow> config" where
  "completed ss claude p c =
     c \<lparr> cf_Sources := ss, cf_StateFile := p, cf_Test := (cf_Test c) \<lparr> tc_Claude := claude \<rparr> \<rparr>"

definition claude_valid :: "claude_config \<Rightarrow> bool" where
  "claude_valid c \<longleftrightarrow> cla_URL c \<noteq> [] \<and> 0 < cla_Timeout c \<and> 0 < cla_DialTimeout c"

lemma default_config_completed:
  assumes "sources_valid ss" "claude_valid claude" "p \<noteq> []"
  shows "config_valid (completed ss claude p (DefaultConfig lk))"
proof -
  have "ParseDuration ''3h'' = Some (hours 3)" "minutes 1 \<le> hours 3" "0 < seconds 4" "0 < seconds 10" "0 < seconds 1"
    by code_simp+
  then show ?thesis
    using assms by (simp add: config_valid_def completed_def claude_valid_def test_valid_def DefaultConfig_def zero_config_def
        default_phrases_def)
qed

text \<open>C24: The configuration that a service hands out is valid at every moment of its life, whatever operations ran
  and failed and whatever happened to the files, unless it is still the default one that a first run starts with,
  which lacks nothing but sources, the Claude settings and a state file.
\<close>

theorem service_always_valid:
  assumes "svc_reachable s fs"
  shows "sv_cfg s = Some (Get_config s)
    \<and> (config_valid (Get_config s)
       \<or> sv_initialCfg s = Some (Get_config s) \<and> (\<exists>lk. Get_config s = DefaultConfig lk)
         \<and> (\<forall>ss claude p. sources_valid ss \<longrightarrow> claude_valid claude \<longrightarrow> p \<noteq> [] \<longrightarrow>
              config_valid (completed ss claude p (Get_config s))))"
proof -
  have "sv_cfg s = Some (Get_config s)
    \<and> (config_valid (Get_config s) \<or> sv_initialCfg s = Some (Get_config s) \<and> (\<exists>lk. Get_config s = DefaultConfig lk))"
    using assms
  proof induction
    case (first_run lk path bus fs)
    then show ?case by (auto simp: NewDefaultService_def service_of_def Get_config_def)
  next
    case (created env path cfg bus fs s)
    then show ?case
      by (auto simp: NewService_def service_of_def Get_config_def validate_establishes load_file_valid
          split: option.splits sum.splits if_splits)
  next
    case (updated s fs env mutator err s' fs' events)
    then show ?case
      by (auto simp: Update_def Get_config_def validate_establishes Let_def
          split: option.splits sum.splits prod.splits if_splits)
  next
    case (saved s fs env err s' fs' events)
    then show ?case
      by (auto simp: Save_config_def Get_config_def Let_def split: option.splits prod.splits if_splits)
  next
    case (reloaded s fs env err s' fs' events)
    then show ?case
      by (auto simp: Reload_def Get_config_def load_file_valid split: sum.splits if_splits)
  qed (auto simp: SetPath_def SetEventPublisher_def SetLegacyConfigDetected_def Get_config_def)
  then show ?thesis using default_config_completed by metis
qed

text \<open>A service whose configuration came from a file keeps it valid; one of a first run does so from its first update on.\<close>

theorem service_always_valid_witness:
  "config_valid (Get_config sample_service)
   \<and> config_valid (completed (cf_Sources sample_valid) (tc_Claude (cf_Test sample_valid)) ''/s''
        (Get_config (NewDefaultService sample_lookup ''c'' False)))"
proof -
  have "(NewService sample_env ''c'' (Some sample_valid) True Map.empty :: (string service_error, config_service) outcome)
      = Inr sample_service"
    using sample_stable by (simp add: NewService_def sample_env_def sample_service_def)
  then have "svc_reachable sample_service Map.empty" by (rule svc_reachable.created)
  moreover have "sources_valid (cf_Sources sample_valid)" "claude_valid (tc_Claude (cf_Test sample_valid))"
    using validate_establishes [OF sample_validates] by (simp_all add: config_valid_def test_valid_def claude_valid_def)
  moreover have "Get_config sample_service = sample_valid" by (simp add: sample_service_def service_of_def Get_config_def)
  moreover have "\<not> config_valid (Get_config (NewDefaultService sample_lookup ''c'' False))"
    by (simp add: NewDefaultService_def service_of_def Get_config_def config_valid_def DefaultConfig_def zero_config_def sources_valid_def)
  ultimately show ?thesis
    using service_always_valid [OF svc_reachable.first_run [of sample_lookup "''c''" False Map.empty]]
      validate_establishes [OF sample_validates] by simp
qed

text \<open>
  \<open>Save\<close> does not validate: called on a first run it writes the default configuration, which no start reads back,
  and ends the first run.
\<close>

theorem first_run_saved:
  "case Save_config sample_env (NewDefaultService sample_lookup ''c'' False) Map.empty of
     (err :: string service_error option, s, fs, _) \<Rightarrow>
       err = None \<and> \<not> IsFirstRun s \<and> isl (load_file sample_env ''c'' fs)"
  by code_simp

end
