(* ===== verification/SourceService.thy ===== *)
theory SourceService
  imports ConfigService
begin

text \<open>
  The subscription sources, \<open>internal/source/service.go\<close>: listing, adding, changing and removing them, each
  change being one transaction of the configuration service. The theorem states the contract: on the map
  from identifiers to sources, in the order of the list, the operations are insertion of a new key,
  update of a present key and deletion of one, and the last source cannot be deleted.
\<close>

datatype source_error =
    SourceNotFound | DuplicateURL | DuplicateID | InvalidURL url_error | CannotRemoveLast | ItemMutationFailed string

definition List_sources :: "config_service \<Rightarrow> source_item list" where
  "List_sources s = cf_Sources (Get_config s)"

fun find_source :: "string \<Rightarrow> source_item list \<Rightarrow> source_item option" where
  "find_source i [] = None"
| "find_source i (s # ss) = (if src_ID s = i then Some s else find_source i ss)"

definition Get_source :: "config_service \<Rightarrow> string \<Rightarrow> (source_error, source_item) outcome" where
  "Get_source s i =
     (case find_source i (cf_Sources (Get_config s)) of None \<Rightarrow> Inl SourceNotFound | Some x \<Rightarrow> Inr x)"

section \<open>Changes of a configuration\<close>

fun add_conflict :: "source_item \<Rightarrow> source_item list \<Rightarrow> source_error option" where
  "add_conflict item [] = None"
| "add_conflict item (e # es) =
     (if src_URL e = src_URL item then Some DuplicateURL
      else if src_ID e = src_ID item then Some DuplicateID else add_conflict item es)"

definition AddToConfig :: "time \<Rightarrow> config \<Rightarrow> source_item \<Rightarrow> (source_error, config \<times> source_item) outcome" where
  "AddToConfig now cfg item0 =
     (case NormalizeURL (src_URL item0) of
        Inl e \<Rightarrow> Inl (InvalidURL e)
      | Inr normURL \<Rightarrow>
          let item1 = item0 \<lparr> src_URL := normURL,
                             src_ID := (if src_ID item0 = [] then GenerateSourceID normURL else src_ID item0) \<rparr>
          in (case add_conflict item1 (cf_Sources cfg) of
                Some e \<Rightarrow> Inl e
              | None \<Rightarrow>
                  let item = item1 \<lparr> src_Name := (if src_Name item1 = [] then DefaultSourceName (src_URL item1) else src_Name item1),
                                    src_AddedAt := (if is_zero_time (src_AddedAt item1) then now else src_AddedAt item1) \<rparr>
                  in Inr (cfg \<lparr> cf_Sources := cf_Sources cfg @ [item] \<rparr>, item)))"

fun source_index :: "string \<Rightarrow> source_item list \<Rightarrow> nat option" where
  "source_index i [] = None"
| "source_index i (s # ss) = (if src_ID s = i then Some 0 else map_option Suc (source_index i ss))"

definition url_taken :: "nat \<Rightarrow> string \<Rightarrow> source_item list \<Rightarrow> bool" where
  "url_taken idx url ss = list_ex (\<lambda>j. j \<noteq> idx \<and> src_URL (ss ! j) = url) [0..<length ss]"

definition update_in_config ::
  "string \<Rightarrow> (source_item \<Rightarrow> (string, source_item) outcome) \<Rightarrow> config \<Rightarrow> (source_error, config \<times> source_item) outcome" where
  "update_in_config i mutate cfg =
     (case source_index i (cf_Sources cfg) of
        None \<Rightarrow> Inl SourceNotFound
      | Some idx \<Rightarrow>
          let original = cf_Sources cfg ! idx
          in (case mutate original of
                Inl e \<Rightarrow> Inl (ItemMutationFailed e)
              | Inr mutated \<Rightarrow>
                  let candidate = mutated \<lparr> src_ID := i \<rparr>;
                      checked = (if src_URL candidate \<noteq> src_URL original
                                 then (case NormalizeURL (src_URL candidate) of
                                         Inl e \<Rightarrow> Inl (InvalidURL e)
                                       | Inr normURL \<Rightarrow>
                                           if url_taken idx normURL (cf_Sources cfg) then Inl DuplicateURL
                                           else Inr (candidate \<lparr> src_URL := normURL \<rparr>))
                                 else Inr candidate)
                  in bind_ok checked (\<lambda>c.
                       let final = (if src_Name c = [] then c \<lparr> src_Name := DefaultSourceName (src_URL c) \<rparr> else c)
                       in Inr (cfg \<lparr> cf_Sources := (cf_Sources cfg)[idx := final] \<rparr>, final))))"

definition remove_from_config :: "string \<Rightarrow> config \<Rightarrow> (source_error, config) outcome" where
  "remove_from_config i cfg =
     (case source_index i (cf_Sources cfg) of
        None \<Rightarrow> Inl SourceNotFound
      | Some idx \<Rightarrow>
          if length (cf_Sources cfg) \<le> 1 then Inl CannotRemoveLast
          else Inr (cfg \<lparr> cf_Sources := take idx (cf_Sources cfg) @ drop (Suc idx) (cf_Sources cfg) \<rparr>))"

section \<open>Transactions\<close>

type_synonym source_service_result =
  "(source_error service_error, source_item option) outcome \<times> config_service \<times> files \<times> config_event list"

text \<open>A change of the configuration that also returns an item: the closure keeps it beside the configuration.\<close>

definition run_update ::
  "service_env \<Rightarrow> (config \<Rightarrow> (source_error, config \<times> source_item) outcome) \<Rightarrow> config_service \<Rightarrow> files \<Rightarrow> source_service_result" where
  "run_update env change s fs =
     (let item = (case change (Get_config s) of Inr (_, it) \<Rightarrow> Some it | Inl _ \<Rightarrow> None);
          (err, s', fs', events) = Update env (Some (\<lambda>c. bind_ok (change c) (\<lambda>(c', _). Inr c'))) s fs
      in (case err of None \<Rightarrow> Inr item | Some e \<Rightarrow> Inl e, s', fs', events))"

definition Add_source :: "service_env \<Rightarrow> source_item \<Rightarrow> config_service \<Rightarrow> files \<Rightarrow> source_service_result" where
  "Add_source env item = run_update env (\<lambda>c. AddToConfig (env_now env) c item)"

definition AddURL :: "service_env \<Rightarrow> string \<Rightarrow> string option \<Rightarrow> config_service \<Rightarrow> files \<Rightarrow> source_service_result" where
  "AddURL env rawURL name =
     Add_source env \<lparr> src_ID = [], src_URL = rawURL, src_Name = (case name of None \<Rightarrow> [] | Some n \<Rightarrow> n),
                      src_Enabled = True, src_AddedAt = 0 \<rparr>"

definition Update_source ::
  "service_env \<Rightarrow> string \<Rightarrow> (source_item \<Rightarrow> (string, source_item) outcome) \<Rightarrow> config_service \<Rightarrow> files \<Rightarrow> source_service_result" where
  "Update_source env i mutate = run_update env (update_in_config i mutate)"

definition SetEnabled :: "service_env \<Rightarrow> string \<Rightarrow> bool \<Rightarrow> config_service \<Rightarrow> files \<Rightarrow> source_service_result" where
  "SetEnabled env i enabled = Update_source env i (\<lambda>item. Inr (item \<lparr> src_Enabled := enabled \<rparr>))"

definition Enable :: "service_env \<Rightarrow> string \<Rightarrow> config_service \<Rightarrow> files \<Rightarrow> source_service_result" where
  "Enable env i = SetEnabled env i True"

definition Disable :: "service_env \<Rightarrow> string \<Rightarrow> config_service \<Rightarrow> files \<Rightarrow> source_service_result" where
  "Disable env i = SetEnabled env i False"

definition Remove_source ::
  "service_env \<Rightarrow> string \<Rightarrow> config_service \<Rightarrow> files \<Rightarrow> source_error service_error option \<times> config_service \<times> files \<times> config_event list" where
  "Remove_source env i = Update env (Some (remove_from_config i))"

section \<open>The map of the sources\<close>

definition source_map :: "config \<Rightarrow> (string \<times> source_item) list" where
  "source_map c = map (\<lambda>s. (src_ID s, s)) (cf_Sources c)"

lemma source_map_of: "map_of (map (\<lambda>s. (src_ID s, s)) ss) i = find_source i ss"
  by (induction ss) auto

lemma source_index_Some:
  "source_index i ss = Some n \<Longrightarrow> n < length ss \<and> src_ID (ss ! n) = i \<and> (\<forall>m < n. src_ID (ss ! m) \<noteq> i)"
proof (induction ss arbitrary: n)
  case (Cons s ss)
  then show ?case by (cases n) (auto simp: nth_Cons split: if_splits nat.splits)
qed simp

lemma source_index_None: "source_index i ss = None \<longleftrightarrow> i \<notin> src_ID ` set ss"
  by (induction ss) auto

lemma remove_at_index:
  "source_index i ss = Some n \<Longrightarrow> distinct (map src_ID ss) \<Longrightarrow>
     map (\<lambda>s. (src_ID s, s)) (take n ss @ drop (Suc n) ss) = AList.delete i (map (\<lambda>s. (src_ID s, s)) ss)"
proof (induction ss arbitrary: n)
  case (Cons s ss)
  show ?case
  proof (cases "src_ID s = i")
    case True
    then have "AList.delete i (map (\<lambda>s. (src_ID s, s)) ss) = map (\<lambda>s. (src_ID s, s)) ss"
      using Cons.prems(2) by (auto simp: AList.delete_eq filter_id_conv)
    then show ?thesis using Cons.prems(1) True by simp
  next
    case False
    then show ?thesis using Cons by auto
  qed
qed simp

lemma update_at_index:
  "source_index i ss = Some n \<Longrightarrow> src_ID x = i \<Longrightarrow>
     map (\<lambda>s. (src_ID s, s)) (ss[n := x]) = AList.update i x (map (\<lambda>s. (src_ID s, s)) ss)"
  by (induction ss arbitrary: n) (auto split: if_splits)

lemma add_conflict_None:
  "add_conflict item ss = None \<Longrightarrow> src_ID item \<notin> src_ID ` set ss \<and> src_URL item \<notin> src_URL ` set ss"
  by (induction ss) (auto split: if_splits)

text \<open>C25: The three changes of the sources implement a map from identifiers to sources: adding inserts a
  source under an identifier and a URL that no source had, changing a source replaces the value of its
  identifier in place, removing deletes exactly this identifier and is refused for an unknown one and
  for the only one.
\<close>

theorem source_changes_refine_map:
  assumes "distinct (map src_ID (cf_Sources c))"
  shows "(\<forall>now item c' x. AddToConfig now c item = Inr (c', x) \<longrightarrow>
            source_map c' = source_map c @ [(src_ID x, x)] \<and> find_source (src_ID x) (cf_Sources c) = None
            \<and> src_URL x \<notin> src_URL ` set (cf_Sources c) \<and> NormalizeURL (src_URL item) = Inr (src_URL x))
    \<and> (\<forall>i mutate c' x. update_in_config i mutate c = Inr (c', x) \<longrightarrow>
            source_map c' = AList.update i x (source_map c) \<and> src_ID x = i \<and> find_source i (cf_Sources c) \<noteq> None)
    \<and> (\<forall>i. remove_from_config i c =
            (if find_source i (cf_Sources c) = None then Inl SourceNotFound
             else if length (cf_Sources c) = 1 then Inl CannotRemoveLast
             else Inr (c \<lparr> cf_Sources := map snd (AList.delete i (source_map c)) \<rparr>)))"
proof (intro conjI allI impI)
  fix now item c' x
  assume "AddToConfig now c item = Inr (c', x)"
  then obtain url y where u: "NormalizeURL (src_URL item) = Inr url" "add_conflict y (cf_Sources c) = None"
    "src_ID x = src_ID y" "src_URL x = src_URL y" "src_URL y = url" "c' = c \<lparr> cf_Sources := cf_Sources c @ [x] \<rparr>"
    by (auto simp: AddToConfig_def Let_def split: sum.splits option.splits)
  then show "source_map c' = source_map c @ [(src_ID x, x)]" by (simp add: source_map_def)
  show "find_source (src_ID x) (cf_Sources c) = None"
    using add_conflict_None [OF u(2)] u(3) source_map_of [of "cf_Sources c" "src_ID x"]
    by (simp add: map_of_eq_None_iff image_image flip: source_map_of)
  show "src_URL x \<notin> src_URL ` set (cf_Sources c)" "NormalizeURL (src_URL item) = Inr (src_URL x)"
    using add_conflict_None [OF u(2)] u by auto
next
  fix i mutate c' x
  assume "update_in_config i mutate c = Inr (c', x)"
  then obtain n where n: "source_index i (cf_Sources c) = Some n" "src_ID x = i"
    "c' = c \<lparr> cf_Sources := (cf_Sources c)[n := x] \<rparr>"
    by (auto simp: update_in_config_def Let_def bind_ok_eq_Inr split: option.splits sum.splits if_split_asm)
  then show "source_map c' = AList.update i x (source_map c)"
    using update_at_index [OF n(1,2)] by (simp add: source_map_def)
  show "src_ID x = i" by (rule n(2))
  have "i \<in> src_ID ` set (cf_Sources c)" using n(1) source_index_None [of i "cf_Sources c"] by auto
  then show "find_source i (cf_Sources c) \<noteq> None"
    by (simp add: map_of_eq_None_iff image_image flip: source_map_of)
next
  fix i
  have none: "find_source i (cf_Sources c) = None \<longleftrightarrow> source_index i (cf_Sources c) = None"
    by (simp add: map_of_eq_None_iff image_image source_index_None flip: source_map_of)
  show "remove_from_config i c =
            (if find_source i (cf_Sources c) = None then Inl SourceNotFound
             else if length (cf_Sources c) = 1 then Inl CannotRemoveLast
             else Inr (c \<lparr> cf_Sources := map snd (AList.delete i (source_map c)) \<rparr>))"
  proof (cases "source_index i (cf_Sources c)")
    case None
    then show ?thesis using none by (simp add: remove_from_config_def)
  next
    case (Some n)
    then have "length (cf_Sources c) \<noteq> 0" using source_index_Some [OF Some] by auto
    moreover have "map snd (AList.delete i (source_map c)) = take n (cf_Sources c) @ drop (Suc n) (cf_Sources c)"
      using remove_at_index [OF Some assms, symmetric] by (simp add: source_map_def comp_def)
    ultimately show ?thesis using Some none by (auto simp: remove_from_config_def le_Suc_eq)
  qed
qed

theorem source_changes_refine_map_witness:
  "remove_from_config ''a'' sample_valid = Inl CannotRemoveLast"
proof -
  have "distinct (map src_ID (cf_Sources sample_valid))" by (simp add: sample_facts(4))
  note refine = source_changes_refine_map [OF this, THEN conjunct2, THEN conjunct2, THEN spec, of "''a''"]
  obtain x where "cf_Sources sample_valid = [x]" "src_ID x = ''a''" using sample_facts(4) by auto
  then show ?thesis by (simp add: refine)
qed

end
