(* ===== verification/Remote.thy ===== *)
theory Remote
  imports GoUrl JsonValue Paths
begin

text \<open>
  Git remotes, \<open>internal/publisher/remote.go\<close>: parsing of the network forms of a remote, the normal form of
  a repository path, the identity that is the same for every protocol, and the comparison of two remotes.
  The regular expression of the SCP form is a matcher; error values say which check failed.
\<close>

datatype remote_error =
    EmptyRemote | LocalPath | InvalidURL | HasQuery | HasFragment | EncodedSeparator | AmbiguousPath
  | UnsupportedProtocol string | EmptyHost | InvalidPort string | InvalidSyntax
  | EmptyPath | SegmentSpace | Traversal string | BadEscape string | DotGitName

datatype remote_protocol = ProtocolSSH | ProtocolHTTPS | ProtocolHTTP

record git_remote =
  gr_Raw :: string
  gr_Protocol :: remote_protocol
  gr_User :: string
  gr_Host :: string
  gr_Port :: int
  gr_Path :: string

section \<open>The path of a repository\<close>

definition trim_slashes :: "string \<Rightarrow> string" where
  "trim_slashes s =
     (let slash = (\<lambda>c. c = CHR ''/'') in rev (dropWhile slash (rev (dropWhile slash s))))"

definition dot_git :: string where
  "dot_git = ''.git''"

text \<open>One segment: \<open>None\<close> if it is dropped.\<close>

definition check_segment :: "string \<Rightarrow> (remote_error, string option) outcome" where
  "check_segment seg =
     (if seg = [] then Inr None
      else if seg \<noteq> trim_space seg then Inl SegmentSpace
      else if to_lower seg \<in> set [''.'', ''..'', ''%2e'', ''%2e%2e''] then Inl (Traversal seg)
      else if CHR ''%'' \<in> set seg \<and> unescape seg encodePathSegment = None then Inl (BadEscape seg)
      else Inr (Some seg))"

fun valid_segments :: "string list \<Rightarrow> (remote_error, string list) outcome" where
  "valid_segments [] = Inr []"
| "valid_segments (seg # segs) =
     bind_ok (check_segment seg) (\<lambda>r. bind_ok (valid_segments segs) (\<lambda>vs.
       Inr (case r of Some s \<Rightarrow> s # vs | None \<Rightarrow> vs)))"

definition strip_dot_git :: "string \<Rightarrow> (remote_error, string) outcome" where
  "strip_dot_git lastSeg =
     (if lastSeg = dot_git then Inl DotGitName
      else if has_suffix lastSeg dot_git then
        let stripped = trim_suffix lastSeg dot_git
        in if stripped \<in> set [[], ''.'', ''..''] then Inl DotGitName
           else if stripped \<noteq> trim_space stripped then Inl SegmentSpace
           else Inr stripped
      else Inr lastSeg)"

definition normalizeRepoPath :: "string \<Rightarrow> (remote_error, string) outcome" where
  "normalizeRepoPath p =
     (let trimmed = trim_slashes (trim_space p) in
      if trimmed = [] then Inl EmptyPath
      else if str_contains (to_lower trimmed) ''%2f'' then Inl EncodedSeparator
      else
        bind_ok (valid_segments (split_byte CHR ''/'' trimmed)) (\<lambda>segs.
          if segs = [] then Inl EmptyPath
          else
            bind_ok (strip_dot_git (last segs)) (\<lambda>name.
              let norm = join_with ''/'' (butlast segs @ [name])
              in if norm = [] then Inl EmptyPath else Inr norm)))"

section \<open>Remotes\<close>

definition isDefaultPort :: "remote_protocol \<Rightarrow> int \<Rightarrow> bool" where
  "isDefaultPort proto port =
     (case proto of
        ProtocolSSH \<Rightarrow> port = 22 \<or> port = 0
      | ProtocolHTTPS \<Rightarrow> port = 443 \<or> port = 0
      | ProtocolHTTP \<Rightarrow> port = 80 \<or> port = 0)"

definition isDriveLetter :: "char \<Rightarrow> bool" where
  "isDriveLetter c = is_alpha c"

definition is_name_char :: "char \<Rightarrow> bool" where
  "is_name_char c = (is_alnum c \<or> c \<in> set ''_.-'')"

text \<open>The user, host and path of the SCP form.\<close>

definition scp_rest :: "string \<Rightarrow> string \<Rightarrow> (string \<times> string \<times> string) option" where
  "scp_rest user s =
     (let host = takeWhile is_name_char s; rest = drop (length host) s
      in if host \<noteq> [] \<and> has_prefix rest '':'' \<and> length rest > 1
            \<and> list_all (\<lambda>c. c \<notin> set [CHR '' '', CHR 0x09, CHR 0x0A, CHR 0x0C, CHR 0x0D]) rest
         then Some (user, host, drop 1 rest) else None)"

definition scp_parts :: "string \<Rightarrow> (string \<times> string \<times> string) option" where
  "scp_parts s =
     (let name = takeWhile is_name_char s; rest = drop (length name) s
      in if name \<noteq> [] \<and> has_prefix rest ''@'' then scp_rest name (drop 1 rest) else scp_rest [] s)"

definition is_local_form :: "string \<Rightarrow> bool" where
  "is_local_form s =
     (let bs = [CHR 0x5C] in
      list_ex (has_prefix s) [''/'', bs, ''./'', ''.'' @ bs, ''../'', ''..'' @ bs])"

definition protocol_of :: "string \<Rightarrow> (remote_protocol \<times> int) option" where
  "protocol_of scheme =
     (if scheme = ''ssh'' then Some (ProtocolSSH, 22)
      else if scheme = ''https'' then Some (ProtocolHTTPS, 443)
      else if scheme = ''http'' then Some (ProtocolHTTP, 80) else None)"

definition remote_port :: "string \<Rightarrow> int \<Rightarrow> (remote_error, int) outcome" where
  "remote_port portStr defaultPort =
     (if portStr = [] then Inr defaultPort
      else (case Atoi portStr of
              Some p \<Rightarrow> if p \<le> 0 \<or> p > 65535 then Inl (InvalidPort portStr) else Inr p
            | None \<Rightarrow> Inl (InvalidPort portStr)))"

definition parse_remote_uri :: "string \<Rightarrow> string \<Rightarrow> (remote_error, git_remote) outcome" where
  "parse_remote_uri raw trimmed =
     (case Parse_url trimmed of
        None \<Rightarrow> Inl InvalidURL
      | Some u \<Rightarrow>
          if u_RawQuery u \<noteq> [] then Inl HasQuery
          else if u_Fragment u \<noteq> [] then Inl HasFragment
          else if str_contains (to_lower trimmed) ''%2f'' then Inl EncodedSeparator
          else if u_RawPath u \<noteq> [] then Inl AmbiguousPath
          else
            (case protocol_of (to_lower (u_Scheme u)) of
               None \<Rightarrow> Inl (UnsupportedProtocol (u_Scheme u))
             | Some (proto, defaultPort) \<Rightarrow>
                 let host = to_lower (Hostname u) in
                 if host = [] then Inl EmptyHost
                 else
                   bind_ok (remote_port (Port u) defaultPort) (\<lambda>port.
                   bind_ok (normalizeRepoPath (u_Path u)) (\<lambda>path.
                     Inr \<lparr> gr_Raw = raw, gr_Protocol = proto,
                           gr_User = (case u_User u of Some i \<Rightarrow> ui_username i | None \<Rightarrow> []),
                           gr_Host = host, gr_Port = port, gr_Path = path \<rparr>))))"

definition ParseRemoteURL :: "string \<Rightarrow> (remote_error, git_remote) outcome" where
  "ParseRemoteURL raw =
     (let trimmed = trim_space raw in
      if trimmed = [] then Inl EmptyRemote
      else if is_local_form trimmed then Inl LocalPath
      else if str_contains trimmed ''://'' then parse_remote_uri raw trimmed
      else
        (case scp_parts trimmed of
           None \<Rightarrow> Inl InvalidSyntax
         | Some (user, host0, rawPath) \<Rightarrow>
             let host = to_lower host0 in
             if length host = 1 \<and> isDriveLetter (hd host) then Inl LocalPath
             else
               bind_ok (normalizeRepoPath rawPath) (\<lambda>path.
                 Inr \<lparr> gr_Raw = raw, gr_Protocol = ProtocolSSH, gr_User = user, gr_Host = host, gr_Port = 22,
                       gr_Path = path \<rparr>)))"

section \<open>Identity\<close>

definition CanonicalRemoteIdentity :: "string \<Rightarrow> (remote_error, string) outcome" where
  "CanonicalRemoteIdentity raw =
     bind_ok (ParseRemoteURL raw) (\<lambda>remote.
       let portPart = (if gr_Port remote > 0 \<and> \<not> isDefaultPort (gr_Protocol remote) (gr_Port remote)
                       then '':'' @ print_int (gr_Port remote) else [])
       in Inr (to_lower (gr_Host remote) @ portPart @ ''/'' @ gr_Path remote))"

definition isWindowsLocalPath :: "string \<Rightarrow> bool" where
  "isWindowsLocalPath p =
     (length p \<ge> 2 \<and> isDriveLetter (p ! 0) \<and> p ! 1 = CHR '':'' \<or> has_prefix p [CHR 0x5C, CHR 0x5C])"

definition isLocalTestPath :: "string \<Rightarrow> bool" where
  "isLocalTestPath p =
     (p \<noteq> [] \<and> (has_prefix p ''/'' \<or> has_prefix p [CHR 0x5C] \<or> has_prefix p ''.''
                 \<or> length p \<ge> 2 \<and> isDriveLetter (p ! 0) \<and> p ! 1 = CHR '':''))"

definition backslashed :: "string \<Rightarrow> string" where
  "backslashed s = map (\<lambda>c. if c = CHR ''/'' then CHR 0x5C else c) s"

definition SameRepository :: "string \<Rightarrow> string \<Rightarrow> bool" where
  "SameRepository remoteA remoteB =
     (let a = trim_space remoteA; b = trim_space remoteB in
      if a = [] \<or> b = [] then False
      else
        (case (CanonicalRemoteIdentity a, CanonicalRemoteIdentity b) of
           (Inr idA, Inr idB) \<Rightarrow> idA = idB
         | _ \<Rightarrow>
             if isLocalTestPath a \<and> isLocalTestPath b then
               (if isWindowsLocalPath a \<and> isWindowsLocalPath b
                then equal_fold (path_Clean (backslashed a)) (path_Clean (backslashed b))
                else if isWindowsLocalPath a \<or> isWindowsLocalPath b then False
                else path_Clean a = path_Clean b)
             else False))"

definition ValidateRemoteURL :: "string \<Rightarrow> remote_error option" where
  "ValidateRemoteURL raw = (case ParseRemoteURL raw of Inl e \<Rightarrow> Some e | Inr _ \<Rightarrow> None)"

section \<open>Names\<close>

text \<open>The bytes of the names in the theorem below are the ones of the SCP form.\<close>

lemma name_char_ne: "is_name_char c \<Longrightarrow> c \<notin> set ''/@:%[]?#+*!$&;,= ''"
proof -
  have "list_all (\<lambda>d. \<not> is_name_char d) ''/@:%[]?#+*!$&;,= ''" by code_simp
  then show "is_name_char c \<Longrightarrow> c \<notin> set ''/@:%[]?#+*!$&;,= ''" by (auto simp: list_all_iff)
qed

lemma name_char_facts:
  assumes "is_name_char c"
  shows "\<not> is_space c" "\<not> shouldEscape c mode" "\<not> (byte c < 32 \<or> byte c = 127)"
proof -
  have "list_all (\<lambda>d. \<not> is_space d \<and> \<not> (byte d < 32 \<or> byte d = 127)) ''_.-''" by code_simp
  then have marks: "\<forall>d\<in>set ''_.-''. \<not> is_space d \<and> \<not> (byte d < 32 \<or> byte d = 127)"
    by (simp only: list_all_iff)
  have "is_alnum c \<or> c \<in> set ''_.-''" using assms by (simp only: is_name_char_def)
  then have "\<not> is_space c \<and> \<not> (byte c < 32 \<or> byte c = 127)"
  proof
    assume "is_alnum c"
    then show ?thesis unfolding is_alnum_def is_space_def byte_def Let_def by linarith
  qed (rule bspec [OF marks])
  then show "\<not> is_space c" "\<not> (byte c < 32 \<or> byte c = 127)" by blast+
  have "list_all (\<lambda>m. list_all (\<lambda>d. \<not> shouldEscape d m) ''_.-'')
      [encodePath, encodePathSegment, encodeHost, encodeZone, encodeUserPassword, encodeQueryComponent,
       encodeFragment]" by code_simp
  then have "list_all (\<lambda>d. \<not> shouldEscape d mode) ''_.-''"
    unfolding list.pred_inject by (cases mode) (simp_all only: simp_thms)
  then have "\<forall>d\<in>set ''_.-''. \<not> shouldEscape d mode" by (simp only: list_all_iff)
  moreover have "is_alnum c \<Longrightarrow> \<not> shouldEscape c mode" by (simp add: shouldEscape_def)
  ultimately show "\<not> shouldEscape c mode" using assms unfolding is_name_char_def by blast
qed

lemma unescape_plain:
  "\<forall>c\<in>set s. c \<noteq> CHR ''%'' \<and> c \<noteq> CHR ''+'' \<and> \<not> shouldEscape c mode \<Longrightarrow> unescape s mode = Some s"
  by (induction s) auto

lemma escape_plain: "\<forall>c\<in>set s. \<not> shouldEscape c mode \<Longrightarrow> escape s mode = s"
  by (induction s) (auto simp: escape_def escape_byte_def)

lemma lower_char_mark: "lower_char c = d \<Longrightarrow> d \<in> {CHR ''.'', CHR ''%''} \<Longrightarrow> c = d"
proof (cases "65 \<le> (of_char c :: nat) \<and> of_char c \<le> (90 :: nat)")
  case True
  assume d: "lower_char c = d" "d \<in> {CHR ''.'', CHR ''%''}"
  then have "char_of (of_char c + 32 :: nat) = d" using True by (simp add: lower_char_def)
  then have "(of_char d :: nat) = of_char c + 32" using True by (auto simp: of_char_of)
  with d(2) True show ?thesis by auto
qed (auto simp: lower_char_def Let_def)

text \<open>What \<open>url.Parse\<close> makes of a network remote.\<close>

lemma parseHost_plain: "list_all is_name_char host \<Longrightarrow> parseHost host = Some host"
  using name_char_ne name_char_facts(2) [of _ encodeHost]
  by (subgoal_tac "CHR ''['' \<notin> set host \<and> CHR '':'' \<notin> set host")
     (auto simp: parseHost_def last_index_none list_all_iff unescape_plain)

lemma name_char_not:
  assumes "list_all is_name_char s" "d \<in> set ''/@:%[]?#+*!$&;,= ''"
  shows "d \<notin> set s"
  using assms name_char_ne by (auto simp only: list_all_iff)

lemma parseAuthority_plain:
  assumes "list_all is_name_char host"
  shows "parseAuthority host = Some (None, host)"
    "list_all is_name_char user \<Longrightarrow>
       parseAuthority (user @ ''@'' @ host) = Some (Some \<lparr> ui_username = user, ui_password = None \<rparr>, host)"
proof -
  show "parseAuthority host = Some (None, host)"
    using name_char_not [OF assms, of "CHR ''@''"] parseHost_plain [OF assms]
    by (simp add: parseAuthority_def last_index_none)
  assume user: "list_all is_name_char user"
  have "CHR ''@'' \<notin> set host" "CHR '':'' \<notin> set user" by (rule name_char_not [OF assms], simp) (rule name_char_not [OF user], simp)
  moreover have "list_all (\<lambda>c. is_alnum c \<or> c \<in> set ''-._'') user"
    using user by (auto simp: list_all_iff is_name_char_def)
  then have "validUserinfo user" unfolding validUserinfo_def by (auto simp: list_all_iff)
  moreover have "unescape user encodeUserPassword = Some user"
    using user name_char_ne name_char_facts(2) by (intro unescape_plain) (auto simp: list_all_iff)
  ultimately show "parseAuthority (user @ ''@'' @ host) = Some (Some \<lparr> ui_username = user, ui_password = None \<rparr>, host)"
    using last_index_append [of "CHR ''@''" host user] parseHost_plain [OF assms]
    by (simp add: parseAuthority_def)
qed

definition path_char :: "char \<Rightarrow> bool" where
  "path_char c = (is_name_char c \<or> c = CHR ''/'')"

lemma setPath_plain:
  assumes "list_all path_char path"
  shows "setPath path u = Some (u \<lparr> u_Path := path, u_RawPath := [] \<rparr>)"
proof -
  have slash: "\<not> shouldEscape CHR ''/'' encodePath" by code_simp
  have c: "c \<noteq> CHR ''%'' \<and> c \<noteq> CHR ''+'' \<and> \<not> shouldEscape c encodePath" if "c \<in> set path" for c
  proof (cases "c = CHR ''/''")
    case False
    then have "is_name_char c" using assms that unfolding list_all_iff path_char_def by blast
    then show ?thesis using name_char_ne [of c] name_char_facts(2) [of c] by auto
  qed (simp add: slash)
  then have "unescape path encodePath = Some path" "escape path encodePath = path"
    by (auto intro!: unescape_plain escape_plain)
  then show ?thesis by (simp add: setPath_def)
qed

definition network_schemes :: "string list" where
  "network_schemes = [''ssh'', ''https'', ''http'']"

lemma getScheme_network:
  assumes "scheme \<in> set network_schemes"
  shows "getScheme (scheme @ '':'' @ rest) = Some (scheme, rest)"
proof -
  have "scheme_length (scheme @ '':'' @ rest) 0 = Some (length scheme)"
    using assms by (auto simp: network_schemes_def is_alpha_def is_digit_def byte_def)
  moreover have "scheme \<noteq> []" using assms by (auto simp: network_schemes_def)
  ultimately show ?thesis by (simp add: getScheme_def)
qed

lemma parse_network_url:
  assumes "scheme \<in> set network_schemes" "list_all (\<lambda>c. is_name_char c \<or> c = CHR ''@'') authority"
    "parseAuthority authority = Some (user, host)" "list_all path_char path"
  shows "Parse_url (scheme @ ''://'' @ authority @ ''/'' @ path) =
    Some (empty_url \<lparr> u_Scheme := scheme, u_User := user, u_Host := host, u_Path := ''/'' @ path \<rparr>)"
proof -
  let ?rest = "''//'' @ authority @ ''/'' @ path"
  let ?raw = "scheme @ '':'' @ ?rest"
  have chars: "is_name_char c \<or> c \<in> set '':/@''" if "c \<in> set ?raw" for c
  proof -
    have "list_all (\<lambda>s. list_all is_name_char s) network_schemes" by code_simp
    then have "\<forall>c\<in>set scheme. is_name_char c" using assms(1) by (auto simp: list_all_iff)
    then show ?thesis using that assms(2,4) by (auto simp: list_all_iff path_char_def)
  qed
  have "\<not> (byte c < 32 \<or> byte c = 127)" if "c \<in> set ?raw" for c
    using chars [OF that] name_char_facts(3) [of c] by (auto simp: byte_def)
  then have ctl: "has_ctl_byte ?raw = False" by (auto simp: has_ctl_byte_def list_ex_iff)
  have absent: "CHR ''?'' \<notin> set ?raw" "CHR ''#'' \<notin> set ?raw" using chars name_char_ne by fastforce+
  have rest: "CHR ''?'' \<notin> set ?rest" using absent(1) by auto
  then have "filter (\<lambda>c. c = CHR ''?'') ?rest = []" unfolding filter_empty_conv by blast
  then have force: "(length (filter (\<lambda>c. c = CHR ''?'') ?rest) = 1) = False" by (simp only: list.size) simp
  note cut = cut_none [OF rest]
  have nonempty: "(?raw = []) = False" "(?raw = ''*'') = False" by simp_all
  have lower: "to_lower scheme = scheme" "scheme \<noteq> []"
    using assms(1) by (auto simp: network_schemes_def to_lower_def lower_char_def)
  have "CHR ''/'' \<notin> set authority" using assms(2) name_char_ne by (auto simp: list_all_iff)
  then have slash: "index_any (authority @ ''/'' @ path) ''/'' = Some (length authority)"
    using index_any_append [of "CHR ''/''" authority path] by simp
  have path: "list_all path_char (''/'' @ path)" using assms(4) by (simp add: path_char_def)
  have "parse_url ?raw False =
      Some (empty_url \<lparr> u_Scheme := scheme, u_User := user, u_Host := host, u_Path := ''/'' @ path \<rparr>)"
    unfolding parse_url_def ctl nonempty getScheme_network [OF assms(1)] option.case prod.case Let_def force cut
    using lower slash setPath_plain [OF path] by (simp add: assms(3) empty_url_def)
  then show ?thesis
    unfolding Parse_url_def using cut_none [OF absent(2)] by simp
qed

section \<open>The forms of one repository\<close>

text \<open>The names a repository path is made of, and the path with and without the suffix of a bare repository.\<close>

definition plain_segment :: "string \<Rightarrow> bool" where
  "plain_segment s = (s \<noteq> [] \<and> list_all is_name_char s \<and> s \<notin> {''.'', ''..''})"

definition plain_repo :: "string list \<Rightarrow> string \<Rightarrow> bool" where
  "plain_repo dirs name = (list_all plain_segment dirs \<and> plain_segment name \<and> \<not> has_suffix name dot_git)"

definition repo_path :: "string list \<Rightarrow> string \<Rightarrow> string" where
  "repo_path dirs name = join_with ''/'' (dirs @ [name])"

lemma lower_mark:
  assumes "to_lower s = t" "set t \<subseteq> {CHR ''.'', CHR ''%''}"
  shows "s = t"
  using assms lower_char_mark unfolding to_lower_def
  by (induction s arbitrary: t) auto

lemma no_percent:
  assumes "CHR ''%'' \<notin> set s"
  shows "CHR ''%'' \<notin> set (to_lower s)"
proof
  assume "CHR ''%'' \<in> set (to_lower s)"
  then obtain c where c: "c \<in> set s" "lower_char c = CHR ''%''" unfolding to_lower_def by force
  have "c = CHR ''%''" by (rule lower_char_mark [OF c(2)]) (rule insertI2, rule insertI1)
  with c(1) assms show False by simp
qed

lemma check_plain:
  assumes "s \<noteq> []" "list_all is_name_char s" "s \<notin> {''.'', ''..''}"
  shows "check_segment s = Inr (Some s)"
proof -
  have spaces: "trim_space s = s" using assms(2) name_char_facts(1) by (auto simp: list_all_iff intro: trim_space_none)
  have percent: "CHR ''%'' \<notin> set s" by (rule name_char_not [OF assms(2)]) simp
  have "to_lower s \<noteq> ''.''" "to_lower s \<noteq> ''..''" using assms(3) lower_mark [of s] by auto
  moreover have "to_lower s \<noteq> ''%2e''" "to_lower s \<noteq> ''%2e%2e''" using no_percent [OF percent] by auto
  ultimately show ?thesis using assms(1) spaces percent by (simp add: check_segment_def)
qed

lemma check_plain_segment: "plain_segment s \<Longrightarrow> check_segment s = Inr (Some s)"
  by (auto simp: plain_segment_def intro: check_plain)

lemma valid_plain_segments:
  "\<forall>s\<in>set segs. check_segment s = Inr (Some s) \<Longrightarrow> valid_segments segs = Inr segs"
  by (induction segs) auto

lemma trim_slashes_inner:
  assumes "a \<noteq> CHR ''/''" "b \<noteq> CHR ''/''" "s = a # t" "s = u @ [b]"
  shows "trim_slashes s = s" "trim_slashes (CHR ''/'' # s) = s"
proof -
  have "dropWhile (\<lambda>c. c = CHR ''/'') s = s" using assms(1,3) by simp
  moreover have "dropWhile (\<lambda>c. c = CHR ''/'') (rev s) = rev s" using assms(2,4) by simp
  ultimately show "trim_slashes s = s" "trim_slashes (CHR ''/'' # s) = s" by (simp_all add: trim_slashes_def)
qed

text \<open>A path whose segments all pass is kept, but for the suffix of its last segment.\<close>

lemma normalize_segments:
  assumes "list_all plain_segment dirs" "lastSeg \<noteq> []" "list_all is_name_char lastSeg" "lastSeg \<notin> {''.'', ''..''}"
    "strip_dot_git lastSeg = Inr name" "name \<noteq> []"
  shows "normalizeRepoPath (repo_path dirs lastSeg) = Inr (repo_path dirs name)"
    "normalizeRepoPath (''/'' @ repo_path dirs lastSeg) = Inr (repo_path dirs name)"
proof -
  let ?segs = "dirs @ [lastSeg]"
  let ?p = "repo_path dirs lastSeg"
  have seg: "s \<noteq> [] \<and> list_all is_name_char s" if "s \<in> set ?segs" for s
    using that assms(1-3) by (auto simp: list_all_iff plain_segment_def)
  have slash: "\<forall>s\<in>set ?segs. CHR ''/'' \<notin> set s"
  proof
    fix s assume "s \<in> set ?segs"
    from name_char_not [OF conjunct2 [OF seg [OF this]], of "CHR ''/''"] show "CHR ''/'' \<notin> set s" by simp
  qed
  have chars: "is_name_char c \<or> c = CHR ''/''" if "c \<in> set ?p" for c
    using that seg unfolding repo_path_def set_join by (auto simp: list_all_iff split: if_splits)
  have sp: "\<not> is_space CHR ''/''" by code_simp
  have spaces: "trim_space ?p = ?p" "trim_space (''/'' @ ?p) = ''/'' @ ?p"
  proof -
    have "\<not> is_space c" if "c \<in> set ?p" for c using chars [OF that] name_char_facts(1) sp by blast
    then show "trim_space ?p = ?p" "trim_space (''/'' @ ?p) = ''/'' @ ?p" using sp by (auto intro!: trim_space_none)
  qed
  have "hd ?segs \<in> set ?segs" by (rule hd_in_set) simp
  with seg [of "hd ?segs"] obtain a t where hd: "hd ?segs = a # t" by (metis list.exhaust)
  then have a: "a \<noteq> CHR ''/''" using slash list.set_sel(1) [of ?segs] by (metis append_is_Nil_conv list.set_intros(1) not_Cons_self2)
  obtain u b where lst: "lastSeg = u @ [b]" using assms(2) by (cases lastSeg rule: rev_cases) auto
  then have b: "b \<noteq> CHR ''/''" using slash by auto
  have "\<exists>t. ?p = a # t" unfolding repo_path_def using hd by (cases dirs; cases "tl dirs") auto
  moreover have "\<exists>u. ?p = u @ [b]" unfolding repo_path_def lst
  proof (induction dirs)
    case (Cons d ds)
    then obtain u' where "join_with ''/'' (ds @ [u @ [b]]) = u' @ [b]" by blast
    then show ?case by (cases "ds @ [u @ [b]]") auto
  qed simp
  ultimately obtain t' u' where p: "?p = a # t'" "?p = u' @ [b]" by blast
  note trim = trim_slashes_inner [OF a b p]
  have "CHR ''%'' \<notin> set ?p" using chars name_char_ne by fastforce
  then have encoded: "\<not> str_contains (to_lower ?p) ''%2f''" using no_percent by (fastforce simp: str_contains_iff)
  have split: "split_byte CHR ''/'' ?p = ?segs" unfolding repo_path_def by (rule split_join [OF slash]) simp
  have valid: "valid_segments ?segs = Inr ?segs"
    using assms(1-4) by (intro valid_plain_segments) (auto simp: list_all_iff check_plain_segment check_plain)
  have ne: "repo_path dirs name \<noteq> []" using assms(6) join_with_eq_Nil [of "CHR ''/''" "dirs @ [name]"]
    by (auto simp: repo_path_def)
  have p_ne: "?p \<noteq> []" using p(1) by simp
  have core: "normalizeRepoPath q = Inr (repo_path dirs name)" if "trim_slashes (trim_space q) = ?p" for q
    unfolding normalizeRepoPath_def that Let_def split valid bind_ok_simps
    using encoded p_ne ne by (simp add: assms(5) repo_path_def)
  show "normalizeRepoPath ?p = Inr (repo_path dirs name)" by (rule core) (simp only: spaces trim)
  show "normalizeRepoPath (''/'' @ ?p) = Inr (repo_path dirs name)" by (rule core) (simp add: spaces [simplified] trim)
qed

lemma has_suffix_append: "has_suffix (s @ t) t"
  by (simp add: has_suffix_def)

lemma plain_name_forms:
  assumes "plain_segment name" "\<not> has_suffix name dot_git"
  shows "strip_dot_git name = Inr name" "strip_dot_git (name @ dot_git) = Inr name"
    "name @ dot_git \<noteq> []" "list_all is_name_char (name @ dot_git)" "name @ dot_git \<notin> {''.'', ''..''}"
proof -
  have name: "name \<noteq> []" "list_all is_name_char name" "name \<notin> {''.'', ''..''}"
    using assms(1) by (simp_all add: plain_segment_def)
  have git: "list_all is_name_char dot_git" by code_simp
  have spaces: "trim_space name = name"
    using name(2) name_char_facts(1) by (auto simp: list_all_iff intro: trim_space_none)
  show "strip_dot_git name = Inr name"
    using assms(2) has_suffix_append [of "[]" dot_git] by (auto simp: strip_dot_git_def)
  show "strip_dot_git (name @ dot_git) = Inr name"
    using name spaces has_suffix_append [of name dot_git] by (auto simp: strip_dot_git_def trim_suffix_def Let_def)
  show "name @ dot_git \<noteq> []" "list_all is_name_char (name @ dot_git)" using name git by simp_all
  show "name @ dot_git \<notin> {''.'', ''..''}" by (cases name; cases "tl name") (auto simp: dot_git_def)
qed

lemma repo_path_hd:
  assumes "list_all plain_segment dirs" "lastSeg \<noteq> []" "list_all is_name_char lastSeg"
  shows "\<exists>a t. repo_path dirs lastSeg = a # t \<and> a \<noteq> CHR ''/''"
proof -
  have slash: "a \<noteq> CHR ''/''" if "list_all is_name_char (a # t)" for a t
    using name_char_not [OF that, of "CHR ''/''"] by auto
  show ?thesis
  proof (cases dirs)
    case Nil
    then show ?thesis using assms(2,3) slash by (cases lastSeg) (auto simp: repo_path_def)
  next
    case (Cons d ds)
    then have "d \<noteq> []" "list_all is_name_char d" using assms(1) by (simp_all add: plain_segment_def)
    then obtain a u where "d = a # u" "a \<noteq> CHR ''/''" using slash by (cases d) auto
    then show ?thesis using Cons by (cases "ds @ [lastSeg]") (auto simp: repo_path_def)
  qed
qed

lemma repo_path_chars:
  assumes "list_all plain_segment dirs" "list_all is_name_char lastSeg"
  shows "list_all path_char (repo_path dirs lastSeg)"
  using assms unfolding repo_path_def list_all_iff set_join by (auto simp: plain_segment_def path_char_def list_all_iff)

lemma lower_char_idem: "lower_char (lower_char c) = lower_char c"
proof (cases "65 \<le> (of_char c :: nat) \<and> of_char c \<le> (90 :: nat)")
  case True
  then have "(of_char (char_of (of_char c + 32 :: nat)) :: nat) = of_char c + 32" by (simp add: of_char_of)
  with True show ?thesis by (simp add: lower_char_def)
qed (auto simp: lower_char_def Let_def)

text \<open>The identity of a network URL.\<close>

lemma uri_identity:
  assumes "scheme \<in> set network_schemes" "list_all (\<lambda>c. is_name_char c \<or> c = CHR ''@'') authority"
    "parseAuthority authority = Some (user, host)" "host \<noteq> []" "list_all is_name_char host"
    "list_all path_char path" "normalizeRepoPath (''/'' @ path) = Inr canon"
  shows "CanonicalRemoteIdentity (scheme @ ''://'' @ authority @ ''/'' @ path) = Inr (to_lower host @ ''/'' @ canon)
    \<and> trim_space (scheme @ ''://'' @ authority @ ''/'' @ path) = scheme @ ''://'' @ authority @ ''/'' @ path"
proof -
  let ?raw = "scheme @ ''://'' @ authority @ ''/'' @ path"
  have chars: "is_name_char c \<or> c \<in> set '':/@''" if "c \<in> set ?raw" for c
  proof -
    have "list_all (\<lambda>s. list_all is_name_char s) network_schemes" by code_simp
    then have "\<forall>c\<in>set scheme. is_name_char c" using assms(1) by (auto simp: list_all_iff)
    then show ?thesis using that assms(2,6) by (auto simp: list_all_iff path_char_def)
  qed
  have marks: "list_all (\<lambda>c. \<not> is_space c) '':/@''" by code_simp
  have "\<not> is_space c" if "c \<in> set ?raw" for c
    using chars [OF that] name_char_facts(1) marks unfolding list_all_iff by blast
  then have spaces: "trim_space ?raw = ?raw" by (blast intro: trim_space_none)
  have "CHR ''%'' \<notin> set ?raw" using chars name_char_ne by fastforce
  then have encoded: "\<not> str_contains (to_lower ?raw) ''%2f''" using no_percent by (fastforce simp: str_contains_iff)
  have "list_all (\<lambda>s. s \<noteq> [] \<and> \<not> is_local_form s \<and> is_alpha (hd s) \<and> protocol_of (to_lower s) \<noteq> None) network_schemes"
    by code_simp
  then have scheme: "scheme \<noteq> []" "is_alpha (hd scheme)" "protocol_of (to_lower scheme) \<noteq> None"
    using assms(1) by (auto simp: list_all_iff)
  have "\<not> is_alpha CHR ''/'' \<and> \<not> is_alpha CHR 0x5C \<and> \<not> is_alpha CHR ''.''" by code_simp
  then have local_form: "\<not> is_local_form ?raw" using scheme(1,2) by (cases scheme) (auto simp: is_local_form_def Let_def)
  have uri: "str_contains ?raw ''://''" by (auto simp: str_contains_iff)
  obtain proto port where proto: "protocol_of (to_lower scheme) = Some (proto, port)" "isDefaultPort proto port"
    using assms(1) by (auto simp: network_schemes_def protocol_of_def to_lower_def lower_char_def isDefaultPort_def)
  have "CHR '':'' \<notin> set host" "CHR ''['' \<notin> set host" by (rule name_char_not [OF assms(5)], simp)+
  moreover have "\<not> has_prefix host ''[''" using calculation(2) by (cases host) auto
  ultimately have host: "split_host_port host = (host, [])" by (simp add: split_host_port_def last_index_none)
  have lower: "to_lower host \<noteq> []" "to_lower (to_lower host) = to_lower host"
    using assms(4) by (simp_all add: to_lower_def lower_char_idem)
  have "CanonicalRemoteIdentity (?raw) = Inr (to_lower host @ ''/'' @ canon)"
    unfolding CanonicalRemoteIdentity_def ParseRemoteURL_def spaces Let_def parse_remote_uri_def
      parse_network_url [OF assms(1-3,6)] option.case
    using local_form uri encoded lower host proto assms(7) scheme(1)
    by (simp add: empty_url_def Hostname_def Port_def remote_port_def)
  then show ?thesis using spaces by blast
qed

text \<open>The identity of the SCP form.\<close>

lemma take_name:
  "list_all is_name_char s \<Longrightarrow> \<not> is_name_char c \<Longrightarrow> takeWhile is_name_char (s @ c # t) = s"
  by (induction s) auto

lemma scp_not_local:
  assumes "user \<noteq> []" "list_all is_name_char user"
  shows "\<not> is_local_form (user @ ''@'' @ rest)"
proof -
  have bad: "list_all (\<lambda>d. \<not> is_name_char d) [CHR ''/'', CHR 0x5C]" by code_simp
  obtain a u where u: "user = a # u" using assms(1) by (cases user) auto
  show ?thesis
    using assms(2) bad unfolding u by (cases u; cases "tl u") (auto simp: is_local_form_def Let_def)
qed

lemma scp_identity:
  assumes user: "user \<noteq> []" "list_all is_name_char user" and host: "length host > 1" "list_all is_name_char host"
    and path: "list_all path_char path" "path = a # t" "a \<noteq> CHR ''/''" "normalizeRepoPath path = Inr canon"
  shows "CanonicalRemoteIdentity (user @ ''@'' @ host @ '':'' @ path) = Inr (to_lower host @ ''/'' @ canon)
    \<and> trim_space (user @ ''@'' @ host @ '':'' @ path) = user @ ''@'' @ host @ '':'' @ path"
proof -
  let ?front = "user @ ''@'' @ host"
  let ?raw = "user @ ''@'' @ host @ '':'' @ path"
  have chars: "is_name_char c \<or> c \<in> set '':/@''" if "c \<in> set ?raw" for c
    using that user(2) host(2) path(1) by (auto simp: list_all_iff path_char_def)
  have spaces_not: "list_all (\<lambda>d. \<not> is_name_char d \<and> d \<notin> set '':/@'') [CHR '' '', CHR 0x09, CHR 0x0A, CHR 0x0C, CHR 0x0D]"
    "list_all (\<lambda>c. \<not> is_space c) '':/@''" "\<not> is_name_char CHR ''@''" "\<not> is_name_char CHR '':''" by code_simp+
  have "\<not> is_space c" if "c \<in> set ?raw" for c
    using chars [OF that] name_char_facts(1) spaces_not(2) unfolding list_all_iff by blast
  then have spaces: "trim_space ?raw = ?raw" by (blast intro: trim_space_none)
  have colon: "CHR '':'' \<notin> set ?front" "CHR '':'' \<notin> set path"
    using user(2) host(2) path(1) spaces_not(4) by (auto simp: list_all_iff path_char_def)
  have uri: "\<not> str_contains ?raw ''://''"
  proof
    assume "str_contains ?raw ''://''"
    then obtain u v where "?front @ CHR '':'' # path = u @ CHR '':'' # ''//'' @ v" by (auto simp: str_contains_iff)
    then have "path = ''//'' @ v" using append_Cons_eq_iff [OF colon] by blast
    with path(2,3) show False by simp
  qed
  have solid: "list_all (\<lambda>c. c \<notin> set [CHR '' '', CHR 0x09, CHR 0x0A, CHR 0x0C, CHR 0x0D]) ('':'' @ path)"
  proof -
    have "c \<notin> set [CHR '' '', CHR 0x09, CHR 0x0A, CHR 0x0C, CHR 0x0D]" if "c \<in> set ('':'' @ path)" for c
      using chars [of c] that spaces_not(1) unfolding list_all_iff by auto
    then show ?thesis by (simp only: list_all_iff) blast
  qed
  have "scp_rest user (host @ '':'' @ path) = Some (user, host, path)"
    using take_name [OF host(2) spaces_not(4), of path] host(1) path(2) solid
    unfolding scp_rest_def Let_def by auto
  then have parts: "scp_parts ?raw = Some (user, host, path)"
    using take_name [OF user(2) spaces_not(3), of "host @ '':'' @ path"] user(1) by (simp add: scp_parts_def Let_def)
  have lower: "length (to_lower host) \<noteq> 1" "to_lower (to_lower host) = to_lower host"
    using host(1) by (simp_all add: to_lower_def lower_char_idem)
  have "CanonicalRemoteIdentity (?raw) = Inr (to_lower host @ ''/'' @ canon)"
    unfolding CanonicalRemoteIdentity_def ParseRemoteURL_def spaces Let_def parts option.case prod.case
    using scp_not_local [OF user, of "host @ '':'' @ path"] uri lower path(4) user(1) by (simp add: isDefaultPort_def)
  then show ?thesis using spaces by blast
qed

lemma same_identity:
  assumes "CanonicalRemoteIdentity a = Inr i" "CanonicalRemoteIdentity b = Inr i" "trim_space a = a" "trim_space b = b"
    "a \<noteq> []" "b \<noteq> []"
  shows "SameRepository a b"
  using assms by (simp add: SameRepository_def)

text \<open>C39: The forms in which a repository is written identify it alike: the SCP form with the suffix \<open>.git\<close>, and
  the URL of any of the three protocols, with or without a user and with or without the suffix, are the same
  repository, whose identity is the host in small letters and the path.\<close>

theorem remote_forms_agree:
  assumes "user \<noteq> []" "list_all is_name_char user" "length host > 1" "list_all is_name_char host"
    "plain_repo dirs name" "scheme \<in> set network_schemes"
  shows "CanonicalRemoteIdentity (user @ ''@'' @ host @ '':'' @ repo_path dirs (name @ dot_git))
      = Inr (to_lower host @ ''/'' @ repo_path dirs name)
    \<and> SameRepository (user @ ''@'' @ host @ '':'' @ repo_path dirs (name @ dot_git))
        (scheme @ ''://'' @ host @ ''/'' @ repo_path dirs name)
    \<and> SameRepository (user @ ''@'' @ host @ '':'' @ repo_path dirs (name @ dot_git))
        (scheme @ ''://'' @ user @ ''@'' @ host @ ''/'' @ repo_path dirs (name @ dot_git))"
proof -
  have dirs: "list_all plain_segment dirs" and name: "plain_segment name" "\<not> has_suffix name dot_git"
    using assms(5) by (simp_all add: plain_repo_def)
  note forms = plain_name_forms [OF name]
  have parts: "name \<noteq> []" "list_all is_name_char name" "name \<notin> {''.'', ''..''}"
    using name(1) by (simp_all add: plain_segment_def)
  note git = normalize_segments [OF dirs forms(3-5) forms(2) parts(1)]
  note bare = normalize_segments [OF dirs parts forms(1) parts(1)]
  note chars = repo_path_chars [OF dirs forms(4)] repo_path_chars [OF dirs parts(2)]
  have ne: "host \<noteq> []" using assms(3) by auto
  obtain a t where path: "repo_path dirs (name @ dot_git) = a # t" "a \<noteq> CHR ''/''"
    using repo_path_hd [OF dirs forms(3,4)] by blast
  note scp = scp_identity [OF assms(1-4) chars(1) path git(1)]
  have hosts: "list_all (\<lambda>c. is_name_char c \<or> c = CHR ''@'') host"
    "list_all (\<lambda>c. is_name_char c \<or> c = CHR ''@'') (user @ ''@'' @ host)"
    using assms(2,4) by (auto simp: list_all_iff)
  note url = uri_identity [OF assms(6) hosts(1) parseAuthority_plain(1) [OF assms(4)] ne assms(4) chars(2) bare(2)]
  note with_user = uri_identity [OF assms(6) hosts(2) parseAuthority_plain(2) [OF assms(4,2)] ne assms(4) chars(1) git(2)]
  have "scheme \<noteq> []" using assms(6) by (auto simp: network_schemes_def)
  then show ?thesis
    using scp url with_user assms(1) by (auto intro!: same_identity)
qed

lemma remote_forms_agree_witness:
  "SameRepository ''git@GitHub.com:owner/subs.git'' ''https://GitHub.com/owner/subs''"
proof -
  have "list_all is_name_char ''git''" "list_all is_name_char ''GitHub.com''" "plain_repo [''owner''] ''subs''"
    "''https'' \<in> set network_schemes" by code_simp+
  with remote_forms_agree [of "''git''" "''GitHub.com''" "[''owner'']" "''subs''" "''https''"]
  show ?thesis by (simp add: repo_path_def dot_git_def)
qed

text \<open>An address with a port and the longer address without one have the same identity.\<close>

lemma ipv6_identity_clash: "SameRepository ''https://[::1:2222]/a'' ''https://[::1]:2222/a''"
  by code_simp

end
