(* ===== verification/Transport.thy ===== *)
theory Transport
  imports StoreTypes JsonText GoUrl GoNumbers Paths
begin

text \<open>
  The transport health probe, \<open>internal/tester/transport/probe.go\<close>, with what it shares with the rest of
  the tester: errors as Go's \<open>errors\<close> package inspects them, HTTP headers, the \<open>Retry-After\<close> header
  (\<open>textutil/retry_after.go\<close>) and \<open>ClassifyDialError\<close> of \<open>tester/classifier.go\<close>. What the network
  answers is a parameter of the probe.
\<close>

section \<open>Errors and responses\<close>

text \<open>
  What the code can see of an error: its text, whether \<open>errors.Is\<close> finds the cancellation or the deadline of
  a context in its chain, and the \<open>syscall.Errno\<close> in it. Wrapping with \<open>%w\<close> changes the text only.
\<close>

record go_error =
  ge_Text :: string
  ge_Canceled :: bool
  ge_Deadline :: bool
  ge_Errno :: "int option"

definition new_error :: "string \<Rightarrow> go_error" where
  "new_error text = \<lparr> ge_Text = text, ge_Canceled = False, ge_Deadline = False, ge_Errno = None \<rparr>"

definition wrap_error :: "string \<Rightarrow> go_error \<Rightarrow> go_error" where
  "wrap_error prefix e = e \<lparr> ge_Text := prefix @ ge_Text e \<rparr>"

datatype ctx_err = NotDone | CtxCanceled | CtxDeadline

text \<open>A header maps canonical names to values; \<open>Get\<close> returns the first one.\<close>

type_synonym header = "(string \<times> string list) list"

definition header_get :: "header \<Rightarrow> string \<Rightarrow> string" where
  "header_get h name = (case map_of h name of Some (v # _) \<Rightarrow> v | _ \<Rightarrow> [])"

record http_response =
  hr_StatusCode :: int
  hr_Header :: header
  hr_CookieDomains :: "string list"
  hr_URLPath :: "string option"

datatype http_outcome =
    RequestInvalid go_error
  | RoundTripFailed go_error
  | Responded http_response

definition go_int64 :: "int \<Rightarrow> int" where
  "go_int64 n = sint (word_of_int n :: 64 word)"

definition second :: duration where
  "second = 1000000000"

text \<open>
  \<open>ParseRetryAfter\<close>: the seconds are multiplied in 64 bits. The current time and \<open>http.ParseTime\<close> are
  parameters.
\<close>

record clock =
  ck_Now :: time
  ck_ParseTime :: "string \<Rightarrow> time option"

text \<open>A clock for the examples.\<close>

definition example_clock :: clock where
  "example_clock = \<lparr> ck_Now = 0, ck_ParseTime = (\<lambda>_. None) \<rparr>"

definition ParseRetryAfter :: "clock \<Rightarrow> string \<Rightarrow> duration option" where
  "ParseRetryAfter ck header0 =
     (let header = trim_space header0;
          date = (case ck_ParseTime ck header of
                    Some t \<Rightarrow> let d = t - ck_Now ck in Some (if d < 0 then 0 else d)
                  | None \<Rightarrow> None)
      in if header = [] then None
         else (case Atoi header of
                 Some sec \<Rightarrow> if sec \<ge> 0 then Some (go_int64 (sec * second)) else date
               | None \<Rightarrow> date))"

definition clampLatency :: "duration \<Rightarrow> duration" where
  "clampLatency d = (if d \<le> 0 then 1 else d)"

section \<open>Classifying transport errors\<close>

definition ECONNREFUSED :: int where
  "ECONNREFUSED = 111"

definition IsConnectionRefused :: "go_error option \<Rightarrow> bool" where
  "IsConnectionRefused err =
     (case err of
        None \<Rightarrow> False
      | Some e \<Rightarrow>
          ge_Errno e = Some ECONNREFUSED \<or> ge_Errno e = Some 10061
          \<or> (let lower = to_lower (ge_Text e)
             in str_contains lower ''connection refused'' \<or> str_contains lower ''actively refused''))"

definition contains_any :: "string \<Rightarrow> string list \<Rightarrow> bool" where
  "contains_any s needles = list_ex (str_contains s) needles"

definition timeout_texts :: "string list" where
  "timeout_texts = [''i/o timeout'', ''context deadline exceeded'', ''client.timeout exceeded'']"

definition tls_texts :: "string list" where
  "tls_texts = [''tls: handshake failure'', ''remote error: tls'', ''x509:'']"

definition reset_texts :: "string list" where
  "reset_texts = [''eof'', ''reset by peer'', ''broken pipe'', ''server closed idle connection'']"

definition classifyDialError :: "go_error option \<Rightarrow> ctx_err \<Rightarrow> error_category" where
  "classifyDialError err ctx =
     (case err of
        None \<Rightarrow> ErrNone
      | Some e \<Rightarrow>
          if ge_Canceled e \<or> ctx = CtxCanceled then ErrTimeout
          else if ge_Deadline e \<or> ctx = CtxDeadline then ErrTimeout
          else
            let errStr = ge_Text e; lower = to_lower errStr in
            if str_contains errStr ''unexpected HTTP response status: 429'' \<or> str_contains errStr ''status: 429''
            then ErrProxyRateLimited
            else if IsConnectionRefused err then ErrConnRefused
            else if contains_any lower timeout_texts then ErrTimeout
            else if str_contains lower ''reality verification failed'' then ErrReality
            else if contains_any lower tls_texts then ErrTLS
            else if contains_any lower reset_texts then ErrReset
            else if contains_any lower [''utls'', ''fingerprint''] then ErrConfig
            else ErrProxyError)"

record classification =
  cr_Status :: status
  cr_Category :: error_category
  cr_StatusCode :: int
  cr_Reason :: string
  cr_Retryable :: bool
  cr_TransportOK :: bool
  cr_TransportLatency :: duration
  cr_TransportEvidenceKnown :: bool
  cr_Jitter :: duration
  cr_Services :: services

definition zero_classification :: classification where
  "zero_classification =
     \<lparr> cr_Status = NoStatus, cr_Category = NoCategory, cr_StatusCode = 0, cr_Reason = [], cr_Retryable = False,
       cr_TransportOK = False, cr_TransportLatency = 0, cr_TransportEvidenceKnown = False, cr_Jitter = 0,
       cr_Services = [] \<rparr>"

definition classified :: "status \<Rightarrow> error_category \<Rightarrow> int \<Rightarrow> string \<Rightarrow> bool \<Rightarrow> classification" where
  "classified st cat code reason retryable =
     zero_classification \<lparr> cr_Status := st, cr_Category := cat, cr_StatusCode := code, cr_Reason := reason,
                           cr_Retryable := retryable \<rparr>"

definition ClassifyDialError :: "go_error option \<Rightarrow> classification" where
  "ClassifyDialError err =
     (case err of
        None \<Rightarrow> classified StatusPassed ErrNone 0 ''ok'' False
      | Some e \<Rightarrow>
          let errStr = ge_Text e; lower = to_lower errStr in
          if str_contains errStr ''unexpected HTTP response status: 429'' \<or> str_contains errStr ''status: 429''
          then classified StatusInconclusive ErrProxyRateLimited 429 ''proxy tunnel CDN returned HTTP 429'' True
          else if str_contains errStr ''unexpected HTTP response status: 503'' \<or> str_contains errStr ''status: 503''
          then classified StatusInconclusive ErrProxyError 503
                 ''proxy tunnel CDN returned HTTP 503 (service unavailable)'' True
          else if str_contains errStr ''unexpected HTTP response status: 403''
          then classified StatusFailed ErrProxyError 403 ''proxy tunnel CDN returned HTTP 403 (forbidden)'' False
          else if str_contains errStr ''unexpected HTTP response status:''
          then classified StatusFailed ErrProxyError 0 errStr False
          else if IsConnectionRefused err then classified StatusFailed ErrConnRefused 0 ''connection refused'' False
          else if ge_Canceled e then classified StatusInconclusive ErrTimeout 0 ''context canceled'' False
          else if contains_any lower timeout_texts then classified StatusFailed ErrTimeout 0 ''timeout'' False
          else if str_contains lower ''reality verification failed''
          then classified StatusFailed ErrReality 0 ''reality verification failed'' False
          else if contains_any lower tls_texts then classified StatusFailed ErrTLS 0 errStr False
          else if contains_any lower reset_texts then classified StatusFailed ErrReset 0 ''connection reset / EOF'' False
          else if contains_any lower [''utls'', ''fingerprint''] then classified StatusFailed ErrConfig 0 errStr False
          else classified StatusFailed ErrProxyError 0 errStr False)"

section \<open>The health probe\<close>

definition DefaultHealthURL :: string where
  "DefaultHealthURL = ''https://www.gstatic.com/generate_204''"

record transport_result =
  tp_OK :: bool
  tp_Latency :: duration
  tp_StatusCode :: int
  tp_Category :: error_category
  tp_Error :: "go_error option"
  tp_RetryAfter :: "duration option"

definition isGenerate204URL :: "string \<Rightarrow> bool" where
  "isGenerate204URL rawURL =
     (rawURL = [] \<or> rawURL = DefaultHealthURL
      \<or> (case Parse_url rawURL of
           None \<Rightarrow> False
         | Some u \<Rightarrow> let cleanPath = path_Clean (u_Path u)
                     in cleanPath = ''/generate_204'' \<or> cleanPath = ''/gen_204''))"

definition isExpectedSuccess :: "int \<Rightarrow> string \<Rightarrow> bool" where
  "isExpectedSuccess statusCode healthURL =
     (if isGenerate204URL healthURL then statusCode = 204 else 200 \<le> statusCode \<and> statusCode < 300)"

text \<open>
  The outcome of the request, the time it took and the state of the probe's context after it are what the
  environment contributes; redirects are not followed.
\<close>

record probe_reply =
  pr_Outcome :: http_outcome
  pr_Elapsed :: duration
  pr_Ctx :: ctx_err

definition failed_probe :: "duration \<Rightarrow> int \<Rightarrow> error_category \<Rightarrow> go_error \<Rightarrow> duration option \<Rightarrow> transport_result" where
  "failed_probe latency code cat e retryAfter =
     \<lparr> tp_OK = False, tp_Latency = latency, tp_StatusCode = code, tp_Category = cat, tp_Error = Some e,
       tp_RetryAfter = retryAfter \<rparr>"

definition Probe_transport :: "clock \<Rightarrow> string \<Rightarrow> probe_reply \<Rightarrow> transport_result" where
  "Probe_transport ck healthURL0 reply =
     (let healthURL = (if healthURL0 = [] then DefaultHealthURL else healthURL0);
          latency = clampLatency (pr_Elapsed reply)
      in case pr_Outcome reply of
           RequestInvalid e \<Rightarrow> failed_probe 0 0 ErrConfig (wrap_error ''build health request: '' e) None
         | RoundTripFailed e \<Rightarrow> failed_probe latency 0 (classifyDialError (Some e) (pr_Ctx reply)) e None
         | Responded resp \<Rightarrow>
             let statusCode = hr_StatusCode resp;
                 retryAfter = ParseRetryAfter ck (header_get (hr_Header resp) ''Retry-After'') in
             if 300 \<le> statusCode \<and> statusCode < 400
             then failed_probe latency statusCode ErrProxyError
                    (new_error (''transport probe received unexpected redirect status '' @ print_int statusCode)) None
             else if statusCode = 429
             then failed_probe latency statusCode ErrProxyRateLimited
                    (new_error ''transport probe received HTTP 429 (rate limited)'') retryAfter
             else if isExpectedSuccess statusCode healthURL
             then \<lparr> tp_OK = True, tp_Latency = latency, tp_StatusCode = statusCode, tp_Category = ErrNone,
                    tp_Error = None, tp_RetryAfter = None \<rparr>
             else failed_probe latency statusCode ErrProxyError
                    (new_error (''transport probe received unexpected HTTP status '' @ print_int statusCode))
                    (if statusCode = 503 then retryAfter else None))"

section \<open>Lemmas\<close>

lemma clampLatency_pos [simp]: "0 < clampLatency d"
  by (simp add: clampLatency_def)

lemma go_int64_range: "- (2 ^ 63) \<le> go_int64 n" "go_int64 n < 2 ^ 63"
  using sint_range_size [where w = "word_of_int n :: 64 word"] by (simp_all add: go_int64_def word_size)

lemma go_int64_id: "- (2 ^ 63) \<le> n \<Longrightarrow> n < 2 ^ 63 \<Longrightarrow> go_int64 n = n"
  by (simp add: go_int64_def sint_sbintrunc' signed_take_bit_int_eq_self)

lemma failed_probe_fields [simp]:
  "tp_OK (failed_probe l c cat e ra) = False" "tp_Latency (failed_probe l c cat e ra) = l"
  "tp_StatusCode (failed_probe l c cat e ra) = c" "tp_Category (failed_probe l c cat e ra) = cat"
  "tp_Error (failed_probe l c cat e ra) = Some e" "tp_RetryAfter (failed_probe l c cat e ra) = ra"
  by (simp_all add: failed_probe_def)

lemma classified_fields [simp]:
  "cr_Status (classified st cat code reason rt) = st" "cr_Category (classified st cat code reason rt) = cat"
  "cr_StatusCode (classified st cat code reason rt) = code" "cr_Reason (classified st cat code reason rt) = reason"
  "cr_Retryable (classified st cat code reason rt) = rt"
  by (simp_all add: classified_def)

text \<open>A failed probe is never taken for a success: it names a category other than none.\<close>

lemma classifyDialError_ne: "classifyDialError (Some e) ctx \<noteq> ErrNone"
  by (simp add: classifyDialError_def Let_def)

lemma probe_ok_category: "tp_OK (Probe_transport ck u r) \<longleftrightarrow> tp_Category (Probe_transport ck u r) = ErrNone"
  by (simp add: Probe_transport_def Let_def classifyDialError_ne split: http_outcome.splits)


section \<open>The two classifiers\<close>

text \<open>The classification of dial errors exists twice, in the health probe and in the tester. On an error
  that neither stems from the context nor reports another HTTP status of the tunnel than 429, both assign the
  same category.\<close>

theorem dial_classifiers_agree:
  assumes "\<not> ge_Canceled e" "\<not> ge_Deadline e"
    and "\<not> str_contains (ge_Text e) ''status: 503''"
    and "str_contains (ge_Text e) ''unexpected HTTP response status:'' \<Longrightarrow>
         str_contains (ge_Text e) ''unexpected HTTP response status: 429''"
  shows "cr_Category (ClassifyDialError (Some e)) = classifyDialError (Some e) NotDone"
proof -
  have "str_contains ''unexpected HTTP response status: 503'' ''status: 503''"
      "str_contains ''unexpected HTTP response status: 403'' ''unexpected HTTP response status:''"
    by simp_all
  with assms(3,4) have "\<not> str_contains (ge_Text e) ''unexpected HTTP response status: 503''"
      "str_contains (ge_Text e) ''unexpected HTTP response status: 403'' \<Longrightarrow>
       str_contains (ge_Text e) ''unexpected HTTP response status: 429''"
    using str_contains_trans by blast+
  with assms show ?thesis
    by (simp add: ClassifyDialError_def classifyDialError_def Let_def)
qed

lemma dial_classifiers_agree_witness:
  "classifyDialError (Some (new_error ''read tcp: Connection reset by peer'')) NotDone = ErrReset"
proof -
  let ?e = "new_error ''read tcp: Connection reset by peer''"
  have "cr_Category (ClassifyDialError (Some ?e)) = classifyDialError (Some ?e) NotDone"
    by (rule dial_classifiers_agree) (simp_all add: new_error_def)
  moreover have "cr_Category (ClassifyDialError (Some ?e)) = ErrReset" by code_simp
  ultimately show ?thesis by simp
qed

text \<open>A delay of 2^64 seconds' worth of nanoseconds wraps around to a fraction of a second.\<close>

lemma retry_after_wraps:
  "ParseRetryAfter ck ''18446744074'' = Some 290448384"
  by (simp add: ParseRetryAfter_def trim_space_def is_space_def Let_def Atoi_def all_digits_def is_digit_def
      dec_value_def digit_def digit_val_def go_int64_def second_def sint_sbintrunc' signed_take_bit_int_eq_self_iff)

end
