(* ===== verification/Publisher.thy ===== *)
theory Publisher
  imports StoreViews JsonFields Remote ConfigTypes Transport
begin

text \<open>
  The publisher, \<open>internal/publisher/publisher.go\<close>: rendering of the subscription files from the views of the
  store, the checks before a publication, and the publication as a transaction over the files of a Git working
  tree that is rolled back when it fails before the commit.

  Git is a parameter: a function from a command and the world to an output or an error and the next world. The
  files of the working tree are a map from paths, relative to the repository, to contents; every file operation
  of the code is a step that may fail. Directories and symbolic links, which the code follows, are not modelled.
\<close>

section \<open>Rendering\<close>

definition distinct_links :: "string list \<Rightarrow> string list" where
  "distinct_links rawLinks =
     sort (fold (\<lambda>l0 seen. let l = trim_space l0 in if l = [] \<or> l \<in> set seen then seen else seen @ [l]) rawLinks [])"

text \<open>All links and those of the three protocols.\<close>

record partition =
  pt_All :: "string list"
  pt_VLESS :: "string list"
  pt_VMess :: "string list"
  pt_Trojan :: "string list"

definition partitionLinks :: "string list \<Rightarrow> partition" where
  "partitionLinks rawLinks =
     (let unique = distinct_links rawLinks;
          of_scheme = (\<lambda>scheme. filter (\<lambda>l. has_prefix l scheme) unique)
      in \<lparr> pt_All = unique, pt_VLESS = of_scheme ''vless://'', pt_VMess = of_scheme ''vmess://'',
           pt_Trojan = of_scheme ''trojan://'' \<rparr>)"

definition renderList :: "string list \<Rightarrow> string" where
  "renderList links = (if links = [] then [] else join_with [newline] links @ [newline])"

definition DirGeneric :: string where "DirGeneric = ''generic''"
definition DirGemini :: string where "DirGemini = ''gemini''"
definition DirClaude :: string where "DirClaude = ''claude''"
definition FileMeta :: string where "FileMeta = ''meta.json''"

definition protocol_files :: "string list" where
  "protocol_files = [''all.txt'', ''vless.txt'', ''vmess.txt'', ''trojan.txt'']"

definition in_dir :: "string \<Rightarrow> string list" where
  "in_dir dir = map (\<lambda>f. dir @ ''/'' @ f) protocol_files"

definition subscriptionFiles :: "string list" where
  "subscriptionFiles = in_dir DirGeneric @ in_dir DirGemini @ in_dir DirClaude"

definition targetFiles :: "string list" where
  "targetFiles = subscriptionFiles @ [FileMeta]"

definition legacyRootFiles :: "string list" where
  "legacyRootFiles = protocol_files"

record projection_metrics =
  pm_Total :: int
  pm_VLESSCount :: int
  pm_VMessCount :: int
  pm_TrojanCount :: int

record metadata =
  md_GeneratedAt :: string
  md_CycleNumber :: int
  md_GenericTotal :: int
  md_GenericVLESS :: int
  md_GenericVMess :: int
  md_GenericTrojan :: int
  md_GeminiTotal :: int
  md_GeminiVLESS :: int
  md_GeminiVMess :: int
  md_GeminiTrojan :: int
  md_ClaudeTotal :: int
  md_ClaudeVLESS :: int
  md_ClaudeVMess :: int
  md_ClaudeTrojan :: int
  md_Claude :: "projection_metrics option"
  md_TotalServable :: int
  md_VLESSCount :: int
  md_VMessCount :: int
  md_TrojanCount :: int

definition rendered :: "string \<Rightarrow> partition \<Rightarrow> (string \<times> string) list" where
  "rendered dir p =
     zip (in_dir dir) (map renderList [pt_All p, pt_VLESS p, pt_VMess p, pt_Trojan p])"

definition number :: "string list \<Rightarrow> int" where
  "number links = int (length links)"

text \<open>\<open>RenderSubscriptionFiles\<close>; the clock and the RFC 3339 form of a time are parameters.\<close>

definition RenderSubscriptionFiles ::
    "time \<Rightarrow> (time \<Rightarrow> string) \<Rightarrow> store \<Rightarrow> (string \<times> string) list \<times> metadata" where
  "RenderSubscriptionFiles now rfc3339 st =
     (let gen = partitionLinks (NetworkPassing st); gem = partitionLinks (Passing st);
          cla = partitionLinks (PassingFor ''claude'' st); stats = Stats st;
          genAt = (if is_zero_time (stats_LastCycle stats) then now else stats_LastCycle stats)
      in (rendered DirGeneric gen @ rendered DirGemini gem @ rendered DirClaude cla,
          \<lparr> md_GeneratedAt = rfc3339 genAt, md_CycleNumber = stats_CycleCount stats,
            md_GenericTotal = number (pt_All gen), md_GenericVLESS = number (pt_VLESS gen),
            md_GenericVMess = number (pt_VMess gen), md_GenericTrojan = number (pt_Trojan gen),
            md_GeminiTotal = number (pt_All gem), md_GeminiVLESS = number (pt_VLESS gem),
            md_GeminiVMess = number (pt_VMess gem), md_GeminiTrojan = number (pt_Trojan gem),
            md_ClaudeTotal = number (pt_All cla), md_ClaudeVLESS = number (pt_VLESS cla),
            md_ClaudeVMess = number (pt_VMess cla), md_ClaudeTrojan = number (pt_Trojan cla),
            md_Claude = Some \<lparr> pm_Total = number (pt_All cla), pm_VLESSCount = number (pt_VLESS cla),
                               pm_VMessCount = number (pt_VMess cla), pm_TrojanCount = number (pt_Trojan cla) \<rparr>,
            md_TotalServable = number (pt_All gem), md_VLESSCount = number (pt_VLESS gem),
            md_VMessCount = number (pt_VMess gem), md_TrojanCount = number (pt_Trojan gem) \<rparr>))"

section \<open>The metadata file\<close>

text \<open>\<open>json.MarshalIndent\<close> with two spaces.\<close>

definition json_line :: "string \<Rightarrow> string \<times> string \<Rightarrow> string" where
  "json_line indent kv = indent @ json_string (fst kv) @ '': '' @ snd kv"

definition json_block :: "string \<Rightarrow> (string \<times> string) list \<Rightarrow> string" where
  "json_block indent kvs =
     ''{'' @ [newline] @ join_with ('','' @ [newline]) (map (json_line (indent @ ''  '')) kvs) @ [newline] @ indent @ ''}''"

definition metrics_members :: "projection_metrics \<Rightarrow> (string \<times> string) list" where
  "metrics_members m =
     [(''total'', print_int (pm_Total m)), (''vless_count'', print_int (pm_VLESSCount m)),
      (''vmess_count'', print_int (pm_VMessCount m)), (''trojan_count'', print_int (pm_TrojanCount m))]"

definition metadata_members :: "metadata \<Rightarrow> (string \<times> string) list" where
  "metadata_members m =
     [(''generated_at'', json_string (md_GeneratedAt m)), (''cycle_number'', print_int (md_CycleNumber m)),
      (''generic_total'', print_int (md_GenericTotal m)), (''generic_vless'', print_int (md_GenericVLESS m)),
      (''generic_vmess'', print_int (md_GenericVMess m)), (''generic_trojan'', print_int (md_GenericTrojan m)),
      (''gemini_total'', print_int (md_GeminiTotal m)), (''gemini_vless'', print_int (md_GeminiVLESS m)),
      (''gemini_vmess'', print_int (md_GeminiVMess m)), (''gemini_trojan'', print_int (md_GeminiTrojan m)),
      (''claude_total'', print_int (md_ClaudeTotal m)), (''claude_vless'', print_int (md_ClaudeVLESS m)),
      (''claude_vmess'', print_int (md_ClaudeVMess m)), (''claude_trojan'', print_int (md_ClaudeTrojan m))]
     @ (case md_Claude m of Some c \<Rightarrow> [(''claude'', json_block ''  '' (metrics_members c))] | None \<Rightarrow> [])
     @ [(''total_servable'', print_int (md_TotalServable m)), (''vless_count'', print_int (md_VLESSCount m)),
        (''vmess_count'', print_int (md_VMessCount m)), (''trojan_count'', print_int (md_TrojanCount m))]"

definition metadata_text :: "metadata \<Rightarrow> string" where
  "metadata_text m = json_block [] (metadata_members m) @ [newline]"

definition GenerateFiles :: "time \<Rightarrow> (time \<Rightarrow> string) \<Rightarrow> store \<Rightarrow> (string \<times> string) list" where
  "GenerateFiles now rfc3339 st =
     (let (files, meta) = RenderSubscriptionFiles now rfc3339 st in files @ [(FileMeta, metadata_text meta)])"

definition metrics_fields :: "projection_metrics field list" where
  "metrics_fields =
     [int_field ''total'' pm_Total_update, int_field ''vless_count'' pm_VLESSCount_update,
      int_field ''vmess_count'' pm_VMessCount_update, int_field ''trojan_count'' pm_TrojanCount_update]"

definition zero_metrics :: projection_metrics where
  "zero_metrics = \<lparr> pm_Total = 0, pm_VLESSCount = 0, pm_VMessCount = 0, pm_TrojanCount = 0 \<rparr>"

definition zero_metadata :: metadata where
  "zero_metadata =
     \<lparr> md_GeneratedAt = [], md_CycleNumber = 0, md_GenericTotal = 0, md_GenericVLESS = 0, md_GenericVMess = 0,
       md_GenericTrojan = 0, md_GeminiTotal = 0, md_GeminiVLESS = 0, md_GeminiVMess = 0, md_GeminiTrojan = 0,
       md_ClaudeTotal = 0, md_ClaudeVLESS = 0, md_ClaudeVMess = 0, md_ClaudeTrojan = 0, md_Claude = None,
       md_TotalServable = 0, md_VLESSCount = 0, md_VMessCount = 0, md_TrojanCount = 0 \<rparr>"

definition claude_field :: "metadata field" where
  "claude_field =
     (''claude'', \<lambda>v m. if v = JNull then Some (m \<lparr> md_Claude := None \<rparr>)
        else map_option (\<lambda>c. m \<lparr> md_Claude := Some c \<rparr>)
               (decode_struct metrics_fields v (case md_Claude m of Some c \<Rightarrow> c | None \<Rightarrow> zero_metrics)))"

definition metadata_fields :: "metadata field list" where
  "metadata_fields =
     [string_field ''generated_at'' md_GeneratedAt_update, int_field ''cycle_number'' md_CycleNumber_update,
      int_field ''generic_total'' md_GenericTotal_update, int_field ''generic_vless'' md_GenericVLESS_update,
      int_field ''generic_vmess'' md_GenericVMess_update, int_field ''generic_trojan'' md_GenericTrojan_update,
      int_field ''gemini_total'' md_GeminiTotal_update, int_field ''gemini_vless'' md_GeminiVLESS_update,
      int_field ''gemini_vmess'' md_GeminiVMess_update, int_field ''gemini_trojan'' md_GeminiTrojan_update,
      int_field ''claude_total'' md_ClaudeTotal_update, int_field ''claude_vless'' md_ClaudeVLESS_update,
      int_field ''claude_vmess'' md_ClaudeVMess_update, int_field ''claude_trojan'' md_ClaudeTrojan_update,
      claude_field, int_field ''total_servable'' md_TotalServable_update,
      int_field ''vless_count'' md_VLESSCount_update, int_field ''vmess_count'' md_VMessCount_update,
      int_field ''trojan_count'' md_TrojanCount_update]"

text \<open>An existing file is kept if its counts are those of the new metadata, whatever its time and cycle.\<close>

definition same_counts :: "metadata \<Rightarrow> metadata \<Rightarrow> bool" where
  "same_counts old new =
     (md_GenericTotal old = md_GenericTotal new \<and> md_GenericVLESS old = md_GenericVLESS new
      \<and> md_GenericVMess old = md_GenericVMess new \<and> md_GenericTrojan old = md_GenericTrojan new
      \<and> md_GeminiTotal old = md_GeminiTotal new \<and> md_GeminiVLESS old = md_GeminiVLESS new
      \<and> md_GeminiVMess old = md_GeminiVMess new \<and> md_GeminiTrojan old = md_GeminiTrojan new
      \<and> md_ClaudeTotal old = md_ClaudeTotal new \<and> md_ClaudeVLESS old = md_ClaudeVLESS new
      \<and> md_ClaudeVMess old = md_ClaudeVMess new \<and> md_ClaudeTrojan old = md_ClaudeTrojan new
      \<and> md_Claude old \<noteq> None \<and> md_Claude old = md_Claude new
      \<and> md_TotalServable old = md_GeminiTotal new \<and> md_VLESSCount old = md_GeminiVLESS new
      \<and> md_VMessCount old = md_GeminiVMess new \<and> md_TrojanCount old = md_GeminiTrojan new)"

section \<open>The outside world\<close>

datatype sentinel =
    ErrPublishingDisabled | ErrPublishingAlreadyRunning | ErrInvalidConfiguration | ErrRepositoryUnavailable
  | ErrAuthenticationFailed | ErrGitOperationFailed

text \<open>An error with the sentinel in its chain, if there is one.\<close>

record pub_error =
  pe_Sentinel :: "sentinel option"
  pe_Cause :: go_error

record 'g world =
  wd_Files :: "string \<Rightarrow> string option"
  wd_Git :: 'g
  wd_Ops :: nat

text \<open>
  Git, the failures of the numbered file operations and what a failed write leaves behind, the home directory,
  the kind of the repository path (a directory or not), the state of the context, clock and time format.
\<close>

record 'g outside =
  os_Git :: "string list \<Rightarrow> 'g world \<Rightarrow> (go_error, string) outcome \<times> 'g world"
  os_Fails :: "nat \<Rightarrow> go_error option"
  os_Written :: "nat \<Rightarrow> nat"
  os_Home :: "string option"
  os_Stat :: "string \<Rightarrow> (go_error, bool) outcome"
  os_Ctx :: "go_error option"
  os_Now :: time
  os_RFC3339 :: "time \<Rightarrow> string"

type_synonym ('g, 'e, 'a) act = "'g world \<Rightarrow> ('e, 'a) outcome \<times> 'g world"

definition give :: "'a \<Rightarrow> ('g, 'e, 'a) act" where
  "give x w = (Inr x, w)"

definition throw :: "'e \<Rightarrow> ('g, 'e, 'a) act" where
  "throw e w = (Inl e, w)"

definition then_do :: "('g, 'e, 'a) act \<Rightarrow> ('a \<Rightarrow> ('g, 'e, 'b) act) \<Rightarrow> ('g, 'e, 'b) act" where
  "then_do m f w = (case m w of (Inl e, w') \<Rightarrow> (Inl e, w') | (Inr x, w') \<Rightarrow> f x w')"

definition on_error :: "('e \<Rightarrow> 'f) \<Rightarrow> ('g, 'e, 'a) act \<Rightarrow> ('g, 'f, 'a) act" where
  "on_error f m w = (case m w of (Inl e, w') \<Rightarrow> (Inl (f e), w') | (Inr x, w') \<Rightarrow> (Inr x, w'))"

text \<open>\<open>fmt.Errorf\<close> with and without a sentinel.\<close>

definition wrapped :: "string \<Rightarrow> go_error \<Rightarrow> pub_error" where
  "wrapped prefix e = \<lparr> pe_Sentinel = None, pe_Cause = wrap_error prefix e \<rparr>"

definition sentinel_text :: "sentinel \<Rightarrow> string" where
  "sentinel_text s =
     (case s of
        ErrPublishingDisabled \<Rightarrow> ''publishing is disabled''
      | ErrPublishingAlreadyRunning \<Rightarrow> ''publication already in progress''
      | ErrInvalidConfiguration \<Rightarrow> ''invalid publishing configuration''
      | ErrRepositoryUnavailable \<Rightarrow> ''publishing repository unavailable''
      | ErrAuthenticationFailed \<Rightarrow> ''publishing authentication failed''
      | ErrGitOperationFailed \<Rightarrow> ''git operation failed'')"

definition sentinel_error :: "sentinel \<Rightarrow> string \<Rightarrow> pub_error" where
  "sentinel_error s text =
     \<lparr> pe_Sentinel = Some s,
       pe_Cause = new_error (sentinel_text s @ (if text = [] then [] else '': '' @ text)) \<rparr>"

definition plain_error :: "string \<Rightarrow> pub_error" where
  "plain_error text = \<lparr> pe_Sentinel = None, pe_Cause = new_error text \<rparr>"

section \<open>File operations\<close>

text \<open>One operation: its effect if it succeeds, what it leaves if it fails.\<close>

definition file_op ::
    "'g outside \<Rightarrow> ((string \<Rightarrow> string option) \<Rightarrow> (string \<Rightarrow> string option)) \<Rightarrow>
       ((string \<Rightarrow> string option) \<Rightarrow> (string \<Rightarrow> string option)) \<Rightarrow> ('g, go_error, unit) act" where
  "file_op os effect leftover w =
     (let w1 = w \<lparr> wd_Ops := Suc (wd_Ops w) \<rparr>
      in case os_Fails os (wd_Ops w) of
           None \<Rightarrow> (Inr (), w1 \<lparr> wd_Files := effect (wd_Files w) \<rparr>)
         | Some e \<Rightarrow> (Inl e, w1 \<lparr> wd_Files := leftover (wd_Files w) \<rparr>))"

definition keep :: "(string \<Rightarrow> string option) \<Rightarrow> (string \<Rightarrow> string option)" where
  "keep files = files"

definition temp_of :: "string \<Rightarrow> string" where
  "temp_of path = path @ ''.tmp''"

text \<open>\<open>os.Remove\<close>: the error \<open>None\<close> says that there is no such file.\<close>

definition remove_file :: "'g outside \<Rightarrow> string \<Rightarrow> ('g, go_error option, unit) act" where
  "remove_file os path =
     then_do (on_error Some (file_op os keep keep)) (\<lambda>_ w.
       case wd_Files w path of
         None \<Rightarrow> (Inl None, w)
       | Some _ \<Rightarrow> (Inr (), w \<lparr> wd_Files := (wd_Files w)(path := None) \<rparr>))"

datatype lstat = Present | Absent | LstatError go_error

definition Lstat :: "'g outside \<Rightarrow> string \<Rightarrow> 'g world \<Rightarrow> lstat \<times> 'g world" where
  "Lstat os path w =
     (case file_op os keep keep w of
        (Inl e, w') \<Rightarrow> (LstatError e, w')
      | (Inr _, w') \<Rightarrow> (if wd_Files w' path = None then Absent else Present, w'))"

definition ReadFile :: "'g outside \<Rightarrow> string \<Rightarrow> 'g world \<Rightarrow> string option \<times> 'g world" where
  "ReadFile os path w =
     (case file_op os keep keep w of (Inl e, w') \<Rightarrow> (None, w') | (Inr _, w') \<Rightarrow> (wd_Files w' path, w'))"

text \<open>\<open>filepath.Dir\<close>.\<close>

definition path_Dir :: "string \<Rightarrow> string" where
  "path_Dir p = path_Clean (rev (dropWhile (\<lambda>c. c \<noteq> CHR ''/'') (rev p)))"

text \<open>\<open>AtomicWriteFile\<close>: the temporary file is removed after a failure, as far as that works.\<close>

definition clean_up :: "'g outside \<Rightarrow> string \<Rightarrow> go_error \<Rightarrow> ('g, go_error, unit) act" where
  "clean_up os temp e w = (Inl e, snd (remove_file os temp w))"

definition write_sync :: "'g outside \<Rightarrow> string \<Rightarrow> string \<Rightarrow> string \<Rightarrow> ('g, go_error, unit) act" where
  "write_sync os temp fullTemp content w =
     then_do (on_error (wrap_error (''write temp file '' @ fullTemp @ '': ''))
                (file_op os (\<lambda>fs. fs(temp \<mapsto> content)) (\<lambda>fs. fs(temp \<mapsto> take (os_Written os (wd_Ops w)) content)))) (\<lambda>_.
       on_error (wrap_error (''sync temp file '' @ fullTemp @ '': '')) (file_op os keep keep)) w"

definition finish_write ::
    "'g outside \<Rightarrow> string \<Rightarrow> string \<Rightarrow> (go_error, unit) outcome \<Rightarrow> (go_error, unit) outcome \<Rightarrow> ('g, go_error, unit) act" where
  "finish_write os path full written fclosed w =
     (let temp = temp_of path; fullTemp = temp_of full in
      case written of
        Inl e \<Rightarrow> clean_up os temp e w
      | Inr _ \<Rightarrow>
          (case fclosed of
             Inl e \<Rightarrow> clean_up os temp (wrap_error (''close temp file '' @ fullTemp @ '': '') e) w
           | Inr _ \<Rightarrow>
               (case file_op os (\<lambda>fs. fs(path := fs temp, temp := None)) keep w of
                  (Inr _, w1) \<Rightarrow> (Inr (), w1)
                | (Inl e, w1) \<Rightarrow>
                    clean_up os temp (wrap_error (''rename '' @ fullTemp @ '' to '' @ full @ '': '') e) w1)))"

definition AtomicWriteFile :: "'g outside \<Rightarrow> string \<Rightarrow> string \<Rightarrow> string \<Rightarrow> ('g, go_error, unit) act" where
  "AtomicWriteFile os repoDir path content =
     (let temp = temp_of path; full = path_Join [repoDir, path]; fullTemp = temp_of full in
      then_do (on_error (wrap_error (''mkdir '' @ path_Dir full @ '': '')) (file_op os keep keep)) (\<lambda>_.
      then_do (on_error (wrap_error (''create temp file '' @ fullTemp @ '': ''))
                 (file_op os (\<lambda>fs. fs(temp \<mapsto> [])) keep)) (\<lambda>_ w.
        let (written, w1) = write_sync os temp fullTemp content w; (fclosed, w2) = file_op os keep keep w1
        in finish_write os path full written fclosed w2)))"

section \<open>Before a publication\<close>

definition ExpandHome :: "string option \<Rightarrow> string \<Rightarrow> string" where
  "ExpandHome home path =
     (case home of
        None \<Rightarrow> path
      | Some h \<Rightarrow>
          if path = ''~'' then h else if has_prefix path ''~/'' then path_Join [h, drop 2 path] else path)"

text \<open>
  \<open>SanitizeURL\<close> and \<open>SanitizeMessage\<close> (\<open>service.go\<close>) replace what stands between \<open>http://\<close> or \<open>https://\<close>
  and the next \<open>@\<close>, if no slash and no white space comes before it.
\<close>

definition url_start :: "string \<Rightarrow> nat option" where
  "url_start s =
     (if has_prefix (to_lower s) ''http://'' then Some 7
      else if has_prefix (to_lower s) ''https://'' then Some 8 else None)"

definition in_userinfo :: "char \<Rightarrow> bool" where
  "in_userinfo c = (c \<notin> set (''@/ '' @ [CHR 0x09, CHR 0x0A, CHR 0x0C, CHR 0x0D]))"

text \<open>The length of the scheme and of the user information at the start of a text.\<close>

definition userinfo_at :: "string \<Rightarrow> (nat \<times> nat) option" where
  "userinfo_at s =
     (case url_start s of
        None \<Rightarrow> None
      | Some n \<Rightarrow>
          let info = takeWhile in_userinfo (drop n s)
          in if info \<noteq> [] \<and> has_prefix (drop (n + length info) s) ''@'' then Some (n, length info) else None)"

function SanitizeMessage :: "string \<Rightarrow> string" where
  "SanitizeMessage s =
     (case s of
        [] \<Rightarrow> []
      | c # t \<Rightarrow>
          (case userinfo_at s of
             Some (n, k) \<Rightarrow> take n s @ ''***@'' @ SanitizeMessage (drop (n + k + 1) s)
           | None \<Rightarrow> c # SanitizeMessage t))"
  by pat_completeness auto
termination by (relation "measure length") auto

declare SanitizeMessage.simps [simp del]

definition SanitizeURL :: "string \<Rightarrow> string" where
  "SanitizeURL = SanitizeMessage"

text \<open>\<open>%q\<close> of a text, on printable ASCII.\<close>

definition go_quote :: "string \<Rightarrow> string" where
  "go_quote s =
     [CHR 0x22] @ concat (map (\<lambda>c. if c \<in> set [CHR 0x22, CHR 0x5C] then [CHR 0x5C, c] else [c]) s) @ [CHR 0x22]"

definition ValidatePrerequisites ::
    "'g outside \<Rightarrow> publishing_config \<Rightarrow> ('g, pub_error, unit) act" where
  "ValidatePrerequisites os cfg w =
     (let dir = ExpandHome (os_Home os) (pub_Repository cfg);
          expected = trim_space (pub_RemoteURL cfg) in
      case os_Ctx os of
        Some e \<Rightarrow> (Inl \<lparr> pe_Sentinel = None, pe_Cause = e \<rparr>, w)
      | None \<Rightarrow>
          if \<not> pub_Enabled cfg then (Inl (sentinel_error ErrPublishingDisabled []), w)
          else if trim_space dir = [] then
            (Inl (sentinel_error ErrInvalidConfiguration ''publisher: repository path is empty''), w)
          else
            (case os_Stat os dir of
               Inl e \<Rightarrow> (Inl (sentinel_error ErrRepositoryUnavailable
                            (''publisher: repository path '' @ go_quote dir @ '' inaccessible: '' @ ge_Text e)), w)
             | Inr False \<Rightarrow> (Inl (sentinel_error ErrRepositoryUnavailable
                            (''publisher: repository path '' @ go_quote dir @ '' is not a directory'')), w)
             | Inr True \<Rightarrow>
                 let (inside, w1) = os_Git os [''rev-parse'', ''--is-inside-work-tree''] w in
                 if (case inside of Inl _ \<Rightarrow> True | Inr out \<Rightarrow> trim_space out \<noteq> ''true'') then
                   (Inl (sentinel_error ErrRepositoryUnavailable
                      (''publisher: '' @ go_quote dir @ '' is not a valid git repository'')), w1)
                 else if expected = [] then
                   (Inl (sentinel_error ErrInvalidConfiguration ''publisher: remote_url is required''), w1)
                 else
                   let (origin1, w2) = os_Git os [''config'', ''--get'', ''remote.origin.url''] w1;
                       (origin2, w3) = (case origin1 of
                                          Inl _ \<Rightarrow> os_Git os [''remote'', ''get-url'', ''origin''] w2
                                        | Inr _ \<Rightarrow> (origin1, w2)) in
                   (case origin2 of
                      Inl e \<Rightarrow> (Inl (sentinel_error ErrInvalidConfiguration
                                   (''publisher: failed to get remote origin URL: '' @ ge_Text e)), w3)
                    | Inr out \<Rightarrow>
                        let originURL = trim_space out in
                        if \<not> SameRepository originURL expected then
                          (Inl (sentinel_error ErrInvalidConfiguration
                             (''publisher: remote origin URL mismatch: expected '' @ go_quote (SanitizeURL expected)
                              @ '', got '' @ go_quote (SanitizeURL originURL))), w3)
                        else (Inr (), w3))))"

text \<open>The legacy files that exist, in order; an error other than absence stops the check.\<close>

fun present_files ::
    "'g outside \<Rightarrow> (string \<Rightarrow> string) \<Rightarrow> string list \<Rightarrow> ('g, pub_error, string list) act" where
  "present_files os label [] w = (Inr [], w)"
| "present_files os label (f # fs) w =
     (case Lstat os f w of
        (LstatError e, w1) \<Rightarrow> (Inl (wrapped (label f) e), w1)
      | (Absent, w1) \<Rightarrow> present_files os label fs w1
      | (Present, w1) \<Rightarrow> then_do (present_files os label fs) (\<lambda>rest. give (f # rest)) w1)"

definition checkWorkingTreeSafety :: "'g outside \<Rightarrow> ('g, pub_error, unit) act" where
  "checkWorkingTreeSafety os =
     then_do (present_files os (\<lambda>f. ''publisher: lstat safety check '' @ f @ '': '') legacyRootFiles) (\<lambda>legacy.
     then_do (on_error (wrapped ''publisher: git status check failed: '')
                (os_Git os ([''status'', ''--porcelain'', ''--''] @ targetFiles @ legacy))) (\<lambda>out.
       if trim_space out \<noteq> [] then
         throw (plain_error (''publisher: working tree has pre-existing uncommitted changes in publisher-owned files:''
                             @ [newline] @ trim_space out))
       else give ()))"

definition hasHEAD :: "'g outside \<Rightarrow> 'g world \<Rightarrow> bool \<times> 'g world" where
  "hasHEAD os w =
     (case os_Git os [''rev-parse'', ''--verify'', ''HEAD''] w of
        (Inl _, w1) \<Rightarrow> (False, w1) | (Inr _, w1) \<Rightarrow> (True, w1))"

section \<open>The transaction\<close>

definition owned_files :: "string list" where
  "owned_files = targetFiles @ legacyRootFiles"

text \<open>The files that exist before the transaction, as far as \<open>Lstat\<close> could tell.\<close>

fun take_snapshot :: "'g outside \<Rightarrow> string list \<Rightarrow> 'g world \<Rightarrow> string list \<times> 'g world" where
  "take_snapshot os [] w = ([], w)"
| "take_snapshot os (f # fs) w =
     (let (st, w1) = Lstat os f w; (existed, w2) = take_snapshot os fs w1
      in (if st = Present then f # existed else existed, w2))"

text \<open>Whether the subscription files on disk have the given contents already; the loop stops at the first that has not.\<close>

fun all_written :: "'g outside \<Rightarrow> (string \<times> string) list \<Rightarrow> string list \<Rightarrow> 'g world \<Rightarrow> bool \<times> 'g world" where
  "all_written os files [] w = (True, w)"
| "all_written os files (f # fs) w =
     (let (content, w1) = ReadFile os f w
      in if content = None \<or> the content \<noteq> (case map_of files f of Some c \<Rightarrow> c | None \<Rightarrow> []) then (False, w1)
         else all_written os files fs w1)"

fun no_legacy :: "'g outside \<Rightarrow> string list \<Rightarrow> ('g, pub_error, bool) act" where
  "no_legacy os [] w = (Inr True, w)"
| "no_legacy os (f # fs) w =
     (case Lstat os f w of
        (LstatError e, w1) \<Rightarrow> (Inl (wrapped (''publisher: check legacy file '' @ f @ '': '') e), w1)
      | (Present, w1) \<Rightarrow> (Inr False, w1)
      | (Absent, w1) \<Rightarrow> no_legacy os fs w1)"

definition meta_text_of :: "'g outside \<Rightarrow> bool \<Rightarrow> metadata \<Rightarrow> 'g world \<Rightarrow> string \<times> 'g world" where
  "meta_text_of os unchanged meta w =
     (if unchanged then
        (case ReadFile os FileMeta w of
           (Some old, w1) \<Rightarrow>
             (case Unmarshal metadata_fields old zero_metadata of
                Some parsed \<Rightarrow> if same_counts parsed meta then (old, w1) else (metadata_text meta, w1)
              | None \<Rightarrow> (metadata_text meta, w1))
         | (None, w1) \<Rightarrow> (metadata_text meta, w1))
      else (metadata_text meta, w))"

fun remove_legacy :: "'g outside \<Rightarrow> string list \<Rightarrow> ('g, pub_error, string list) act" where
  "remove_legacy os [] w = (Inr [], w)"
| "remove_legacy os (f # fs) w =
     (case Lstat os f w of
        (LstatError e, w1) \<Rightarrow> (Inl (wrapped (''publisher: lstat legacy file '' @ f @ '': '') e), w1)
      | (Absent, w1) \<Rightarrow> remove_legacy os fs w1
      | (Present, w1) \<Rightarrow>
          (case remove_file os f w1 of
             (Inl e, w2) \<Rightarrow>
               (Inl (wrapped (''publisher: remove legacy file '' @ f @ '': '')
                       (case e of Some x \<Rightarrow> x | None \<Rightarrow> new_error ''file does not exist'')), w2)
           | (Inr _, w2) \<Rightarrow> then_do (remove_legacy os fs) (\<lambda>rest. give (f # rest)) w2))"

fun write_files :: "'g outside \<Rightarrow> string \<Rightarrow> (string \<times> string) list \<Rightarrow> string list \<Rightarrow> ('g, pub_error, unit) act" where
  "write_files os dir files [] w = (Inr (), w)"
| "write_files os dir files (f # fs) w =
     (case map_of files f of
        None \<Rightarrow> write_files os dir files fs w
      | Some content \<Rightarrow>
          then_do (on_error (wrapped (''publisher: write '' @ f @ '': '')) (AtomicWriteFile os dir f content))
            (\<lambda>_. write_files os dir files fs) w)"

text \<open>From the rendering to the check for staged changes, which it returns.\<close>

definition prepare :: "'g outside \<Rightarrow> string \<Rightarrow> store \<Rightarrow> ('g, pub_error, bool) act" where
  "prepare os dir st w =
     (let (files, meta) = RenderSubscriptionFiles (os_Now os) (os_RFC3339 os) st;
          (same, w1) = all_written os files subscriptionFiles w
      in then_do (if same then no_legacy os legacyRootFiles else give False) (\<lambda>unchanged w2.
           let (metaText, w3) = meta_text_of os unchanged meta w2 in
           then_do (remove_legacy os legacyRootFiles) (\<lambda>removed.
           then_do (write_files os dir (files @ [(FileMeta, metaText)]) targetFiles) (\<lambda>_.
           then_do (on_error (wrapped ''publisher: git add failed: '') (os_Git os ([''add'', ''--''] @ targetFiles @ removed))) (\<lambda>_.
           then_do (on_error (wrapped ''publisher: git diff check failed: '')
                      (os_Git os ([''diff'', ''--cached'', ''--name-only'', ''--''] @ targetFiles @ removed))) (\<lambda>out.
             give (trim_space out \<noteq> []))))) w3) w1)"

definition commit_staged :: "'g outside \<Rightarrow> bool \<Rightarrow> ('g, pub_error, bool) act" where
  "commit_staged os staged =
     (if staged then
        then_do (on_error (wrapped ''publisher: git commit failed: '')
                   (os_Git os [''commit'', ''-m'', ''chore: update generated subscriptions''])) (\<lambda>_. give True)
      else give False)"

section \<open>Rollback\<close>

text \<open>Removes files, collecting the errors other than absence.\<close>

fun remove_all :: "'g outside \<Rightarrow> (string \<Rightarrow> string) \<Rightarrow> string list \<Rightarrow> 'g world \<Rightarrow> go_error list \<times> 'g world" where
  "remove_all os label [] w = ([], w)"
| "remove_all os label (f # fs) w =
     (let (r, w1) = remove_file os f w; (errs, w2) = remove_all os label fs w1
      in ((case r of Inl (Some e) \<Rightarrow> [wrap_error (label f) e] | _ \<Rightarrow> []) @ errs, w2))"

definition git_errors ::
    "'g outside \<Rightarrow> string \<Rightarrow> string list \<Rightarrow> 'g world \<Rightarrow> go_error list \<times> 'g world" where
  "git_errors os prefix args w =
     (case os_Git os args w of (Inl e, w1) \<Rightarrow> ([wrap_error prefix e], w1) | (Inr _, w1) \<Rightarrow> ([], w1))"

definition rollback ::
    "'g outside \<Rightarrow> string \<Rightarrow> string list \<Rightarrow> bool \<Rightarrow> 'g world \<Rightarrow> go_error list \<times> 'g world" where
  "rollback os dir existed hasHead w =
     (let toRestore = filter (\<lambda>f. f \<in> set existed) owned_files;
          toRemove = filter (\<lambda>f. f \<notin> set existed) owned_files;
          (e1, w1) = remove_all os (\<lambda>t. ''remove temp file '' @ path_Join [dir, t] @ '': '') (map temp_of targetFiles) w;
          (e2, w2) =
            (if toRemove = [] then ([], w1)
             else if hasHead then git_errors os ''git reset newly created files: '' ([''reset'', ''HEAD'', ''--''] @ toRemove) w1
             else ([], snd (os_Git os ([''rm'', ''--cached'', ''-f'', ''--''] @ toRemove) w1)));
          (e3, w3) = remove_all os (\<lambda>f. ''remove uncommitted publisher file '' @ f @ '': '') toRemove w2;
          (e4, w4) =
            (if toRestore \<noteq> [] \<and> hasHead
             then git_errors os ''git checkout HEAD restored files: '' ([''checkout'', ''HEAD'', ''--''] @ toRestore) w3
             else ([], w3))
      in (e1 @ e2 @ e3 @ e4, w4))"

section \<open>Publication\<close>

text \<open>The number of commits the local branch is ahead of its remote; an unknown remote branch counts as ahead.\<close>

definition isAheadOfRemote :: "'g outside \<Rightarrow> string \<Rightarrow> ('g, pub_error, bool) act" where
  "isAheadOfRemote os branch w =
     (let (head, w1) = hasHEAD os w; remoteRef = ''origin/'' @ branch in
      if \<not> head then (Inr False, w1)
      else
        (case os_Git os [''rev-parse'', ''--verify'', remoteRef] w1 of
           (Inl _, w2) \<Rightarrow> (Inr True, w2)
         | (Inr _, w2) \<Rightarrow>
             then_do (on_error (wrapped ''publisher: rev-list check failed: '')
                        (os_Git os [''rev-list'', ''--left-right'', ''--count'', remoteRef @ ''...HEAD''])) (\<lambda>out.
               let columns = str_fields out in
               if length columns < 2 then throw (plain_error (''publisher: unexpected rev-list output '' @ go_quote out))
               else (case Atoi (columns ! 1) of
                       None \<Rightarrow> throw (plain_error (''publisher: parse rev-list ahead count '' @ go_quote (columns ! 1)))
                     | Some ahead \<Rightarrow> give (ahead > 0))) w2))"

text \<open>The commit is named, then pushed; the result is the published commit.\<close>

definition push_head :: "'g outside \<Rightarrow> string \<Rightarrow> ('g, pub_error, string) act" where
  "push_head os branch =
     then_do (on_error (wrapped ''publisher: capture commit SHA: '') (os_Git os [''rev-parse'', ''--short'', ''HEAD''])) (\<lambda>sha.
     then_do (on_error (wrapped ''publisher: git push failed: '') (os_Git os [''push'', ''origin'', branch])) (\<lambda>_.
       give (trim_space sha)))"

definition after_commit :: "'g outside \<Rightarrow> string \<Rightarrow> bool \<Rightarrow> ('g, pub_error, string option) act" where
  "after_commit os branch committed =
     (if committed then then_do (push_head os branch) (\<lambda>sha. give (Some sha))
      else then_do (isAheadOfRemote os branch) (\<lambda>ahead.
        if ahead then then_do (push_head os branch) (\<lambda>sha. give (Some sha)) else give None))"

text \<open>The outcome of a publication: the commit it pushed, or its error with those of the rollback.\<close>

datatype publication =
    NotStarted pub_error
  | RolledBack pub_error "go_error list"
  | NotPushed pub_error
  | Published "string option"

definition publish_tx :: "'g outside \<Rightarrow> publishing_config \<Rightarrow> store \<Rightarrow> 'g world \<Rightarrow> publication \<times> 'g world" where
  "publish_tx os cfg st w =
     (let dir = ExpandHome (os_Home os) (pub_Repository cfg);
          branch = (if pub_Branch cfg = [] then ''main'' else pub_Branch cfg) in
      case then_do (ValidatePrerequisites os cfg) (\<lambda>_. checkWorkingTreeSafety os) w of
        (Inl e, w1) \<Rightarrow> (NotStarted e, w1)
      | (Inr _, w1) \<Rightarrow>
          let (head, w2) = hasHEAD os w1; (existed, w3) = take_snapshot os owned_files w2 in
          (case then_do (prepare os dir st) (commit_staged os) w3 of
             (Inl e, w4) \<Rightarrow> let (errs, w5) = rollback os dir existed head w4 in (RolledBack e errs, w5)
           | (Inr committed, w4) \<Rightarrow>
               (case after_commit os branch committed w4 of
                  (Inl e, w5) \<Rightarrow> (NotPushed e, w5)
                | (Inr sha, w5) \<Rightarrow> (Published sha, w5))))"

text \<open>What \<open>Publish\<close> returns: disabled publishing is no error, and the errors of a rollback are joined to the cause.\<close>

definition joined_errors :: "pub_error \<Rightarrow> go_error list \<Rightarrow> pub_error" where
  "joined_errors e errs =
     (if errs = [] then e
      else let all = pe_Cause e # errs; numbers = filter (\<lambda>x. ge_Errno x \<noteq> None) all in
        e \<lparr> pe_Cause :=
              \<lparr> ge_Text = ge_Text (pe_Cause e) @ [newline] @ ''publisher: rollback failed: '' @ join_with [newline] (map ge_Text errs),
                ge_Canceled = list_ex ge_Canceled all, ge_Deadline = list_ex ge_Deadline all,
                ge_Errno = (if numbers = [] then None else ge_Errno (hd numbers)) \<rparr> \<rparr>)"

definition Publish_error :: "publication \<Rightarrow> pub_error option" where
  "Publish_error r =
     (case r of
        NotStarted e \<Rightarrow> if pe_Sentinel e = Some ErrPublishingDisabled then None else Some e
      | RolledBack e errs \<Rightarrow> Some (joined_errors e errs)
      | NotPushed e \<Rightarrow> Some e
      | Published _ \<Rightarrow> None)"

definition LastCommit :: "'g outside \<Rightarrow> publishing_config \<Rightarrow> 'g world \<Rightarrow> string \<times> 'g world" where
  "LastCommit os cfg w =
     (if trim_space (ExpandHome (os_Home os) (pub_Repository cfg)) = [] then ([], w)
      else (case os_Git os [''rev-parse'', ''--short'', ''HEAD''] w of (Inl _, w1) \<Rightarrow> ([], w1) | (Inr out, w1) \<Rightarrow> (trim_space out, w1)))"

end
