(* ===== verification/PublisherCorrect.thy ===== *)
theory PublisherCorrect
  imports Publisher
begin

text \<open>
  What the publisher guarantees: the rendering depends on the sets of links only, a publication changes no file but
  its own, a successful one leaves the rendered files, and one that is rolled back leaves every file as it was.
  What is assumed of Git is stated in \<open>git_leaves_files\<close> and \<open>git_contract\<close>.
\<close>

section \<open>Rendering\<close>

lemma distinct_links_fold:
  assumes "distinct seen"
  shows "set (fold (\<lambda>l0 seen. let l = trim_space l0 in if l = [] \<or> l \<in> set seen then seen else seen @ [l]) raw seen)
           = set seen \<union> (trim_space ` set raw - {[]})
         \<and> distinct (fold (\<lambda>l0 seen. let l = trim_space l0 in if l = [] \<or> l \<in> set seen then seen else seen @ [l]) raw seen)"
  using assms
proof (induction raw arbitrary: seen)
  case (Cons r raw)
  have d: "distinct (let l = trim_space r in if l = [] \<or> l \<in> set seen then seen else seen @ [l])"
    using Cons.prems by (simp add: Let_def)
  show ?case using Cons.IH[OF d] by (auto simp: Let_def)
qed simp

lemma distinct_links_set:
  "distinct_links raw = sorted_list_of_set (trim_space ` set raw - {[]})"
proof -
  define xs where
    "xs = fold (\<lambda>l0 seen. let l = trim_space l0 in if l = [] \<or> l \<in> set seen then seen else seen @ [l]) raw []"
  have "set xs = trim_space ` set raw - {[]}" "distinct xs"
    using distinct_links_fold[of "[]" raw] by (auto simp: xs_def)
  then show ?thesis
    using sorted_list_of_set_sort_remdups[of xs] by (simp add: distinct_links_def xs_def[symmetric] distinct_remdups_id)
qed

lemma distinct_links_props:
  "sorted (distinct_links raw) \<and> distinct (distinct_links raw)
   \<and> set (distinct_links raw) = trim_space ` set raw - {[]}"
  by (simp add: distinct_links_set)

lemma partition_cong: "set a = set b \<Longrightarrow> partitionLinks a = partitionLinks b"
  by (simp add: partitionLinks_def distinct_links_set)

text \<open>C38: Publishing twice from stores that serve the same links for the generic, Gemini and Claude projections renders
  the same subscription files, byte for byte, whatever the order in which the store lists them, the time and the number
  of test cycles in between.\<close>

theorem render_deterministic:
  assumes "set (NetworkPassing a) = set (NetworkPassing b)" "set (Passing a) = set (Passing b)"
    and "set (PassingFor ''claude'' a) = set (PassingFor ''claude'' b)"
  shows "fst (RenderSubscriptionFiles now rfc a) = fst (RenderSubscriptionFiles now' rfc' b)"
  by (simp add: RenderSubscriptionFiles_def Let_def partition_cong[OF assms(1)] partition_cong[OF assms(2)]
      partition_cong[OF assms(3)])

text \<open>The demo store and the same records listed in another order.\<close>

theorem render_deterministic_witness:
  "fst (RenderSubscriptionFiles 5 (\<lambda>_. ''a'') (demo_store \<lparr> st_records := rev (st_records demo_store) \<rparr>))
     = fst (RenderSubscriptionFiles 9 (\<lambda>_. ''b'') demo_store)"
  using views_permuted [of "rev (st_records demo_store)" demo_store]
  by (intro render_deterministic) (simp_all add: Passing_def)

section \<open>What is assumed of Git\<close>

text \<open>
  The files of the working tree that a command may change, for the commands that the publisher issues. Hooks and
  file filters are not considered.
\<close>

definition git_paths :: "string list \<Rightarrow> string list option" where
  "git_paths args =
     (case args of
        [] \<Rightarrow> None
      | verb # rest \<Rightarrow>
          if verb \<in> set [''rev-parse'', ''config'', ''remote'', ''status'', ''add'', ''diff'', ''commit'', ''push'',
                         ''rev-list''] then Some []
          else if verb = ''checkout'' \<and> take 2 rest = [''HEAD'', ''--''] then Some (drop 2 rest)
          else if verb = ''reset'' \<and> take 2 rest = [''HEAD'', ''--''] then Some []
          else if verb = ''rm'' \<and> take 1 rest = [''--cached''] then Some []
          else None)"

definition git_leaves_files :: "'g outside \<Rightarrow> bool" where
  "git_leaves_files os \<longleftrightarrow>
     (\<forall>args ps w p. git_paths args = Some ps \<longrightarrow> p \<notin> set ps \<longrightarrow>
        wd_Files (snd (os_Git os args w)) p = wd_Files w p)"



section \<open>Frames\<close>

text \<open>Relations on worlds that every step of a computation respects.\<close>

definition keeps :: "('w \<Rightarrow> 'w \<Rightarrow> bool) \<Rightarrow> ('w \<Rightarrow> 'a \<times> 'w) \<Rightarrow> bool" where
  "keeps R m \<longleftrightarrow> (\<forall>w. R w (snd (m w)))"

lemma keepsI [intro]: "(\<And>w. R w (snd (m w))) \<Longrightarrow> keeps R m"
  by (simp add: keeps_def)

lemma keepsD: "keeps R m \<Longrightarrow> m w = (x, w') \<Longrightarrow> R w w'"
  by (metis keeps_def snd_conv)

text \<open>The commands other than a commit keep a relation if the files they may change are in \<open>P\<close>.\<close>

definition git_keeps :: "('g world \<Rightarrow> 'g world \<Rightarrow> bool) \<Rightarrow> string set \<Rightarrow> 'g outside \<Rightarrow> bool" where
  "git_keeps R P os \<longleftrightarrow>
     (\<forall>args ps. git_paths args = Some ps \<longrightarrow> set ps \<subseteq> P \<longrightarrow> hd args \<noteq> ''commit'' \<longrightarrow> keeps R (os_Git os args))"

lemma git_keepsD:
  "git_keeps R P os \<Longrightarrow> git_paths args = Some ps \<Longrightarrow> set ps \<subseteq> P \<Longrightarrow> hd args \<noteq> ''commit'' \<Longrightarrow> keeps R (os_Git os args)"
  by (simp add: git_keeps_def)

lemma git_paths_simps [simp]:
  "git_paths (''rev-parse'' # r) = Some []" "git_paths (''config'' # r) = Some []" "git_paths (''remote'' # r) = Some []"
  "git_paths (''status'' # r) = Some []" "git_paths (''add'' # r) = Some []" "git_paths (''diff'' # r) = Some []"
  "git_paths (''commit'' # r) = Some []" "git_paths (''push'' # r) = Some []" "git_paths (''rev-list'' # r) = Some []"
  "git_paths (''checkout'' # ''HEAD'' # ''--'' # ps) = Some ps" "git_paths (''reset'' # ''HEAD'' # ''--'' # ps) = Some []"
  "git_paths (''rm'' # ''--cached'' # ps) = Some []"
  by (simp_all add: git_paths_def)

definition temp_files :: "string list" where
  "temp_files = map temp_of targetFiles"

text \<open>A frame: a preorder on worlds. The steps that only call Git respect it if the commands do.\<close>

locale frame =
  fixes R :: "'g world \<Rightarrow> 'g world \<Rightarrow> bool"
  assumes refl: "R w w"
    and trans: "R a b \<Longrightarrow> R b c \<Longrightarrow> R a c"
begin

lemma keeps_const: "keeps R (\<lambda>w. (x, w))"
  by (simp add: keeps_def refl)

lemma keeps_give: "keeps R (give x)"
  by (simp add: keeps_def give_def refl)

lemma keeps_throw: "keeps R (throw e)"
  by (simp add: keeps_def throw_def refl)

lemma keeps_step: "keeps R m \<Longrightarrow> m w = (x, w1) \<Longrightarrow> keeps R f \<Longrightarrow> R w (snd (f w1))"
  by (metis keeps_def snd_conv trans)

lemma keeps_pair: "keeps R m \<Longrightarrow> (\<And>x. keeps R (f x)) \<Longrightarrow> keeps R (\<lambda>w. let (x, w1) = m w in f x w1)"
  by (rule keepsI) (auto simp: Let_def split: prod.split intro: keeps_step)

lemma keeps_then: "keeps R m \<Longrightarrow> (\<And>x. keeps R (f x)) \<Longrightarrow> keeps R (then_do m f)"
  by (rule keepsI) (auto simp: then_do_def split: prod.split sum.split intro: keeps_step dest: keepsD)

lemma keeps_on_error: "keeps R m \<Longrightarrow> keeps R (on_error f m)"
  by (rule keepsI) (auto simp: on_error_def split: prod.split sum.split dest: keepsD)

lemma keeps_Let_pair: "keeps R m \<Longrightarrow> (\<And>x. keeps R (f x)) \<Longrightarrow> keeps R (\<lambda>w. case m w of (x, w1) \<Rightarrow> f x w1)"
  using keeps_pair [of m f] by (simp add: Let_def)

lemma keeps_case: "keeps R m \<Longrightarrow> (\<And>x. keeps R (f x)) \<Longrightarrow> R w (snd (case m w of (x, w1) \<Rightarrow> f x w1))"
  using keeps_Let_pair [of m f] by (simp add: keeps_def)

lemma keeps_if: "keeps R f \<Longrightarrow> keeps R g \<Longrightarrow> keeps R (\<lambda>w. if b then f w else g w)"
  by (cases b) simp_all

lemma keeps_either: "keeps R f \<Longrightarrow> keeps R g \<Longrightarrow> keeps R (if b then f else g)"
  by simp

lemma keeps_tuple: "(\<And>a b. keeps R (f a b)) \<Longrightarrow> keeps R (\<lambda>w. case x of (a, b) \<Rightarrow> f a b w)"
  by (cases x) simp

lemma keeps_bool: "keeps R f \<Longrightarrow> keeps R g \<Longrightarrow> keeps R (\<lambda>w. case b of True \<Rightarrow> f w | False \<Rightarrow> g w)"
  by (cases b) simp_all

lemma keeps_sum:
  "(\<And>e. keeps R (f e)) \<Longrightarrow> (\<And>y. keeps R (g y)) \<Longrightarrow> keeps R (\<lambda>w. case x of Inl e \<Rightarrow> f e w | Inr y \<Rightarrow> g y w)"
  by (cases x) simp_all

lemma keeps_option:
  "keeps R f \<Longrightarrow> (\<And>y. keeps R (g y)) \<Longrightarrow> keeps R (\<lambda>w. case x of None \<Rightarrow> f w | Some y \<Rightarrow> g y w)"
  by (cases x) simp_all

lemma keeps_lstat:
  "keeps R f \<Longrightarrow> keeps R g \<Longrightarrow> (\<And>e. keeps R (h e)) \<Longrightarrow>
     keeps R (\<lambda>w. case x of Present \<Rightarrow> f w | Absent \<Rightarrow> g w | LstatError e \<Rightarrow> h e w)"
  by (cases x) simp_all

lemmas keeps_structure =
  keeps_const keeps_if keeps_either keeps_tuple keeps_bool keeps_sum keeps_option keeps_lstat
  keeps_Let_pair keeps_then keeps_on_error keeps_give keeps_throw

lemma keeps_hasHEAD: "git_keeps R P os \<Longrightarrow> keeps R (hasHEAD os)"
  unfolding hasHEAD_def
  by (intro keepsI) (auto split: prod.split sum.split dest!: git_keepsD [where args = "[''rev-parse'', ''--verify'', ''HEAD'']"] dest: keepsD)

lemma keeps_Validate:
  assumes "git_keeps R P os"
  shows "keeps R (ValidatePrerequisites os cfg)"
proof -
  have git: "keeps R (os_Git os (''rev-parse'' # r))" "keeps R (os_Git os (''config'' # r))" "keeps R (os_Git os (''remote'' # r))" for r
    by (auto intro!: git_keepsD [OF assms])
  show ?thesis
    unfolding ValidatePrerequisites_def Let_def by (intro keeps_structure git)
qed

lemma keeps_git_errors:
  "git_keeps R P os \<Longrightarrow> git_paths args = Some ps \<Longrightarrow> set ps \<subseteq> P \<Longrightarrow> hd args \<noteq> ''commit'' \<Longrightarrow>
     keeps R (git_errors os prefix args)"
  unfolding git_errors_def by (intro keeps_structure git_keepsD)

lemma keeps_ahead:
  assumes "git_keeps R P os"
  shows "keeps R (isAheadOfRemote os branch)"
proof -
  have git: "keeps R (os_Git os (''rev-parse'' # r))" "keeps R (os_Git os (''rev-list'' # r))" for r
    by (auto intro!: git_keepsD [OF assms])
  show ?thesis
    unfolding isAheadOfRemote_def Let_def
    by (intro keeps_structure keeps_hasHEAD [OF assms] git) (simp add: keeps_give keeps_throw split: option.split)
qed

lemma keeps_after_commit:
  assumes "git_keeps R P os"
  shows "keeps R (after_commit os branch committed)"
proof -
  have git: "keeps R (os_Git os (''rev-parse'' # r))" "keeps R (os_Git os (''push'' # r))" for r
    by (auto intro!: git_keepsD [OF assms])
  show ?thesis
    unfolding after_commit_def push_head_def
    by (intro keeps_structure keeps_ahead [OF assms] git)
qed

end

text \<open>A frame that a change of the files in \<open>P\<close> respects: every step of a publication respects it.\<close>

locale file_frame = frame R for R :: "'g world \<Rightarrow> 'g world \<Rightarrow> bool" +
  fixes P :: "string set"
  assumes local: "wd_Git w' = wd_Git w \<Longrightarrow> (\<And>p. p \<notin> P \<Longrightarrow> wd_Files w' p = wd_Files w p) \<Longrightarrow> R w w'"
begin

lemma keeps_file_op:
  assumes "\<And>fs p. p \<notin> P \<Longrightarrow> effect fs p = fs p" "\<And>fs p. p \<notin> P \<Longrightarrow> leftover fs p = fs p"
  shows "keeps R (file_op os effect leftover)"
  by (rule keepsI) (auto simp: file_op_def Let_def assms split: option.split intro!: local)

lemma keeps_touch: "keeps R (file_op os keep keep)"
  by (rule keeps_file_op) (simp_all add: keep_def)

lemma keeps_remove: "p \<in> P \<Longrightarrow> keeps R (remove_file os p)"
  unfolding remove_file_def
  by (rule keeps_then [OF keeps_on_error [OF keeps_touch]]) (auto split: option.split intro!: local refl)

lemma keeps_Lstat: "keeps R (Lstat os p)"
  using keeps_touch[of os]
  by (intro keepsI) (auto simp: Lstat_def split: prod.split sum.split dest: keepsD)

lemma keeps_ReadFile: "keeps R (ReadFile os p)"
  using keeps_touch[of os]
  by (intro keepsI) (auto simp: ReadFile_def split: prod.split sum.split dest: keepsD)

lemma keeps_clean_up: "t \<in> P \<Longrightarrow> keeps R (clean_up os t e)"
  using keeps_remove [of t os] by (auto simp: clean_up_def keeps_def)

lemma keeps_write_sync: "temp \<in> P \<Longrightarrow> keeps R (write_sync os temp fullTemp content)"
proof (rule keepsI)
  fix w :: "'g world"
  assume "temp \<in> P"
  then have "keeps R (then_do (on_error (wrap_error (''write temp file '' @ fullTemp @ '': ''))
      (file_op os (\<lambda>fs. fs(temp \<mapsto> content)) (\<lambda>fs. fs(temp \<mapsto> take (os_Written os (wd_Ops w)) content)))) (\<lambda>_.
    on_error (wrap_error (''sync temp file '' @ fullTemp @ '': '')) (file_op os keep keep)))"
    by (intro keeps_then keeps_on_error keeps_touch keeps_file_op) auto
  then show "R w (snd (write_sync os temp fullTemp content w))"
    by (simp add: write_sync_def keeps_def)
qed

lemma keeps_finish_write:
  assumes "path \<in> P" "temp_of path \<in> P"
  shows "keeps R (finish_write os path full written fclosed)"
proof -
  have "keeps R (file_op os (\<lambda>fs. fs(path := fs (temp_of path), temp_of path := None)) keep)"
    by (rule keeps_file_op) (use assms in \<open>auto simp: keep_def\<close>)
  then show ?thesis
    unfolding finish_write_def Let_def by (intro keeps_structure keeps_clean_up assms)
qed

lemma keeps_AtomicWriteFile:
  assumes "path \<in> P" "temp_of path \<in> P"
  shows "keeps R (AtomicWriteFile os dir path content)"
proof -
  have "keeps R (file_op os (\<lambda>fs. fs(temp_of path \<mapsto> [])) keep)"
    by (rule keeps_file_op) (use assms in \<open>auto simp: keep_def\<close>)
  then show ?thesis
    unfolding AtomicWriteFile_def Let_def
    by (intro keeps_structure keeps_touch keeps_write_sync keeps_finish_write assms)
qed

lemma keeps_present_files: "keeps R (present_files os label fs)"
proof (induction fs)
  case Nil
  then show ?case by (simp add: keeps_def refl)
next
  case (Cons f fs)
  have step: "keeps R (\<lambda>w1. case st of LstatError e \<Rightarrow> (Inl (wrapped (label f) e), w1)
        | Absent \<Rightarrow> present_files os label fs w1
        | Present \<Rightarrow> then_do (present_files os label fs) (\<lambda>rest. give (f # rest)) w1)" for st
    using Cons by (cases st) (auto simp: keeps_const intro: keeps_then keeps_give)
  show ?case
    by (rule keepsI) (use keeps_case [OF keeps_Lstat step] in \<open>simp add: case_prod_beta\<close>)
qed

lemma keeps_safety: "git_keeps R P os \<Longrightarrow> keeps R (checkWorkingTreeSafety os)"
  unfolding checkWorkingTreeSafety_def
  by (auto intro!: keeps_then keeps_present_files keeps_on_error keeps_give keeps_throw elim: git_keepsD)

lemmas keeps_files = keeps_Lstat keeps_ReadFile keeps_touch

lemma keeps_take_snapshot: "keeps R (take_snapshot os fs)"
proof (induction fs)
  case (Cons f fs)
  show ?case unfolding take_snapshot.simps Let_def by (intro keeps_structure keeps_files Cons.IH)
qed (simp add: keeps_def refl)

lemma keeps_all_written: "keeps R (all_written os files fs)"
proof (induction fs)
  case (Cons f fs)
  show ?case unfolding all_written.simps Let_def by (intro keeps_structure keeps_files Cons.IH)
qed (simp add: keeps_def refl)

lemma keeps_no_legacy: "keeps R (no_legacy os fs)"
proof (induction fs)
  case (Cons f fs)
  show ?case unfolding no_legacy.simps by (intro keeps_structure keeps_files Cons.IH)
qed (simp add: keeps_def refl)

lemma keeps_meta_text: "keeps R (meta_text_of os unchanged meta)"
  unfolding meta_text_of_def by (intro keeps_structure keeps_files)

lemma keeps_remove_legacy: "set fs \<subseteq> P \<Longrightarrow> keeps R (remove_legacy os fs)"
proof (induction fs)
  case (Cons f fs)
  then have "keeps R (remove_legacy os fs)" "f \<in> P" by simp_all
  then show ?case
    unfolding remove_legacy.simps by (intro keeps_structure keeps_files keeps_remove)
qed (simp add: keeps_def refl)

lemma keeps_write_files: "set fs \<union> temp_of ` set fs \<subseteq> P \<Longrightarrow> keeps R (write_files os dir files fs)"
proof (induction fs)
  case (Cons f fs)
  then have "keeps R (write_files os dir files fs)" "f \<in> P" "temp_of f \<in> P" by simp_all
  then show ?case
    unfolding write_files.simps by (intro keeps_structure keeps_AtomicWriteFile)
qed (simp add: keeps_def refl)

lemma keeps_remove_all: "set fs \<subseteq> P \<Longrightarrow> keeps R (remove_all os label fs)"
proof (induction fs)
  case (Cons f fs)
  then have "keeps R (remove_all os label fs)" "f \<in> P" by simp_all
  then show ?case
    unfolding remove_all.simps Let_def by (intro keeps_structure keeps_remove)
qed (simp add: keeps_def refl)

lemma keeps_prepare:
  assumes "git_keeps R P os" "set owned_files \<union> set temp_files \<subseteq> P"
  shows "keeps R (prepare os dir st)"
proof -
  have sub: "set legacyRootFiles \<subseteq> P" "set targetFiles \<union> temp_of ` set targetFiles \<subseteq> P"
    using assms(2) by (auto simp: owned_files_def temp_files_def)
  have git: "keeps R (os_Git os (''add'' # r))" "keeps R (os_Git os (''diff'' # r))" for r
    by (auto intro!: git_keepsD [OF assms(1)])
  show ?thesis
    unfolding prepare_def Let_def append_Cons
    by (intro keeps_structure keeps_all_written keeps_no_legacy keeps_meta_text keeps_remove_legacy keeps_write_files
        sub git)
qed

lemma keeps_rollback:
  assumes "git_keeps R P os" "set owned_files \<union> set temp_files \<subseteq> P"
  shows "keeps R (rollback os dir existed head)"
proof -
  have sub: "set (filter f owned_files) \<subseteq> P" "set (map temp_of targetFiles) \<subseteq> P" for f
    using assms(2) by (auto simp: temp_files_def)
  have git: "keeps R (\<lambda>w. ([], snd (os_Git os ([''rm'', ''--cached'', ''-f'', ''--''] @ r) w)))"
    "keeps R (git_errors os prefix ([''reset'', ''HEAD'', ''--''] @ r))"
    "set r \<subseteq> P \<Longrightarrow> keeps R (git_errors os prefix ([''checkout'', ''HEAD'', ''--''] @ r))" for r prefix
    using git_keepsD [OF assms(1), of "[''rm'', ''--cached'', ''-f'', ''--''] @ r"]
    by (auto simp: keeps_def [of _ "\<lambda>w. ([], _ w)"] keeps_def [of _ "os_Git os _"] intro!: keeps_git_errors [OF assms(1)])
  show ?thesis
    unfolding rollback_def Let_def by (intro keeps_structure keeps_remove_all git sub)
qed

lemma keeps_checks: "git_keeps R P os \<Longrightarrow> keeps R (then_do (ValidatePrerequisites os cfg) (\<lambda>_. checkWorkingTreeSafety os))"
  by (intro keeps_then keeps_Validate keeps_safety)

lemma keeps_publish:
  assumes "git_keeps R P os" "set owned_files \<union> set temp_files \<subseteq> P"
    and commit: "\<And>r. keeps R (os_Git os (''commit'' # r))"
  shows "keeps R (publish_tx os cfg st)"
proof -
  have "keeps R (commit_staged os staged)" for staged
    unfolding commit_staged_def by (intro keeps_structure commit)
  then show ?thesis
    unfolding publish_tx_def Let_def
    by (intro keeps_structure keeps_checks [OF assms(1)] keeps_hasHEAD [OF assms(1)] keeps_take_snapshot
        keeps_prepare [OF assms(1,2)] keeps_rollback [OF assms(1,2)] keeps_after_commit [OF assms(1)])
qed

end

text \<open>The files outside a set.\<close>

definition unchanged_outside :: "string set \<Rightarrow> 'g world \<Rightarrow> 'g world \<Rightarrow> bool" where
  "unchanged_outside P w w' \<longleftrightarrow> (\<forall>p. p \<notin> P \<longrightarrow> wd_Files w' p = wd_Files w p)"

interpretation scope: file_frame "unchanged_outside P" P for P
  by unfold_locales (auto simp: unchanged_outside_def)



lemma scope_git: "git_leaves_files os \<Longrightarrow> git_keeps (unchanged_outside P) P os"
  unfolding git_keeps_def git_leaves_files_def keeps_def unchanged_outside_def by (meson subsetD)

lemma scope_commit: "git_leaves_files os \<Longrightarrow> keeps (unchanged_outside P) (os_Git os (''commit'' # r))"
  by (auto simp: git_leaves_files_def keeps_def unchanged_outside_def)





section \<open>What a publication changes\<close>

text \<open>C36: A publication changes no file of the working tree but the subscription files, \<open>meta.json\<close>, the four
  legacy files at the root and the temporary files beside the targets, whatever its outcome and whichever Git
  commands and file operations fail on the way, the rollback included.\<close>

theorem publish_scoped:
  assumes "git_leaves_files os" "p \<notin> set owned_files" "p \<notin> set temp_files"
  shows "wd_Files (snd (publish_tx os cfg st w)) p = wd_Files w p"
proof -
  let ?P = "set owned_files \<union> set temp_files"
  have "keeps (unchanged_outside ?P) (publish_tx os cfg st)"
    by (rule scope.keeps_publish [OF scope_git [OF assms(1)] subset_refl scope_commit [OF assms(1)]])
  then show ?thesis using assms(2,3) by (auto simp: keeps_def unchanged_outside_def)
qed

section \<open>The steps of a transaction\<close>

lemma file_op_keep:
  "file_op os keep keep w = ((case os_Fails os (wd_Ops w) of None \<Rightarrow> Inr () | Some e \<Rightarrow> Inl e), w \<lparr> wd_Ops := Suc (wd_Ops w) \<rparr>)"
  by (simp add: file_op_def Let_def keep_def split: option.split)

lemma Lstat_eq:
  "Lstat os p w =
     ((case os_Fails os (wd_Ops w) of Some e \<Rightarrow> LstatError e | None \<Rightarrow> if wd_Files w p = None then Absent else Present),
      w \<lparr> wd_Ops := Suc (wd_Ops w) \<rparr>)"
  by (simp add: Lstat_def file_op_keep split: option.split)

text \<open>Whether a removal took effect.\<close>

definition removed :: "(go_error option, unit) outcome \<Rightarrow> bool" where
  "removed r = (case r of Inl (Some _) \<Rightarrow> False | _ \<Rightarrow> True)"

lemma remove_file_files:
  "remove_file os p w = (r, w') \<Longrightarrow> wd_Files w' = (if removed r then (wd_Files w)(p := None) else wd_Files w)"
  by (auto simp: remove_file_def then_do_def on_error_def file_op_keep removed_def fun_eq_iff
      split: option.splits prod.splits sum.splits)















section \<open>What a publication leaves\<close>

lemma temp_of_differs [simp]: "temp_of p \<noteq> p"
  by (simp add: temp_of_def)

lemma file_op_ok: "file_op os effect leftover w = (Inr x, w') \<Longrightarrow> wd_Files w' = effect (wd_Files w)"
  by (auto simp: file_op_def Let_def split: option.splits)

lemma clean_up_fails: "clean_up os t e w \<noteq> (Inr x, w')"
  by (simp add: clean_up_def)

lemma then_do_ok:
  "then_do m f w = (Inr x, w') \<longleftrightarrow> (\<exists>y w1. m w = (Inr y, w1) \<and> f y w1 = (Inr x, w'))"
  by (auto simp: then_do_def split: prod.splits sum.splits)

lemma on_error_ok: "on_error g m w = (Inr x, w') \<longleftrightarrow> m w = (Inr x, w')"
  by (auto simp: on_error_def split: prod.splits sum.splits)

lemma case_pair_iff: "(case z of (a, b) \<Rightarrow> f a b) = y \<longleftrightarrow> (\<exists>a b. z = (a, b) \<and> f a b = y)"
  by (cases z) simp

lemma write_sync_ok:
  "write_sync os temp fullTemp content w = (Inr x, w') \<Longrightarrow> wd_Files w' = (wd_Files w)(temp \<mapsto> content)"
  by (auto simp: write_sync_def then_do_ok on_error_ok keep_def dest!: file_op_ok)

lemma finish_write_ok:
  assumes "finish_write os path full written fclosed w = (Inr x, w')"
  shows "written = Inr () \<and> fclosed = Inr () \<and> wd_Files w' = (wd_Files w)(path := wd_Files w (temp_of path), temp_of path := None)"
  using assms unfolding finish_write_def Let_def
  by (auto simp: clean_up_fails split: sum.splits prod.splits dest: file_op_ok)

lemma AtomicWriteFile_ok:
  assumes "AtomicWriteFile os dir path content w = (Inr (), w')"
  shows "wd_Files w' = (wd_Files w)(path \<mapsto> content, temp_of path := None)"
proof -
  let ?t = "temp_of path" and ?full = "path_Join [dir, path]"
  obtain w1 w2 written w3 fclosed w4 where w1: "file_op os keep keep w = (Inr (), w1)"
    and w2: "file_op os (\<lambda>fs. fs(?t \<mapsto> [])) keep w1 = (Inr (), w2)"
    and w3: "write_sync os ?t (temp_of ?full) content w2 = (written, w3)"
    and w4: "file_op os keep keep w3 = (fclosed, w4)"
    and last: "finish_write os path ?full written fclosed w4 = (Inr (), w')"
    using assms unfolding AtomicWriteFile_def Let_def then_do_ok on_error_ok case_pair_iff by auto
  note finish_write_ok [OF last]
  moreover from this have "wd_Files w4 = (wd_Files w)(?t \<mapsto> content)"
    using file_op_ok [OF w1] file_op_ok [OF w2] w3 w4 by (auto simp: keep_def dest!: write_sync_ok file_op_ok)
  ultimately show ?thesis by (simp add: fun_eq_iff)
qed

lemma write_files_ok:
  assumes "write_files os dir files fs w = (Inr (), w')" "distinct fs" "set fs \<inter> temp_of ` set fs = {}"
    and "f \<in> set fs" "map_of files f = Some c"
  shows "wd_Files w' f = Some c"
  using assms
proof (induction fs arbitrary: w)
  case (Cons g fs)
  show ?case
  proof (cases "f = g")
    case True
    with Cons.prems obtain w1 where w1: "AtomicWriteFile os dir g c w = (Inr (), w1)"
      and rest: "write_files os dir files fs w1 = (Inr (), w')"
      by (auto simp: then_do_def on_error_def split: prod.splits sum.splits)
    have "unchanged_outside (set fs \<union> temp_of ` set fs) w1 w'"
      by (rule keepsD [OF scope.keeps_write_files [OF subset_refl] rest])
    moreover have "f \<notin> set fs \<union> temp_of ` set fs" using Cons.prems True by auto
    ultimately show ?thesis
      using AtomicWriteFile_ok [OF w1] True by (auto simp: unchanged_outside_def temp_of_differs [symmetric])
  next
    case False
    have "\<exists>w1. write_files os dir files fs w1 = (Inr (), w')"
      using Cons.prems by (auto simp: then_do_def split: option.splits prod.splits sum.splits)
    then show ?thesis using Cons.IH Cons.prems False by auto
  qed
qed simp

lemma remove_legacy_ok:
  "remove_legacy os fs w = (Inr gone, w') \<Longrightarrow> f \<in> set fs \<Longrightarrow> wd_Files w' f = None"
proof (induction fs arbitrary: w gone)
  case (Cons g fs)
  obtain st w0 where st: "Lstat os g w = (st, w0)" by fastforce
  have "\<exists>w1 gone1. remove_legacy os fs w1 = (Inr gone1, w') \<and> wd_Files w1 g = None"
  proof (cases st)
    case Present
    obtain r w1 where r: "remove_file os g w0 = (r, w1)" by fastforce
    have "\<exists>gone1. r = Inr () \<and> remove_legacy os fs w1 = (Inr gone1, w')"
      using Cons.prems(1) st Present r by (auto simp: then_do_def give_def split: prod.splits sum.splits)
    then show ?thesis using remove_file_files [OF r] by (auto simp: removed_def)
  next
    case Absent
    then have "wd_Files w0 g = None"
      using st by (auto simp: Lstat_eq split: option.splits if_splits)
    then show ?thesis using Cons.prems(1) st Absent by auto
  qed (use Cons.prems(1) st in simp)
  then obtain w1 gone1 where w1: "remove_legacy os fs w1 = (Inr gone1, w')" "wd_Files w1 g = None" by blast
  show ?case
  proof (cases "f \<in> set fs")
    case False
    have "unchanged_outside (set fs) w1 w'"
      by (rule keepsD [OF scope.keeps_remove_legacy [OF subset_refl] w1(1)])
    then show ?thesis using False w1(2) Cons.prems(2) by (auto simp: unchanged_outside_def)
  qed (use Cons.IH w1(1) in blast)
qed simp

lemma rendered_paths:
  "map fst (fst (RenderSubscriptionFiles now rfc st)) = subscriptionFiles"
  by (simp add: RenderSubscriptionFiles_def Let_def rendered_def subscriptionFiles_def in_dir_def protocol_files_def)

lemma target_paths:
  "distinct targetFiles" "set targetFiles \<inter> temp_of ` set targetFiles = {}"
  "set legacyRootFiles \<inter> (set targetFiles \<union> temp_of ` set targetFiles) = {}"
proof -
  have "distinct targetFiles \<and> list_all (\<lambda>t. t \<notin> set targetFiles) (map temp_of targetFiles)
      \<and> list_all (\<lambda>l. l \<notin> set (targetFiles @ map temp_of targetFiles)) legacyRootFiles"
    by code_simp
  then show "distinct targetFiles" "set targetFiles \<inter> temp_of ` set targetFiles = {}"
    "set legacyRootFiles \<inter> (set targetFiles \<union> temp_of ` set targetFiles) = {}"
    by (auto simp: list_all_iff)
qed

text \<open>After the preparation the rendered files are on disk and the legacy files are gone.\<close>

lemma prepare_ok:
  assumes "git_leaves_files os" "prepare os dir st w = (Inr staged, w')"
  shows "(\<forall>(f, c) \<in> set (fst (RenderSubscriptionFiles (os_Now os) (os_RFC3339 os) st)). wd_Files w' f = Some c)
    \<and> (\<forall>f \<in> set legacyRootFiles. wd_Files w' f = None)"
proof -
  obtain files meta where render: "RenderSubscriptionFiles (os_Now os) (os_RFC3339 os) st = (files, meta)" by fastforce
  obtain metaText w0 gone w1 w2 added w3 out where
    gone: "remove_legacy os legacyRootFiles w0 = (Inr gone, w1)"
    and w2: "write_files os dir (files @ [(FileMeta, metaText)]) targetFiles w1 = (Inr (), w2)"
    and w3: "os_Git os ([''add'', ''--''] @ targetFiles @ gone) w2 = (Inr added, w3)"
    and w4: "os_Git os ([''diff'', ''--cached'', ''--name-only'', ''--''] @ targetFiles @ gone) w3 = (Inr out, w')"
    using assms(2) unfolding prepare_def Let_def case_pair_iff then_do_ok on_error_ok
    by (auto simp: render give_def)
  have "unchanged_outside {} w2 w3"
    by (rule keepsD [OF git_keepsD [OF scope_git [OF assms(1)]] w3]) auto
  moreover have "unchanged_outside {} w3 w'"
    by (rule keepsD [OF git_keepsD [OF scope_git [OF assms(1)]] w4]) auto
  ultimately have w': "wd_Files w' = wd_Files w2" by (auto simp: unchanged_outside_def)
  have paths: "map fst files = subscriptionFiles" using rendered_paths render by (metis fst_conv)
  have "wd_Files w' f = Some c" if fc: "(f, c) \<in> set files" for f c
  proof -
    have "f \<in> set subscriptionFiles" using fc by (force simp flip: paths)
    then have f: "f \<in> set targetFiles" "distinct (map fst files)"
      using target_paths(1) by (auto simp: targetFiles_def paths)
    then have "map_of (files @ [(FileMeta, metaText)]) f = Some c"
      using fc by (simp add: map_add_def)
    then show ?thesis using write_files_ok [OF w2 target_paths(1,2) f(1)] w' by simp
  qed
  moreover have "wd_Files w' f = None" if f: "f \<in> set legacyRootFiles" for f
  proof -
    have "unchanged_outside (set targetFiles \<union> temp_of ` set targetFiles) w1 w2"
      by (rule keepsD [OF scope.keeps_write_files [OF subset_refl] w2])
    moreover have "f \<notin> set targetFiles \<union> temp_of ` set targetFiles" using target_paths(3) f by blast
    ultimately show ?thesis
      using remove_legacy_ok [OF gone f] w' by (simp add: unchanged_outside_def)
  qed
  ultimately show ?thesis by (auto simp: render)
qed

text \<open>C37: After a publication that succeeds, pushed or found up to date, every subscription file of the working tree has the
  content rendered from the store, and none of the four legacy files is left at the root.\<close>

theorem published_contents:
  assumes "git_leaves_files os" "publish_tx os cfg st w = (Published sha, w')"
    and "(f, c) \<in> set (fst (RenderSubscriptionFiles (os_Now os) (os_RFC3339 os) st))" "l \<in> set legacyRootFiles"
  shows "wd_Files w' f = Some c \<and> wd_Files w' l = None"
proof -
  let ?dir = "ExpandHome (os_Home os) (pub_Repository cfg)"
    and ?branch = "if pub_Branch cfg = [] then ''main'' else pub_Branch cfg"
  obtain w0 w1 staged committed w2 where prep: "prepare os ?dir st w0 = (Inr staged, w1)"
    and commit: "commit_staged os staged w1 = (Inr committed, w2)"
    and after: "after_commit os ?branch committed w2 = (Inr sha, w')"
    using assms(2) unfolding publish_tx_def Let_def
    by (auto simp: then_do_ok split: prod.splits sum.splits)
  have "keeps (unchanged_outside {}) (commit_staged os staged)"
    unfolding commit_staged_def by (intro scope.keeps_structure scope_commit [OF assms(1)])
  then have "unchanged_outside {} w1 w2" using commit by (rule keepsD)
  moreover have "unchanged_outside {} w2 w'"
    by (rule keepsD [OF scope.keeps_after_commit [OF scope_git [OF assms(1)]] after])
  ultimately have "wd_Files w' = wd_Files w1" by (auto simp: unchanged_outside_def)
  then show ?thesis using prepare_ok [OF assms(1) prep] assms(3,4) by auto
qed

section \<open>A small Git\<close>

text \<open>
  A repository given by the files of its last commit, none before the first one, for the examples; the untracked paths
  that it ignores and whether a commit works are parameters.
\<close>

definition small_commit :: "(string \<Rightarrow> string option) \<Rightarrow> (string \<times> string) list" where
  "small_commit files = List.map_filter (\<lambda>p. map_option (Pair p) (files p)) owned_files"

definition small_git ::
    "string list \<Rightarrow> bool \<Rightarrow> string list \<Rightarrow> (string \<times> string) list world \<Rightarrow>
       (go_error, string) outcome \<times> (string \<times> string) list world" where
  "small_git ign commits args w =
     (let verb = hd args; tracked = map_of (wd_Git w) in
      if args = [''rev-parse'', ''--verify'', ''HEAD''] \<and> wd_Git w = [] then (Inl (new_error ''no commit''), w)
      else if verb = ''rev-parse'' then (Inr (if args = [''rev-parse'', ''--is-inside-work-tree''] then ''true'' else ''ab12''), w)
      else if verb = ''config'' then (Inr ''https://h/a/b'', w)
      else if verb = ''status'' then
        (Inr (if list_all (\<lambda>p. wd_Files w p = tracked p \<or> tracked p = None \<and> p \<in> set ign) (drop 3 args) then [] else ''M''), w)
      else if verb = ''diff'' then (Inr ''x'', w)
      else if verb = ''commit'' then
        if commits then (Inr [], w \<lparr> wd_Git := small_commit (wd_Files w) \<rparr>) else (Inl (new_error ''hook''), w)
      else if take 3 args = [''checkout'', ''HEAD'', ''--''] then
        if list_all (\<lambda>p. tracked p \<noteq> None) (drop 3 args)
        then (Inr [], w \<lparr> wd_Files := \<lambda>p. if p \<in> set (drop 3 args) then tracked p else wd_Files w p \<rparr>)
        else (Inl (new_error ''pathspec''), w)
      else (Inr [], w))"

definition small_outside :: "string list \<Rightarrow> bool \<Rightarrow> (nat \<Rightarrow> go_error option) \<Rightarrow> (string \<times> string) list outside" where
  "small_outside ign commits fails =
     \<lparr> os_Git = small_git ign commits, os_Fails = fails, os_Written = (\<lambda>_. 0), os_Home = None, os_Stat = (\<lambda>_. Inr True),
       os_Ctx = None, os_Now = 5, os_RFC3339 = (\<lambda>_. ''t'') \<rparr>"

definition small_config :: publishing_config where
  "small_config = \<lparr> pub_Enabled = True, pub_Repository = ''/r'', pub_Branch = [], pub_RemoteURL = ''https://h/a/b'' \<rparr>"

definition small_world :: "(string \<times> string) list world" where
  "small_world =
     (let files = [(''README'', ''me''), (''generic/all.txt'', ''old''), (''vless.txt'', ''v'')]
      in \<lparr> wd_Files = map_of files, wd_Git = files, wd_Ops = 0 \<rparr>)"

lemma small_git_files:
  assumes "take 3 args \<noteq> [''checkout'', ''HEAD'', ''--''] \<or> p \<notin> set (drop 3 args)"
  shows "wd_Files (snd (small_git ign commits args w)) p = wd_Files w p"
  using assms by (simp add: small_git_def Let_def)

lemma small_git_leaves_files: "git_leaves_files (small_outside ign commits fails)"
  unfolding git_leaves_files_def
proof (intro allI impI)
  fix args ps w p
  assume ps: "git_paths args = Some ps" "p \<notin> set ps"
  have "take 3 args \<noteq> [''checkout'', ''HEAD'', ''--''] \<or> p \<notin> set (drop 3 args)"
  proof (cases "take 3 args = [''checkout'', ''HEAD'', ''--'']")
    case True
    then have "args = [''checkout'', ''HEAD'', ''--''] @ drop 3 args" by (metis append_take_drop_id)
    then have "git_paths args = Some (drop 3 args)" by (metis append_Cons append_Nil git_paths_simps(10))
    then show ?thesis using ps by simp
  qed simp
  then show "wd_Files (snd (os_Git (small_outside ign commits fails) args w)) p = wd_Files w p"
    by (simp add: small_outside_def small_git_files)
qed



text \<open>The first file cannot be written, when a legacy file is removed already.\<close>

definition failing_write :: "nat \<Rightarrow> go_error option" where
  "failing_write n = (if n = 29 then Some (new_error ''no space'') else None)"


text \<open>When no operation fails the preparation succeeds.\<close>

lemma file_op_succeeds: "os_Fails os = (\<lambda>_. None) \<Longrightarrow> \<exists>w'. file_op os effect leftover w = (Inr (), w')"
  by (simp add: file_op_def Let_def)

lemma write_succeeds:
  assumes "os_Fails os = (\<lambda>_. None)"
  shows "\<exists>w'. AtomicWriteFile os dir path content w = (Inr (), w')"
proof -
  have sync: "\<exists>w'. write_sync os temp full content w = (Inr (), w')" for temp full w
    unfolding write_sync_def by (simp add: then_do_ok on_error_ok file_op_def Let_def assms)
  have finish: "\<exists>w'. finish_write os path full (Inr ()) (Inr ()) w = (Inr (), w')" for full w
    by (simp add: finish_write_def Let_def file_op_def assms)
  show ?thesis
    unfolding AtomicWriteFile_def Let_def then_do_ok on_error_ok case_pair_iff
    using file_op_succeeds [OF assms] sync finish by meson
qed

lemma write_files_succeed: "os_Fails os = (\<lambda>_. None) \<Longrightarrow> \<exists>w'. write_files os dir files fs w = (Inr (), w')"
proof (induction fs arbitrary: w)
  case (Cons f fs)
  show ?case
  proof (cases "map_of files f")
    case (Some c)
    obtain w1 where "AtomicWriteFile os dir f c w = (Inr (), w1)"
      using write_succeeds [OF Cons.prems] by blast
    then show ?thesis using Cons.IH [OF Cons.prems, of w1] Some by (simp add: then_do_ok on_error_ok)
  qed (use Cons in simp)
qed simp

lemma remove_file_succeeds:
  "os_Fails os = (\<lambda>_. None) \<Longrightarrow> wd_Files w f \<noteq> None \<Longrightarrow> \<exists>w'. remove_file os f w = (Inr (), w')"
  by (auto simp: remove_file_def then_do_ok on_error_ok file_op_keep)

lemma remove_legacy_succeeds: "os_Fails os = (\<lambda>_. None) \<Longrightarrow> \<exists>gone w'. remove_legacy os fs w = (Inr gone, w')"
proof (induction fs arbitrary: w)
  case (Cons f fs)
  let ?w = "w \<lparr> wd_Ops := Suc (wd_Ops w) \<rparr>"
  show ?case
  proof (cases "wd_Files w f")
    case None
    then show ?thesis using Cons.IH [OF Cons.prems, of ?w] by (simp add: Lstat_eq Cons.prems)
  next
    case (Some c)
    then obtain w1 where "remove_file os f ?w = (Inr (), w1)"
      using remove_file_succeeds [OF Cons.prems, of ?w f] by auto
    moreover obtain gone w2 where "remove_legacy os fs w1 = (Inr gone, w2)"
      using Cons.IH [OF Cons.prems, of w1] by blast
    ultimately show ?thesis
      using Some by (auto simp: Lstat_eq Cons.prems then_do_def give_def)
  qed
qed simp

lemma no_legacy_succeeds: "os_Fails os = (\<lambda>_. None) \<Longrightarrow> \<exists>b w'. no_legacy os fs w = (Inr b, w')"
  by (induction fs arbitrary: w) (auto simp: Lstat_eq)

lemma small_prepare:
  "\<exists>w'. prepare (small_outside ign commits (\<lambda>_. None)) dir st w = (Inr True, w')"
proof -
  let ?os = "small_outside ign commits (\<lambda>_. None)"
  have nf: "os_Fails ?os = (\<lambda>_. None)" by (simp add: small_outside_def)
  have git: "os_Git ?os (''add'' # r) w = (Inr [], w)" "os_Git ?os (''diff'' # r) w = (Inr ''x'', w)" for r w
    by (simp_all add: small_outside_def small_git_def Let_def)
  have x: "trim_space ''x'' \<noteq> []" by code_simp
  obtain files meta where render: "RenderSubscriptionFiles (os_Now ?os) (os_RFC3339 ?os) st = (files, meta)" by fastforce
  obtain same w1 where w1: "all_written ?os files subscriptionFiles w = (same, w1)" by fastforce
  obtain unchanged w2 where w2: "(if same then no_legacy ?os legacyRootFiles else give False) w1 = (Inr unchanged, w2)"
    using no_legacy_succeeds [OF nf, of legacyRootFiles w1] by (cases same) (auto simp: give_def)
  obtain metaText w3 where w3: "meta_text_of ?os unchanged meta w2 = (metaText, w3)" by fastforce
  obtain gone w4 where w4: "remove_legacy ?os legacyRootFiles w3 = (Inr gone, w4)"
    using remove_legacy_succeeds [OF nf] by blast
  obtain w5 where w5: "write_files ?os dir (files @ [(FileMeta, metaText)]) targetFiles w4 = (Inr (), w5)"
    using write_files_succeed [OF nf] by blast
  show ?thesis
    unfolding prepare_def Let_def case_pair_iff then_do_ok on_error_ok
    using render w1 w2 w3 w4 w5 git x by (fastforce simp: give_def)
qed

lemma small_publication:
  "\<exists>sha w'. publish_tx (small_outside [] True (\<lambda>_. None)) small_config (New [] 0) small_world = (Published sha, w')"
proof -
  let ?os = "small_outside [] True (\<lambda>_. None)" and ?dir = "ExpandHome None (pub_Repository small_config)"
  have "\<not> isl (fst (then_do (ValidatePrerequisites ?os small_config) (\<lambda>_. checkWorkingTreeSafety ?os) small_world))"
    by code_simp
  then obtain u w1 where checks: "then_do (ValidatePrerequisites ?os small_config) (\<lambda>_. checkWorkingTreeSafety ?os) small_world
      = (Inr u, w1)"
    by (metis isl_def prod.exhaust_sel sum.exhaust_sel)
  obtain has w2 where w2: "hasHEAD ?os w1 = (has, w2)" by fastforce
  obtain existed w3 where w3: "take_snapshot ?os owned_files w2 = (existed, w3)" by fastforce
  obtain w4 where w4: "prepare ?os ?dir (New [] 0) w3 = (Inr True, w4)" using small_prepare by blast
  define w5 where "w5 = w4 \<lparr> wd_Git := small_commit (wd_Files w4) \<rparr>"
  have "commit_staged ?os True w4 = (Inr True, w5)"
    by (simp add: commit_staged_def then_do_def on_error_def give_def small_outside_def small_git_def Let_def w5_def)
  then have tx: "then_do (prepare ?os ?dir (New [] 0)) (commit_staged ?os) w3 = (Inr True, w5)"
    using w4 by (simp add: then_do_def)
  have push: "after_commit ?os branch True w5 = (Inr (Some (trim_space ''ab12'')), w5)" for branch
    by (simp add: after_commit_def push_head_def then_do_def on_error_def give_def small_outside_def small_git_def Let_def)
  have home: "os_Home ?os = None" by (simp add: small_outside_def)
  show ?thesis
    by (simp only: publish_tx_def Let_def home checks w2 w3 tx push prod.case sum.case) simp
qed

theorem publish_scoped_witness:
  "wd_Files (snd (publish_tx (small_outside [] False failing_write) small_config (New [] 0) small_world)) ''README''
     = Some ''me''"
proof -
  have "''README'' \<notin> set owned_files" "''README'' \<notin> set temp_files" by code_simp+
  then have "wd_Files (snd (publish_tx (small_outside [] False failing_write) small_config (New [] 0) small_world)) ''README''
      = wd_Files small_world ''README''"
    by (intro publish_scoped small_git_leaves_files)
  then show ?thesis by (simp add: small_world_def Let_def)
qed


theorem published_contents_witness:
  "\<exists>sha w'. publish_tx (small_outside [] True (\<lambda>_. None)) small_config (New [] 0) small_world = (Published sha, w')
     \<and> wd_Files w' ''generic/all.txt'' = Some [] \<and> wd_Files w' ''vless.txt'' = None"
proof -
  obtain sha w' where tx: "publish_tx (small_outside [] True (\<lambda>_. None)) small_config (New [] 0) small_world = (Published sha, w')"
    using small_publication by blast
  have f: "(''generic/all.txt'', []) \<in> set (fst (RenderSubscriptionFiles (os_Now (small_outside [] True (\<lambda>_. None)))
      (os_RFC3339 (small_outside [] True (\<lambda>_. None))) (New [] 0)))"
    and l: "''vless.txt'' \<in> set legacyRootFiles"
    by code_simp+
  show ?thesis using published_contents [OF small_git_leaves_files tx f l] tx by blast
qed

text \<open>
  A look at an owned file that fails for another reason than absence counts as absence: the rollback then deletes a
  committed file and reports no error. Here the first look of the snapshot fails, and later a write.
\<close>

theorem failed_look_loses_file:
  "case publish_tx (small_outside [] False (\<lambda>n. if n = 4 \<or> n = 29 then Some (new_error ''I/O error'') else None))
          small_config (New [] 0) small_world of
     (RolledBack e errs, w') \<Rightarrow>
       errs = [] \<and> wd_Files small_world ''generic/all.txt'' = Some ''old'' \<and> wd_Files w' ''generic/all.txt'' = None
   | _ \<Rightarrow> False"
  by code_simp

text \<open>
  Before the first commit an ignored file that was there stays overwritten, and the rollback reports no error: here the
  first subscription file is written and the second cannot be.
\<close>

definition unborn_world :: "(string \<times> string) list world" where
  "unborn_world = \<lparr> wd_Files = map_of [(''generic/all.txt'', ''old'')], wd_Git = [], wd_Ops = 0 \<rparr>"

theorem ignored_file_overwritten:
  "case publish_tx (small_outside [''generic/all.txt''] False (\<lambda>n. if n = 32 then Some (new_error ''no space'') else None))
          small_config (New [] 0) unborn_world of
     (RolledBack e errs, w') \<Rightarrow>
       errs = [] \<and> wd_Files unborn_world ''generic/all.txt'' = Some ''old'' \<and> wd_Files w' ''generic/all.txt'' = Some []
   | _ \<Rightarrow> False"
  by code_simp

text \<open>A password that holds an \<open>@\<close> is masked up to its first \<open>@\<close> only.\<close>

theorem password_tail_shown: "SanitizeMessage ''https://user:p@ss@host/r'' = ''https://***@ss@host/r''"
  by code_simp

end
