(* ===== verification/PublishService.thy ===== *)
theory PublishService
  imports EventTypes ConfigService Publisher
begin

text \<open>
  The publishing service, \<open>internal/publisher/service.go\<close>: configuration, prerequisites, the classification of errors,
  the status, and \<open>Publish\<close>, of which one call at a time reaches the publisher. Calls run concurrently: each is a
  flight that goes through its critical sections and event publications step by step.
\<close>

section \<open>Errors\<close>

text \<open>\<open>to_lower\<close> is \<open>strings.ToLower\<close> on ASCII, which the phrases are.\<close>

definition auth_phrases :: "string list" where
  "auth_phrases = [''authentication failed'', ''permission denied'', ''could not read username'']"

definition unavailable_phrases :: "string list" where
  "unavailable_phrases = [''not a valid git repository'', ''repository path'', ''inaccessible'']"

definition invalid_phrases :: "string list" where
  "invalid_phrases =
     [''remote origin url mismatch'', ''remote_url is required'', ''repository path is empty'', ''branch is required'']"

definition classifyAndSanitizeError :: "pub_error \<Rightarrow> pub_error" where
  "classifyAndSanitizeError err =
     (if ge_Canceled (pe_Cause err) \<or> ge_Deadline (pe_Cause err) then err
      else
        let msg = SanitizeMessage (ge_Text (pe_Cause err));
            typed = (\<lambda>s. \<lparr> pe_Sentinel = s, pe_Cause = new_error msg \<rparr>);
            lower = to_lower msg; mentions = list_ex (\<lambda>phrase. str_contains lower phrase) in
        case pe_Sentinel err of
          Some s \<Rightarrow>
            if s = ErrPublishingAlreadyRunning then sentinel_error ErrPublishingAlreadyRunning [] else typed (Some s)
        | None \<Rightarrow>
            if mentions auth_phrases then typed (Some ErrAuthenticationFailed)
            else if mentions unavailable_phrases then typed (Some ErrRepositoryUnavailable)
            else if mentions invalid_phrases then typed (Some ErrInvalidConfiguration)
            else if mentions [''git ''] then typed (Some ErrGitOperationFailed)
            else typed None)"

section \<open>The service\<close>

text \<open>The backend is the publisher: its configuration and the commit it pushed last.\<close>

record publish_service =
  ps_configSvc :: "config_service option"
  ps_bus :: bool
  ps_backendCfg :: publishing_config
  ps_backendCommit :: string
  ps_publishing :: bool
  ps_cfg :: publishing_config
  ps_lastPublished :: time
  ps_lastDuration :: duration
  ps_lastCommit :: string
  ps_lastError :: "pub_error option"
  ps_publishCount :: int
  ps_failCount :: int

definition zero_publishing :: publishing_config where
  "zero_publishing = \<lparr> pub_Enabled = False, pub_Repository = [], pub_Branch = [], pub_RemoteURL = [] \<rparr>"

definition NewService_publishing :: "config_service option \<Rightarrow> bool \<Rightarrow> publish_service" where
  "NewService_publishing configSvc bus =
     (let cfg = (case configSvc of Some c \<Rightarrow> cf_Publishing (Get_config c) | None \<Rightarrow> zero_publishing) in
      \<lparr> ps_configSvc = configSvc, ps_bus = bus, ps_backendCfg = cfg, ps_backendCommit = [], ps_publishing = False,
        ps_cfg = cfg, ps_lastPublished = 0, ps_lastDuration = 0, ps_lastCommit = [], ps_lastError = None,
        ps_publishCount = 0, ps_failCount = 0 \<rparr>)"

definition Config_publishing :: "publish_service \<Rightarrow> publishing_config" where
  "Config_publishing s = (case ps_configSvc s of Some c \<Rightarrow> cf_Publishing (Get_config c) | None \<Rightarrow> ps_cfg s)"

type_synonym 'e publishing_result = "'e service_error option \<times> publish_service \<times> files \<times> config_event list"

definition on_publishing ::
    "(publishing_config \<Rightarrow> ('e, publishing_config) outcome) \<Rightarrow> config \<Rightarrow> ('e, config) outcome" where
  "on_publishing f c = (case f (cf_Publishing c) of Inl e \<Rightarrow> Inl e | Inr p \<Rightarrow> Inr (c \<lparr> cf_Publishing := p \<rparr>))"

definition UpdateConfig_publishing ::
    "service_env \<Rightarrow> (publishing_config \<Rightarrow> ('e, publishing_config) outcome) \<Rightarrow> publish_service \<Rightarrow> files \<Rightarrow> 'e publishing_result" where
  "UpdateConfig_publishing env f s fs =
     (case ps_configSvc s of
        Some c \<Rightarrow>
          (let (err, c', fs', evs) = Update env (Some (on_publishing f)) c fs; s' = s \<lparr> ps_configSvc := Some c' \<rparr> in
           if err \<noteq> None then (err, s', fs', evs)
           else let current = Config_publishing s' in
             (None, s' \<lparr> ps_cfg := current, ps_backendCfg := current \<rparr>, fs', evs))
      | None \<Rightarrow>
          (case f (ps_cfg s) of
             Inl e \<Rightarrow> (Some (MutationFailed e), s, fs, [])
           | Inr cfg \<Rightarrow> (None, s \<lparr> ps_cfg := cfg, ps_backendCfg := cfg \<rparr>, fs, [])))"

definition SetEnabled :: "service_env \<Rightarrow> bool \<Rightarrow> publish_service \<Rightarrow> files \<Rightarrow> 'e publishing_result" where
  "SetEnabled env enabled = UpdateConfig_publishing env (\<lambda>c. Inr (c \<lparr> pub_Enabled := enabled \<rparr>))"

definition SetBranch :: "service_env \<Rightarrow> string \<Rightarrow> publish_service \<Rightarrow> files \<Rightarrow> 'e publishing_result" where
  "SetBranch env branch = UpdateConfig_publishing env (\<lambda>c. Inr (c \<lparr> pub_Branch := branch \<rparr>))"

definition SetRepository :: "service_env \<Rightarrow> string \<Rightarrow> publish_service \<Rightarrow> files \<Rightarrow> 'e publishing_result" where
  "SetRepository env repo = UpdateConfig_publishing env (\<lambda>c. Inr (c \<lparr> pub_Repository := repo \<rparr>))"

definition SetRemoteURL :: "service_env \<Rightarrow> string \<Rightarrow> publish_service \<Rightarrow> files \<Rightarrow> 'e publishing_result" where
  "SetRemoteURL env url = UpdateConfig_publishing env (\<lambda>c. Inr (c \<lparr> pub_RemoteURL := url \<rparr>))"

definition SetConfig :: "service_env \<Rightarrow> publishing_config \<Rightarrow> publish_service \<Rightarrow> files \<Rightarrow> 'e publishing_result" where
  "SetConfig env cfg = UpdateConfig_publishing env (\<lambda>_. Inr cfg)"

definition ValidatePrerequisites_service ::
    "'g outside \<Rightarrow> publish_service \<Rightarrow> 'g world \<Rightarrow> (pub_error, unit) outcome \<times> publish_service \<times> 'g world" where
  "ValidatePrerequisites_service os s w =
     (let cfg = Config_publishing s; dir = ExpandHome (os_Home os) (pub_Repository cfg) in
      case os_Ctx os of
        Some e \<Rightarrow> (Inl \<lparr> pe_Sentinel = None, pe_Cause = e \<rparr>, s, w)
      | None \<Rightarrow>
          if \<not> pub_Enabled cfg then (Inl (sentinel_error ErrPublishingDisabled []), s, w)
          else if trim_space dir = [] then (Inl (sentinel_error ErrInvalidConfiguration ''repository path is empty''), s, w)
          else if trim_space (pub_RemoteURL cfg) = [] then
            (Inl (sentinel_error ErrInvalidConfiguration ''remote_url is required''), s, w)
          else
            (case os_Stat os dir of
               Inl e \<Rightarrow> (Inl (sentinel_error ErrRepositoryUnavailable
                            (''repository path '' @ go_quote dir @ '' inaccessible: '' @ ge_Text e)), s, w)
             | Inr False \<Rightarrow> (Inl (sentinel_error ErrRepositoryUnavailable
                            (''repository path '' @ go_quote dir @ '' is not a directory'')), s, w)
             | Inr True \<Rightarrow>
                 (case on_error classifyAndSanitizeError (ValidatePrerequisites os cfg) w of
                    (r, w') \<Rightarrow> (r, s \<lparr> ps_backendCfg := cfg \<rparr>, w'))))"

definition TestConnection ::
    "'g outside \<Rightarrow> publish_service \<Rightarrow> 'g world \<Rightarrow> (pub_error, unit) outcome \<times> publish_service \<times> 'g world" where
  "TestConnection = ValidatePrerequisites_service"

definition IsPublishing :: "publish_service \<Rightarrow> bool" where
  "IsPublishing s = ps_publishing s"

record publishing_status =
  st_Enabled :: bool
  st_Running :: bool
  st_Repository :: string
  st_Branch :: string
  st_RemoteURL :: string
  st_LastPublished :: time
  st_LastDuration :: duration
  st_LastCommit :: string
  st_LastError :: string
  st_PublishCount :: int
  st_FailCount :: int

definition Status_publishing :: "publish_service \<Rightarrow> publishing_status" where
  "Status_publishing s =
     (let cfg = Config_publishing s in
      \<lparr> st_Enabled = pub_Enabled cfg, st_Running = ps_publishing s, st_Repository = SanitizeMessage (pub_Repository cfg),
        st_Branch = pub_Branch cfg, st_RemoteURL = SanitizeURL (pub_RemoteURL cfg), st_LastPublished = ps_lastPublished s,
        st_LastDuration = ps_lastDuration s, st_LastCommit = ps_lastCommit s,
        st_LastError = (case ps_lastError s of None \<Rightarrow> [] | Some e \<Rightarrow> SanitizeMessage (ge_Text (pe_Cause e))),
        st_PublishCount = ps_publishCount s, st_FailCount = ps_failCount s \<rparr>)"

section \<open>Publish\<close>

text \<open>
  Where a call of \<open>Publish\<close> is: not called or returned; past the check of the configuration it has read; holding
  the flag; past \<open>PublishingStarted\<close>; with its outcome recorded; past the closing event, before the deferred reset.
\<close>

datatype flight =
    Grounded
  | Chosen publishing_config
  | Cleared publishing_config
  | Airborne publishing_config time
  | Landed publishing_config time "(pub_error, string) outcome" duration
  | Taxiing

definition record_failure :: "duration \<Rightarrow> pub_error \<Rightarrow> publish_service \<Rightarrow> publish_service" where
  "record_failure dur e s = s \<lparr> ps_lastDuration := dur, ps_lastError := Some e, ps_failCount := ps_failCount s + 1 \<rparr>"

text \<open>The commit announced is the last one known if the backend has none.\<close>

definition record_success :: "time \<Rightarrow> duration \<Rightarrow> publish_service \<Rightarrow> publish_service \<times> string" where
  "record_success now dur s =
     (let hash = ps_backendCommit s;
          s' = s \<lparr> ps_lastPublished := now, ps_lastDuration := dur, ps_lastError := None,
                   ps_publishCount := ps_publishCount s + 1 \<rparr>
      in if hash \<noteq> [] then (s' \<lparr> ps_lastCommit := hash \<rparr>, hash) else (s', ps_lastCommit s))"

text \<open>The commit that the publisher remembers.\<close>

definition remembered :: "publication \<Rightarrow> publish_service \<Rightarrow> publish_service" where
  "remembered r s = (case r of Published (Some sha) \<Rightarrow> s \<lparr> ps_backendCommit := sha \<rparr> | _ \<Rightarrow> s)"

definition started_event :: "publishing_config \<Rightarrow> time \<Rightarrow> 'o event" where
  "started_event cfg start = PublishingStarted start (SanitizeMessage (pub_Repository cfg)) (pub_Branch cfg)"

definition ended_event ::
    "publishing_config \<Rightarrow> time \<Rightarrow> (pub_error, string) outcome \<Rightarrow> duration \<Rightarrow> time \<Rightarrow> 'o event" where
  "ended_event cfg start r dur now =
     (let repo = SanitizeMessage (pub_Repository cfg) in
      case r of
        Inl e \<Rightarrow> PublishingFailed start now dur repo (pub_Branch cfg) (ge_Text (pe_Cause e))
      | Inr commit \<Rightarrow> PublishingFinished start now dur repo (pub_Branch cfg) commit)"

definition publish_event :: "publish_service \<Rightarrow> 'o event \<Rightarrow> 'o event list \<Rightarrow> 'o event list" where
  "publish_event s e evs = (if ps_bus s then evs @ [e] else evs)"

text \<open>
  Where a call of \<open>UpdateConfig\<close> of a service with a config service is: not called or returned; past the update of the
  config service; with the settings read back, which it hands over to the backend next.
\<close>

datatype config_change =
    Unchanged
  | Persisted
  | ReadBack publishing_config

record ('g, 'o) airfield =
  af_service :: publish_service
  af_flights :: "nat \<Rightarrow> flight"
  af_changes :: "nat \<Rightarrow> config_change"
  af_events :: "'o event list"
  af_world :: "'g world"
  af_files :: files

text \<open>
  The steps, each a critical section of the mutex or one publication of an event; the run of the publisher is one
  step, on the state \<open>st\<close> that the store then has. Configuration changes come in between: those of a standalone
  service hold the mutex throughout (\<open>configure\<close>); otherwise the config service is updated, by this service (\<open>persist\<close>,
  \<open>persist_fails\<close>) or by another of its users (\<open>elsewhere\<close>), then read back, then the settings are handed over.
\<close>

inductive publish_step :: "'g outside \<Rightarrow> ('g, 'o) airfield \<Rightarrow> ('g, 'o) airfield \<Rightarrow> bool"
  for os :: "'g outside"
where
  choose: "af_flights a t = Grounded \<Longrightarrow> cfg = Config_publishing (af_service a) \<Longrightarrow> pub_Enabled cfg \<Longrightarrow>
    publish_step os a (a \<lparr> af_flights := (af_flights a)(t := Chosen cfg) \<rparr>)"
| already_running: "af_flights a t = Chosen cfg \<Longrightarrow> ps_publishing (af_service a) \<Longrightarrow>
    publish_step os a (a \<lparr> af_flights := (af_flights a)(t := Grounded) \<rparr>)"
| clear_flight: "af_flights a t = Chosen cfg \<Longrightarrow> \<not> ps_publishing (af_service a) \<Longrightarrow>
    publish_step os a (a \<lparr> af_flights := (af_flights a)(t := Cleared cfg),
                           af_service := (af_service a) \<lparr> ps_backendCfg := cfg, ps_publishing := True \<rparr> \<rparr>)"
| announce: "af_flights a t = Cleared cfg \<Longrightarrow>
    publish_step os a (a \<lparr> af_flights := (af_flights a)(t := Airborne cfg start),
                           af_events := publish_event (af_service a) (started_event cfg start) (af_events a) \<rparr>)"
| failure: "af_flights a t = Airborne cfg start \<Longrightarrow>
    publish_tx os (ps_backendCfg (af_service a)) st (af_world a) = (r, w) \<Longrightarrow> Publish_error r = Some e \<Longrightarrow>
    publish_step os a (a \<lparr> af_flights := (af_flights a)(t := Landed cfg start (Inl (classifyAndSanitizeError e)) dur),
                           af_service := record_failure dur (classifyAndSanitizeError e) (af_service a), af_world := w \<rparr>)"
| success: "af_flights a t = Airborne cfg start \<Longrightarrow>
    publish_tx os (ps_backendCfg (af_service a)) st (af_world a) = (r, w) \<Longrightarrow> Publish_error r = None \<Longrightarrow>
    record_success now dur (remembered r (af_service a)) = (s, commit) \<Longrightarrow>
    publish_step os a (a \<lparr> af_flights := (af_flights a)(t := Landed cfg start (Inr commit) dur),
                           af_service := s, af_world := w \<rparr>)"
| conclude: "af_flights a t = Landed cfg start r dur \<Longrightarrow>
    publish_step os a (a \<lparr> af_flights := (af_flights a)(t := Taxiing),
                           af_events := publish_event (af_service a) (ended_event cfg start r dur now) (af_events a) \<rparr>)"
| reset: "af_flights a t = Taxiing \<Longrightarrow>
    publish_step os a (a \<lparr> af_flights := (af_flights a)(t := Grounded),
                           af_service := (af_service a) \<lparr> ps_publishing := False \<rparr> \<rparr>)"
| configure: "ps_configSvc (af_service a) = None \<Longrightarrow>
    UpdateConfig_publishing env (f :: publishing_config \<Rightarrow> (string, publishing_config) outcome) (af_service a) (af_files a) = (err, s, fs, evs) \<Longrightarrow>
    publish_step os a (a \<lparr> af_service := s, af_files := fs \<rparr>)"
| persist: "af_changes a k = Unchanged \<Longrightarrow> ps_configSvc (af_service a) = Some c \<Longrightarrow>
    Update env (Some (on_publishing (f :: publishing_config \<Rightarrow> (string, publishing_config) outcome))) c (af_files a) = (None, c', fs, evs) \<Longrightarrow>
    publish_step os a (a \<lparr> af_service := (af_service a) \<lparr> ps_configSvc := Some c' \<rparr>, af_files := fs,
                           af_changes := (af_changes a)(k := Persisted) \<rparr>)"
| persist_fails: "ps_configSvc (af_service a) = Some c \<Longrightarrow>
    Update env (Some (on_publishing (f :: publishing_config \<Rightarrow> (string, publishing_config) outcome))) c (af_files a) = (Some err, c', fs, evs) \<Longrightarrow>
    publish_step os a (a \<lparr> af_service := (af_service a) \<lparr> ps_configSvc := Some c' \<rparr>, af_files := fs \<rparr>)"
| elsewhere: "ps_configSvc (af_service a) = Some c \<Longrightarrow>
    Update env (m :: (config \<Rightarrow> (string, config) outcome) option) c (af_files a) = (err, c', fs, evs) \<Longrightarrow>
    publish_step os a (a \<lparr> af_service := (af_service a) \<lparr> ps_configSvc := Some c' \<rparr>, af_files := fs \<rparr>)"
| read_back: "af_changes a k = Persisted \<Longrightarrow> ps_configSvc (af_service a) = Some c \<Longrightarrow>
    publish_step os a (a \<lparr> af_changes := (af_changes a)(k := ReadBack (cf_Publishing (Get_config c))) \<rparr>)"
| hand_over: "af_changes a k = ReadBack cfg \<Longrightarrow>
    publish_step os a (a \<lparr> af_service := (af_service a) \<lparr> ps_cfg := cfg, ps_backendCfg := cfg \<rparr>,
                           af_changes := (af_changes a)(k := Unchanged) \<rparr>)"

text \<open>\<open>UpdateConfig\<close> as one operation is what its steps do when nothing comes in between.\<close>

lemma update_in_steps:
  assumes "UpdateConfig_publishing env (f :: publishing_config \<Rightarrow> (string, publishing_config) outcome)
      (af_service a) (af_files a) = (err, s, fs, evs)"
    and "af_changes a k = Unchanged"
  shows "(publish_step os)\<^sup>*\<^sup>* a (a \<lparr> af_service := s, af_files := fs \<rparr>)"
proof (cases "ps_configSvc (af_service a)")
  case None
  then show ?thesis using publish_step.configure [OF None assms(1)] by blast
next
  case (Some c)
  obtain e c' fs' evs' where upd: "Update env (Some (on_publishing f)) c (af_files a) = (e, c', fs', evs')"
    by (metis prod_cases4)
  show ?thesis
  proof (cases e)
    case None
    define cfg where "cfg = cf_Publishing (Get_config c')"
    let ?a1 = "a \<lparr> af_service := (af_service a) \<lparr> ps_configSvc := Some c' \<rparr>, af_files := fs',
                    af_changes := (af_changes a)(k := Persisted) \<rparr>"
    let ?a2 = "?a1 \<lparr> af_changes := (af_changes ?a1)(k := ReadBack cfg) \<rparr>"
    let ?a3 = "?a2 \<lparr> af_service := (af_service ?a2) \<lparr> ps_cfg := cfg, ps_backendCfg := cfg \<rparr>,
                     af_changes := (af_changes ?a2)(k := Unchanged) \<rparr>"
    have "publish_step os a ?a1"
      by (rule publish_step.persist [OF assms(2) Some]) (use upd None in simp)
    moreover have "publish_step os ?a1 ?a2"
      unfolding cfg_def by (rule publish_step.read_back) simp_all
    moreover have "publish_step os ?a2 ?a3"
      by (rule publish_step.hand_over) simp
    ultimately have run: "(publish_step os)\<^sup>*\<^sup>* a ?a3"
      by (meson converse_rtranclp_into_rtranclp r_into_rtranclp)
    have "s = (af_service a) \<lparr> ps_configSvc := Some c', ps_cfg := cfg, ps_backendCfg := cfg \<rparr>" "fs = fs'"
      using assms(1) unfolding UpdateConfig_publishing_def Some Let_def
      by (auto simp: upd None Config_publishing_def cfg_def)
    moreover have "(af_changes a)(k := Unchanged) = af_changes a"
      by (rule fun_upd_idem) (rule assms(2))
    ultimately have "a \<lparr> af_service := s, af_files := fs \<rparr> = ?a3"
      by (intro airfield.equality) simp_all
    then show ?thesis using run by simp
  next
    case (Some e')
    have "publish_step os a (a \<lparr> af_service := (af_service a) \<lparr> ps_configSvc := Some c' \<rparr>, af_files := fs' \<rparr>)"
      by (rule publish_step.persist_fails) (use \<open>ps_configSvc (af_service a) = Some c\<close> upd Some in simp_all)
    moreover have "s = (af_service a) \<lparr> ps_configSvc := Some c' \<rparr>" "fs = fs'"
      using assms(1) \<open>ps_configSvc (af_service a) = Some c\<close> upd Some
      by (auto simp: UpdateConfig_publishing_def Let_def)
    ultimately show ?thesis by auto
  qed
qed

section \<open>One publication at a time\<close>

text \<open>The flights that hold the flag, and those that are between their two events.\<close>

definition active :: "flight \<Rightarrow> bool" where
  "active f = (case f of Grounded \<Rightarrow> False | Chosen _ \<Rightarrow> False | _ \<Rightarrow> True)"

definition open_since :: "flight \<Rightarrow> time option" where
  "open_since f = (case f of Airborne _ start \<Rightarrow> Some start | Landed _ start _ _ \<Rightarrow> Some start | _ \<Rightarrow> None)"

text \<open>
  Reading the events of the service in order: \<open>None\<close> when the order is wrong, otherwise the start time of the
  publication that is open, if one is.
\<close>

fun read_event :: "'o event \<Rightarrow> time option option \<Rightarrow> time option option" where
  "read_event (PublishingStarted start _ _) (Some None) = Some (Some start)"
| "read_event (PublishingFinished start _ _ _ _ _) (Some (Some start')) = (if start = start' then Some None else None)"
| "read_event (PublishingFailed start _ _ _ _ _) (Some (Some start')) = (if start = start' then Some None else None)"
| "read_event _ _ = None"

definition read_events :: "'o event list \<Rightarrow> time option option" where
  "read_events evs = fold read_event evs (Some None)"

definition is_finished :: "'o event \<Rightarrow> bool" where
  "is_finished e = (case e of PublishingFinished _ _ _ _ _ _ \<Rightarrow> True | _ \<Rightarrow> False)"

definition is_failed :: "'o event \<Rightarrow> bool" where
  "is_failed e = (case e of PublishingFailed _ _ _ _ _ _ \<Rightarrow> True | _ \<Rightarrow> False)"

definition new_airfield :: "publish_service \<Rightarrow> 'g world \<Rightarrow> files \<Rightarrow> ('g, 'o) airfield" where
  "new_airfield s w fs =
     \<lparr> af_service = s, af_flights = (\<lambda>_. Grounded), af_changes = (\<lambda>_. Unchanged), af_events = [], af_world = w, af_files = fs \<rparr>"

text \<open>What a landed flight has recorded and not announced yet.\<close>

definition landed_ok :: "flight \<Rightarrow> int" where
  "landed_ok f = (case f of Landed _ _ (Inr _) _ \<Rightarrow> 1 | _ \<Rightarrow> 0)"

definition landed_bad :: "flight \<Rightarrow> int" where
  "landed_bad f = (case f of Landed _ _ (Inl _) _ \<Rightarrow> 1 | _ \<Rightarrow> 0)"

text \<open>
  The invariant: either no flight is active, or exactly one, \<open>t\<close>, which holds the flag and whose publication is the
  one open in the events.
\<close>

definition flight_ok :: "('g, 'o) airfield \<Rightarrow> flight \<Rightarrow> bool" where
  "flight_ok a f \<longleftrightarrow>
     (ps_publishing (af_service a) \<longleftrightarrow> active f)
     \<and> (ps_bus (af_service a) \<longrightarrow>
          read_events (af_events a) = Some (open_since f)
          \<and> ps_publishCount (af_service a) = int (length (filter is_finished (af_events a))) + landed_ok f
          \<and> ps_failCount (af_service a) = int (length (filter is_failed (af_events a))) + landed_bad f)"

definition orderly :: "('g, 'o) airfield \<Rightarrow> bool" where
  "orderly a \<longleftrightarrow>
     (\<exists>t. flight_ok a (af_flights a t) \<and> (\<forall>u. u \<noteq> t \<longrightarrow> \<not> active (af_flights a u)))"

inductive_cases publish_stepE: "publish_step os a b"

lemma UpdateConfig_keeps:
  "UpdateConfig_publishing env f s fs = (err, s', fs', evs) \<Longrightarrow>
     ps_publishing s' = ps_publishing s \<and> ps_bus s' = ps_bus s \<and> ps_publishCount s' = ps_publishCount s
     \<and> ps_failCount s' = ps_failCount s"
  by (auto simp: UpdateConfig_publishing_def Let_def split: option.splits sum.splits prod.splits if_splits)

lemma record_success_fields:
  "record_success now dur s = (s', commit) \<Longrightarrow>
     ps_publishing s' = ps_publishing s \<and> ps_bus s' = ps_bus s \<and> ps_publishCount s' = ps_publishCount s + 1
     \<and> ps_failCount s' = ps_failCount s"
  by (auto simp: record_success_def Let_def split: if_splits)

lemma remembered_fields [simp]:
  "ps_publishing (remembered r s) = ps_publishing s" "ps_bus (remembered r s) = ps_bus s"
  "ps_publishCount (remembered r s) = ps_publishCount s" "ps_failCount (remembered r s) = ps_failCount s"
  by (auto simp: remembered_def split: publication.split option.split)

lemma record_failure_fields [simp]:
  "ps_publishing (record_failure dur e s) = ps_publishing s" "ps_bus (record_failure dur e s) = ps_bus s"
  "ps_publishCount (record_failure dur e s) = ps_publishCount s" "ps_failCount (record_failure dur e s) = ps_failCount s + 1"
  by (simp_all add: record_failure_def)

lemmas flight_defs = flight_ok_def active_def open_since_def landed_ok_def landed_bad_def

lemma orderlyI:
  "flight_ok a (af_flights a t) \<Longrightarrow> (\<And>u. u \<noteq> t \<Longrightarrow> \<not> active (af_flights a u)) \<Longrightarrow> orderly a"
  by (auto simp: orderly_def)

text \<open>A step of the active flight keeps the order if the flight is still the one that the state describes.\<close>

lemma orderly_active:
  assumes "orderly a" "active (af_flights a t)"
  shows "flight_ok a (af_flights a t) \<and> (\<forall>u. u \<noteq> t \<longrightarrow> \<not> active (af_flights a u))"
  using assms by (metis orderly_def)

lemma orderly_idle:
  assumes "orderly a" "\<not> ps_publishing (af_service a)"
  shows "flight_ok a Grounded \<and> (\<forall>u. \<not> active (af_flights a u))"
proof -
  obtain t where t: "flight_ok a (af_flights a t)" "\<forall>u. u \<noteq> t \<longrightarrow> \<not> active (af_flights a u)"
    using assms(1) by (auto simp: orderly_def)
  then have out: "\<not> active (af_flights a t)" using assms(2) by (simp add: flight_ok_def)
  then have "\<forall>u. \<not> active (af_flights a u)" using t(2) by metis
  moreover have "flight_ok a Grounded" using t(1) out by (cases "af_flights a t") (simp_all add: flight_defs)
  ultimately show ?thesis by blast
qed

lemma orderly_inactive:
  assumes "orderly a" "\<not> active (af_flights a t)" "\<not> active f"
  shows "orderly (a \<lparr> af_flights := (af_flights a)(t := f) \<rparr>)"
proof -
  obtain u where u: "flight_ok a (af_flights a u)" "\<forall>v. v \<noteq> u \<longrightarrow> \<not> active (af_flights a v)"
    using assms(1) by (auto simp: orderly_def)
  have "flight_ok a ((if u = t then f else af_flights a u))"
    using u(1) assms(2,3) by (cases f; cases "af_flights a t") (auto simp: flight_defs)
  then show ?thesis
    by (intro orderlyI [where t = u]) (use u(2) assms(3) in \<open>auto simp: flight_ok_def\<close>)
qed

text \<open>So does a step of a configuration change, which touches none of what the invariant speaks about.\<close>

lemma orderly_kept:
  assumes "orderly a" "af_flights b = af_flights a" "af_events b = af_events a"
    and "ps_publishing (af_service b) = ps_publishing (af_service a)" "ps_bus (af_service b) = ps_bus (af_service a)"
    and "ps_publishCount (af_service b) = ps_publishCount (af_service a)"
    and "ps_failCount (af_service b) = ps_failCount (af_service a)"
  shows "orderly b"
  using assms by (simp add: orderly_def flight_ok_def)

lemma orderly_step:
  assumes "publish_step os a b" "orderly a"
  shows "orderly b"
  using assms
proof (induction rule: publish_step.induct)
  case (choose a t cfg)
  then show ?case by (intro orderly_inactive) (simp_all add: active_def)
next
  case (already_running a t cfg)
  then show ?case by (intro orderly_inactive) (simp_all add: active_def)
next
  case (clear_flight a t cfg)
  note idle = orderly_idle [OF clear_flight(3,2)]
  show ?case
    by (rule orderlyI [where t = t]) (use idle in \<open>auto simp: flight_defs\<close>)
next
  case (announce a t cfg start)
  note act = orderly_active [OF announce(2), of t]
  show ?case
    by (rule orderlyI [where t = t])
      (use act announce(1) in \<open>auto simp: flight_defs publish_event_def started_event_def read_events_def is_finished_def is_failed_def\<close>)
next
  case (failure a t cfg start st r w e dur)
  note act = orderly_active [OF failure(4), of t]
  show ?case
    by (rule orderlyI [where t = t]) (use act failure(1) in \<open>auto simp: flight_defs\<close>)
next
  case (success a t cfg start st r w now dur s commit)
  note act = orderly_active [OF success(5), of t]
  show ?case
    by (rule orderlyI [where t = t])
      (use act success(1) record_success_fields [OF success(4)] in \<open>auto simp: flight_defs\<close>)
next
  case (conclude a t cfg start r dur now)
  note act = orderly_active [OF conclude(2), of t]
  show ?case
    by (rule orderlyI [where t = t])
      (use act conclude(1) in \<open>auto simp: flight_defs publish_event_def ended_event_def Let_def read_events_def is_finished_def is_failed_def split: sum.splits\<close>)
next
  case (reset a t)
  note act = orderly_active [OF reset(2), of t]
  show ?case
    by (rule orderlyI [where t = t]) (use act reset(1) in \<open>auto simp: flight_defs\<close>)
next
  case (configure a env f err s fs evs)
  then show ?case using UpdateConfig_keeps [OF configure(2)] by (intro orderly_kept [OF configure(3)]) simp_all
next
  case (persist a k c env f c' fs evs)
  then show ?case by (intro orderly_kept [OF persist(4)]) simp_all
next
  case (persist_fails a c env f err c' fs evs)
  then show ?case by (intro orderly_kept [OF persist_fails(3)]) simp_all
next
  case (elsewhere a c env m err c' fs evs)
  then show ?case by (intro orderly_kept [OF elsewhere(3)]) simp_all
next
  case (read_back a k c)
  then show ?case by (intro orderly_kept [OF read_back(3)]) simp_all
next
  case (hand_over a k cfg)
  then show ?case by (intro orderly_kept [OF hand_over(2)]) simp_all
qed

lemma orderly_new: "orderly (new_airfield (NewService_publishing cs bus) w fs)"
  by (rule orderlyI [where t = 0])
    (auto simp: flight_defs new_airfield_def NewService_publishing_def Let_def read_events_def split: option.split)

lemma orderly_reachable: "(publish_step os)\<^sup>*\<^sup>* a b \<Longrightarrow> orderly a \<Longrightarrow> orderly b"
  by (induction rule: rtranclp_induct) (blast intro: orderly_step)+

text \<open>C40: However the calls of \<open>Publish\<close> and the changes of the configuration interleave, at most one publication is in
  progress, the status says \<open>running\<close> exactly while one is, and the events of the service are well ordered: each
  \<open>PublishingStarted\<close> is closed by one \<open>PublishingFinished\<close> or \<open>PublishingFailed\<close> of the same start time before the
  next one. Between publications the counters are the numbers of these events.\<close>

theorem single_flight:
  assumes "(publish_step os)\<^sup>*\<^sup>* (new_airfield (NewService_publishing cs bus) w fs) a"
  shows "(\<forall>t u. active (af_flights a t) \<longrightarrow> active (af_flights a u) \<longrightarrow> t = u)
    \<and> (IsPublishing (af_service a) \<longleftrightarrow> (\<exists>t. active (af_flights a t)))
    \<and> (ps_bus (af_service a) \<longrightarrow> read_events (af_events a) \<noteq> None
         \<and> (\<not> IsPublishing (af_service a) \<longrightarrow>
              ps_publishCount (af_service a) = int (length (filter is_finished (af_events a)))
              \<and> ps_failCount (af_service a) = int (length (filter is_failed (af_events a)))))"
proof -
  have ord: "orderly a" using orderly_reachable [OF assms orderly_new] .
  then obtain t where t: "flight_ok a (af_flights a t)" "\<forall>u. u \<noteq> t \<longrightarrow> \<not> active (af_flights a u)"
    by (auto simp: orderly_def)
  have "IsPublishing (af_service a) \<longleftrightarrow> (\<exists>t. active (af_flights a t))"
    using t unfolding IsPublishing_def flight_ok_def by metis
  moreover have "ps_bus (af_service a) \<Longrightarrow> read_events (af_events a) \<noteq> None"
    using t(1) by (simp add: flight_ok_def)
  moreover have "flight_ok a Grounded" if "\<not> IsPublishing (af_service a)"
    using orderly_idle [OF ord] that by (simp add: IsPublishing_def)
  moreover have "\<forall>t u. active (af_flights a t) \<longrightarrow> active (af_flights a u) \<longrightarrow> t = u"
    using t(2) by metis
  ultimately show ?thesis
    by (simp add: flight_ok_def landed_ok_def landed_bad_def)
qed

text \<open>A publication that has begun can always end, whatever the publisher returns: its call goes through its
  remaining steps, returns, and leaves the flag down.\<close>

theorem publication_ends:
  fixes a :: "('g, 'o) airfield"
  assumes "active (af_flights a t)"
  shows "\<exists>b. (publish_step os)\<^sup>*\<^sup>* a b \<and> af_flights b t = Grounded \<and> \<not> IsPublishing (af_service b)"
proof -
  let ?goal = "\<lambda>a :: ('g, 'o) airfield. \<exists>b. (publish_step os)\<^sup>*\<^sup>* a b \<and> af_flights b t = Grounded \<and> \<not> IsPublishing (af_service b)"
  have last: "?goal a" if "af_flights a t = Taxiing" for a
    using publish_step.reset [OF that, of os]
    by (intro exI conjI) (rule r_into_rtranclp, assumption, simp_all add: IsPublishing_def)
  have step: "?goal a" if "publish_step os a b" "?goal b" for a b
    using that by (meson converse_rtranclp_into_rtranclp)
  have landed: "?goal a" if "af_flights a t = Landed cfg start r dur" for a and cfg start r dur
    by (rule step [OF publish_step.conclude [OF that] last]) simp
  have airborne: "?goal a" if "af_flights a t = Airborne cfg start" for a and cfg start
  proof -
    obtain r w where run: "publish_tx os (ps_backendCfg (af_service a)) (New [] 0) (af_world a) = (r, w)" by fastforce
    show ?thesis
    proof (cases "Publish_error r")
      case None
      obtain s commit where "record_success 0 0 (remembered r (af_service a)) = (s, commit)" by fastforce
      from publish_step.success [OF that run None this] show ?thesis
        by (rule step) (rule landed, simp)
    next
      case (Some e)
      from publish_step.failure [OF that run Some] show ?thesis by (rule step) (rule landed, simp)
    qed
  qed
  have cleared: "?goal a" if "af_flights a t = Cleared cfg" for a and cfg
    by (rule step [OF publish_step.announce [OF that] airborne]) simp
  show ?thesis
    using assms last landed airborne cleared by (cases "af_flights a t") (auto simp: active_def)
qed

text \<open>An outside world in which nothing fails, and a flight that is under way in it.\<close>

definition calm_outside :: "unit outside" where
  "calm_outside =
     \<lparr> os_Git = (\<lambda>_ w. (Inr [], w)), os_Fails = (\<lambda>_. None), os_Written = (\<lambda>_. 0), os_Home = None,
       os_Stat = (\<lambda>_. Inr True), os_Ctx = None, os_Now = 5, os_RFC3339 = (\<lambda>_. ''t'') \<rparr>"

definition calm_world :: "unit world" where
  "calm_world = \<lparr> wd_Files = Map.empty, wd_Git = (), wd_Ops = 0 \<rparr>"

definition flying :: "(unit, unit) airfield" where
  "flying =
     (let cfg = zero_publishing \<lparr> pub_Enabled := True \<rparr>; s = NewService_publishing None True in
      (new_airfield (s \<lparr> ps_cfg := cfg, ps_backendCfg := cfg, ps_publishing := True \<rparr>) calm_world Map.empty)
        \<lparr> af_flights := (\<lambda>_. Grounded)(3 := Airborne cfg 7), af_events := [started_event cfg 7] \<rparr>)"

lemma flying_reachable:
  "(publish_step calm_outside)\<^sup>*\<^sup>* (new_airfield (NewService_publishing None True) calm_world Map.empty) flying"
proof -
  define cfg where "cfg = zero_publishing \<lparr> pub_Enabled := True \<rparr>"
  define s0 where "s0 = NewService_publishing None True"
  define s1 where "s1 = s0 \<lparr> ps_cfg := cfg, ps_backendCfg := cfg \<rparr>"
  define a0 :: "(unit, unit) airfield" where "a0 = new_airfield s0 calm_world Map.empty"
  define a1 where "a1 = a0 \<lparr> af_service := s1 \<rparr>"
  define a2 where "a2 = a1 \<lparr> af_flights := (af_flights a1)(3 := Chosen cfg) \<rparr>"
  define a3 where "a3 = a2 \<lparr> af_flights := (af_flights a2)(3 := Cleared cfg),
    af_service := (af_service a2) \<lparr> ps_backendCfg := cfg, ps_publishing := True \<rparr> \<rparr>"
  note defs = cfg_def s0_def s1_def a0_def a1_def a2_def a3_def new_airfield_def NewService_publishing_def Let_def
  have "ps_configSvc (af_service a0) = None" by (simp add: defs)
  then have "publish_step calm_outside a0 (a0 \<lparr> af_service := s1, af_files := af_files a0 \<rparr>)"
    by (rule publish_step.configure [where env = sample_env and f = "\<lambda>c. Inr (c \<lparr> pub_Enabled := True \<rparr>)" and err = None and evs = "[]"])
      (simp add: defs UpdateConfig_publishing_def)
  then have 1: "publish_step calm_outside a0 a1" by (simp add: a1_def a0_def new_airfield_def)
  have 2: "publish_step calm_outside a1 a2"
    unfolding a2_def by (rule publish_step.choose) (simp_all add: defs Config_publishing_def)
  have 3: "publish_step calm_outside a2 a3"
    unfolding a3_def by (rule publish_step.clear_flight) (simp_all add: defs)
  have "flying = a3 \<lparr> af_flights := (af_flights a3)(3 := Airborne cfg 7),
      af_events := publish_event (af_service a3) (started_event cfg 7) (af_events a3) \<rparr>"
    by (simp add: defs flying_def publish_event_def)
  moreover have "af_flights a3 3 = Cleared cfg" by (simp add: a3_def)
  ultimately have 4: "publish_step calm_outside a3 flying" by (metis publish_step.announce)
  have "(publish_step calm_outside)\<^sup>*\<^sup>* a0 flying"
    using rtranclp_trans [where r = "publish_step calm_outside"] r_into_rtranclp [where r = "publish_step calm_outside"] 1 2 3 4
    by metis
  then show ?thesis by (simp add: a0_def s0_def)
qed

theorem single_flight_witness: "IsPublishing (af_service flying) \<and> read_events (af_events flying) \<noteq> None"
proof -
  have "active (af_flights flying 3)" "ps_bus (af_service flying)"
    by (simp_all add: flying_def Let_def active_def new_airfield_def NewService_publishing_def)
  then show ?thesis using single_flight [OF flying_reachable] by blast
qed

theorem publication_ends_witness:
  "\<exists>b. (publish_step calm_outside)\<^sup>*\<^sup>* flying b \<and> af_flights b 3 = Grounded \<and> \<not> IsPublishing (af_service b)"
  by (rule publication_ends) (simp add: flying_def Let_def active_def)

lemma Sanitize_no_at: "CHR ''@'' \<notin> set s \<Longrightarrow> SanitizeMessage s = s"
proof (induction s)
  case (Cons c s)
  have "\<not> has_prefix (drop n (c # s)) ''@''" for n
    using Cons.prems set_drop_subset [of n "c # s"] by (cases "drop n (c # s)") auto
  then have "userinfo_at (c # s) = None"
    by (simp add: userinfo_at_def Let_def split: option.split)
  then show ?case using Cons by (simp add: SanitizeMessage.simps [of "c # s"])
qed (simp add: SanitizeMessage.simps [of "[]"])

text \<open>A local file that may not be written is reported as a failed authentication.\<close>

theorem file_permission_is_authentication:
  "pe_Sentinel (classifyAndSanitizeError
     (wrapped ''publisher: write meta.json: '' (new_error ''create temp file /r/meta.json.tmp: permission denied'')))
   = Some ErrAuthenticationFailed"
proof -
  let ?text = "''publisher: write meta.json: create temp file /r/meta.json.tmp: permission denied''"
  have same: "SanitizeMessage ?text = ?text" by (rule Sanitize_no_at) simp
  have "list_ex (\<lambda>phrase. str_contains (to_lower ?text) phrase) auth_phrases" by code_simp
  then show ?thesis
    by (simp only: classifyAndSanitizeError_def Let_def wrapped_def wrap_error_def new_error_def) (simp add: same)
qed

end
