(* ===== verification/Fetch.thy ===== *)
theory Fetch
  imports Base64
begin

text \<open>
  Fetching the subscriptions, \<open>internal/source/fetch.go\<close>: the requests with their retries and the
  cancellation checks, the splitting of a body into links, and the deduplicated union of all sources.

  The network is a parameter: \<open>net_reply\<close> says what a request for a URL at a given moment returns,
  \<open>net_cancelled\<close> whether the context is cancelled at that moment. A moment is the number of
  interactions with the network and the timer so far; a cancelled context stays cancelled.
\<close>

datatype reply =
    BadRequest string
  | NetworkError string
  | BodyError string
  | Reply int string

record net =
  net_cancelled :: "nat \<Rightarrow> bool"
  net_reply :: "string \<Rightarrow> nat \<Rightarrow> reply"

datatype fetch_error = Cancelled | RequestFailed string | UnexpectedStatus int | NoAttempt

section \<open>One source\<close>

text \<open>\<open>io.LimitReader\<close>: at most 32 MB of the body are read, the rest is dropped silently.\<close>

definition body_cap :: nat where
  "body_cap = 33554432"

definition transient :: "int \<Rightarrow> bool" where
  "transient code = (code = 429 \<or> code \<ge> 500)"

text \<open>
  The loop of \<open>fetchOne\<close> from its attempt number \<open>attempt\<close> on, with the moment and the error of the
  last attempt; the first argument is what is left of the three attempts.
\<close>

fun fetch_attempts ::
    "nat \<Rightarrow> net \<Rightarrow> string \<Rightarrow> nat \<Rightarrow> nat \<Rightarrow> fetch_error \<Rightarrow> (fetch_error, string) outcome \<times> nat" where
  "fetch_attempts 0 net u attempt t lastErr = (Inl lastErr, t)"
| "fetch_attempts (Suc left) net u attempt t lastErr =
     (let t1 = (if attempt > 0 then Suc t else t)
      in if net_cancelled net t1 then (Inl Cancelled, t1)
         else (case net_reply net u t1 of
             BadRequest e \<Rightarrow> (Inl (RequestFailed e), t1)
           | NetworkError e \<Rightarrow>
               if net_cancelled net (Suc t1) then (Inl Cancelled, Suc t1)
               else fetch_attempts left net u (Suc attempt) (Suc t1) (RequestFailed e)
           | BodyError e \<Rightarrow>
               if net_cancelled net (Suc t1) then (Inl Cancelled, Suc t1)
               else fetch_attempts left net u (Suc attempt) (Suc t1) (RequestFailed e)
           | Reply code body \<Rightarrow>
               if code = 200 then (Inr (take body_cap body), Suc t1)
               else if net_cancelled net (Suc t1) then (Inl Cancelled, Suc t1)
               else if transient code
                    then fetch_attempts left net u (Suc attempt) (Suc t1) (UnexpectedStatus code)
                    else (Inl (UnexpectedStatus code), Suc t1)))"

definition fetchOne :: "net \<Rightarrow> string \<Rightarrow> nat \<Rightarrow> (fetch_error, string) outcome \<times> nat" where
  "fetchOne net u t =
     (if net_cancelled net t then (Inl Cancelled, t) else fetch_attempts 3 net u 0 t NoAttempt)"

section \<open>The links of a body\<close>

definition has_scheme :: "string \<Rightarrow> bool" where
  "has_scheme line = str_contains line ''://''"

definition link_lines :: "string \<Rightarrow> string list" where
  "link_lines raw =
     filter (\<lambda>line. \<not> (line = [] \<or> \<not> has_scheme line)) (map trim_space (split_byte newline raw))"

definition splitLinks :: "string \<Rightarrow> string list" where
  "splitLinks raw0 =
     (let raw = trim_space raw0
      in if raw = [] then []
         else let firstLine = trim_space (hd (split2 newline raw));
                  text = (if \<not> has_scheme firstLine
                          then (case b64Decode (filter (\<lambda>c. c \<noteq> newline) raw) of
                                  Some decoded \<Rightarrow> decoded | None \<Rightarrow> raw)
                          else raw)
              in link_lines text)"

section \<open>All sources\<close>

text \<open>The \<open>seen\<close> map of the code holds exactly the links collected so far.\<close>

definition add_link :: "string \<Rightarrow> string list \<Rightarrow> string list" where
  "add_link link links = (if link \<in> set links then links else links @ [link])"

fun fetch_from ::
    "net \<Rightarrow> string list \<Rightarrow> nat \<Rightarrow> string list \<Rightarrow> (string \<times> fetch_error) list \<Rightarrow>
       string list \<times> (string \<times> fetch_error) list" where
  "fetch_from net [] t links errs = (links, errs)"
| "fetch_from net (u # us) t links errs =
     (if net_cancelled net t then (links, errs @ [(u, Cancelled)])
      else (case fetchOne net u t of
          (Inl e, t1) \<Rightarrow>
            if net_cancelled net t1 then (links, errs @ [(u, e)])
            else fetch_from net us t1 links (errs @ [(u, e)])
        | (Inr raw, t1) \<Rightarrow> fetch_from net us t1 (fold add_link (splitLinks raw) links) errs))"

definition FetchAll :: "net \<Rightarrow> string list \<Rightarrow> nat \<Rightarrow> string list \<times> (string \<times> fetch_error) list" where
  "FetchAll net urls t =
     (if net_cancelled net t then ([], [([], Cancelled)]) else fetch_from net urls t [] [])"

section \<open>The union of the sources\<close>

text \<open>The specification: the first occurrences, in order; and what each source returned in turn.\<close>

fun first_occurrences :: "'a list \<Rightarrow> 'a list" where
  "first_occurrences [] = []"
| "first_occurrences (x # xs) = x # filter (\<lambda>y. y \<noteq> x) (first_occurrences xs)"

fun outcomes :: "net \<Rightarrow> string list \<Rightarrow> nat \<Rightarrow> (string \<times> (fetch_error, string) outcome) list" where
  "outcomes net [] t = []"
| "outcomes net (u # us) t = (let (r, t1) = fetchOne net u t in (u, r) # outcomes net us t1)"

definition bodies :: "(string \<times> (fetch_error, string) outcome) list \<Rightarrow> string list" where
  "bodies os = concat (map (\<lambda>(u, r). case r of Inl _ \<Rightarrow> [] | Inr raw \<Rightarrow> [raw]) os)"

definition failures :: "(string \<times> (fetch_error, string) outcome) list \<Rightarrow> (string \<times> fetch_error) list" where
  "failures os = concat (map (\<lambda>(u, r). case r of Inl e \<Rightarrow> [(u, e)] | Inr _ \<Rightarrow> []) os)"

lemma fold_add_link:
  "fold add_link xs ls = ls @ filter (\<lambda>x. x \<notin> set ls) (first_occurrences xs)"
proof (induction xs arbitrary: ls)
  case (Cons x xs)
  have "filter (\<lambda>y. y \<notin> set (ls @ [x])) (first_occurrences xs) =
      filter (\<lambda>y. y \<notin> set ls) (filter (\<lambda>y. y \<noteq> x) (first_occurrences xs))"
    by (auto intro: filter_cong)
  moreover have "filter (\<lambda>y. y \<notin> set ls) (first_occurrences xs) =
      filter (\<lambda>y. y \<notin> set ls) (filter (\<lambda>y. y \<noteq> x) (first_occurrences xs))" if "x \<in> set ls"
    using that by (auto intro: filter_cong)
  ultimately show ?case using Cons.IH by (simp add: add_link_def)
qed simp

lemma set_first_occurrences [simp]: "set (first_occurrences xs) = set xs"
  by (induction xs) auto

lemma distinct_first_occurrences [simp]: "distinct (first_occurrences xs)"
  by (induction xs) auto

lemma fold_add_link_concat:
  "fold add_link (concat xss) ls = fold (\<lambda>xs ls. fold add_link xs ls) xss ls"
  by (induction xss arbitrary: ls) simp_all

lemma fetch_from_outcomes:
  assumes "\<And>t. \<not> net_cancelled net t"
  shows "fetch_from net us t links errs =
    (fold add_link (concat (map splitLinks (bodies (outcomes net us t)))) links,
     errs @ failures (outcomes net us t))"
proof (induction us arbitrary: t links errs)
  case Nil
  then show ?case by (simp add: bodies_def failures_def)
next
  case (Cons u us)
  obtain r t1 where f: "fetchOne net u t = (r, t1)" by fastforce
  then show ?case
    by (cases r) (simp_all add: assms Cons.IH bodies_def failures_def)
qed

text \<open>A cancelled fetch still returns only links of the sources, without repetition.\<close>

lemma fetch_from_sound:
  "distinct links \<Longrightarrow> fetch_from net us t links errs = (ls, es) \<Longrightarrow>
   distinct ls \<and> set links \<subseteq> set ls \<and>
   (\<forall>l \<in> set ls - set links. \<exists>raw \<in> set (bodies (outcomes net us t)). l \<in> set (splitLinks raw))"
proof (induction us arbitrary: t links errs)
  case (Cons u us)
  obtain r t1 where f: "fetchOne net u t = (r, t1)" by fastforce
  show ?case
  proof (cases "net_cancelled net t")
    case True
    then show ?thesis using Cons.prems by auto
  next
    case running: False
    show ?thesis
    proof (cases r)
      case (Inl e)
      with running f Cons show ?thesis
        by (auto simp: bodies_def split: if_splits)
    next
      case (Inr raw)
      let ?links = "fold add_link (splitLinks raw) links"
      have "distinct ?links" "set ?links = set links \<union> set (splitLinks raw)"
        using Cons.prems(1) by (auto simp: fold_add_link)
      with Cons.IH [of ?links t1 errs] Cons.prems(2) running f Inr show ?thesis
        by (auto simp: bodies_def)
    qed
  qed
qed simp


section \<open>A subscription in base64\<close>

lemma trim_space_Cons_space: "is_space c \<Longrightarrow> trim_space (c # s) = trim_space s"
  by (simp add: trim_space_def)

lemma trim_space_snoc_space: "is_space c \<Longrightarrow> trim_space (s @ [c]) = trim_space s"
  by (cases "\<forall>x \<in> set s. is_space x")
     (auto simp: trim_space_def dropWhile_append dest: set_dropWhileD)

lemma split_byte_ne: "split_byte c s \<noteq> []"
  by (induction s) (auto split: list.splits)

lemma split_byte_snoc:
  "split_byte c (s @ [x]) =
     (if x = c then split_byte c s @ [[]]
      else butlast (split_byte c s) @ [last (split_byte c s) @ [x]])"
proof (induction s)
  case (Cons y s)
  obtain w ws where "split_byte c s = w # ws" using split_byte_ne by (metis list.exhaust)
  with Cons show ?case by (auto split: if_splits)
qed simp

lemma link_lines_Cons_space: "is_space c \<Longrightarrow> link_lines (c # s) = link_lines s"
  using split_byte_ne [of newline s]
  by (auto simp: link_lines_def trim_space_Cons_space split: list.splits) (simp_all add: trim_space_def)

lemma link_lines_snoc_space:
  assumes c: "is_space c"
  shows "link_lines (s @ [c]) = link_lines s"
proof -
  obtain ws w where "split_byte newline s = ws @ [w]"
    using split_byte_ne by (metis rev_exhaust)
  moreover have "trim_space [] = []" by (simp add: trim_space_def)
  ultimately show ?thesis
    using trim_space_snoc_space [OF c, of w] by (simp add: link_lines_def split_byte_snoc)
qed

lemma link_lines_trim: "link_lines (trim_space s) = link_lines s"
proof -
  have left: "link_lines (dropWhile is_space s) = link_lines s" for s
    by (induction s) (simp_all add: link_lines_Cons_space)
  have right: "link_lines (rev (dropWhile is_space s)) = link_lines (rev s)" for s
    by (induction s) (simp_all add: link_lines_snoc_space)
  show ?thesis by (simp add: trim_space_def left right)
qed

lemma splitLinks_plain:
  "has_scheme (trim_space (hd (split2 newline (trim_space raw)))) \<Longrightarrow> splitLinks raw = link_lines raw"
  by (auto simp: splitLinks_def Let_def link_lines_trim)
     (simp add: split2_def has_scheme_def trim_space_def)

lemma set_trim_space: "set (trim_space s) \<subseteq> set s"
proof -
  have "set (dropWhile is_space t) \<subseteq> set t" for t
    by (auto dest: set_dropWhileD)
  from this [of "rev (dropWhile is_space s)"] this [of s] show ?thesis
    by (simp add: trim_space_def)
qed

lemma filter_trim_newline:
  assumes "\<forall>c \<in> set s. is_space c \<longrightarrow> c = newline"
  shows "filter (\<lambda>c. c \<noteq> newline) (trim_space s) = filter (\<lambda>c. c \<noteq> newline) s"
proof -
  have drop: "filter (\<lambda>c. c \<noteq> newline) (dropWhile is_space t) = filter (\<lambda>c. c \<noteq> newline) t"
    if "\<forall>c \<in> set t. is_space c \<longrightarrow> c = newline" for t
    using that by (induction t) auto
  have "filter (\<lambda>c. c \<noteq> newline) (rev (dropWhile is_space (rev (dropWhile is_space s)))) =
      rev (filter (\<lambda>c. c \<noteq> newline) (dropWhile is_space (rev (dropWhile is_space s))))"
    by (simp add: rev_filter)
  also have "\<dots> = rev (filter (\<lambda>c. c \<noteq> newline) (rev (dropWhile is_space s)))"
    using assms by (subst drop) (auto dest: set_dropWhileD)
  finally show ?thesis using drop [OF assms] by (simp add: trim_space_def rev_filter)
qed

lemma no_scheme: "CHR '':'' \<notin> set s \<Longrightarrow> \<not> has_scheme s"
  by (auto simp: has_scheme_def str_contains_iff)


text \<open>
  A subscription delivered in base64, in one line or broken into lines of any width, gives the links of
  the text it encodes. The line breaks have to be plain newlines, see \<open>crlf_subscription_lost\<close>.
\<close>

lemma splitLinks_encoded:
  assumes enc: "filter (\<lambda>c. c \<noteq> newline) w = EncodeToString raw" and ne: "raw \<noteq> []"
  shows "splitLinks w = link_lines raw"
proof -
  have chars: "c = newline \<or> c \<in> insert CHR ''='' (set std_alphabet)" if "c \<in> set w" for c
  proof (rule disjCI)
    assume "c \<notin> insert CHR ''='' (set std_alphabet)"
    then have "c \<notin> set (EncodeToString raw)"
      using set_encode64 [OF alphabets(1), of raw] by (auto simp: EncodeToString_def)
    with that show "c = newline" unfolding enc [symmetric] by auto
  qed
  then have spaces: "\<forall>c \<in> set w. is_space c \<longrightarrow> c = newline"
    using is_space_std by blast
  have flat: "filter (\<lambda>c. c \<noteq> newline) (trim_space w) = EncodeToString raw"
    using filter_trim_newline [OF spaces] enc by simp
  have enc_ne: "EncodeToString raw \<noteq> []"
    using ne b64Decode_EncodeToString [of raw] b64Decode_EncodeToString [of "[]"]
    by (metis EncodeToString_def encode64.simps(4) option.inject)
  have colon: "CHR '':'' \<notin> set w"
    using chars [of "CHR '':''"] by (auto simp: newline_def std_alphabet_def)
  have "CHR '':'' \<notin> set (trim_space (hd (split2 newline (trim_space w))))"
    using colon set_trim_space by (auto simp: split2_def split: option.splits dest!: subsetD [OF set_trim_space] in_set_takeD)
  from no_scheme [OF this] show ?thesis
    using flat enc_ne by (auto simp: splitLinks_def Let_def b64Decode_EncodeToString)
qed

section \<open>Properties\<close>

text \<open>C26: Without a cancellation \<open>FetchAll\<close> returns the union of all sources: the links of the bodies
  that were fetched, each once, in the order of their first occurrence; and the errors are exactly those
  of the sources that failed, so that one failing source is not fatal to the others.\<close>

theorem fetch_union:
  assumes "\<And>t. \<not> net_cancelled net t"
  shows "FetchAll net urls t =
    (first_occurrences (concat (map splitLinks (bodies (outcomes net urls t)))),
     failures (outcomes net urls t))"
  using fetch_from_outcomes [OF assms, of urls t "[]" "[]"] assms
  by (simp add: FetchAll_def fold_add_link)

definition sample_net :: net where
  "sample_net =
     \<lparr> net_cancelled = (\<lambda>t. False),
       net_reply = (\<lambda>u t. if u = ''a'' then (if t < 2 then Reply 503 [] else Reply 200 ''ss://x'')
                         else if u = ''b'' then Reply 404 []
                         else Reply 200 (''ss://x'' @ [newline] @ ''ss://y'')) \<rparr>"

lemma fetch_union_witness:
  "FetchAll sample_net [''a'', ''b'', ''c''] 0 = ([''ss://x'', ''ss://y''], [(''b'', UnexpectedStatus 404)])"
proof -
  have "\<not> net_cancelled sample_net t" for t by (simp add: sample_net_def)
  note rec = fetch_union [OF this, of "[''a'', ''b'', ''c'']" 0]
  have "outcomes sample_net [''a'', ''b'', ''c''] 0 =
      [(''a'', Inr ''ss://x''), (''b'', Inl (UnexpectedStatus 404)),
       (''c'', Inr (''ss://x'' @ [newline] @ ''ss://y''))]"
    by (simp add: fetchOne_def sample_net_def transient_def numeral_3_eq_3 body_cap_def newline_def)
  moreover have "splitLinks ''ss://x'' = [''ss://x'']"
      "splitLinks (''ss://x'' @ [newline] @ ''ss://y'') = [''ss://x'', ''ss://y'']"
    by (simp_all add: splitLinks_def link_lines_def has_scheme_def split2_def newline_def trim_space_def is_space_def)
  ultimately show ?thesis using rec by (simp add: bodies_def failures_def)
qed

text \<open>A subscription is read the same way whether it is served as plain lines or in base64, in one
  line or wrapped at any column.\<close>

theorem base64_subscription:
  assumes "has_scheme (trim_space (hd (split2 newline (trim_space raw))))"
    and "filter (\<lambda>c. c \<noteq> newline) w = EncodeToString raw"
  shows "splitLinks w = splitLinks raw"
proof -
  have "raw \<noteq> []" using assms(1) by (auto simp: has_scheme_def split2_def trim_space_def)
  from splitLinks_encoded [OF assms(2) this] splitLinks_plain [OF assms(1)] show ?thesis by simp
qed


lemma base64_subscription_witness:
  "splitLinks (''c3M6Ly9h'' @ [newline] @ ''CnNzOi8vYg=='') = [''ss://a'', ''ss://b'']"
proof -
  let ?raw = "''ss://a'' @ [newline] @ ''ss://b''"
  have "splitLinks (''c3M6Ly9h'' @ [newline] @ ''CnNzOi8vYg=='') = splitLinks ?raw"
    by (rule base64_subscription)
       (simp_all add: has_scheme_def split2_def newline_def trim_space_def is_space_def
          EncodeToString_def std_alphabet_def byte_def of_char_def)
  also have "\<dots> = [''ss://a'', ''ss://b'']"
    by (simp add: splitLinks_def link_lines_def has_scheme_def split2_def newline_def trim_space_def is_space_def)
  finally show ?thesis .
qed

text \<open>
  The same text with CRLF line breaks is lost: the carriage returns stay in the text, are counted when the
  padding is completed, and the superfluous padding makes both decoders fail.
\<close>

lemma crlf_subscription_lost:
  "splitLinks (''c3M6Ly9hYmNkZWZnaCMx'' @ [CHR 0x0D, newline] @ ''CnNzOi8vaWo='') = []"
  by (simp add: splitLinks_def link_lines_def has_scheme_def split2_def newline_def trim_space_def is_space_def
      b64Decode_def StdDecode_def URLDecode_def drop_newlines_def std_alphabet_def url_alphabet_def)

end
