(* ===== verification/Subserver.thy ===== *)
theory Subserver
  imports StoreViews JsonText GoUrl ConfigTypes
begin

text \<open>
  The subscription server, \<open>internal/subserver/server.go\<close>: the routes, the request parameters and the
  body of a response, as a function of the serve configuration, the store and the request. The HTTP
  machinery (listening, shutting down) is outside; the patterns the server registers with \<open>net/http\<close>'s
  mux are modelled as far as the mux panics on them.
\<close>

record server =
  srv_cfg :: serve_config

definition New_server :: "serve_config option \<Rightarrow> server" where
  "New_server cfg =
     \<lparr> srv_cfg = (case cfg of Some c \<Rightarrow> c | None \<Rightarrow> \<lparr> srv_Listen = [], srv_Path = [], srv_Format = [] \<rparr>) \<rparr>"

text \<open>Only the format is taken over while the server runs; the address and the path need a restart.\<close>

definition UpdateConfig_server :: "serve_config \<Rightarrow> server \<Rightarrow> server" where
  "UpdateConfig_server cfg sv =
     sv \<lparr> srv_cfg := (srv_cfg sv) \<lparr> srv_Format := srv_Format cfg \<rparr> \<rparr>"

section \<open>Routes\<close>

definition trim_right_slash :: "string \<Rightarrow> string" where
  "trim_right_slash s = rev (dropWhile (\<lambda>c. c = CHR ''/'') (rev s))"

definition base_path :: "serve_config \<Rightarrow> string" where
  "base_path cfg =
     (let basePath = (if srv_Path cfg = [] then ''/sub'' else srv_Path cfg);
          base = trim_right_slash basePath
      in if base = [] then ''/'' else base)"

definition mux_patterns :: "serve_config \<Rightarrow> string list" where
  "mux_patterns cfg =
     (let base = base_path cfg
      in [base] @ (if base \<noteq> ''/'' then [base @ ''/''] else []) @ [''/healthz''])"

text \<open>\<open>ServeMux.HandleFunc\<close> panics on a pattern without a slash and on one registered before.\<close>

definition mux_panics :: "string list \<Rightarrow> bool" where
  "mux_panics patterns = (list_ex (\<lambda>p. CHR ''/'' \<notin> set p) patterns \<or> \<not> distinct patterns)"

datatype route = BaseRoute | GenericRoute | GeminiRoute | ClaudeRoute

definition route_of :: "string \<Rightarrow> string \<Rightarrow> route option" where
  "route_of base path0 =
     (let p = trim_right_slash path0;
          path = (if p = [] then ''/'' else p)
      in if base = ''/'' then
           (if path = ''/'' then Some BaseRoute
            else if path = ''/generic'' then Some GenericRoute
            else if path = ''/gemini'' then Some GeminiRoute
            else if path = ''/claude'' then Some ClaudeRoute else None)
         else
           (if path = base then Some BaseRoute
            else if path = base @ ''/generic'' then Some GenericRoute
            else if path = base @ ''/gemini'' then Some GeminiRoute
            else if path = base @ ''/claude'' then Some ClaudeRoute else None))"

section \<open>Requests\<close>

definition param :: "query \<Rightarrow> string \<Rightarrow> string" where
  "param q name = trim_space (to_lower (q_get q name))"

definition projection_of :: "route \<Rightarrow> string \<Rightarrow> string" where
  "projection_of rt projParam =
     (case rt of
        GenericRoute \<Rightarrow> ''generic'' | GeminiRoute \<Rightarrow> ''gemini'' | ClaudeRoute \<Rightarrow> ''claude''
      | BaseRoute \<Rightarrow>
          if projParam = ''generic'' then ''generic''
          else if projParam = ''claude'' then ''claude'' else ''gemini'')"

definition view_of :: "string \<Rightarrow> store \<Rightarrow> string list" where
  "view_of projection st =
     (if projection = ''generic'' then NetworkPassing st
      else if projection = ''claude'' then PassingFor ''claude'' st
      else Passing st)"

definition filter_protocol :: "string \<Rightarrow> string list \<Rightarrow> string list" where
  "filter_protocol proto links =
     (if proto \<noteq> [] then filter (\<lambda>l. has_prefix l (proto @ ''://'')) links else links)"

definition requested_protocol :: "query \<Rightarrow> string" where
  "requested_protocol q =
     (if param q ''protocol'' = [] then param q ''proto'' else param q ''protocol'')"

definition requested_format :: "serve_config \<Rightarrow> query \<Rightarrow> string" where
  "requested_format cfg q =
     (let formatParam = param q ''format'';
          fmt = (if srv_Format cfg = [] then ''base64'' else srv_Format cfg)
      in if formatParam \<noteq> [] then formatParam else fmt)"

record response =
  rs_Status :: int
  rs_ContentType :: string
  rs_CacheControl :: string
  rs_Body :: string

text \<open>\<open>http.Error\<close> and \<open>http.NotFound\<close>: the message on a line of its own.\<close>

definition http_error :: "string \<Rightarrow> int \<Rightarrow> response" where
  "http_error msg code =
     \<lparr> rs_Status = code, rs_ContentType = ''text/plain; charset=utf-8'', rs_CacheControl = [],
       rs_Body = msg @ [newline] \<rparr>"

definition render :: "string \<Rightarrow> string list \<Rightarrow> string" where
  "render fmt links =
     (let body = join_with [newline] links
      in if fmt = ''base64'' then (if body \<noteq> [] then EncodeToString body else []) else body)"

definition handleSub :: "serve_config \<Rightarrow> store \<Rightarrow> string \<Rightarrow> string \<Rightarrow> response" where
  "handleSub cfg st urlPath rawQuery =
     (case route_of (base_path cfg) urlPath of
        None \<Rightarrow> http_error ''404 page not found'' 404
      | Some rt \<Rightarrow>
          let q = Query rawQuery; projParam = param q ''projection'' in
          if projParam \<noteq> [] \<and> projParam \<notin> set [''generic'', ''gemini'', ''claude'']
          then http_error (''invalid projection: '' @ projParam) 400
          else
            let projection = projection_of rt projParam;
                p1 = param q ''protocol''; p2 = param q ''proto'' in
            if p1 \<noteq> [] \<and> p2 \<noteq> [] \<and> p1 \<noteq> p2
            then http_error ''conflicting protocol and proto parameters'' 400
            else
              let targetProto = requested_protocol q in
              if targetProto \<noteq> [] \<and> targetProto \<notin> set [''vless'', ''vmess'', ''trojan'']
              then http_error (''invalid protocol: '' @ targetProto) 400
              else
                let formatParam = param q ''format'' in
                if formatParam \<noteq> [] \<and> formatParam \<notin> set [''raw'', ''base64'']
                then http_error (''invalid format: '' @ formatParam) 400
                else
                  let fmt = requested_format cfg q;
                      links = filter_protocol targetProto (view_of projection st)
                  in \<lparr> rs_Status = 200, rs_ContentType = ''text/plain; charset=utf-8'',
                       rs_CacheControl = ''no-store'', rs_Body = render fmt links \<rparr>)"

definition handleHealth :: "store \<Rightarrow> response" where
  "handleHealth st =
     (let stats = Stats st;
          line = (\<lambda>name n. name @ '': '' @ print_int n @ [newline])
      in \<lparr> rs_Status = 200, rs_ContentType = ''text/plain; charset=utf-8'', rs_CacheControl = [],
           rs_Body = ''ok'' @ [newline] @ line ''passed'' (stats_Passed stats)
             @ line ''failed'' (stats_Failed stats) @ line ''inconclusive'' (stats_Inconclusive stats)
             @ line ''servable'' (stats_Servable stats)
             @ line ''generic_servable'' (stats_GenericServable stats)
             @ line ''cycles'' (stats_CycleCount stats) \<rparr>)"


section \<open>What a client reads\<close>

text \<open>The records a projection serves, and the text a client obtains from a body.\<close>

definition passes_for :: "store \<Rightarrow> string \<Rightarrow> candidate_record \<Rightarrow> bool" where
  "passes_for st projection r =
     (if projection = ''generic'' then isNetworkHealthyRecordLocked st (Some r)
      else isServableRecordLockedFor st (Some r) projection)"

definition read_body :: "string \<Rightarrow> string \<Rightarrow> string option" where
  "read_body fmt body = (if fmt = ''base64'' then StdDecode body else Some body)"

definition served_links :: "store \<Rightarrow> string \<Rightarrow> string \<Rightarrow> string set" where
  "served_links st projection proto =
     {l. \<exists>k r. (k, r) \<in> set (st_records st) \<and> rec_ActiveLink r = l \<and> passes_for st projection r \<and>
               (proto = [] \<or> has_prefix l (proto @ ''://''))}"

lemma read_render: "read_body fmt (render fmt links) = Some (join_with [newline] links)"
  by (auto simp: read_body_def render_def Let_def StdDecode_EncodeToString) (simp add: StdDecode_def drop_newlines_def)

lemma projection_cases: "projection_of rt p \<in> {''generic'', ''gemini'', ''claude''}"
  by (simp add: projection_of_def split: route.splits)

lemma view_eq:
  "proj \<in> {''generic'', ''gemini'', ''claude''} \<Longrightarrow>
   view_of proj st = sort (map rec_ActiveLink (filter (passes_for st proj) (stored st)))"
  by (elim insertE emptyE)
     (simp_all add: view_of_def NetworkPassing_def Passing_def PassingFor_def passes_for_def [abs_def])

lemma set_passing:
  "set (map rec_ActiveLink (filter P (stored st))) = {l. \<exists>k r. (k, r) \<in> set (st_records st) \<and> rec_ActiveLink r = l \<and> P r}"
  by (force simp: stored_def)

lemma view_links:
  assumes "proj \<in> {''generic'', ''gemini'', ''claude''}"
  shows "sorted (filter_protocol proto (view_of proj st))"
    and "set (filter_protocol proto (view_of proj st)) = served_links st proj proto"
proof -
  show "sorted (filter_protocol proto (view_of proj st))"
    unfolding view_eq [OF assms] by (simp add: filter_protocol_def sorted_wrt_filter)
  have "set (view_of proj st) =
      {l. \<exists>k r. (k, r) \<in> set (st_records st) \<and> rec_ActiveLink r = l \<and> passes_for st proj r}"
    unfolding view_eq [OF assms] set_sort set_passing ..
  then show "set (filter_protocol proto (view_of proj st)) = served_links st proj proto"
    by (auto simp: filter_protocol_def served_links_def)
qed

lemma http_error_status [simp]: "rs_Status (http_error msg code) = code"
  by (simp add: http_error_def)

section \<open>Properties\<close>

text \<open>C27: Every successful response of the subscription handler can be read back: undoing the format the
  client asked for gives the sorted list of exactly the links whose records pass the gates of the projection
  of the route and have the protocol that was asked for. So no request, whatever its parameters, obtains a
  link the store does not serve, and none is missing.\<close>

theorem served_subscription:
  assumes "rs_Status (handleSub cfg st path rawQuery) = 200"
  shows "\<exists>rt links. route_of (base_path cfg) path = Some rt \<and> sorted links
    \<and> set links = served_links st (projection_of rt (param (Query rawQuery) ''projection''))
                     (requested_protocol (Query rawQuery))
    \<and> read_body (requested_format cfg (Query rawQuery)) (rs_Body (handleSub cfg st path rawQuery))
        = Some (join_with [newline] links)"
proof -
  obtain rt where rt: "route_of (base_path cfg) path = Some rt"
    using assms by (auto simp: handleSub_def split: option.splits)
  let ?q = "Query rawQuery"
  let ?proj = "projection_of rt (param ?q ''projection'')"
  let ?links = "filter_protocol (requested_protocol ?q) (view_of ?proj st)"
  have "rs_Body (handleSub cfg st path rawQuery) = render (requested_format cfg ?q) ?links"
    using assms rt by (auto simp: handleSub_def Let_def split: if_splits)
  then show ?thesis
    using rt view_links [OF projection_cases, of "requested_protocol ?q" rt "param ?q ''projection''" st]
    by (intro exI [of _ rt] exI [of _ ?links]) (simp add: read_render)
qed


lemma served_subscription_witness:
  "\<exists>links. sorted links \<and> set links = served_links demo_store ''claude'' []
     \<and> rs_Body (handleSub \<lparr> srv_Listen = [], srv_Path = ''/sub/'', srv_Format = [] \<rparr> demo_store
           ''/sub/claude/'' ''format=raw&projection=gemini'') = join_with [newline] links"
proof -
  let ?cfg = "\<lparr> srv_Listen = [], srv_Path = ''/sub/'', srv_Format = [] \<rparr>"
  let ?q = "Query ''format=raw&projection=gemini''"
  have q: "?q = [(''format'', [''raw'']), (''projection'', [''gemini''])]" by code_simp
  have rt: "route_of (base_path ?cfg) ''/sub/claude/'' = Some ClaudeRoute"
    by (simp add: route_of_def base_path_def trim_right_slash_def)
  have p: "param ?q ''projection'' = ''gemini''" "requested_protocol ?q = []" "requested_format ?cfg ?q = ''raw''"
      "param ?q ''protocol'' = []" "param ?q ''proto'' = []" "param ?q ''format'' = ''raw''"
    unfolding q by code_simp+
  have "rs_Status (handleSub ?cfg demo_store ''/sub/claude/'' ''format=raw&projection=gemini'') = 200"
    unfolding handleSub_def rt by (simp add: Let_def p)
  from served_subscription [OF this] show ?thesis
    by (auto simp: rt p projection_of_def read_body_def)
qed

text \<open>
  The configuration check accepts paths on which the server panics when it starts: one without a slash,
  and the path of the health check itself.
\<close>

lemma accepted_path_panics:
  "mux_panics (mux_patterns \<lparr> srv_Listen = [], srv_Path = ''sub'', srv_Format = [] \<rparr>)"
  "mux_panics (mux_patterns \<lparr> srv_Listen = [], srv_Path = ''/healthz'', srv_Format = [] \<rparr>)"
  by (simp_all add: mux_panics_def mux_patterns_def base_path_def trim_right_slash_def Let_def)

end
