(* ===== verification/LogRing.thy ===== *)
theory LogRing
  imports Fifo
begin

text \<open>
  The ring of log records behind the log view, \<open>internal/logging/ring.go\<close>: a \<open>slog\<close> handler that keeps
  the most recent records of a fixed capacity, and the formatting of a record. Handlers derived with
  \<open>WithAttrs\<close> and \<open>WithGroup\<close> share one ring; \<open>log_handler\<close> holds what is their own, the ring is passed
  to every operation. The text of a time and of a value are parameters of the formatting.
\<close>

type_synonym level = int

datatype 'v attr = Attr string 'v | Group string "'v attr list"

record 'v log_record =
  lr_Time :: time
  lr_Level :: level
  lr_Message :: string
  lr_Attrs :: "'v attr list"

record 'v ring_buffer =
  rb_records :: "'v log_record list"
  rb_capacity :: nat
  rb_start :: nat
  rb_count :: nat
  rb_minLevel :: level

record 'v log_handler =
  lh_attrs :: "'v attr list"
  lh_groups :: "string list"

section \<open>Construction\<close>

definition zero_record :: "'v log_record" where
  "zero_record = \<lparr> lr_Time = 0, lr_Level = 0, lr_Message = [], lr_Attrs = [] \<rparr>"

definition level_debug :: level where
  "level_debug = -4"

definition NewRing :: "int \<Rightarrow> level option \<Rightarrow> 'v ring_buffer" where
  "NewRing capacity minLevel =
     (let capacity = (if capacity \<le> 0 then 1000 else nat capacity)
      in \<lparr> rb_records = replicate capacity zero_record, rb_capacity = capacity, rb_start = 0, rb_count = 0,
           rb_minLevel = (case minLevel of Some l \<Rightarrow> l | None \<Rightarrow> level_debug) \<rparr>)"

definition new_handler :: "'v log_handler" where
  "new_handler = \<lparr> lh_attrs = [], lh_groups = [] \<rparr>"

section \<open>Handling a record\<close>

definition Enabled :: "level \<Rightarrow> 'v ring_buffer \<Rightarrow> bool" where
  "Enabled level r = (level \<ge> rb_minLevel r)"

text \<open>\<open>slog.Group\<close> drops the groups without attributes among its arguments.\<close>

definition is_empty_group :: "'v attr \<Rightarrow> bool" where
  "is_empty_group a = (case a of Group _ [] \<Rightarrow> True | _ \<Rightarrow> False)"

definition slog_group :: "string \<Rightarrow> 'v attr list \<Rightarrow> 'v attr" where
  "slog_group key attrs = Group key (filter (\<lambda>a. \<not> is_empty_group a) attrs)"

text \<open>The attributes inside all groups of the handler, the last group innermost.\<close>

definition in_groups :: "string list \<Rightarrow> 'v attr list \<Rightarrow> 'v attr" where
  "in_groups groups attrs =
     foldl (\<lambda>nested g. slog_group g [nested]) (slog_group (last groups) attrs) (rev (butlast groups))"

text \<open>\<open>slog.Record.AddAttrs\<close> leaves out groups without attributes.\<close>

definition AddAttrs :: "'v attr list \<Rightarrow> 'v log_record \<Rightarrow> 'v log_record" where
  "AddAttrs attrs r =
     r \<lparr> lr_Attrs := lr_Attrs r @ filter (\<lambda>a. \<not> is_empty_group a) attrs \<rparr>"

definition stored_record :: "'v log_handler \<Rightarrow> 'v log_record \<Rightarrow> 'v log_record" where
  "stored_record h r =
     (let new0 = r \<lparr> lr_Attrs := [] \<rparr>;
          new1 = (if lh_attrs h \<noteq> [] then AddAttrs (lh_attrs h) new0 else new0);
          recAttrs = lr_Attrs r
      in if lh_groups h \<noteq> [] \<and> recAttrs \<noteq> [] then AddAttrs [in_groups (lh_groups h) recAttrs] new1
         else if recAttrs \<noteq> [] then AddAttrs recAttrs new1 else new1)"

definition push_record :: "'v log_record \<Rightarrow> 'v ring_buffer \<Rightarrow> 'v ring_buffer" where
  "push_record rec r =
     (if rb_count r < rb_capacity r
      then let idx = (rb_start r + rb_count r) mod rb_capacity r
           in r \<lparr> rb_records := (rb_records r)[idx := rec], rb_count := rb_count r + 1 \<rparr>
      else r \<lparr> rb_records := (rb_records r)[rb_start r := rec],
               rb_start := (rb_start r + 1) mod rb_capacity r \<rparr>)"

definition Handle :: "'v log_handler \<Rightarrow> 'v log_record \<Rightarrow> 'v ring_buffer \<Rightarrow> 'v ring_buffer" where
  "Handle h rec r = (if \<not> Enabled (lr_Level rec) r then r else push_record (stored_record h rec) r)"

section \<open>Derived handlers\<close>

definition WithAttrs :: "'v attr list \<Rightarrow> 'v log_handler \<Rightarrow> 'v log_handler" where
  "WithAttrs attrs h =
     (if attrs = [] then h
      else if lh_groups h \<noteq> [] then h \<lparr> lh_attrs := lh_attrs h @ [in_groups (lh_groups h) attrs] \<rparr>
      else h \<lparr> lh_attrs := lh_attrs h @ attrs \<rparr>)"

definition WithGroup :: "string \<Rightarrow> 'v log_handler \<Rightarrow> 'v log_handler" where
  "WithGroup name h = (if name = [] then h else h \<lparr> lh_groups := lh_groups h @ [name] \<rparr>)"

section \<open>Reading\<close>

definition record_at :: "'v ring_buffer \<Rightarrow> nat \<Rightarrow> 'v log_record" where
  "record_at r i = rb_records r ! ((rb_start r + i) mod rb_capacity r)"

definition Records :: "'v ring_buffer \<Rightarrow> 'v log_record list" where
  "Records r = map (record_at r) [0..<rb_count r]"

definition RecordsByLevel :: "level \<Rightarrow> 'v ring_buffer \<Rightarrow> 'v log_record list" where
  "RecordsByLevel minLevel r =
     filter (\<lambda>rec. lr_Level rec \<ge> minLevel) (map (record_at r) [0..<rb_count r])"

definition Len :: "'v ring_buffer \<Rightarrow> nat" where
  "Len r = rb_count r"

definition LastRecord :: "'v ring_buffer \<Rightarrow> 'v log_record option" where
  "LastRecord r = (if rb_count r = 0 then None else Some (record_at r (rb_count r - 1)))"

definition Clear :: "'v ring_buffer \<Rightarrow> 'v ring_buffer" where
  "Clear r = r \<lparr> rb_records := replicate (rb_capacity r) zero_record, rb_start := 0, rb_count := 0 \<rparr>"

definition SetLevel :: "level \<Rightarrow> 'v ring_buffer \<Rightarrow> 'v ring_buffer" where
  "SetLevel l r = r \<lparr> rb_minLevel := l \<rparr>"

section \<open>Formatting\<close>

definition level_offset :: "string \<Rightarrow> int \<Rightarrow> (int \<Rightarrow> string) \<Rightarrow> string" where
  "level_offset base d itoa = (if d = 0 then base else if d > 0 then base @ ''+'' @ itoa d else base @ itoa d)"

definition string_of_level :: "(int \<Rightarrow> string) \<Rightarrow> level \<Rightarrow> string" where
  "string_of_level itoa l =
     (if l < 0 then level_offset ''DEBUG'' (l + 4) itoa
      else if l < 4 then level_offset ''INFO'' l itoa
      else if l < 8 then level_offset ''WARN'' (l - 4) itoa
      else level_offset ''ERROR'' (l - 8) itoa)"

text \<open>An attribute that equals the zero attribute is dropped; the parameter says which values are zero.\<close>

fun append_attr :: "('v \<Rightarrow> string) \<Rightarrow> ('v \<Rightarrow> bool) \<Rightarrow> string \<Rightarrow> 'v attr \<Rightarrow> string" where
  "append_attr show_value is_zero prefix (Attr key v) =
     (if key = [] \<and> is_zero v then []
      else '' '' @ (if prefix \<noteq> [] then prefix @ ''.'' @ key else key) @ ''='' @ show_value v)"
| "append_attr show_value is_zero prefix (Group key attrs) =
     concat (map (append_attr show_value is_zero (if prefix \<noteq> [] then prefix @ ''.'' @ key else key)) attrs)"

definition FormatRecord ::
    "(time \<Rightarrow> string) \<Rightarrow> (int \<Rightarrow> string) \<Rightarrow> ('v \<Rightarrow> string) \<Rightarrow> ('v \<Rightarrow> bool) \<Rightarrow> 'v log_record \<Rightarrow> string" where
  "FormatRecord show_time itoa show_value is_zero r =
     (if is_zero_time (lr_Time r) then [] else show_time (lr_Time r) @ '' '')
     @ ''['' @ string_of_level itoa (lr_Level r) @ ''] '' @ lr_Message r
     @ concat (map (append_attr show_value is_zero []) (lr_Attrs r))"

definition Formatted ::
    "(time \<Rightarrow> string) \<Rightarrow> (int \<Rightarrow> string) \<Rightarrow> ('v \<Rightarrow> string) \<Rightarrow> ('v \<Rightarrow> bool) \<Rightarrow> 'v ring_buffer \<Rightarrow> string list" where
  "Formatted show_time itoa show_value is_zero r =
     map (FormatRecord show_time itoa show_value is_zero) (Records r)"

section \<open>The ring is a bounded queue\<close>

definition wf_ring :: "'v ring_buffer \<Rightarrow> bool" where
  "wf_ring r =
     (0 < rb_capacity r \<and> length (rb_records r) = rb_capacity r \<and> rb_start r < rb_capacity r \<and>
      rb_count r \<le> rb_capacity r \<and> (rb_count r < rb_capacity r \<longrightarrow> rb_start r = 0))"

lemma Records_rotate:
  "wf_ring r \<Longrightarrow> Records r = take (rb_count r) (rotate (rb_start r) (rb_records r))"
  by (rule nth_equalityI) (auto simp: Records_def record_at_def wf_ring_def nth_rotate add.commute)

lemma length_Records [simp]: "length (Records r) = rb_count r"
  by (simp add: Records_def)

lemma wf_NewRing [wf_rules, simp]: "wf_ring (NewRing c l)"
  by (auto simp: NewRing_def wf_ring_def Let_def)

lemma Records_NewRing [simp]: "Records (NewRing c l) = []"
  by (simp add: NewRing_def Records_def Let_def)

lemma capacity_NewRing: "rb_capacity (NewRing c l) = (if c \<le> 0 then 1000 else nat c)"
  by (simp add: NewRing_def Let_def)

lemma wf_push_record [wf_rules]: "wf_ring r \<Longrightarrow> wf_ring (push_record x r)"
  by (auto simp: push_record_def wf_ring_def Let_def)

lemma push_record_fields [simp]:
  "rb_capacity (push_record x r) = rb_capacity r" "rb_minLevel (push_record x r) = rb_minLevel r"
  by (simp_all add: push_record_def Let_def)

lemma Records_push_room:
  assumes "wf_ring r" "rb_count r < rb_capacity r"
  shows "Records (push_record x r) = Records r @ [x]"
  using assms
  by (auto simp: wf_ring_def push_record_def Records_def record_at_def Let_def nth_append intro!: nth_equalityI)

lemma Records_push_full:
  assumes wf: "wf_ring r" and full: "rb_count r = rb_capacity r"
  shows "Records (push_record x r) = tl (Records r) @ [x]"
proof (rule nth_equalityI)
  let ?n = "rb_capacity r"
  have n: "0 < ?n" "length (rb_records r) = ?n" "rb_start r < ?n" using wf by (auto simp: wf_ring_def)
  show "length (Records (push_record x r)) = length (tl (Records r) @ [x])"
    using n full by (simp add: push_record_def)
  fix i
  assume "i < length (Records (push_record x r))"
  then have i: "i < ?n" using full by (simp add: push_record_def)
  have new: "Records (push_record x r) ! i = (rb_records r)[rb_start r := x] ! ((rb_start r + Suc i) mod ?n)"
    using i full n by (simp add: push_record_def Records_def record_at_def mod_add_left_eq)
  show "Records (push_record x r) ! i = (tl (Records r) @ [x]) ! i"
  proof (cases "i = ?n - 1")
    case True
    then have "(rb_start r + Suc i) mod ?n = rb_start r" using n by simp
    then show ?thesis using True new n full by (simp add: nth_append)
  next
    case False
    then have "Suc i < ?n" using i by simp
    moreover from this have "(rb_start r + Suc i) mod ?n \<noteq> rb_start r"
      using n by (auto simp: mod_if)
    ultimately show ?thesis
      using new n full i by (simp add: nth_append nth_tl Records_def record_at_def)
  qed
qed

lemma Records_push [abs_simps]:
  "wf_ring r \<Longrightarrow> Records (push_record x r) = take_last (rb_capacity r) (Records r @ [x])"
  by (cases "rb_count r < rb_capacity r")
     (auto simp: Records_push_room Records_push_full take_last_def wf_ring_def drop_Suc)

interpretation ring: bounded_fifo wf_ring Records rb_capacity push_record
  by unfold_locales (auto simp: abs_simps wf_rules, auto simp: wf_ring_def)


section \<open>Properties\<close>

text \<open>The ring after handling a sequence of records, each by a handler of its own.\<close>

definition handle_all :: "('v log_handler \<times> 'v log_record) list \<Rightarrow> 'v ring_buffer \<Rightarrow> 'v ring_buffer" where
  "handle_all hs = fold (\<lambda>(h, rec). Handle h rec) hs"

lemma handle_all_push:
  "handle_all hs r = fold push_record (map (\<lambda>(h, rec). stored_record h rec)
     (filter (\<lambda>(h, rec). lr_Level rec \<ge> rb_minLevel r) hs)) r"
proof (induction hs arbitrary: r)
  case (Cons h hs)
  then show ?case by (cases h) (simp add: handle_all_def Handle_def Enabled_def)
qed (simp add: handle_all_def)

lemma take_last_eq_Nil: "take_last n xs = [] \<longleftrightarrow> n = 0 \<or> xs = []"
  using length_take_last [of n xs] by (metis length_0_conv min_0L min_0R min_def)

lemma LastRecord_eq: "LastRecord r = (if Records r = [] then None else Some (last (Records r)))"
  by (auto simp: LastRecord_def Records_def last_map)

text \<open>C28: The log view holds the most recent records: after any sequence of records through any handlers
  derived from one ring, \<open>Records\<close> returns the last \<open>capacity\<close> of those at or above the minimum level, in
  order; \<open>Len\<close>, \<open>Last\<close> and \<open>RecordsByLevel\<close> agree with it, and \<open>Clear\<close> leaves an empty ring of the same
  capacity.\<close>

theorem ring_keeps_latest:
  fixes hs :: "('v log_handler \<times> 'v log_record) list"
  shows "let new = NewRing c l :: 'v ring_buffer; r = handle_all hs new;
       accepted = map (\<lambda>(h, rec). stored_record h rec) (filter (\<lambda>(h, rec). lr_Level rec \<ge> rb_minLevel new) hs)
   in Records r = take_last (rb_capacity new) accepted \<and> Len r = length (Records r)
      \<and> LastRecord r = (if accepted = [] then None else Some (last accepted))
      \<and> RecordsByLevel m r = filter (\<lambda>rec. lr_Level rec \<ge> m) (Records r)
      \<and> Records (Clear r) = [] \<and> wf_ring (Clear r) \<and> rb_capacity (Clear r) = rb_capacity new"
proof -
  let ?new = "NewRing c l :: 'v ring_buffer"
  let ?r = "handle_all hs ?new"
  let ?acc = "map (\<lambda>(h, rec). stored_record h rec) (filter (\<lambda>(h, rec). lr_Level rec \<ge> rb_minLevel ?new) hs)"
  have r: "?r = fold push_record ?acc ?new" by (rule handle_all_push)
  have rec: "Records ?r = take_last (rb_capacity ?new) ?acc"
    unfolding r using ring.contents_fold_push [of ?new ?acc] by simp
  have wf: "wf_ring ?r" "rb_capacity ?r = rb_capacity ?new"
    unfolding r using ring.fold_push_ok [of ?new ?acc] by auto
  have pos: "0 < rb_capacity ?new" using ring.limit_pos [of ?new] by simp
  have last: "LastRecord ?r = (if ?acc = [] then None else Some (last ?acc))"
    using pos last_take_last [of "rb_capacity ?new" ?acc]
    by (simp only: LastRecord_eq rec take_last_eq_Nil) auto
  have "Records (Clear ?r) = [] \<and> wf_ring (Clear ?r) \<and> rb_capacity (Clear ?r) = rb_capacity ?new"
    using wf pos by (simp add: Clear_def wf_ring_def Records_def)
  with rec last show ?thesis
    by (simp only: Let_def RecordsByLevel_def Records_def [symmetric] Len_def length_Records simp_thms)
qed

end
