(* ===== verification/TextNorm.thy ===== *)
theory TextNorm
  imports JsonValue
begin

text \<open>
  The normalisation of page texts, \<open>internal/tester/textutil/normalize.go\<close>: styles and comments are
  skipped, entities resolved, quotes unified, white space collapsed and letters lowered, in one pass over
  the bytes. \<open>html.UnescapeString\<close> of one entity and \<open>unicode.ToLower\<close> on runes beyond ASCII are
  parameters. The theorem: the result is in normal form, whatever the input.
\<close>

record text_library =
  tl_unescape :: "string \<Rightarrow> string"
  tl_lower :: "nat \<Rightarrow> nat"

definition MaxInspectBytes :: nat where
  "MaxInspectBytes = 1048576"

section \<open>Runes\<close>

text \<open>\<open>utf8.DecodeRune\<close>: an invalid byte is the replacement character, of width 1.\<close>

definition decode_rune :: "string \<Rightarrow> nat \<times> nat" where
  "decode_rune s =
     (let b = (\<lambda>i. char_code (s ! i))
      in case rune_length s of
           0 \<Rightarrow> (0xFFFD, 1)
         | Suc n \<Rightarrow>
             (if n = 0 then b 0
              else if n = 1 then (b 0 - 0xC0) * 64 + (b 1 - 0x80)
              else if n = 2 then ((b 0 - 0xE0) * 64 + (b 1 - 0x80)) * 64 + (b 2 - 0x80)
              else (((b 0 - 0xF0) * 64 + (b 1 - 0x80)) * 64 + (b 2 - 0x80)) * 64 + (b 3 - 0x80),
              Suc n))"

text \<open>\<open>unicode.IsSpace\<close>.\<close>

definition is_space_rune :: "nat \<Rightarrow> bool" where
  "is_space_rune r =
     (9 \<le> r \<and> r \<le> 13 \<or> r = 0x20 \<or> r = 0x85 \<or> r = 0xA0 \<or> r = 0x1680 \<or> 0x2000 \<le> r \<and> r \<le> 0x200A
      \<or> r = 0x2028 \<or> r = 0x2029 \<or> r = 0x202F \<or> r = 0x205F \<or> r = 0x3000)"

definition ValidRune :: "int \<Rightarrow> bool" where
  "ValidRune r = (0 \<le> r \<and> r < 0xD800 \<or> 0xDFFF < r \<and> r \<le> 0x10FFFF)"

section \<open>One rune\<close>

text \<open>The state of the scanner: what has been written, and whether white space is pending.\<close>

type_synonym norm_state = "string \<times> bool"

definition unify_rune :: "nat \<Rightarrow> nat" where
  "unify_rune r =
     (if r \<in> set [0x2018, 0x2019, 0x02BC, 0x60, 0xB4] then 0x27
      else if r = 0x201C \<or> r = 0x201D then 0x22
      else if r = 0xA0 then 0x20 else r)"

definition written_rune :: "text_library \<Rightarrow> nat \<Rightarrow> string" where
  "written_rune lib r =
     (if r < 0x80 then if 65 \<le> r \<and> r \<le> 90 then [char_of (r + 32)] else [char_of r]
      else utf8_encode (tl_lower lib r))"

definition ProcessRune :: "text_library \<Rightarrow> nat \<Rightarrow> norm_state \<Rightarrow> norm_state" where
  "ProcessRune lib r0 st =
     (let (out, inWhitespace) = st; r = unify_rune r0
      in if is_space_rune r then (out, if \<not> inWhitespace \<and> out \<noteq> [] then True else inWhitespace)
         else (out @ (if inWhitespace then '' '' else []) @ written_rune lib r, False))"

section \<open>Entities\<close>

definition go_int32 :: "int \<Rightarrow> int" where
  "go_int32 n = sint (word_of_int n :: 32 word)"

definition hex_value :: "char \<Rightarrow> nat option" where
  "hex_value c =
     (let n = char_code c
      in if 48 \<le> n \<and> n \<le> 57 then Some (n - 48)
         else if 97 \<le> n \<and> n \<le> 102 then Some (n - 97 + 10)
         else if 65 \<le> n \<and> n \<le> 70 then Some (n - 65 + 10) else None)"

definition decimal_digit :: "char \<Rightarrow> nat option" where
  "decimal_digit c = (if is_digit c then Some (digit_val c) else None)"

text \<open>The code point accumulates in a \<open>rune\<close>, which wraps around at 32 bits.\<close>

fun code_point :: "nat \<Rightarrow> (char \<Rightarrow> nat option) \<Rightarrow> string \<Rightarrow> int \<Rightarrow> int option" where
  "code_point base val [] cp = Some cp"
| "code_point base val (c # s) cp =
     (case val c of None \<Rightarrow> None | Some d \<Rightarrow> code_point base val s (go_int32 (cp * int base + int d)))"

definition named_entity :: "string \<Rightarrow> nat option" where
  "named_entity entity =
     (if entity \<in> set [''&rsquo;'', ''&lsquo;'', ''&apos;''] then Some 0x27
      else if entity \<in> set [''&quot;'', ''&ldquo;'', ''&rdquo;''] then Some 0x22
      else if entity = ''&nbsp;'' then Some 0x20
      else if entity = ''&amp;'' then Some 0x26
      else if entity = ''&lt;'' then Some 0x3C
      else if entity = ''&gt;'' then Some 0x3E else None)"

definition numeric_entity :: "string \<Rightarrow> nat option" where
  "numeric_entity entity =
     (if length entity > 3 \<and> entity ! 1 = CHR ''#'' then
        let ds = butlast entity;
            cp = (if entity ! 2 = CHR ''x'' \<or> entity ! 2 = CHR ''X'' then code_point 16 hex_value (drop 3 ds) 0
                  else code_point 10 decimal_digit (drop 2 ds) 0)
        in (case cp of Some n \<Rightarrow> if n > 0 \<and> ValidRune n then Some (nat n) else None | None \<Rightarrow> None)
      else None)"

definition HandleEntity :: "text_library \<Rightarrow> string \<Rightarrow> norm_state \<Rightarrow> norm_state option" where
  "HandleEntity lib entity st =
     (case named_entity entity of
        Some r \<Rightarrow> Some (ProcessRune lib r st)
      | None \<Rightarrow> map_option (\<lambda>r. ProcessRune lib r st) (numeric_entity entity))"

text \<open>The runes of a string, as \<open>range\<close> delivers them.\<close>

function runes :: "string \<Rightarrow> nat list" where
  "runes s = (if s = [] then [] else fst (decode_rune s) # runes (drop (max 1 (snd (decode_rune s))) s))"
  by pat_completeness auto
termination
  by (relation "measure length") (auto simp: max_def)

declare runes.simps [simp del]

lemma runes_simps [simp]:
  "runes [] = []"
  "char_code c < 0x80 \<Longrightarrow> runes (c # s) = char_code c # runes s"
  "rune_length (c # s) = 0 \<Longrightarrow> runes (c # s) = 0xFFFD # runes s"
  by (subst runes.simps, simp add: decode_rune_def rune_length_def Let_def)+

section \<open>The scanner\<close>

text \<open>\<open>IndexCaseInsensitive\<close> compares bytes with bit 5 set.\<close>

definition fold_byte :: "char \<Rightarrow> nat" where
  "fold_byte c = (let n = char_code c in if n div 32 mod 2 = 0 then n + 32 else n)"

definition prefix_fold :: "string \<Rightarrow> string \<Rightarrow> bool" where
  "prefix_fold s t = (length t \<le> length s \<and> map fold_byte (take (length t) s) = map fold_byte t)"

fun index_fold :: "string \<Rightarrow> string \<Rightarrow> nat option" where
  "index_fold [] t = (if t = [] then Some 0 else None)"
| "index_fold (c # s) t = (if prefix_fold (c # s) t then Some 0 else map_option Suc (index_fold s t))"

definition style_end :: "string \<Rightarrow> nat option" where
  "style_end s =
     (if to_lower (take 6 s) = ''<style''
      then map_option (\<lambda>i. 6 + i + 8) (index_fold (drop 6 s) ''</style>'') else None)"

definition comment_end :: "string \<Rightarrow> nat option" where
  "comment_end s =
     (if has_prefix s ''<!--'' then map_option (\<lambda>i. 4 + i + 3) (str_index (drop 4 s) ''-->'') else None)"

text \<open>The entity at the start of a text, if there is one.\<close>

definition entity_at :: "string \<Rightarrow> string option" where
  "entity_at s =
     (if has_prefix s ''&'' then
        (case index_any s '';'' of
           Some semi \<Rightarrow>
             if 1 < semi \<and> semi \<le> 32
                \<and> index_any (take semi s) ([CHR '' '', CHR 0x09, CHR 0x0D, CHR 0x0A] @ ''<>'') = None
             then Some (take (semi + 1) s) else None
         | None \<Rightarrow> None)
      else None)"

definition resolve_entity :: "text_library \<Rightarrow> string \<Rightarrow> norm_state \<Rightarrow> norm_state option" where
  "resolve_entity lib entity st =
     (case HandleEntity lib entity st of
        Some st' \<Rightarrow> Some st'
      | None \<Rightarrow>
          let unescaped = tl_unescape lib entity
          in if unescaped \<noteq> entity then Some (fold (ProcessRune lib) (runes unescaped) st) else None)"

text \<open>One turn of the loop: how many bytes it consumes and the state after it.\<close>

definition scan_turn :: "text_library \<Rightarrow> string \<Rightarrow> norm_state \<Rightarrow> nat \<times> norm_state" where
  "scan_turn lib s st =
     (case style_end s of
        Some n \<Rightarrow> (n, st)
      | None \<Rightarrow>
          (case comment_end s of
             Some n \<Rightarrow> (n, st)
           | None \<Rightarrow>
               (case Option.bind (entity_at s) (\<lambda>e. map_option (Pair (length e)) (resolve_entity lib e st)) of
                  Some r \<Rightarrow> r
                | None \<Rightarrow> let (r, size) = decode_rune s in (size, ProcessRune lib r st))))"

function scan_text :: "text_library \<Rightarrow> string \<Rightarrow> norm_state \<Rightarrow> norm_state" where
  "scan_text lib s st =
     (if s = [] then st
      else let (n, st') = scan_turn lib s st in scan_text lib (drop (max 1 n) s) st')"
  by pat_completeness auto
termination
  by (relation "measure (\<lambda>(lib, s, st). length s)") (auto simp: max_def)

declare scan_text.simps [simp del]

definition NormalizeText :: "text_library \<Rightarrow> string \<Rightarrow> string" where
  "NormalizeText lib s =
     (if s = [] then [] else fst (scan_text lib (take MaxInspectBytes s) ([], False)))"


section \<open>The normal form\<close>

text \<open>
  A text in normal form: words separated by single spaces, without capital letters and other white space.
\<close>

definition word_char :: "char \<Rightarrow> bool" where
  "word_char c = (\<not> is_space c \<and> \<not> (65 \<le> char_code c \<and> char_code c \<le> 90))"

definition word :: "string \<Rightarrow> bool" where
  "word w = (w \<noteq> [] \<and> list_all word_char w)"

definition normal_form :: "string \<Rightarrow> bool" where
  "normal_form t = (\<exists>ws. t = join_with '' '' ws \<and> list_all word ws)"

text \<open>What the code relies on of \<open>unicode.ToLower\<close>: beyond ASCII it gives no capital and no space of ASCII.\<close>

definition lowers :: "text_library \<Rightarrow> bool" where
  "lowers lib = (\<forall>r. 0x80 \<le> r \<longrightarrow> 0x80 \<le> tl_lower lib r \<or> (97 \<le> tl_lower lib r \<and> tl_lower lib r \<le> 122))"

lemma high_word_char: "128 \<le> n \<Longrightarrow> n < 256 \<Longrightarrow> word_char (char_of (n :: nat))"
  by (auto simp: word_char_def is_space_def char_code_def Let_def)

lemma utf8_word:
  assumes "0x80 \<le> n"
  shows "word (utf8_encode n)"
proof -
  define r where "r = (if 0xD800 \<le> n \<and> n \<le> 0xDFFF \<or> n > 0x10FFFF then 0xFFFD else n)"
  have r: "0x80 \<le> r" "r \<le> 0x10FFFF" using assms by (auto simp: r_def)
  consider "r < 0x800" | "0x800 \<le> r" "r < 0x10000" | "0x10000 \<le> r" by linarith
  then show ?thesis
  proof cases
    case 1
    then show ?thesis using r by (simp add: word_def utf8_encode_def r_def [symmetric] high_word_char)
  next
    case 2
    then have "r div 4096 < 16" by simp
    then show ?thesis using 2 by (simp add: word_def utf8_encode_def r_def [symmetric] high_word_char)
  next
    case 3
    have "r div 262144 < 5" using r by simp
    then show ?thesis using 3 by (simp add: word_def utf8_encode_def r_def [symmetric] high_word_char)
  qed
qed

lemma written_word:
  assumes "lowers lib" "\<not> is_space_rune r"
  shows "word (written_rune lib r)"
proof (cases "r < 0x80")
  case True
  then show ?thesis
    using assms(2) by (auto simp: written_rune_def word_def word_char_def is_space_def is_space_rune_def char_code_def)
next
  case False
  then consider "0x80 \<le> tl_lower lib r" | "97 \<le> tl_lower lib r" "tl_lower lib r \<le> 122"
    using assms(1) unfolding lowers_def by (meson not_less)
  then show ?thesis
  proof cases
    case 1
    then show ?thesis using False by (simp add: written_rune_def utf8_word)
  next
    case 2
    then show ?thesis
      using False by (auto simp: written_rune_def utf8_encode_def word_def word_char_def is_space_def char_code_def)
  qed
qed

lemma join_with_snoc: "ws \<noteq> [] \<Longrightarrow> join_with sep (ws @ [w]) = join_with sep ws @ sep @ w"
  by (induction sep ws rule: join_with.induct) simp_all

lemma normal_form_new_word:
  assumes "normal_form t" "t \<noteq> []" "word w"
  shows "normal_form (t @ '' '' @ w)"
proof -
  obtain ws where ws: "t = join_with '' '' ws" "list_all word ws" using assms(1) by (auto simp: normal_form_def)
  then have "ws \<noteq> []" using assms(2) by auto
  then have "t @ '' '' @ w = join_with '' '' (ws @ [w])" using ws by (simp add: join_with_snoc)
  then show ?thesis using ws assms(3) unfolding normal_form_def by (intro exI [of _ "ws @ [w]"]) simp
qed

lemma normal_form_extend:
  assumes "normal_form t" "word w"
  shows "normal_form (t @ w)"
proof -
  obtain ws where ws: "t = join_with '' '' ws" "list_all word ws" using assms(1) by (auto simp: normal_form_def)
  show ?thesis
  proof (cases ws rule: rev_cases)
    case Nil
    then have "t @ w = join_with '' '' [w]" using ws by simp
    with assms(2) show ?thesis unfolding normal_form_def by (intro exI [of _ "[w]"]) simp
  next
    case (snoc vs v)
    then have "t @ w = join_with '' '' (vs @ [v @ w])"
      using ws by (cases "vs = []") (simp_all add: join_with_snoc)
    moreover have "word (v @ w)" using ws snoc assms(2) by (simp add: word_def)
    ultimately show ?thesis using ws snoc unfolding normal_form_def by (intro exI [of _ "vs @ [v @ w]"]) simp
  qed
qed

definition normal_state :: "norm_state \<Rightarrow> bool" where
  "normal_state st = (normal_form (fst st) \<and> (snd st \<longrightarrow> fst st \<noteq> []))"

lemma normal_ProcessRune [wf_rules]:
  assumes "lowers lib" "normal_state st"
  shows "normal_state (ProcessRune lib r st)"
proof -
  obtain out ws where st: "st = (out, ws)" by (cases st)
  show ?thesis
  proof (cases "is_space_rune (unify_rune r)")
    case True
    then show ?thesis using assms(2) st by (auto simp: ProcessRune_def normal_state_def)
  next
    case False
    have w: "word (written_rune lib (unify_rune r))" by (rule written_word [OF assms(1) False])
    have "normal_form out" "ws \<Longrightarrow> out \<noteq> []" using assms(2) st by (auto simp: normal_state_def)
    with w False show ?thesis
      unfolding st normal_state_def ProcessRune_def
      by (cases ws) (simp_all add: normal_form_extend, use normal_form_new_word in simp)
  qed
qed

lemma normal_fold_runes [wf_rules]:
  "lowers lib \<Longrightarrow> normal_state st \<Longrightarrow> normal_state (fold (ProcessRune lib) rs st)"
  by (induction rs arbitrary: st) (simp_all add: normal_ProcessRune)

lemma normal_resolve_entity [wf_rules]:
  assumes "lowers lib" "normal_state st" "resolve_entity lib e st = Some st'"
  shows "normal_state st'"
  using assms(3)
  by (cases "named_entity e"; cases "numeric_entity e")
     (simp_all add: resolve_entity_def HandleEntity_def Let_def split: if_splits,
      (metis normal_ProcessRune normal_fold_runes assms(1,2))+)

lemma normal_scan_turn [wf_rules]:
  assumes "lowers lib" "normal_state st"
  shows "normal_state (snd (scan_turn lib s st))"
  using assms
  by (auto simp: scan_turn_def bind_eq_Some_conv wf_rules split: option.splits prod.splits)

lemma normal_scan_text:
  "lowers lib \<Longrightarrow> normal_state st \<Longrightarrow> normal_state (scan_text lib s st)"
proof (induction lib s st rule: scan_text.induct)
  case (1 lib s st)
  obtain n st' where turn: "scan_turn lib s st = (n, st')" by (cases "scan_turn lib s st")
  then have "normal_state st'" using normal_scan_turn [OF 1(2,3), of s] by simp
  with 1 turn show ?case by (subst scan_text.simps) auto
qed

text \<open>Whatever bytes a page consists of, its normalised text is in normal form: words separated by single
  spaces, without capital letters, tabs or line breaks, and without white space at the ends.\<close>

theorem normalized_text:
  assumes "lowers lib"
  shows "normal_form (NormalizeText lib s)"
proof -
  have "normal_state ([], False)" by (auto simp: normal_state_def normal_form_def intro: exI [of _ "[]"])
  from normal_scan_text [OF assms this] show ?thesis
    by (auto simp: NormalizeText_def normal_state_def normal_form_def intro: exI [of _ "[]"])
qed

definition ascii_library :: text_library where
  "ascii_library = \<lparr> tl_unescape = (\<lambda>s. s), tl_lower = (\<lambda>r. r) \<rparr>"

lemmas scan_eval =
  NormalizeText_def MaxInspectBytes_def scan_text.simps scan_turn_def style_end_def comment_end_def entity_at_def
  to_lower_def lower_char_def decode_rune_def rune_length_def char_code_def ProcessRune_def unify_rune_def
  is_space_rune_def written_rune_def resolve_entity_def HandleEntity_def named_entity_def Let_def char_of_def
  bit_0 bit_iff_odd

lemma normalized_text_witness: "normal_form ''a b''"
proof -
  have "lowers ascii_library" by (simp add: lowers_def ascii_library_def)
  from normalized_text [OF this, of "''A  &nbsp;b ''"] show ?thesis by (simp add: scan_eval)
qed

end
