(* ===== verification/TargetProbe.thy ===== *)
theory TargetProbe
  imports Transport TextNorm
begin

text \<open>
  The probes of the services: the classification primitives they share
  (\<open>internal/tester/classifiercore/classifiercore.go\<close>), the Gemini probe (\<open>tester/gemini/probe.go\<close>) and
  the Claude probe (\<open>tester/claude/classifier.go\<close>, \<open>probe.go\<close>). The fixed regular expressions of the code
  are matchers on bytes; lowering of page texts goes through the runes, where an invalid byte becomes the
  three bytes of the replacement character.
\<close>

definition ToLower :: "text_library \<Rightarrow> string \<Rightarrow> string" where
  "ToLower lib s = concat (map (written_rune lib) (runes s))"

definition to_upper :: "string \<Rightarrow> string" where
  "to_upper s =
     map (\<lambda>c. let n = char_code c in if 97 \<le> n \<and> n \<le> 122 then char_of (n - 32) else c) s"

section \<open>Shared primitives\<close>

text \<open>The title: from the first \<open><title ...>\<close> to the next \<open></title>\<close>, in any case of the letters.\<close>

fun index_ascii_fold :: "string \<Rightarrow> string \<Rightarrow> nat option" where
  "index_ascii_fold [] t = (if t = [] then Some 0 else None)"
| "index_ascii_fold (c # s) t =
     (if has_prefix (to_lower (c # s)) t then Some 0 else map_option Suc (index_ascii_fold s t))"

definition ExtractTitle :: "string \<Rightarrow> string option" where
  "ExtractTitle body =
     (case index_ascii_fold body ''<title'' of
        None \<Rightarrow> None
      | Some i \<Rightarrow>
          let rest = drop (i + 6) body
          in (case index_any rest ''>'' of
                None \<Rightarrow> None
              | Some j \<Rightarrow>
                  let content = drop (Suc j) rest
                  in map_option (\<lambda>k. take k content) (index_ascii_fold content ''</title>'')))"

record common_status =
  cs_Status :: status
  cs_Category :: error_category
  cs_StatusCode :: int
  cs_Reason :: string
  cs_Retryable :: bool
  cs_RetryAfter :: "duration option"

definition ClassifyCommonHTTPStatus :: "clock \<Rightarrow> int \<Rightarrow> header \<Rightarrow> common_status option" where
  "ClassifyCommonHTTPStatus ck statusCode header =
     (if statusCode = 429 then
        Some \<lparr> cs_Status = StatusInconclusive, cs_Category = ErrTargetRateLimited, cs_StatusCode = 429,
               cs_Reason = ''target HTTP 429 Too Many Requests'', cs_Retryable = True,
               cs_RetryAfter = ParseRetryAfter ck (header_get header ''Retry-After'') \<rparr>
      else if statusCode = 503 then
        Some \<lparr> cs_Status = StatusInconclusive, cs_Category = ErrTargetError, cs_StatusCode = 503,
               cs_Reason = ''target HTTP 503 Service Unavailable'', cs_Retryable = True, cs_RetryAfter = None \<rparr>
      else if statusCode = 500 \<or> statusCode = 502 \<or> statusCode = 504 then
        Some \<lparr> cs_Status = StatusInconclusive, cs_Category = ErrTargetError, cs_StatusCode = statusCode,
               cs_Reason = ''target HTTP '' @ print_int statusCode, cs_Retryable = False, cs_RetryAfter = None \<rparr>
      else if statusCode = 403 then
        Some \<lparr> cs_Status = StatusFailed, cs_Category = ErrTargetDenied, cs_StatusCode = 403,
               cs_Reason = ''target HTTP 403 Forbidden'', cs_Retryable = False, cs_RetryAfter = None \<rparr>
      else None)"

definition CanonicalInterceptionPhrases :: "string list" where
  "CanonicalInterceptionPhrases =
     [''cf-chl-bypass'', ''attention required! | cloudflare'', ''just a moment...'', ''routeros'', ''mikrotik'']"

definition InterceptionReason :: string where
  "InterceptionReason = ''interception: CDN challenge or captive portal page''"

definition DetectInterception :: "string \<Rightarrow> (error_category \<times> string) option" where
  "DetectInterception normalizedBody =
     (if contains_any normalizedBody CanonicalInterceptionPhrases
      then Some (ErrTargetOther, InterceptionReason) else None)"

section \<open>The canonical link\<close>

definition isHTMLSpace :: "char \<Rightarrow> bool" where
  "isHTMLSpace c = (c \<in> set [CHR '' '', CHR 0x09, CHR 0x0A, CHR 0x0D, CHR 0x0C])"

fun skip_space :: "string \<Rightarrow> nat \<Rightarrow> nat \<Rightarrow> nat" where
  "skip_space s 0 i = i"
| "skip_space s (Suc n) i = (if i < length s \<and> isHTMLSpace (s ! i) then skip_space s n (Suc i) else i)"

text \<open>The end of an unquoted value that starts at \<open>i\<close>: white space, \<open>>\<close>, or \<open>/>\<close>.\<close>

fun value_end :: "string \<Rightarrow> nat \<Rightarrow> nat \<Rightarrow> nat" where
  "value_end s 0 i = i"
| "value_end s (Suc n) i =
     (if i < length s \<and> \<not> isHTMLSpace (s ! i) \<and> s ! i \<noteq> CHR ''>''
         \<and> \<not> (s ! i = CHR ''/'' \<and> Suc i < length s \<and> s ! Suc i = CHR ''>'')
      then value_end s n (Suc i) else i)"

text \<open>A slice \<open>s[i:j]\<close> panics when it reaches beyond the capacity, the bytes of the backing array.\<close>

datatype 'a checked = Value 'a | Panic

definition slice :: "string \<Rightarrow> nat \<Rightarrow> nat \<Rightarrow> string checked" where
  "slice s i j = (if i \<le> j \<and> j \<le> length s then Value (take (j - i) (drop i s)) else Panic)"

fun bind_checked :: "'a checked \<Rightarrow> ('a \<Rightarrow> 'b checked) \<Rightarrow> 'b checked" where
  "bind_checked (Value x) f = f x"
| "bind_checked Panic f = Panic"

text \<open>
  The loop of \<open>extractTagAttribute\<close> from position \<open>p\<close> on; the first argument bounds its turns by the length
  of the tag, as every turn moves \<open>p\<close> forward by the length of the needle.
\<close>

fun tag_attribute :: "nat \<Rightarrow> string \<Rightarrow> string \<Rightarrow> string \<Rightarrow> nat \<Rightarrow> string option checked" where
  "tag_attribute 0 tagLower tagOrig needle p = Value None"
| "tag_attribute (Suc n) tagLower tagOrig needle p =
     (case str_index (drop p tagLower) needle of
        None \<Rightarrow> Value None
      | Some idx \<Rightarrow>
          let pos = p + idx; len = length tagLower in
          if pos > 0 \<and> \<not> isHTMLSpace (tagLower ! (pos - 1))
          then tag_attribute n tagLower tagOrig needle (pos + length needle)
          else
            let after = skip_space tagLower len (pos + length needle) in
            if after \<ge> len \<or> tagLower ! after \<noteq> CHR ''=''
            then tag_attribute n tagLower tagOrig needle after
            else
              let v = skip_space tagLower len (Suc after) in
              if v \<ge> len then Value None
              else
                let quote = tagLower ! v in
                if quote = CHR 0x22 \<or> quote = CHR 0x27 then
                  (case index_any (drop (Suc v) tagLower) [quote] of
                     None \<Rightarrow> Value None
                   | Some closing \<Rightarrow>
                       bind_checked (slice tagOrig (Suc v) (Suc v + closing)) (\<lambda>s. Value (Some s)))
                else
                  let e = value_end tagLower len v
                  in if e > v then bind_checked (slice tagOrig v e) (\<lambda>s. Value (Some s)) else Value None)"

definition extractTagAttribute :: "string \<Rightarrow> string \<Rightarrow> string \<Rightarrow> string option checked" where
  "extractTagAttribute tagLower tagOrig attrName =
     tag_attribute (Suc (length tagLower)) tagLower tagOrig attrName 0"

text \<open>\<open>strings.Fields\<close> on the ASCII spaces.\<close>

text \<open>
  The loop over the \<open><link\<close> tags. It searches the lowered body and cuts the tag out of the body at the same
  positions; \<open>backing\<close> is the body with the spare bytes behind it in its array.
\<close>

fun link_tags :: "nat \<Rightarrow> string \<Rightarrow> string \<Rightarrow> nat \<Rightarrow> string option checked" where
  "link_tags 0 lower backing start = Value None"
| "link_tags (Suc n) lower backing start =
     (case str_index (drop start lower) ''<link'' of
        None \<Rightarrow> Value None
      | Some idx \<Rightarrow>
          let tagStart = start + idx; afterLink = tagStart + 5 in
          if afterLink < length lower \<and> \<not> isHTMLSpace (lower ! afterLink)
             \<and> lower ! afterLink \<noteq> CHR ''/'' \<and> lower ! afterLink \<noteq> CHR ''>''
          then link_tags n lower backing afterLink
          else
            (case index_any (drop tagStart lower) ''>'' of
               None \<Rightarrow> Value None
             | Some tagEnd \<Rightarrow>
                 let tagLower = take (tagEnd + 1) (drop tagStart lower); next = tagStart + tagEnd + 1 in
                 bind_checked (slice backing tagStart next) (\<lambda>tagOrig.
                 bind_checked (extractTagAttribute tagLower tagLower ''rel'') (\<lambda>rel.
                   case rel of
                     Some relVal \<Rightarrow>
                       if ''canonical'' \<in> set (str_fields relVal)
                       then bind_checked (extractTagAttribute tagLower tagOrig ''href'') (\<lambda>href.
                              case href of Some h \<Rightarrow> Value (Some h) | None \<Rightarrow> link_tags n lower backing next)
                       else link_tags n lower backing next
                   | None \<Rightarrow> link_tags n lower backing next))))"

definition ExtractCanonicalLink :: "text_library \<Rightarrow> string \<Rightarrow> string \<Rightarrow> string option checked" where
  "ExtractCanonicalLink lib body spare =
     (let lower = ToLower lib body in link_tags (Suc (length lower)) lower (body @ spare) 0)"

text \<open>
  In a body that is not UTF-8 the lowered text is longer than the body, and the positions do not fit: a Latin-1
  page makes the function panic.
\<close>

lemma latin1_page_panics: "ExtractCanonicalLink ascii_library ([CHR 0xE9, CHR 0xE9] @ ''<link>'') [] = Panic"
proof -
  have "runes ([CHR 0xE9, CHR 0xE9] @ ''<link>'') = [0xFFFD, 0xFFFD, 60, 108, 105, 110, 107, 62]"
    by (simp add: rune_length_def in_range_def char_code_def)
  then have "ToLower ascii_library ([CHR 0xE9, CHR 0xE9] @ ''<link>'') =
      [CHR 0xEF, CHR 0xBF, CHR 0xBD, CHR 0xEF, CHR 0xBF, CHR 0xBD] @ ''<link>''"
    unfolding ToLower_def by (simp add: written_rune_def ascii_library_def utf8_encode_def char_of_def bit_0 bit_iff_odd)
  then show ?thesis
    unfolding ExtractCanonicalLink_def Let_def by (simp add: slice_def isHTMLSpace_def)
qed

section \<open>The Gemini probe\<close>

record probe_result =
  pb_Status :: status
  pb_Category :: error_category
  pb_StatusCode :: int
  pb_Reason :: string
  pb_Latency :: duration
  pb_Retryable :: bool
  pb_RetryAfter :: "duration option"
  pb_Err :: "go_error option"

definition verdict :: "status \<Rightarrow> error_category \<Rightarrow> int \<Rightarrow> string \<Rightarrow> probe_result" where
  "verdict st cat code reason =
     \<lparr> pb_Status = st, pb_Category = cat, pb_StatusCode = code, pb_Reason = reason, pb_Latency = 0,
       pb_Retryable = False, pb_RetryAfter = None, pb_Err = None \<rparr>"

definition of_common :: "common_status \<Rightarrow> probe_result" where
  "of_common c =
     (verdict (cs_Status c) (cs_Category c) (cs_StatusCode c) (cs_Reason c))
       \<lparr> pb_Retryable := cs_Retryable c, pb_RetryAfter := cs_RetryAfter c \<rparr>"

text \<open>
  \<open>countryCodeRegex\<close>: the key, the opening quote of the value, then as few characters of the value as
  possible up to a quoted pair of capitals; the quotes around the pair may be escaped.
\<close>

definition is_capital :: "char \<Rightarrow> bool" where
  "is_capital c = (65 \<le> char_code c \<and> char_code c \<le> 90)"

definition quote_ahead :: "string \<Rightarrow> string option" where
  "quote_ahead s =
     (if has_prefix s [CHR 0x5C, CHR 0x22] then Some (drop 2 s)
      else if has_prefix s [CHR 0x22] then Some (drop 1 s) else None)"

definition country_here :: "string \<Rightarrow> string option" where
  "country_here s =
     Option.bind (quote_ahead s) (\<lambda>t.
       case t of
         a # b # u \<Rightarrow> if is_capital a \<and> is_capital b \<and> quote_ahead u \<noteq> None then Some [a, b] else None
       | _ \<Rightarrow> None)"

fun country_in_value :: "string \<Rightarrow> string option" where
  "country_in_value s =
     (case country_here s of
        Some c \<Rightarrow> Some c
      | None \<Rightarrow>
          (case s of
             [] \<Rightarrow> None
           | a # t \<Rightarrow>
               if a = CHR 0x5C then
                 (case t of [] \<Rightarrow> None | b # u \<Rightarrow> if b = newline then None else country_in_value u)
               else if a = CHR 0x22 then None else country_in_value t))"

declare country_in_value.simps [simp del]

definition country_at :: "string \<Rightarrow> string option" where
  "country_at s =
     (if has_prefix s ([CHR 0x22] @ ''vXmutd'' @ [CHR 0x22]) then
        let t = dropWhile isHTMLSpace (drop 8 s)
        in if has_prefix t '':'' then
             let u = dropWhile isHTMLSpace (drop 1 t)
             in if has_prefix u [CHR 0x22] then country_in_value (drop 1 u) else None
           else None
      else None)"

fun find_country :: "string \<Rightarrow> string option" where
  "find_country [] = None"
| "find_country (c # s) = (case country_at (c # s) of Some x \<Rightarrow> Some x | None \<Rightarrow> find_country s)"

definition restrictedCountries :: "string list" where
  "restrictedCountries = [''IR'', ''RU'', ''CU'', ''SY'', ''KP'', ''BY'']"

definition quoted :: "string \<Rightarrow> string" where
  "quoted s = [CHR 0x22] @ s @ [CHR 0x22]"

definition location_blocked :: "string \<Rightarrow> bool" where
  "location_blocked body = contains_any body (map quoted [''LOCATION_REJECTED'', ''no_access'', ''GEO_RESTRICTED''])"

definition blocked_by_phrase :: "text_library \<Rightarrow> string \<Rightarrow> string list \<Rightarrow> bool" where
  "blocked_by_phrase lib normalized blockPhrases =
     list_ex (\<lambda>phrase. let norm = NormalizeText lib phrase in norm \<noteq> [] \<and> str_contains normalized norm) blockPhrases"

definition origin_signal :: "http_response \<Rightarrow> bool" where
  "origin_signal resp =
     (let server = to_upper (header_get (hr_Header resp) ''Server'')
      in contains_any server [''ESF'', ''GSE'', ''SFFE'', ''GWS'']
         \<or> list_ex (\<lambda>d. str_contains d ''google.com'' \<or> str_contains d ''gemini.google.com'') (hr_CookieDomains resp))"

definition title_signal :: "text_library \<Rightarrow> string \<Rightarrow> bool" where
  "title_signal lib body =
     (case ExtractTitle body of Some title \<Rightarrow> str_contains (ToLower lib title) ''gemini'' | None \<Rightarrow> False)"

definition app_marker_signal :: "string \<Rightarrow> bool" where
  "app_marker_signal normalized = contains_any normalized [''bardchatui'', ''wiz_global_data'', ''google gemini'']"

definition verified_gemini :: "text_library \<Rightarrow> http_response \<Rightarrow> string \<Rightarrow> string \<Rightarrow> bool" where
  "verified_gemini lib resp body normalized =
     (if origin_signal resp \<and> (title_signal lib body \<or> str_contains normalized ''gemini'') then True
      else title_signal lib body \<and> app_marker_signal normalized)"

definition classify_gemini_page :: "text_library \<Rightarrow> http_response \<Rightarrow> string \<Rightarrow> string list \<Rightarrow> probe_result" where
  "classify_gemini_page lib resp body0 blockPhrases =
     (let body = take MaxInspectBytes body0;
          normalized = NormalizeText lib body;
          country = find_country body
      in if country \<noteq> None \<and> the country \<in> set restrictedCountries
         then verdict StatusFailed ErrRegionBlocked 200
                (''restricted country detected in WIZ_global_data: '' @ the country)
         else if location_blocked body
         then verdict StatusFailed ErrRegionBlocked 200
                ''gemini restriction flag detected (LOCATION_REJECTED / no_access)''
         else if blocked_by_phrase lib normalized blockPhrases
         then verdict StatusFailed ErrRegionBlocked 200 ''target returned regional restriction message''
         else
           (case DetectInterception normalized of
              Some (cat, reason) \<Rightarrow> verdict StatusFailed cat 200 reason
            | None \<Rightarrow>
                if verified_gemini lib resp body normalized then verdict StatusPassed ErrNone 200 ''ok''
                else verdict StatusFailed ErrTargetOther 200
                       ''target response missing verified Gemini origin and application markers (possible interception / false positive)''))"

definition classifyResponsePayload ::
    "clock \<Rightarrow> text_library \<Rightarrow> http_response option \<Rightarrow> string \<Rightarrow> string list \<Rightarrow> probe_result" where
  "classifyResponsePayload ck lib resp body blockPhrases =
     (case resp of
        None \<Rightarrow> verdict StatusFailed ErrTargetOther 0 ''nil response''
      | Some r \<Rightarrow>
          (case ClassifyCommonHTTPStatus ck (hr_StatusCode r) (hr_Header r) of
             Some c \<Rightarrow> of_common c
           | None \<Rightarrow>
               if hr_StatusCode r = 200 then classify_gemini_page lib r body blockPhrases
               else verdict StatusFailed ErrTargetOther (hr_StatusCode r)
                      (''unexpected HTTP status '' @ print_int (hr_StatusCode r))))"

definition ClassifyResponse_gemini ::
    "clock \<Rightarrow> text_library \<Rightarrow> http_response option \<Rightarrow> string \<Rightarrow> string list \<Rightarrow> probe_result" where
  "ClassifyResponse_gemini ck lib resp body blockPhrases =
     (let res = classifyResponsePayload ck lib resp body blockPhrases
      in case resp of
           Some r \<Rightarrow> if pb_Retryable res
                     then res \<lparr> pb_RetryAfter := ParseRetryAfter ck (header_get (hr_Header r) ''Retry-After'') \<rparr> else res
         | None \<Rightarrow> res)"

text \<open>What a request through the proxy brings back; of the body at most 1 MB is read.\<close>

record target_reply =
  ty_Outcome :: http_outcome
  ty_Body :: "(go_error, string) outcome"
  ty_Elapsed :: duration
  ty_CtxDone :: bool

definition failed_request :: "error_category \<Rightarrow> int \<Rightarrow> string \<Rightarrow> duration \<Rightarrow> go_error \<Rightarrow> probe_result" where
  "failed_request cat code reason latency e =
     (verdict StatusFailed cat code reason) \<lparr> pb_Latency := latency, pb_Err := Some e \<rparr>"

definition Probe_gemini :: "clock \<Rightarrow> text_library \<Rightarrow> string list \<Rightarrow> target_reply \<Rightarrow> probe_result" where
  "Probe_gemini ck lib blockPhrases reply =
     (let latency = clampLatency (ty_Elapsed reply)
      in case ty_Outcome reply of
           RequestInvalid e \<Rightarrow>
             failed_request ErrConfig 0 (''build gemini request: '' @ ge_Text e) 0 (wrap_error ''build request: '' e)
         | RoundTripFailed e \<Rightarrow> failed_request ErrProxyError 0 (ge_Text e) latency e
         | Responded resp \<Rightarrow>
             (case ty_Body reply of
                Inl e \<Rightarrow> failed_request ErrProxyError 0 (''read gemini body: '' @ ge_Text e) latency
                           (wrap_error ''read body: '' e)
              | Inr body \<Rightarrow>
                  (ClassifyResponse_gemini ck lib (Some resp) (take MaxInspectBytes body) blockPhrases)
                    \<lparr> pb_Latency := latency \<rparr>))"

section \<open>The Claude probe\<close>

definition rel_canonical :: "string list" where
  "rel_canonical =
     [''rel='' @ quoted ''canonical'', ''rel='' @ [CHR 0x27] @ ''canonical'' @ [CHR 0x27], ''rel=canonical'']"

definition region_marker :: string where
  "region_marker = ''app-unavailable-in-region''"

fun region_link :: "nat \<Rightarrow> string \<Rightarrow> nat \<Rightarrow> bool" where
  "region_link 0 lower start = False"
| "region_link (Suc n) lower start =
     (case str_index (drop start lower) ''<link'' of
        None \<Rightarrow> False
      | Some idx \<Rightarrow>
          let tagStart = start + idx in
          (case index_any (drop tagStart lower) ''>'' of
             None \<Rightarrow> False
           | Some tagEnd \<Rightarrow>
               let tag = take (tagEnd + 1) (drop tagStart lower)
               in if contains_any tag rel_canonical \<and> str_contains tag region_marker then True
                  else region_link n lower (tagStart + tagEnd + 1)))"

definition hasCanonicalLinkRegionBlock :: "text_library \<Rightarrow> string \<Rightarrow> bool" where
  "hasCanonicalLinkRegionBlock lib body = (let lower = ToLower lib body in region_link (Suc (length lower)) lower 0)"

definition unavailable_texts :: "string list" where
  "unavailable_texts =
     [''unavailable in region'', ''only available in certain regions'', ''isn'' @ [CHR 0x27] @ ''t available here'',
      ''not available in your region'', ''app unavailable'']"

definition hasSecondaryRegionBlock :: "text_library \<Rightarrow> string \<Rightarrow> string \<Rightarrow> bool" where
  "hasSecondaryRegionBlock lib rawBody normalized =
     (hasCanonicalLinkRegionBlock lib rawBody
      \<or> (case ExtractTitle rawBody of
           Some title \<Rightarrow> str_contains (ToLower lib title) ''app unavailable in region'' | None \<Rightarrow> False)
      \<or> str_contains normalized ''anthropic.com/supported-countries'' \<and> contains_any normalized unavailable_texts)"

definition ClassifyResponse_claude ::
    "clock \<Rightarrow> text_library \<Rightarrow> http_response option \<Rightarrow> string \<Rightarrow> probe_result" where
  "ClassifyResponse_claude ck lib resp body0 =
     (case resp of
        None \<Rightarrow> verdict StatusFailed ErrTargetOther 0 ''nil response''
      | Some r \<Rightarrow>
          let statusCode = hr_StatusCode r in
          (case ClassifyCommonHTTPStatus ck statusCode (hr_Header r) of
             Some c \<Rightarrow> of_common c
           | None \<Rightarrow>
               let body = take MaxInspectBytes body0; normalized = NormalizeText lib body in
               (case DetectInterception normalized of
                  Some (cat, reason) \<Rightarrow> verdict StatusFailed cat statusCode reason
                | None \<Rightarrow>
                    if (case hr_URLPath r of Some p \<Rightarrow> str_contains (ToLower lib p) region_marker | None \<Rightarrow> False)
                    then verdict StatusFailed ErrRegionBlocked statusCode
                           ''claude region restriction: redirected to app-unavailable-in-region''
                    else if hasSecondaryRegionBlock lib body normalized
                    then verdict StatusFailed ErrRegionBlocked statusCode
                           ''claude region restriction: marker detected in payload''
                    else if statusCode = 200 then verdict StatusPassed ErrNone 200 ''ok''
                    else verdict StatusFailed ErrTargetOther statusCode
                           (''unexpected HTTP status '' @ print_int statusCode))))"

definition Probe_claude :: "clock \<Rightarrow> text_library \<Rightarrow> target_reply \<Rightarrow> probe_result" where
  "Probe_claude ck lib reply =
     (let latency = clampLatency (ty_Elapsed reply)
      in case ty_Outcome reply of
           RequestInvalid e \<Rightarrow>
             failed_request ErrConfig 0 (''build claude request: '' @ ge_Text e) 0 (wrap_error ''build request: '' e)
         | RoundTripFailed e \<Rightarrow>
             failed_request (if ty_CtxDone reply then ErrTimeout else ErrProxyError) 0 (ge_Text e) latency e
         | Responded resp \<Rightarrow>
             (case ty_Body reply of
                Inl e \<Rightarrow> failed_request ErrProxyError (hr_StatusCode resp) (''read claude body: '' @ ge_Text e) latency
                           (wrap_error ''read body: '' e)
              | Inr body \<Rightarrow>
                  (ClassifyResponse_claude ck lib (Some resp) (take MaxInspectBytes body)) \<lparr> pb_Latency := latency \<rparr>))"

section \<open>Verdicts\<close>

lemma verdict_fields [simp]:
  "pb_Status (verdict st cat code reason) = st" "pb_Category (verdict st cat code reason) = cat"
  "pb_StatusCode (verdict st cat code reason) = code" "pb_Latency (verdict st cat code reason) = 0"
  "pb_Retryable (verdict st cat code reason) = False" "pb_RetryAfter (verdict st cat code reason) = None"
  "pb_Err (verdict st cat code reason) = None"
  by (simp_all add: verdict_def)

text \<open>
  What the rest of the program relies on: a passed verdict has no error category and vice versa, only a
  region block or a denial is blamed on the target's policy and then the probe failed for good, an
  inconclusive verdict comes from a status that says so, and only such a one is retried.
\<close>

definition sound_verdict :: "probe_result \<Rightarrow> bool" where
  "sound_verdict r =
     ((pb_Status r = StatusPassed) = (pb_Category r = ErrNone)
      \<and> (pb_Status r = StatusPassed \<longrightarrow> pb_StatusCode r = 200 \<and> pb_Err r = None)
      \<and> (IsTargetSpecific (pb_Category r) \<longrightarrow> pb_Status r = StatusFailed)
      \<and> (pb_Status r = StatusInconclusive \<longrightarrow> pb_StatusCode r \<in> {429, 500, 502, 503, 504})
      \<and> (pb_Retryable r \<longrightarrow> pb_Status r = StatusInconclusive \<and> pb_StatusCode r \<in> {429, 503}))"

lemma sound_verdict_cases [simp]:
  "sound_verdict (verdict StatusPassed ErrNone 200 reason)"
  "cat \<noteq> ErrNone \<Longrightarrow> sound_verdict (verdict StatusFailed cat code reason)"
  "cat \<noteq> ErrNone \<Longrightarrow> sound_verdict (failed_request cat code reason latency e)"
  by (auto simp: sound_verdict_def failed_request_def IsTargetSpecific_def)

lemma sound_common: "ClassifyCommonHTTPStatus ck code h = Some c \<Longrightarrow> sound_verdict (of_common c)"
  by (auto simp: ClassifyCommonHTTPStatus_def of_common_def sound_verdict_def IsTargetSpecific_def split: if_splits)

lemma sound_update [simp]:
  "sound_verdict (r \<lparr> pb_Latency := l \<rparr>) = sound_verdict r"
  "sound_verdict (r \<lparr> pb_RetryAfter := ra \<rparr>) = sound_verdict r"
  by (simp_all add: sound_verdict_def)

lemma DetectInterception_category: "DetectInterception t = Some (cat, reason) \<Longrightarrow> cat = ErrTargetOther"
  by (auto simp: DetectInterception_def split: if_splits)

lemma sound_gemini_page: "sound_verdict (classify_gemini_page lib r body phrases)"
  by (auto simp: classify_gemini_page_def Let_def dest: DetectInterception_category split: option.split)

lemma sound_gemini: "sound_verdict (ClassifyResponse_gemini ck lib resp body phrases)"
  by (auto simp: ClassifyResponse_gemini_def classifyResponsePayload_def Let_def sound_common sound_gemini_page
      split: option.split)

lemma sound_claude: "sound_verdict (ClassifyResponse_claude ck lib resp body)"
  by (auto simp: ClassifyResponse_claude_def Let_def sound_common dest: DetectInterception_category split: option.split)

text \<open>C29: The verdicts of both service probes are consistent whatever the network, the page and the settings
  are: a probe passes exactly when it reports no error category, and then the answer was a 200; a region block or
  a denial is a definite failure; only the statuses 429, 500, 502, 503 and 504 leave the question open, and only
  429 and 503 are retried.\<close>

theorem service_verdicts_sound:
  "sound_verdict (Probe_gemini ck lib phrases reply) \<and> sound_verdict (Probe_claude ck lib reply)"
  by (auto simp: Probe_gemini_def Probe_claude_def Let_def sound_gemini sound_claude
      split: http_outcome.split sum.split)

text \<open>The Gemini probe passes exactly the pages that were answered with 200, show no restricted country, no
  restriction flag, no configured block phrase and no interception, and that prove both their origin and their
  content: a Google origin with Gemini in title or text, or a Gemini title with the markers of the application.\<close>

theorem gemini_passes_iff:
  fixes lib :: text_library
  defines "page body \<equiv> take MaxInspectBytes body" and "text body \<equiv> NormalizeText lib (take MaxInspectBytes body)"
  shows "pb_Status (ClassifyResponse_gemini ck lib (Some r) body phrases) = StatusPassed \<longleftrightarrow>
    hr_StatusCode r = 200
    \<and> (\<forall>cc. find_country (page body) = Some cc \<longrightarrow> cc \<notin> set restrictedCountries)
    \<and> \<not> location_blocked (page body)
    \<and> (\<forall>phrase \<in> set phrases. NormalizeText lib phrase = [] \<or> \<not> str_contains (text body) (NormalizeText lib phrase))
    \<and> (\<forall>phrase \<in> set CanonicalInterceptionPhrases. \<not> str_contains (text body) phrase)
    \<and> (origin_signal r \<and> (title_signal lib (page body) \<or> str_contains (text body) ''gemini'')
       \<or> title_signal lib (page body) \<and> app_marker_signal (text body))"
proof -
  have common: "ClassifyCommonHTTPStatus ck 200 h = None" for h by (simp add: ClassifyCommonHTTPStatus_def)
  have not_passed: "cs_Status c \<noteq> StatusPassed" if "ClassifyCommonHTTPStatus ck code h = Some c" for code h c
    using that by (auto simp: ClassifyCommonHTTPStatus_def split: if_splits)
  have "pb_Status (ClassifyResponse_gemini ck lib (Some r) body phrases) =
      pb_Status (classifyResponsePayload ck lib (Some r) body phrases)"
    by (simp add: ClassifyResponse_gemini_def Let_def)
  also have "\<dots> = StatusPassed \<longleftrightarrow> hr_StatusCode r = 200 \<and>
      pb_Status (classify_gemini_page lib r body phrases) = StatusPassed"
    using common not_passed by (auto simp: classifyResponsePayload_def of_common_def split: option.split)
  finally show ?thesis
    by (auto simp: classify_gemini_page_def Let_def page_def text_def blocked_by_phrase_def list_ex_iff
        DetectInterception_def contains_any_def verified_gemini_def split: option.split)
qed


definition sample_response :: http_response where
  "sample_response =
     \<lparr> hr_StatusCode = 200, hr_Header = [(''Server'', [''gws''])], hr_CookieDomains = [], hr_URLPath = None \<rparr>"

lemma gemini_passes_iff_witness:
  "pb_Status (ClassifyResponse_gemini example_clock ascii_library (Some sample_response) ''Gemini'' [''x'']) = StatusPassed"
proof -
  have "NormalizeText ascii_library ''Gemini'' = ''gemini''" "NormalizeText ascii_library ''x'' = ''x''"
    by (simp_all add: scan_eval)
  moreover have "take MaxInspectBytes ''Gemini'' = ''Gemini''" by (simp add: MaxInspectBytes_def)
  moreover have "find_country ''Gemini'' = None" by code_simp
  moreover have "origin_signal sample_response" by code_simp
  ultimately show ?thesis
    unfolding gemini_passes_iff
    by (simp add: sample_response_def location_blocked_def contains_any_def quoted_def CanonicalInterceptionPhrases_def)
qed

end
