(* ===== verification/RuleEngine.thy ===== *)
theory RuleEngine
  imports TargetProbe JsonFields
begin

text \<open>
  The rule engine, \<open>internal/tester/ruleengine\<close>: the facts extracted from a response, the signals and
  matchers over them, conditions, rules and rule sets with their JSON form and validation, and the pipeline
  of phases that gives the verdict. The \<open>regexp\<close> library is a parameter: which patterns compile, and the
  groups a pattern captures in a text.
\<close>

record regexp_library =
  rx_compiles :: "string \<Rightarrow> bool"
  rx_find :: "string \<Rightarrow> string \<Rightarrow> string list option"

section \<open>The evaluation context\<close>

record evaluation_context =
  ec_StatusCode :: int
  ec_FinalURLPath :: "string option"
  ec_Headers :: header
  ec_CookieDomains :: "string list"
  ec_Title :: string
  ec_TitleFound :: bool
  ec_RawBody :: string
  ec_NormalizedBody :: string
  ec_CanonicalLink :: string
  ec_CanonicalLinkFound :: bool
  ec_MeasuredLatency :: duration

definition BuildEvaluationContext ::
    "text_library \<Rightarrow> http_response option \<Rightarrow> string \<Rightarrow> string \<Rightarrow> duration \<Rightarrow> evaluation_context checked" where
  "BuildEvaluationContext lib resp body0 spare0 measuredLatency =
     (let body = take MaxInspectBytes body0; spare = drop MaxInspectBytes body0 @ spare0;
          title = ExtractTitle body
      in bind_checked (ExtractCanonicalLink lib body spare) (\<lambda>link.
           Value \<lparr> ec_StatusCode = (case resp of Some r \<Rightarrow> hr_StatusCode r | None \<Rightarrow> 0),
                   ec_FinalURLPath = (case resp of Some r \<Rightarrow> hr_URLPath r | None \<Rightarrow> None),
                   ec_Headers = (case resp of Some r \<Rightarrow> hr_Header r | None \<Rightarrow> []),
                   ec_CookieDomains = (case resp of Some r \<Rightarrow> hr_CookieDomains r | None \<Rightarrow> []),
                   ec_Title = (case title of Some t \<Rightarrow> t | None \<Rightarrow> []), ec_TitleFound = (title \<noteq> None),
                   ec_RawBody = body, ec_NormalizedBody = NormalizeText lib body,
                   ec_CanonicalLink = (case link of Some l \<Rightarrow> l | None \<Rightarrow> []),
                   ec_CanonicalLinkFound = (link \<noteq> None),
                   ec_MeasuredLatency = clampLatency measuredLatency \<rparr>))"

section \<open>Signals\<close>

datatype signal =
    SignalHTTPStatus | SignalHeader string | SignalCookieDomain | SignalTitle | SignalNormalizedBody
  | SignalRawBody | SignalFinalURLPath | SignalCanonicalLink

datatype signal_value = IntValue int | StringValue string | StringsValue "string list" | BytesValue string

text \<open>
  \<open>http.Header.Get\<close> with a name in any case: \<open>CanonicalMIMEHeaderKey\<close> turns the first letter and every
  letter after a dash into a capital, the others into small ones, and leaves a name with other bytes alone.
\<close>

definition is_token_char :: "char \<Rightarrow> bool" where
  "is_token_char c = (is_alnum c \<or> c \<in> set (''!#$%&*+-.^_`|~'' @ [CHR 0x27]))"

fun capitalize :: "bool \<Rightarrow> string \<Rightarrow> string" where
  "capitalize upper [] = []"
| "capitalize upper (c # s) =
     (if upper then to_upper [c] else to_lower [c]) @ capitalize (c = CHR ''-'') s"

definition CanonicalHeaderKey :: "string \<Rightarrow> string" where
  "CanonicalHeaderKey s = (if s \<noteq> [] \<and> list_all is_token_char s then capitalize True s else s)"

definition Extract :: "text_library \<Rightarrow> evaluation_context \<Rightarrow> signal \<Rightarrow> signal_value" where
  "Extract lib ctx sig =
     (case sig of
        SignalHTTPStatus \<Rightarrow> IntValue (ec_StatusCode ctx)
      | SignalHeader name \<Rightarrow>
          let val = header_get (ec_Headers ctx) (CanonicalHeaderKey name)
          in StringValue (if val = [] then [] else NormalizeText lib val)
      | SignalCookieDomain \<Rightarrow>
          StringsValue (map (ToLower lib) (filter (\<lambda>d. d \<noteq> []) (ec_CookieDomains ctx)))
      | SignalTitle \<Rightarrow> StringValue (if ec_Title ctx = [] then [] else NormalizeText lib (ec_Title ctx))
      | SignalNormalizedBody \<Rightarrow> StringValue (ec_NormalizedBody ctx)
      | SignalRawBody \<Rightarrow> BytesValue (ec_RawBody ctx)
      | SignalFinalURLPath \<Rightarrow>
          StringValue (case ec_FinalURLPath ctx of Some p \<Rightarrow> ToLower lib p | None \<Rightarrow> [])
      | SignalCanonicalLink \<Rightarrow>
          StringValue (if ec_CanonicalLink ctx = [] then [] else NormalizeText lib (ec_CanonicalLink ctx)))"

datatype rule_error =
    InvalidObject string | UnknownField string | MissingField string | InvalidField string
  | EmptyNeedle nat | InvalidRange | InvalidPattern string | OperatorCount nat | UnknownOperator
  | EmptyCombinator string | ManyCombinators | ConditionAndShorthand string
  | InvalidMode string | PassedWithCategory nat | CategoryRequired nat | InvalidStatus nat | RawBodyContains nat
  | PhaseContradiction nat | UnknownPhase nat string

definition ParseSignal :: "string \<Rightarrow> string \<Rightarrow> (rule_error, signal) outcome" where
  "ParseSignal kind headerName =
     (if kind = ''http_status'' then Inr SignalHTTPStatus
      else if kind = ''header'' then
        (if trim_space headerName = [] then Inl (MissingField ''header'') else Inr (SignalHeader headerName))
      else if kind = ''cookie_domain'' then Inr SignalCookieDomain
      else if kind = ''title'' then Inr SignalTitle
      else if kind = ''normalized_body'' then Inr SignalNormalizedBody
      else if kind = ''raw_body'' then Inr SignalRawBody
      else if kind = ''final_url_path'' then Inr SignalFinalURLPath
      else if kind = ''canonical_link'' then Inr SignalCanonicalLink
      else Inl (InvalidField ''signal''))"

section \<open>Matchers\<close>

text \<open>
  The value of an equality: what \<open>json.Unmarshal\<close> makes of it, a number being a \<open>float64\<close>. Lists, objects
  and truth values equal no signal.
\<close>

datatype expected = NilExpected | NumberExpected rat | StringExpected string | OtherExpected

datatype matcher =
    EqualsMatcher expected | ContainsAnyMatcher "string list" | RegexMatcher string
  | RegexExtractInMatcher string "string list" | InRangeMatcher int int

definition toFloat64 :: "signal_value \<Rightarrow> rat option" where
  "toFloat64 v = (case v of IntValue n \<Rightarrow> Some (fl64 (of_int n)) | _ \<Rightarrow> None)"

text \<open>\<open>ContainsAny\<close> normalises its needles.\<close>

definition ContainsAny :: "text_library \<Rightarrow> string list \<Rightarrow> matcher" where
  "ContainsAny lib values = ContainsAnyMatcher (map (NormalizeText lib) values)"

definition Match :: "regexp_library \<Rightarrow> matcher \<Rightarrow> signal_value \<Rightarrow> bool" where
  "Match rx m v =
     (case m of
        EqualsMatcher e \<Rightarrow>
          (case e of
             NilExpected \<Rightarrow> False
           | NumberExpected q \<Rightarrow> toFloat64 v = Some q
           | StringExpected s \<Rightarrow> v = StringValue s
           | OtherExpected \<Rightarrow> False)
      | ContainsAnyMatcher needles \<Rightarrow>
          (case v of
             StringValue s \<Rightarrow> list_ex (str_contains s) needles
           | StringsValue items \<Rightarrow> list_ex (\<lambda>item. list_ex (str_contains item) needles) items
           | BytesValue s \<Rightarrow> list_ex (str_contains s) needles
           | IntValue _ \<Rightarrow> False)
      | RegexMatcher p \<Rightarrow>
          (case v of
             StringValue s \<Rightarrow> rx_find rx p s \<noteq> None | BytesValue s \<Rightarrow> rx_find rx p s \<noteq> None | _ \<Rightarrow> False)
      | RegexExtractInMatcher p allowed \<Rightarrow>
          let extracted = (\<lambda>s. case rx_find rx p s of Some (_ # g # _) \<Rightarrow> g \<in> set allowed | _ \<Rightarrow> False)
          in (case v of StringValue s \<Rightarrow> extracted s | BytesValue s \<Rightarrow> extracted s | _ \<Rightarrow> False)
      | InRangeMatcher lo hi \<Rightarrow>
          (case toFloat64 v of
             Some n \<Rightarrow> fl64 (of_int lo) \<le> n \<and> n \<le> fl64 (of_int hi) | None \<Rightarrow> False))"

section \<open>Conditions\<close>

datatype condition = Leaf signal matcher | AllOf "condition list" | AnyOf "condition list" | NotCond condition

fun eval_condition :: "(signal \<Rightarrow> matcher \<Rightarrow> bool) \<Rightarrow> condition \<Rightarrow> bool" where
  "eval_condition holds (Leaf sig m) = holds sig m"
| "eval_condition holds (AllOf cs) = (cs \<noteq> [] \<and> list_all (eval_condition holds) cs)"
| "eval_condition holds (AnyOf cs) = (cs \<noteq> [] \<and> list_ex (eval_condition holds) cs)"
| "eval_condition holds (NotCond c) = (\<not> eval_condition holds c)"

definition Evaluate_condition ::
    "regexp_library \<Rightarrow> text_library \<Rightarrow> evaluation_context \<Rightarrow> condition \<Rightarrow> bool" where
  "Evaluate_condition rx lib ctx c = eval_condition (\<lambda>sig m. Match rx m (Extract lib ctx sig)) c"

text \<open>Whether a condition looks for normalised text in the raw body.\<close>

fun condition_ok :: "condition \<Rightarrow> bool" where
  "condition_ok (Leaf sig m) = (\<not> (sig = SignalRawBody \<and> (case m of ContainsAnyMatcher _ \<Rightarrow> True | _ \<Rightarrow> False)))"
| "condition_ok (AllOf cs) = list_all condition_ok cs"
| "condition_ok (AnyOf cs) = list_all condition_ok cs"
| "condition_ok (NotCond c) = condition_ok c"

section \<open>Rules and rule sets\<close>

record rule_verdict =
  rv_Status :: status
  rv_Category :: error_category
  rv_Reason :: string

record rule =
  ru_Phase :: string
  ru_Condition :: "condition option"
  ru_Verdict :: rule_verdict

record rule_set =
  rl_Name :: string
  rl_Mode :: string
  rl_AcceptedStatusCodes :: "int list"
  rl_StrictModeFallbackReason :: string
  rl_Rules :: "rule list"
  rl_Interceptions :: "rule list"
  rl_Rejections :: "rule list"
  rl_Verifications :: "rule list"
  rl_initialized :: bool

definition ModeStrict :: string where
  "ModeStrict = ''strict''"

definition ModePermissive :: string where
  "ModePermissive = ''permissive''"

definition empty_rule_set :: rule_set where
  "empty_rule_set =
     \<lparr> rl_Name = [], rl_Mode = [], rl_AcceptedStatusCodes = [], rl_StrictModeFallbackReason = [], rl_Rules = [],
       rl_Interceptions = [], rl_Rejections = [], rl_Verifications = [], rl_initialized = False \<rparr>"

definition EffectiveStrictFallbackReason :: "rule_set \<Rightarrow> string" where
  "EffectiveStrictFallbackReason rs =
     (if rl_StrictModeFallbackReason rs \<noteq> [] then rl_StrictModeFallbackReason rs
      else ''possible interception / false positive: positive verification signals absent'')"

text \<open>One turn of the loop over the rules, with the number of the rule.\<close>

definition check_verdict :: "nat \<Rightarrow> rule_verdict \<Rightarrow> (rule_error, rule_verdict) outcome" where
  "check_verdict i v =
     (case rv_Status v of
        StatusPassed \<Rightarrow>
          if rv_Category v \<noteq> ErrNone \<and> rv_Category v \<noteq> NoCategory then Inl (PassedWithCategory i)
          else Inr (v \<lparr> rv_Category := ErrNone \<rparr>)
      | StatusRaw _ \<Rightarrow> Inl (InvalidStatus i)
      | _ \<Rightarrow> if rv_Category v = NoCategory \<or> rv_Category v = ErrNone then Inl (CategoryRequired i) else Inr v)"

definition phase_of :: "rule \<Rightarrow> string" where
  "phase_of r =
     (let phase = trim_space (to_lower (ru_Phase r))
      in if phase = [] then if rv_Status (ru_Verdict r) = StatusPassed then ''verification'' else ''rejection''
         else phase)"

definition add_rule :: "nat \<Rightarrow> rule \<Rightarrow> rule_set \<Rightarrow> (rule_error, rule_set) outcome" where
  "add_rule i r0 rs =
     bind_ok (check_verdict i (ru_Verdict r0)) (\<lambda>v.
       let r = r0 \<lparr> ru_Verdict := v \<rparr>; phase = phase_of r; passed = (rv_Status v = StatusPassed) in
       if \<not> (case ru_Condition r of None \<Rightarrow> True | Some c \<Rightarrow> condition_ok c) then Inl (RawBodyContains i)
       else if phase = ''interception'' then
         (if passed then Inl (PhaseContradiction i)
          else Inr (rs \<lparr> rl_Interceptions := rl_Interceptions rs @ [r \<lparr> ru_Phase := phase \<rparr>] \<rparr>))
       else if phase = ''rejection'' then
         (if passed then Inl (PhaseContradiction i)
          else Inr (rs \<lparr> rl_Rejections := rl_Rejections rs @ [r \<lparr> ru_Phase := phase \<rparr>] \<rparr>))
       else if phase = ''verification'' then
         (if \<not> passed then Inl (PhaseContradiction i)
          else Inr (rs \<lparr> rl_Verifications := rl_Verifications rs @ [r \<lparr> ru_Phase := phase \<rparr>] \<rparr>))
       else Inl (UnknownPhase i phase))"

fun add_rules :: "nat \<Rightarrow> rule list \<Rightarrow> rule_set \<Rightarrow> rule_error option \<times> rule_set" where
  "add_rules i [] rs = (None, rs)"
| "add_rules i (r # later) rs =
     (case add_rule i r rs of Inl e \<Rightarrow> (Some e, rs) | Inr rs' \<Rightarrow> add_rules (Suc i) later rs')"

text \<open>A failed validation leaves the rule set changed in part, and never initialised.\<close>

definition initAndValidate :: "rule_set \<Rightarrow> rule_error option \<times> rule_set" where
  "initAndValidate rs0 =
     (let rs1 = rs0 \<lparr> rl_initialized := False \<rparr>;
          rs2 = (if rl_Mode rs1 = [] then rs1 \<lparr> rl_Mode := ModeStrict \<rparr> else rs1) in
      if rl_Mode rs2 \<noteq> ModeStrict \<and> rl_Mode rs2 \<noteq> ModePermissive then (Some (InvalidMode (rl_Mode rs2)), rs2)
      else
        let rs3 = (if rl_AcceptedStatusCodes rs2 = [] then rs2 \<lparr> rl_AcceptedStatusCodes := [200] \<rparr> else rs2);
            rs4 = rs3 \<lparr> rl_Interceptions := [], rl_Rejections := [], rl_Verifications := [] \<rparr>
        in case add_rules 0 (rl_Rules rs4) rs4 of
             (Some e, rs5) \<Rightarrow> (Some e, rs5)
           | (None, rs5) \<Rightarrow> (None, rs5 \<lparr> rl_initialized := True \<rparr>))"

definition NewRuleSet ::
    "string \<Rightarrow> string \<Rightarrow> int list \<Rightarrow> string \<Rightarrow> rule list \<Rightarrow> (rule_error, rule_set) outcome" where
  "NewRuleSet name mode codes fallback rules =
     (case initAndValidate (empty_rule_set \<lparr> rl_Name := name, rl_Mode := mode, rl_AcceptedStatusCodes := codes,
                              rl_StrictModeFallbackReason := fallback, rl_Rules := rules \<rparr>) of
        (Some e, _) \<Rightarrow> Inl e | (None, rs) \<Rightarrow> Inr rs)"


section \<open>The pipeline\<close>

record engine_result =
  er_Status :: status
  er_Category :: error_category
  er_StatusCode :: int
  er_Reason :: string
  er_Latency :: duration
  er_Retryable :: bool
  er_RetryAfter :: "duration option"

definition engine_result :: "status \<Rightarrow> error_category \<Rightarrow> int \<Rightarrow> string \<Rightarrow> duration \<Rightarrow> engine_result" where
  "engine_result st cat code reason latency =
     \<lparr> er_Status = st, er_Category = cat, er_StatusCode = code, er_Reason = reason, er_Latency = latency,
       er_Retryable = False, er_RetryAfter = None \<rparr>"

text \<open>The first rule of a phase whose condition holds; a rule without a condition never does.\<close>

definition rule_matches ::
    "regexp_library \<Rightarrow> text_library \<Rightarrow> evaluation_context \<Rightarrow> rule \<Rightarrow> bool" where
  "rule_matches rx lib ctx r =
     (case ru_Condition r of None \<Rightarrow> False | Some c \<Rightarrow> Evaluate_condition rx lib ctx c)"

definition Evaluate ::
    "clock \<Rightarrow> regexp_library \<Rightarrow> text_library \<Rightarrow> evaluation_context option \<Rightarrow> rule_set option \<Rightarrow> engine_result" where
  "Evaluate ck rx lib octx ospec =
     (case octx of
        None \<Rightarrow> engine_result StatusFailed ErrTargetOther 0 ''nil evaluation context'' (clampLatency 0)
      | Some ctx \<Rightarrow>
          let code = ec_StatusCode ctx; latency = clampLatency (ec_MeasuredLatency ctx);
              first = find (rule_matches rx lib ctx);
              of_rule = (\<lambda>r. engine_result (rv_Status (ru_Verdict r)) (rv_Category (ru_Verdict r)) code
                               (rv_Reason (ru_Verdict r)) latency) in
          (case ospec of
             None \<Rightarrow> engine_result StatusFailed ErrTargetOther code ''nil ruleset specification'' latency
           | Some spec \<Rightarrow>
               if \<not> rl_initialized spec then
                 engine_result StatusFailed ErrConfig code
                   ''uninitialized ruleset: must be constructed via NewRuleSet or unmarshaled from valid JSON'' latency
               else
                 (case ClassifyCommonHTTPStatus ck code (ec_Headers ctx) of
                    Some c \<Rightarrow>
                      (engine_result (cs_Status c) (cs_Category c) (cs_StatusCode c) (cs_Reason c) latency)
                        \<lparr> er_Retryable := cs_Retryable c, er_RetryAfter := cs_RetryAfter c \<rparr>
                  | None \<Rightarrow>
                      let accepted = (if rl_AcceptedStatusCodes spec = [] then [200] else rl_AcceptedStatusCodes spec) in
                      if code \<notin> set accepted then
                        engine_result StatusFailed ErrTargetOther code (''unexpected HTTP status '' @ print_int code) latency
                      else
                        (case DetectInterception (ec_NormalizedBody ctx) of
                           Some (cat, reason) \<Rightarrow> engine_result StatusFailed cat code reason latency
                         | None \<Rightarrow>
                             (case first (rl_Interceptions spec) of
                                Some r \<Rightarrow> of_rule r
                              | None \<Rightarrow>
                                  (case first (rl_Rejections spec) of
                                     Some r \<Rightarrow> of_rule r
                                   | None \<Rightarrow>
                                       (case first (rl_Verifications spec) of
                                          Some r \<Rightarrow>
                                            engine_result StatusPassed ErrNone code
                                              (if rv_Reason (ru_Verdict r) = [] then ''ok'' else rv_Reason (ru_Verdict r)) latency
                                        | None \<Rightarrow>
                                            if rl_Mode spec = ModePermissive
                                            then engine_result StatusPassed ErrNone code ''ok'' latency
                                            else engine_result StatusFailed ErrTargetOther code
                                                   (EffectiveStrictFallbackReason spec) latency)))))))"

section \<open>The JSON form\<close>

text \<open>The \<open>float64\<close> of a number: its decimal value rounded, an error when it is out of range.\<close>

definition json_float :: "string \<Rightarrow> rat option" where
  "json_float s =
     (let neg = has_prefix s ''-''; t = (if neg then drop 1 s else s);
          mant = takeWhile (\<lambda>c. c \<noteq> CHR ''e'' \<and> c \<noteq> CHR ''E'') t;
          ex = drop (Suc (length mant)) t;
          exneg = has_prefix ex ''-'';
          exval = dec_value (if exneg \<or> has_prefix ex ''+'' then drop 1 ex else ex);
          ip = takeWhile is_digit mant; fp = drop (Suc (length ip)) mant;
          q = of_int (dec_value (ip @ fp)) * (10 :: rat) powi ((if exneg then - exval else exval) - int (length fp));
          r = fl64 (if neg then - q else q)
      in if \<bar>r\<bar> < 2 ^ 1024 then Some r else None)"

definition decode_expected :: "json \<Rightarrow> expected option" where
  "decode_expected v =
     (case v of
        JNull \<Rightarrow> Some NilExpected
      | JNumber s \<Rightarrow> map_option NumberExpected (json_float s)
      | JString s \<Rightarrow> Some (StringExpected s)
      | _ \<Rightarrow> Some OtherExpected)"

definition or_error :: "'e \<Rightarrow> 'a option \<Rightarrow> ('e, 'a) outcome" where
  "or_error e r = (case r of Some x \<Rightarrow> Inr x | None \<Rightarrow> Inl e)"

fun first_index :: "('a \<Rightarrow> bool) \<Rightarrow> nat \<Rightarrow> 'a list \<Rightarrow> nat option" where
  "first_index P i [] = None"
| "first_index P i (x # xs) = (if P x then Some i else first_index P (Suc i) xs)"

record extract_spec =
  xs_Pattern :: string
  xs_Set :: "string list"

definition extract_fields :: "extract_spec field list" where
  "extract_fields = [string_field ''pattern'' xs_Pattern_update, list_field ''set'' decode_string xs_Set_update]"

record range_spec =
  rg_Min :: int
  rg_Max :: int

definition range_fields :: "range_spec field list" where
  "range_fields = [int_field ''min'' rg_Min_update, int_field ''max'' rg_Max_update]"

definition in_range_of :: "int \<Rightarrow> int \<Rightarrow> (rule_error, matcher) outcome" where
  "in_range_of lo hi = (if lo > hi then Inl InvalidRange else Inr (InRangeMatcher lo hi))"

definition UnmarshalMatcher :: "regexp_library \<Rightarrow> text_library \<Rightarrow> json \<Rightarrow> (rule_error, matcher) outcome" where
  "UnmarshalMatcher rx lib raw =
     bind_ok (or_error (InvalidObject ''match'') (decode_raw_map raw)) (\<lambda>m.
       case m of
         [(op, v)] \<Rightarrow>
           if op = ''equals'' then
             map_sum id EqualsMatcher (or_error (InvalidField op) (decode_expected v))
           else if op = ''contains_any'' then
             bind_ok (or_error (InvalidField op) (decode_list decode_string v)) (\<lambda>needles.
               if needles = [] then Inl (EmptyCombinator op)
               else (case first_index (\<lambda>n. NormalizeText lib n = []) 0 needles of
                       Some i \<Rightarrow> Inl (EmptyNeedle i) | None \<Rightarrow> Inr (ContainsAny lib needles)))
           else if op = ''regex'' then
             bind_ok (or_error (InvalidField op) (decode_string v)) (\<lambda>p.
               if rx_compiles rx p then Inr (RegexMatcher p) else Inl (InvalidPattern p))
           else if op = ''regex_extract_in'' then
             bind_ok (or_error (InvalidField op) (decode_struct extract_fields v \<lparr> xs_Pattern = [], xs_Set = [] \<rparr>)) (\<lambda>sp.
               if rx_compiles rx (xs_Pattern sp) then Inr (RegexExtractInMatcher (xs_Pattern sp) (xs_Set sp))
               else Inl (InvalidPattern (xs_Pattern sp)))
           else if op = ''in_range'' then
             (case decode_list decode_int v of
                Some ns \<Rightarrow> (case ns of [lo, hi] \<Rightarrow> in_range_of lo hi | _ \<Rightarrow> Inl (InvalidField op))
              | None \<Rightarrow>
                  bind_ok (or_error (InvalidField op) (decode_struct range_fields v \<lparr> rg_Min = 0, rg_Max = 0 \<rparr>)) (\<lambda>sp.
                    in_range_of (rg_Min sp) (rg_Max sp)))
           else Inl UnknownOperator
       | _ \<Rightarrow> Inl (OperatorCount (length m)))"

definition unmarshal_leaf ::
    "regexp_library \<Rightarrow> text_library \<Rightarrow> (string \<times> json) list \<Rightarrow> (rule_error, condition) outcome" where
  "unmarshal_leaf rx lib m =
     (case map_of m ''signal'' of
        None \<Rightarrow> Inl (UnknownField ''condition'')
      | Some sigRaw \<Rightarrow>
          if \<not> list_all (\<lambda>(k, v). k \<in> set [''signal'', ''header'', ''match'']) m then Inl (UnknownField ''condition'')
          else
            bind_ok (or_error (InvalidField ''signal'') (decode_string sigRaw)) (\<lambda>kind.
            bind_ok (or_error (InvalidField ''header'')
                       (case map_of m ''header'' of None \<Rightarrow> Some [] | Some h \<Rightarrow> decode_string h)) (\<lambda>headerName.
            bind_ok (ParseSignal kind headerName) (\<lambda>sig.
            bind_ok (or_error (MissingField ''match'') (map_of m ''match'')) (\<lambda>matchRaw.
            bind_ok (UnmarshalMatcher rx lib matchRaw) (\<lambda>matcher. Inr (Leaf sig matcher)))))))"

fun all_ok :: "('e, 'a) outcome list \<Rightarrow> ('e, 'a list) outcome" where
  "all_ok [] = Inr []"
| "all_ok (r # rs) = bind_ok r (\<lambda>x. bind_ok (all_ok rs) (\<lambda>xs. Inr (x # xs)))"

text \<open>The elements of a combinator's array; the recursion below goes into them.\<close>

definition sub_conditions :: "json \<Rightarrow> json list option" where
  "sub_conditions v = decode_list Some v"

lemma sub_conditions_size: "sub_conditions v = Some vs \<Longrightarrow> w \<in> set vs \<Longrightarrow> size w < size v"
  using json_element_size by (auto simp: sub_conditions_def decode_list_def all_some_Some split: json.splits)

definition combinators :: "(string \<times> json) list \<Rightarrow> string list" where
  "combinators m = filter (\<lambda>k. map_of m k \<noteq> None) [''all_of'', ''any_of'', ''not'']"

function UnmarshalCondition ::
    "regexp_library \<Rightarrow> text_library \<Rightarrow> json \<Rightarrow> (rule_error, condition) outcome" where
  "UnmarshalCondition rx lib raw =
     (case decode_raw_map raw of
        None \<Rightarrow> Inl (InvalidObject ''condition'')
      | Some m \<Rightarrow>
          if m = [] then Inl (EmptyCombinator ''condition'')
          else if length (combinators m) > 1 then Inl ManyCombinators
          else if length (combinators m) = 1 then
            let key = hd (combinators m) in
            if length m > 1 then Inl (UnknownField ''condition'')
            else
              (case map_of m key of
                 None \<Rightarrow> Inl (MissingField key)
               | Some v \<Rightarrow>
                   if key = ''not'' then map_sum id NotCond (UnmarshalCondition rx lib v)
                   else
                     (case sub_conditions v of
                        None \<Rightarrow> Inl (InvalidField key)
                      | Some vs \<Rightarrow>
                          if vs = [] then Inl (EmptyCombinator key)
                          else map_sum id (if key = ''all_of'' then AllOf else AnyOf)
                                 (all_ok (map (UnmarshalCondition rx lib) vs))))
          else unmarshal_leaf rx lib m)"
  by pat_completeness auto
termination
  by (relation "measure (\<lambda>(rx, lib, raw). size raw)")
     (auto dest: raw_map_size sub_conditions_size intro: less_trans)

declare UnmarshalCondition.simps [simp del]

definition UnmarshalVerdict :: "json \<Rightarrow> (rule_error, rule_verdict) outcome" where
  "UnmarshalVerdict data =
     bind_ok (or_error (InvalidObject ''verdict'') (decode_raw_map data)) (\<lambda>m.
       if \<not> list_all (\<lambda>(k, v). k \<in> set [''status'', ''category'', ''reason'']) m then Inl (UnknownField ''verdict'')
       else
         bind_ok (or_error (MissingField ''status'') (map_of m ''status'')) (\<lambda>statusRaw.
         bind_ok (or_error (InvalidField ''status'') (decode_string statusRaw)) (\<lambda>stStr.
         let st = status_of_string stStr in
         if st \<notin> set [StatusPassed, StatusFailed, StatusInconclusive] then Inl (InvalidField ''status'')
         else
           bind_ok (case map_of m ''category'' of
                      None \<Rightarrow> Inr NoCategory
                    | Some c \<Rightarrow>
                        bind_ok (or_error (InvalidField ''category'') (decode_string c)) (\<lambda>catStr.
                          let cat = category_of_string catStr
                          in if cat \<in> set category_constants then Inr cat else Inl (InvalidField ''category''))) (\<lambda>cat.
           bind_ok (case map_of m ''reason'' of
                      None \<Rightarrow> Inr [] | Some r \<Rightarrow> or_error (InvalidField ''reason'') (decode_string r)) (\<lambda>reason.
             Inr \<lparr> rv_Status = st, rv_Category = cat, rv_Reason = reason \<rparr>)))))"

definition UnmarshalRule :: "regexp_library \<Rightarrow> text_library \<Rightarrow> json \<Rightarrow> (rule_error, rule) outcome" where
  "UnmarshalRule rx lib data =
     bind_ok (or_error (InvalidObject ''rule'') (decode_raw_map data)) (\<lambda>m.
       let has = (\<lambda>k. map_of m k \<noteq> None); member = (\<lambda>k. map (Pair k) (case map_of m k of Some v \<Rightarrow> [v] | None \<Rightarrow> [])) in
       if \<not> list_all (\<lambda>(k, v). k \<in> set [''phase'', ''verdict'', ''condition'', ''signal'', ''header'', ''match'']) m
       then Inl (UnknownField ''rule'')
       else
         bind_ok (if has ''condition'' then
                    if has ''header'' then Inl (ConditionAndShorthand ''header'')
                    else if has ''signal'' then Inl (ConditionAndShorthand ''signal'')
                    else if has ''match'' then Inl (ConditionAndShorthand ''match'')
                    else bind_ok (or_error (MissingField ''condition'') (map_of m ''condition'')) (UnmarshalCondition rx lib)
                  else if \<not> has ''signal'' \<and> \<not> has ''match'' then Inl (MissingField ''condition'')
                  else if \<not> has ''signal'' then Inl (MissingField ''signal'')
                  else if \<not> has ''match'' then Inl (MissingField ''match'')
                  else UnmarshalCondition rx lib (JObject (member ''signal'' @ member ''match'' @ member ''header''))) (\<lambda>cond.
         bind_ok (or_error (MissingField ''verdict'') (map_of m ''verdict'')) (\<lambda>verdictRaw.
         bind_ok (UnmarshalVerdict verdictRaw) (\<lambda>v.
         bind_ok (case map_of m ''phase'' of
                    None \<Rightarrow> Inr []
                  | Some p \<Rightarrow> map_sum id trim_space (or_error (InvalidField ''phase'') (decode_string p))) (\<lambda>phase.
           Inr \<lparr> ru_Phase = phase, ru_Condition = Some cond, ru_Verdict = v \<rparr>)))))"

definition optional :: "(string \<times> json) list \<Rightarrow> string \<Rightarrow> 'a \<Rightarrow> (json \<Rightarrow> 'a option) \<Rightarrow> (rule_error, 'a) outcome" where
  "optional m k none dec = (case map_of m k of None \<Rightarrow> Inr none | Some v \<Rightarrow> or_error (InvalidField k) (dec v))"

definition UnmarshalRuleSet :: "regexp_library \<Rightarrow> text_library \<Rightarrow> json \<Rightarrow> (rule_error, rule_set) outcome" where
  "UnmarshalRuleSet rx lib data =
     bind_ok (or_error (InvalidObject ''ruleset'') (decode_raw_map data)) (\<lambda>m.
       if \<not> list_all (\<lambda>(k, v). k \<in> set [''name'', ''mode'', ''accepted_status_codes'',
                                   ''strict_mode_fallback_reason'', ''rules'']) m
       then Inl (UnknownField ''ruleset'')
       else
         bind_ok (optional m ''name'' [] decode_string) (\<lambda>name.
         bind_ok (optional m ''mode'' [] decode_string) (\<lambda>mode.
         bind_ok (optional m ''accepted_status_codes'' [] (decode_list decode_int)) (\<lambda>codes.
         bind_ok (optional m ''strict_mode_fallback_reason'' [] decode_string) (\<lambda>reason.
         bind_ok (optional m ''rules'' [] (decode_list Some)) (\<lambda>rulesRaw.
         bind_ok (all_ok (map (UnmarshalRule rx lib) rulesRaw)) (\<lambda>rules.
           NewRuleSet name mode codes reason rules)))))))"

section \<open>What a validated rule set is\<close>

text \<open>A rule with its defaults written out.\<close>

definition settled :: "rule \<Rightarrow> rule" where
  "settled r =
     (let v = ru_Verdict r
      in r \<lparr> ru_Verdict := (if rv_Status v = StatusPassed then v \<lparr> rv_Category := ErrNone \<rparr> else v),
             ru_Phase := phase_of r \<rparr>)"

definition sound_rule :: "rule \<Rightarrow> bool" where
  "sound_rule r =
     (let v = ru_Verdict r; passed = (rv_Status v = StatusPassed) in
      rv_Status v \<in> {StatusPassed, StatusFailed, StatusInconclusive}
      \<and> passed = (rv_Category v = ErrNone) \<and> rv_Category v \<noteq> NoCategory
      \<and> ru_Phase r \<in> {''interception'', ''rejection'', ''verification''}
      \<and> passed = (ru_Phase r = ''verification'')
      \<and> (case ru_Condition r of None \<Rightarrow> True | Some c \<Rightarrow> condition_ok c))"

abbreviation in_phase :: "string \<Rightarrow> rule list \<Rightarrow> rule list" where
  "in_phase phase rs \<equiv> filter (\<lambda>r. ru_Phase r = phase) (map settled rs)"

lemma check_verdict_ok:
  assumes "check_verdict i v = Inr v'"
  shows "v' = (if rv_Status v = StatusPassed then v \<lparr> rv_Category := ErrNone \<rparr> else v)"
    "rv_Status v' \<in> {StatusPassed, StatusFailed, StatusInconclusive}"
    "(rv_Status v' = StatusPassed) = (rv_Category v' = ErrNone)" "rv_Category v' \<noteq> NoCategory"
    "rv_Status v' = rv_Status v"
  using assms by (auto simp: check_verdict_def split: status.splits if_splits)

lemma add_rule_ok:
  assumes "add_rule i r rs = Inr rs'"
  shows "sound_rule (settled r)
    \<and> rs' = rs \<lparr> rl_Interceptions := rl_Interceptions rs @ in_phase ''interception'' [r],
                 rl_Rejections := rl_Rejections rs @ in_phase ''rejection'' [r],
                 rl_Verifications := rl_Verifications rs @ in_phase ''verification'' [r] \<rparr>"
proof -
  obtain v where v: "check_verdict i (ru_Verdict r) = Inr v"
    using assms by (auto simp: add_rule_def bind_ok_eq_Inr)
  note facts = check_verdict_ok [OF v]
  have phase: "phase_of (r \<lparr> ru_Verdict := v \<rparr>) = phase_of r" by (simp add: phase_of_def facts(5))
  have settled: "settled r = r \<lparr> ru_Verdict := v, ru_Phase := phase_of r \<rparr>" by (simp add: settled_def facts(1))
  show ?thesis
    using assms facts(2-4)
    by (auto simp: add_rule_def v phase settled Let_def sound_rule_def split: if_splits)
qed

lemma add_rules_ok:
  "add_rules i rules rs = (None, rs') \<Longrightarrow>
     list_all sound_rule (map settled rules)
     \<and> rs' = rs \<lparr> rl_Interceptions := rl_Interceptions rs @ in_phase ''interception'' rules,
                  rl_Rejections := rl_Rejections rs @ in_phase ''rejection'' rules,
                  rl_Verifications := rl_Verifications rs @ in_phase ''verification'' rules \<rparr>"
proof (induction i rules rs arbitrary: rs' rule: add_rules.induct)
  case (2 i r later rs)
  obtain rs1 where step: "add_rule i r rs = Inr rs1" using 2(2) by (auto split: sum.splits)
  then have "add_rules (Suc i) later rs1 = (None, rs')" using 2(2) by simp
  from 2(1) [OF step this] add_rule_ok [OF step] show ?case by auto
qed auto

lemma add_rule_uninitialized: "add_rule i r rs = Inr rs' \<Longrightarrow> rl_initialized rs' = rl_initialized rs"
  by (auto simp: add_rule_def bind_ok_eq_Inr Let_def split: if_splits)

lemma add_rules_uninitialized: "rl_initialized (snd (add_rules i rules rs)) = rl_initialized rs"
  by (induction i rules rs rule: add_rules.induct) (auto split: sum.split dest: add_rule_uninitialized)

definition validated :: "rule_set \<Rightarrow> rule_set \<Rightarrow> bool" where
  "validated rs rs' =
     (list_all sound_rule (map settled (rl_Rules rs))
      \<and> rl_Mode rs' \<in> {ModeStrict, ModePermissive} \<and> rl_AcceptedStatusCodes rs' \<noteq> []
      \<and> rl_Interceptions rs' = in_phase ''interception'' (rl_Rules rs)
      \<and> rl_Rejections rs' = in_phase ''rejection'' (rl_Rules rs)
      \<and> rl_Verifications rs' = in_phase ''verification'' (rl_Rules rs))"

lemma validation_outcome:
  assumes "initAndValidate rs = (e, rs')"
  shows "rl_initialized rs' = (e = None)" "e = None \<Longrightarrow> validated rs rs'"
proof -
  define rs2 where "rs2 = (if rl_Mode rs = [] then rs \<lparr> rl_initialized := False, rl_Mode := ModeStrict \<rparr>
                           else rs \<lparr> rl_initialized := False \<rparr>)"
  define rs4 where "rs4 = (if rl_AcceptedStatusCodes rs2 = [] then rs2 \<lparr> rl_AcceptedStatusCodes := [200] \<rparr> else rs2)
                          \<lparr> rl_Interceptions := [], rl_Rejections := [], rl_Verifications := [] \<rparr>"
  have unfold: "initAndValidate rs =
      (if rl_Mode rs2 \<noteq> ModeStrict \<and> rl_Mode rs2 \<noteq> ModePermissive then (Some (InvalidMode (rl_Mode rs2)), rs2)
       else case add_rules 0 (rl_Rules rs4) rs4 of
              (Some e, rs5) \<Rightarrow> (Some e, rs5) | (None, rs5) \<Rightarrow> (None, rs5 \<lparr> rl_initialized := True \<rparr>))"
    unfolding initAndValidate_def rs4_def rs2_def Let_def by simp
  have flag: "\<not> rl_initialized (snd (add_rules i rules rs4))" "\<not> rl_initialized rs2" for i rules
    by (simp_all add: add_rules_uninitialized) (simp_all add: rs4_def rs2_def)
  have same: "rl_Rules rs4 = rl_Rules rs" by (simp add: rs4_def rs2_def)
  obtain e5 rs5 where steps: "add_rules 0 (rl_Rules rs4) rs4 = (e5, rs5)" by fastforce
  show "rl_initialized rs' = (e = None)"
    using assms flag(1) [of 0 "rl_Rules rs4"] flag(2) steps by (cases e5) (auto simp: unfold split: if_splits)
  assume "e = None"
  then have mode: "rl_Mode rs2 \<in> {ModeStrict, ModePermissive}" and e5: "e5 = None"
    and rs': "rs' = rs5 \<lparr> rl_initialized := True \<rparr>"
    using assms steps by (cases e5; auto simp: unfold split: if_splits)+
  from add_rules_ok [of 0 "rl_Rules rs4" rs4 rs5] steps e5 same
  have "list_all sound_rule (map settled (rl_Rules rs))"
    and "rs5 = rs4 \<lparr> rl_Interceptions := rl_Interceptions rs4 @ in_phase ''interception'' (rl_Rules rs),
                     rl_Rejections := rl_Rejections rs4 @ in_phase ''rejection'' (rl_Rules rs),
                     rl_Verifications := rl_Verifications rs4 @ in_phase ''verification'' (rl_Rules rs) \<rparr>" by auto
  with mode show "validated rs rs'" by (auto simp: validated_def rs' rs4_def)
qed

text \<open>C30: Validating a rule set either fails and leaves it uninitialised, or gives one that the pipeline can
  trust: its mode is known and it accepts some status, every rule has a category exactly when its verdict is not a
  pass and looks for no normalised text in the raw body, and the rules are sorted into their phases in order, the
  passing ones as verifications and the others as interceptions or rejections.\<close>

theorem ruleset_validation:
  assumes "initAndValidate rs = (e, rs')"
  shows "rl_initialized rs' = (e = None) \<and> (e = None \<longrightarrow> validated rs rs')"
  using validation_outcome [OF assms] by blast

text \<open>Two rules for the examples: one that rejects a page, one that verifies it.\<close>

definition example_rules :: "rule list" where
  "example_rules =
     [\<lparr> ru_Phase = [], ru_Condition = Some (Leaf SignalTitle (EqualsMatcher (StringExpected ''blocked''))),
        ru_Verdict = \<lparr> rv_Status = StatusFailed, rv_Category = ErrRegionBlocked, rv_Reason = [] \<rparr> \<rparr>,
      \<lparr> ru_Phase = '' Verification'', ru_Condition = Some (Leaf SignalHTTPStatus (InRangeMatcher 200 299)),
        ru_Verdict = \<lparr> rv_Status = StatusPassed, rv_Category = NoCategory, rv_Reason = [] \<rparr> \<rparr>]"

definition example_spec :: rule_set where
  "example_spec = snd (initAndValidate (empty_rule_set \<lparr> rl_Rules := example_rules \<rparr>))"

lemma example_valid: "initAndValidate (empty_rule_set \<lparr> rl_Rules := example_rules \<rparr>) = (None, example_spec)"
  by (simp add: example_spec_def) code_simp

theorem ruleset_validation_witness:
  "initAndValidate (empty_rule_set \<lparr> rl_Rules := example_rules \<rparr>) = (None, example_spec)
   \<and> rl_initialized example_spec \<and> validated (empty_rule_set \<lparr> rl_Rules := example_rules \<rparr>) example_spec"
  using ruleset_validation [OF example_valid] example_valid by blast

section \<open>When a page passes\<close>

lemma engine_result_fields [simp]:
  "er_Status (engine_result st cat code reason latency) = st"
  "er_Category (engine_result st cat code reason latency) = cat"
  by (simp_all add: engine_result_def)

lemma common_never_passes: "ClassifyCommonHTTPStatus ck code h = Some c \<Longrightarrow> cs_Status c \<noteq> StatusPassed"
  by (auto simp: ClassifyCommonHTTPStatus_def split: if_splits)

lemma found_in_list: "find P xs = Some x \<Longrightarrow> x \<in> set xs \<and> P x"
  by (metis find_Some_iff nth_mem)

lemma first_of_phase:
  "find P (in_phase phase rules) = None \<longleftrightarrow> (\<forall>r\<in>set rules. phase_of r = phase \<longrightarrow> \<not> P (settled r))"
  by (auto simp: find_None_iff settled_def Let_def)

lemma matches_settled [simp]: "rule_matches rx lib ctx (settled r) = rule_matches rx lib ctx r"
  by (simp add: rule_matches_def settled_def Let_def)

lemma settled_rule [simp]:
  "rv_Status (ru_Verdict (settled r)) = rv_Status (ru_Verdict r)" "ru_Phase (settled r) = phase_of r"
  by (simp_all add: settled_def Let_def)

lemma negative_phase_result:
  assumes "find P (in_phase phase rules) = Some r" "list_all sound_rule (map settled rules)"
    "phase \<noteq> ''verification''"
  shows "rv_Status (ru_Verdict r) \<noteq> StatusPassed"
  using found_in_list [OF assms(1)] assms(2,3) by (auto simp: list_all_iff sound_rule_def Let_def)

lemma no_rejection_matches:
  assumes "list_all sound_rule (map settled rules)"
  shows "(find (rule_matches rx lib ctx) (in_phase ''interception'' rules) = None
            \<and> find (rule_matches rx lib ctx) (in_phase ''rejection'' rules) = None)
         = (\<forall>r\<in>set rules. rule_matches rx lib ctx r \<longrightarrow> rv_Status (ru_Verdict r) = StatusPassed)"
proof -
  have "(rv_Status (ru_Verdict r) = StatusPassed) = (phase_of r = ''verification'')"
    "phase_of r \<in> {''interception'', ''rejection'', ''verification''}" if "r \<in> set rules" for r
    using assms that by (auto simp: list_all_iff sound_rule_def Let_def)
  then show ?thesis unfolding first_of_phase by force
qed

lemma some_verification_matches:
  assumes "list_all sound_rule (map settled rules)"
  shows "(find (rule_matches rx lib ctx) (in_phase ''verification'' rules) \<noteq> None)
         = (\<exists>r\<in>set rules. rule_matches rx lib ctx r \<and> rv_Status (ru_Verdict r) = StatusPassed)"
proof -
  have "(rv_Status (ru_Verdict r) = StatusPassed) = (phase_of r = ''verification'')" if "r \<in> set rules" for r
    using assms that by (auto simp: list_all_iff sound_rule_def Let_def)
  then show ?thesis unfolding first_of_phase by auto
qed

text \<open>C31: With a validated rule set, in whatever order its rules are written, a page passes exactly when its status
  is an accepted one with no meaning of its own, it shows no sign of interception, no rule with a negative verdict
  matches, and a rule with a passing verdict matches or the mode is permissive.\<close>

theorem engine_passes_iff:
  assumes "initAndValidate rs = (None, spec)"
  shows "er_Status (Evaluate ck rx lib (Some ctx) (Some spec)) = StatusPassed \<longleftrightarrow>
    ClassifyCommonHTTPStatus ck (ec_StatusCode ctx) (ec_Headers ctx) = None
    \<and> ec_StatusCode ctx \<in> set (rl_AcceptedStatusCodes spec)
    \<and> DetectInterception (ec_NormalizedBody ctx) = None
    \<and> (\<forall>r\<in>set (rl_Rules rs). rule_matches rx lib ctx r \<longrightarrow> rv_Status (ru_Verdict r) = StatusPassed)
    \<and> ((\<exists>r\<in>set (rl_Rules rs). rule_matches rx lib ctx r \<and> rv_Status (ru_Verdict r) = StatusPassed)
       \<or> rl_Mode spec = ModePermissive)"
proof -
  let ?find = "\<lambda>phase. find (rule_matches rx lib ctx) (in_phase phase (rl_Rules rs))"
  have ini: "rl_initialized spec" and val: "validated rs spec" using validation_outcome [OF assms] by auto
  have sound: "list_all sound_rule (map settled (rl_Rules rs))" and codes: "rl_AcceptedStatusCodes spec \<noteq> []"
    using val by (auto simp: validated_def)
  have buckets: "rl_Interceptions spec = in_phase ''interception'' (rl_Rules rs)"
    "rl_Rejections spec = in_phase ''rejection'' (rl_Rules rs)"
    "rl_Verifications spec = in_phase ''verification'' (rl_Rules rs)" using val by (auto simp: validated_def)
  have "er_Status (Evaluate ck rx lib (Some ctx) (Some spec)) = StatusPassed \<longleftrightarrow>
      ClassifyCommonHTTPStatus ck (ec_StatusCode ctx) (ec_Headers ctx) = None
      \<and> ec_StatusCode ctx \<in> set (rl_AcceptedStatusCodes spec) \<and> DetectInterception (ec_NormalizedBody ctx) = None
      \<and> (?find ''interception'' = None \<and> ?find ''rejection'' = None)
      \<and> (?find ''verification'' \<noteq> None \<or> rl_Mode spec = ModePermissive)"
    using negative_phase_result [OF _ sound, of "rule_matches rx lib ctx"]
    by (simp add: Evaluate_def Let_def ini codes buckets common_never_passes del: map_map split: option.split)
  then show ?thesis unfolding no_rejection_matches [OF sound] some_verification_matches [OF sound] .
qed

definition example_context :: "string \<Rightarrow> evaluation_context" where
  "example_context title =
     \<lparr> ec_StatusCode = 200, ec_FinalURLPath = None, ec_Headers = [], ec_CookieDomains = [], ec_Title = title,
       ec_TitleFound = True, ec_RawBody = [], ec_NormalizedBody = [], ec_CanonicalLink = [],
       ec_CanonicalLinkFound = False, ec_MeasuredLatency = 5 \<rparr>"

definition example_regexp :: regexp_library where
  "example_regexp = \<lparr> rx_compiles = (\<lambda>_. True), rx_find = (\<lambda>_ _. None) \<rparr>"

lemma engine_passes_iff_witness:
  "er_Status (Evaluate example_clock example_regexp ascii_library (Some (example_context [])) (Some example_spec)) = StatusPassed"
proof -
  have rules: "rl_Rules (empty_rule_set \<lparr> rl_Rules := example_rules \<rparr>) = example_rules" by simp
  have codes: "200 \<in> set (rl_AcceptedStatusCodes example_spec)" by (simp add: example_spec_def) code_simp
  have clean: "DetectInterception [] = None"
    by (simp add: DetectInterception_def contains_any_def CanonicalInterceptionPhrases_def)
  have status: "fl64 (of_int 200) \<le> fl64 (of_int 299)" by (rule fl64_mono) simp
  show ?thesis
    unfolding engine_passes_iff [OF example_valid] rules
    using codes clean status
    by (simp add: example_context_def example_rules_def rule_matches_def Evaluate_condition_def Extract_def Match_def
        toFloat64_def ClassifyCommonHTTPStatus_def)
qed

end
