(* ===== verification/Probe.thy ===== *)
theory Probe
  imports TargetProbe ConfigTypes LinkTypes Float64
begin

text \<open>
  One candidate through the tester: the attempt of two stages and the retry loop around it
  (\<open>internal/tester/probe.go\<close>), and the spread of the sampled latencies (\<open>tester/jitter.go\<close>). The proxy core
  that dials through the candidate, the replies of the network, the rate limiter, the random number
  generator and the states of the contexts are parameters: each is read at the points where the code reads it.
\<close>

section \<open>Backoff\<close>

text \<open>
  \<open>time.Duration(x)\<close> of a float cuts off the fraction; what does not fit into 64 bits becomes the least
  integer, as on amd64.
\<close>

definition cut_fraction :: "rat \<Rightarrow> int" where
  "cut_fraction x = (if x < 0 then \<lceil>x\<rceil> else \<lfloor>x\<rfloor>)"

definition duration_of_float :: "rat \<Rightarrow> duration" where
  "duration_of_float x =
     (let n = cut_fraction x in if - (2 ^ 63) \<le> n \<and> n < 2 ^ 63 then n else - (2 ^ 63))"

definition maxBackoffCap :: duration where
  "maxBackoffCap = 10 * second"

text \<open>The last argument is what \<open>rand.Float64\<close> returned.\<close>

definition computeBackoff :: "duration \<Rightarrow> int \<Rightarrow> duration option \<Rightarrow> rat \<Rightarrow> duration" where
  "computeBackoff base0 attempt0 retryAfter r =
     (let base = (if base0 \<le> 0 then second else base0);
          attempt1 = (if attempt0 < 0 then 0 else attempt0);
          attempt = (if attempt1 > 10 then 10 else attempt1);
          b0 = go_int64 (push_bit (nat attempt) 1 * base);
          b = (if b0 > maxBackoffCap then maxBackoffCap else b0);
          delay0 = duration_of_float (fmul (fl64 (of_int b)) (fadd (fl64 (4 / 5)) (fmul (fl64 (2 / 5)) r)));
          delay = (case retryAfter of Some d \<Rightarrow> if d > delay0 then d else delay0 | None \<Rightarrow> delay0)
      in if delay > maxBackoffCap then maxBackoffCap else delay)"

section \<open>The retry loop\<close>

text \<open>
  What the loop meets: for every attempt whether the limiter granted a token, the outcome of the attempt, the
  random number of its backoff and whether the context was done before the backoff was over.
\<close>

record retry_world =
  rw_Limited :: bool
  rw_Token :: "int \<Rightarrow> bool"
  rw_Attempt :: "int \<Rightarrow> classification \<times> bool \<times> duration option"
  rw_Rand :: "int \<Rightarrow> rat"
  rw_Done :: "int \<Rightarrow> bool"
  rw_Start :: time
  rw_Elapsed :: duration

datatype loop_end =
    NoToken int
  | BackoffCancelled int
  | Finished int classification

text \<open>The end of the loop and the delays waited for, in order.\<close>

function retry_loop ::
    "retry_world \<Rightarrow> test_config \<Rightarrow> int \<Rightarrow> classification \<Rightarrow> loop_end \<times> duration list" where
  "retry_loop w cfg attempt lastRes =
     (if tc_MaxRetries cfg < attempt then (Finished attempt lastRes, [])
      else if rw_Limited w \<and> \<not> rw_Token w attempt then (NoToken (attempt + 1), [])
      else
        let (res, retryable, retryAfter) = rw_Attempt w attempt in
        if \<not> retryable \<or> attempt \<ge> tc_MaxRetries cfg then (Finished (attempt + 1) res, [])
        else
          let backoff = computeBackoff (tc_RetryBackoff cfg) attempt retryAfter (rw_Rand w attempt) in
          if rw_Done w attempt then (BackoffCancelled (attempt + 1), [])
          else map_prod id ((#) backoff) (retry_loop w cfg (attempt + 1) res))"
  by pat_completeness auto
termination by (relation "measure (\<lambda>(w, cfg, attempt, _). nat (tc_MaxRetries cfg + 1 - attempt))") auto

declare retry_loop.simps [simp del]

definition ProbeWithExecutor :: "retry_world \<Rightarrow> 'o candidate \<Rightarrow> test_config \<Rightarrow> result" where
  "ProbeWithExecutor w cand cfg =
     (let result = zero_result \<lparr> res_Link := cand_Link cand, res_TestedAt := rw_Start w,
                                 res_Warnings := cand_Warnings cand \<rparr>;
          cancelled = (\<lambda>attempts reason.
            result \<lparr> res_Status := StatusInconclusive, res_Category := ErrTimeout, res_Reason := reason,
                     res_Attempts := attempts, res_Latency := rw_Elapsed w \<rparr>)
      in case fst (retry_loop w cfg 0 zero_classification) of
           NoToken n \<Rightarrow> cancelled n ''probe context cancelled while waiting for attempt rate limiter token''
         | BackoffCancelled n \<Rightarrow> cancelled n ''probe context cancelled during retry backoff''
         | Finished n c \<Rightarrow>
             let r = result \<lparr> res_Attempts := n, res_Status := cr_Status c, res_Category := cr_Category c,
                              res_StatusCode := cr_StatusCode c, res_Reason := cr_Reason c,
                              res_TransportOK := cr_TransportOK c, res_TransportLatency := cr_TransportLatency c,
                              res_TransportEvidenceKnown := cr_TransportEvidenceKnown c,
                              res_Jitter := cr_Jitter c, res_Services := cr_Services c,
                              res_Latency := rw_Elapsed w \<rparr>
             in if cr_Retryable c \<and> n > tc_MaxRetries cfg
                then r \<lparr> res_Status := StatusInconclusive,
                         res_Reason := ''retries exhausted: '' @ string_of_category (cr_Category c) \<rparr>
                else r)"

section \<open>The spread of the latencies\<close>

text \<open>
  The integer square root, digit by digit, and the square root of a non-negative float, rounded to a float:
  the float is scaled to an integer of at least 110 bits, so that its integer root has two bits more than the
  result and a last bit can say whether the root is exact.
\<close>

function int_sqrt :: "int \<Rightarrow> int" where
  "int_sqrt n =
     (if n \<le> 0 then 0 else let r = 2 * int_sqrt (n div 4) in if (r + 1) * (r + 1) \<le> n then r + 1 else r)"
  by pat_completeness auto
termination by (relation "measure nat") auto

declare int_sqrt.simps [simp del]

definition fsqrt :: "rat \<Rightarrow> rat" where
  "fsqrt x =
     (if x \<le> 0 then 0
      else let k = (110 - rat_ilog2 x) div 2;
               m = \<lfloor>x * 2 powi (2 * k)\<rfloor>;
               s = int_sqrt m
           in fl64 (of_int (2 * s + (if m > s * s then 1 else 0)) * 2 powi (- k - 1)))"

text \<open>\<open>math.Round\<close>: half away from zero.\<close>

definition math_round :: "rat \<Rightarrow> rat" where
  "math_round x = (if x < 0 then - of_int \<lfloor>1 / 2 - x\<rfloor> else of_int \<lfloor>x + 1 / 2\<rfloor>)"

definition ComputeSampleStandardDeviation :: "duration list \<Rightarrow> duration" where
  "ComputeSampleStandardDeviation samples =
     (let n = length samples in
      if n < 2 then 0
      else
        let sum = foldl (\<lambda>acc d. fadd acc (fl64 (of_int d))) 0 samples;
            mean = fdiv sum (fl64 (of_nat n));
            varianceSum = foldl (\<lambda>acc d. let diff = fsub (fl64 (of_int d)) mean in fadd acc (fmul diff diff)) 0 samples;
            variance = fdiv varianceSum (fl64 (of_nat (n - 1)))
        in duration_of_float (math_round (fsqrt variance)))"

section \<open>One attempt\<close>

definition failedServicesResult ::
    "status \<Rightarrow> error_category \<Rightarrow> int \<Rightarrow> duration \<Rightarrow> bool \<Rightarrow> services" where
  "failedServicesResult st cat code latency claudeEnabled =
     (let t = \<lparr> tr_Status = st, tr_Category = cat, tr_StatusCode = code, tr_Latency = latency, tr_Score = 0 \<rparr>
      in (''gemini'', t) # (if claudeEnabled then [(''claude'', t)] else []))"

text \<open>
  What an attempt meets: the error of building the dialer, the reply to the health check and the states of the
  attempt's and the caller's context after it, the replies to the two service probes and the state of the
  caller's context after them, and for every sample the state of the attempt's context and the reply.
\<close>

record attempt_world =
  aw_Dialer :: "go_error option"
  aw_Health :: probe_reply
  aw_AttemptCtx :: ctx_err
  aw_OuterCtx :: ctx_err
  aw_Gemini :: target_reply
  aw_Claude :: target_reply
  aw_LateCtx :: ctx_err
  aw_SampleCtx :: "nat \<Rightarrow> ctx_err"
  aw_Sample :: "nat \<Rightarrow> probe_reply"

text \<open>The outcome of a failed health check.\<close>

definition transport_failure :: "transport_result \<Rightarrow> bool \<Rightarrow> classification" where
  "transport_failure tr claudeEnabled =
     (let c0 =
        (if tp_StatusCode tr = 429 then ClassifyDialError (Some (new_error ''unexpected HTTP response status: 429''))
         else if tp_StatusCode tr = 503 then ClassifyDialError (Some (new_error ''unexpected HTTP response status: 503''))
         else if tp_StatusCode tr = 403 then
           classified StatusFailed ErrProxyError 403 ''transport health check received HTTP 403 (forbidden)'' False
         else (case tp_Error tr of
                 Some e \<Rightarrow> ClassifyDialError (Some e)
               | None \<Rightarrow> classified StatusFailed (tp_Category tr) 0 ''transport health check failed'' False));
          c1 = (if tp_Category tr = ErrTimeout
                then c0 \<lparr> cr_Status := StatusFailed, cr_Category := ErrTimeout, cr_Reason := ''timeout'',
                          cr_Retryable := False \<rparr>
                else c0);
          c2 = (if tp_StatusCode tr \<noteq> 0 then c1 \<lparr> cr_StatusCode := tp_StatusCode tr \<rparr> else c1)
      in c2 \<lparr> cr_TransportEvidenceKnown := True, cr_TransportOK := False, cr_TransportLatency := tp_Latency tr,
              cr_Services := failedServicesResult (cr_Status c2) (cr_Category c2) (cr_StatusCode c2) (tp_Latency tr)
                               claudeEnabled \<rparr>)"

text \<open>The verdict of a service probe: an error of the request is classified, a timeout leaves it open.\<close>

definition timed_out :: "ctx_err \<Rightarrow> go_error \<Rightarrow> error_category \<Rightarrow> bool" where
  "timed_out outer e cat = (outer \<noteq> NotDone \<or> ge_Deadline e \<or> ge_Canceled e \<or> cat = ErrTimeout)"

definition gemini_outcome :: "ctx_err \<Rightarrow> probe_result \<Rightarrow> classification" where
  "gemini_outcome outer g =
     (case pb_Err g of
        Some e \<Rightarrow>
          let c = ClassifyDialError (Some e)
          in if timed_out outer e (cr_Category c)
             then c \<lparr> cr_Status := StatusInconclusive, cr_Category := ErrTimeout,
                      cr_Reason := (if outer = CtxCanceled \<or> ge_Canceled e then ''context canceled'' else ''timeout'') \<rparr>
             else c
      | None \<Rightarrow> classified (pb_Status g) (pb_Category g) (pb_StatusCode g) (pb_Reason g) (pb_Retryable g))"

definition claude_outcome :: "ctx_err \<Rightarrow> probe_result \<Rightarrow> status \<times> error_category" where
  "claude_outcome outer c =
     (case pb_Err c of
        Some e \<Rightarrow>
          let d = ClassifyDialError (Some e)
          in if timed_out outer e (cr_Category d) then (StatusInconclusive, ErrTimeout)
             else (cr_Status d, cr_Category d)
      | None \<Rightarrow> (pb_Status c, pb_Category c))"

definition service_results ::
    "classification \<Rightarrow> probe_result \<Rightarrow> bool \<Rightarrow> ctx_err \<Rightarrow> probe_result \<Rightarrow> services" where
  "service_results c g claudeEnabled outer cl =
     (''gemini'', \<lparr> tr_Status = cr_Status c, tr_Category = cr_Category c, tr_StatusCode = cr_StatusCode c,
                    tr_Latency = pb_Latency g, tr_Score = 0 \<rparr>)
     # (if claudeEnabled then
          [(''claude'', \<lparr> tr_Status = fst (claude_outcome outer cl), tr_Category = snd (claude_outcome outer cl),
                          tr_StatusCode = pb_StatusCode cl, tr_Latency = pb_Latency cl, tr_Score = 0 \<rparr>)]
        else [])"

text \<open>The latency samples, \<open>n\<close> at most, until the context of the attempt is done.\<close>

fun sample_latencies :: "clock \<Rightarrow> string \<Rightarrow> attempt_world \<Rightarrow> nat \<Rightarrow> nat \<Rightarrow> duration list" where
  "sample_latencies ck healthURL w 0 i = []"
| "sample_latencies ck healthURL w (Suc n) i =
     (if aw_SampleCtx w i \<noteq> NotDone then []
      else
        let s = Probe_transport ck healthURL (aw_Sample w i)
        in (if tp_OK s \<and> tp_Latency s > 0 then [tp_Latency s] else []) @ sample_latencies ck healthURL w n (Suc i))"

definition jitter_of :: "clock \<Rightarrow> test_config \<Rightarrow> attempt_world \<Rightarrow> duration \<Rightarrow> duration" where
  "jitter_of ck cfg w firstLatency =
     (let healthURL = (if tc_HealthURL cfg = [] then DefaultHealthURL else tc_HealthURL cfg);
          samples = (if firstLatency > 0 then [firstLatency] else [])
                    @ sample_latencies ck healthURL w (nat (tc_JitterSamples cfg)) 0
      in if length samples \<ge> 2 then ComputeSampleStandardDeviation samples else 0)"

definition executeAttempt ::
    "clock \<Rightarrow> text_library \<Rightarrow> test_config \<Rightarrow> attempt_world \<Rightarrow> classification \<times> bool \<times> duration option" where
  "executeAttempt ck lib cfg w =
     (let claudeEnabled = cla_Enabled (tc_Claude cfg) in
      case aw_Dialer w of
        Some e \<Rightarrow>
          let c = ClassifyDialError (Some (wrap_error ''build outbound: '' e));
              c' = c \<lparr> cr_Services := failedServicesResult (cr_Status c) (cr_Category c) (cr_StatusCode c) 0 claudeEnabled \<rparr>
          in (c', cr_Retryable c', None)
      | None \<Rightarrow>
          let tr = Probe_transport ck (tc_HealthURL cfg) (aw_Health w) in
          if aw_AttemptCtx w \<noteq> NotDone then
            let reason = (if aw_AttemptCtx w = CtxCanceled \<or> aw_OuterCtx w = CtxCanceled then ''context canceled''
                          else ''timeout'')
            in ((classified StatusInconclusive ErrTimeout 0 reason False)
                  \<lparr> cr_TransportEvidenceKnown := True, cr_TransportLatency := tp_Latency tr,
                    cr_Services := failedServicesResult StatusInconclusive ErrTimeout 0 (tp_Latency tr) claudeEnabled \<rparr>,
                False, None)
          else if \<not> tp_OK tr then
            let c = transport_failure tr claudeEnabled in (c, cr_Retryable c, tp_RetryAfter tr)
          else
            let g = Probe_gemini ck lib (tc_BlockPhrases cfg) (aw_Gemini w);
                cl = Probe_claude ck lib (aw_Claude w);
                c0 = gemini_outcome (aw_LateCtx w) g;
                c1 = c0 \<lparr> cr_Services := service_results c0 g claudeEnabled (aw_LateCtx w) cl,
                          cr_TransportEvidenceKnown := True, cr_TransportOK := True,
                          cr_TransportLatency := tp_Latency tr \<rparr>;
                c2 = (if cr_Status c1 = StatusPassed \<and> tc_JitterSamples cfg > 0
                      then c1 \<lparr> cr_Jitter := jitter_of ck cfg w (tp_Latency tr) \<rparr> else c1)
            in (c2, cr_Retryable c2, pb_RetryAfter g))"

definition Probe ::
    "clock \<Rightarrow> text_library \<Rightarrow> (int \<Rightarrow> attempt_world) \<Rightarrow> retry_world \<Rightarrow> 'o candidate \<Rightarrow> test_config \<Rightarrow> result" where
  "Probe ck lib attempts w cand cfg =
     ProbeWithExecutor (w \<lparr> rw_Attempt := (\<lambda>i. executeAttempt ck lib cfg (attempts i)) \<rparr>) cand cfg"

text \<open>The port of the address to dial, in 16 bits, up to the first byte that is no digit.\<close>

fun port_digits :: "16 word \<Rightarrow> string \<Rightarrow> 16 word" where
  "port_digits p [] = p"
| "port_digits p (c # s) =
     (if is_digit c then port_digits (p * 10 + of_int (int (char_code c) - 48)) s else p)"

definition parsePort :: "string \<Rightarrow> 16 word" where
  "parsePort s = port_digits 0 s"

section \<open>How long the loop waits\<close>

lemma cut_fraction_mono: "x \<le> y \<Longrightarrow> cut_fraction x \<le> cut_fraction y"
proof (cases "x < 0 \<and> \<not> y < 0")
  case True
  then have "\<lceil>x\<rceil> \<le> 0" "0 \<le> \<lfloor>y\<rfloor>" by (simp_all add: ceiling_le_iff)
  then have "\<lceil>x\<rceil> \<le> \<lfloor>y\<rfloor>" by linarith
  with True show ?thesis by (simp add: cut_fraction_def)
qed (auto simp: cut_fraction_def floor_mono ceiling_mono)

lemma cut_fraction_of_int [simp]: "cut_fraction (of_int n) = n"
  by (simp add: cut_fraction_def)

lemma duration_of_float_lower:
  assumes "of_int n \<le> x" "0 \<le> n" "x < 2 ^ 63"
  shows "n \<le> duration_of_float x"
proof -
  have "n \<le> cut_fraction x" using cut_fraction_mono [OF assms(1)] by simp
  moreover have "cut_fraction x < 2 ^ 63" using assms by (auto simp: cut_fraction_def floor_less_iff)
  ultimately show ?thesis using assms(2) by (simp add: duration_of_float_def)
qed

lemma fl64_int: "\<bar>n\<bar> \<le> 2 ^ 53 \<Longrightarrow> fl64 (of_int n) = of_int n"
  using fl64_representable [of n 0] by simp

text \<open>The factor is never less than 0.8, and a product with it never less than the exact one cut to an integer.\<close>

lemma jitter_factor:
  assumes "0 \<le> r"
  shows "fl64 (4 / 5) \<le> fadd (fl64 (4 / 5)) (fmul (fl64 (2 / 5)) r)"
proof -
  have "0 \<le> fmul (fl64 (2 / 5)) r" unfolding fmul_def using assms fl64_nonneg [of "2 / 5"] by (intro fl64_nonneg) simp
  then have "fl64 (fl64 (4 / 5)) \<le> fl64 (fl64 (4 / 5) + fmul (fl64 (2 / 5)) r)" by (intro fl64_mono) simp
  moreover have "fl64 (fl64 (4 / 5)) = fl64 (4 / 5)" by code_simp
  ultimately show ?thesis by (simp add: fadd_def)
qed

lemma jitter_factor_upper:
  assumes "0 \<le> r" "r \<le> 1"
  shows "fadd (fl64 (4 / 5)) (fmul (fl64 (2 / 5)) r) \<le> 2"
proof -
  have "fmul (fl64 (2 / 5)) r \<le> fl64 1" unfolding fmul_def
  proof (rule fl64_mono)
    have "fl64 (2 / 5) \<le> fl64 1" by (rule fl64_mono) simp
    then have "fl64 (2 / 5) \<le> 1" using fl64_int [of 1] by simp
    then show "fl64 (2 / 5) * r \<le> 1" using assms fl64_nonneg [of "2 / 5"] by (simp add: mult_le_one)
  qed
  moreover have "fl64 (4 / 5) \<le> fl64 1" by (rule fl64_mono) simp
  ultimately have "fl64 (fl64 (4 / 5) + fmul (fl64 (2 / 5)) r) \<le> fl64 2"
    using fl64_int [of 1] by (intro fl64_mono) simp
  then show ?thesis using fl64_int [of 2] by (simp add: fadd_def)
qed

lemma jittered_lower:
  assumes b: "0 \<le> b" "b \<le> maxBackoffCap" and r: "0 \<le> r" "r \<le> 1"
  shows "4 * b div 5 \<le> duration_of_float (fmul (fl64 (of_int b)) (fadd (fl64 (4 / 5)) (fmul (fl64 (2 / 5)) r)))"
proof -
  let ?f = "fadd (fl64 (4 / 5)) (fmul (fl64 (2 / 5)) r)"
  have small: "b \<le> 10000000000" using b by (simp add: maxBackoffCap_def second_def)
  have exact: "fl64 (of_int b) = of_int b" using fl64_int [of b] b small by simp
  have "(4 / 5 :: rat) \<le> fl64 (4 / 5)" by code_simp
  then have f: "4 / 5 \<le> ?f" "?f \<le> 2" using jitter_factor [OF r(1)] jitter_factor_upper [OF r] by linarith+
  have "of_int (4 * b div 5) \<le> (of_int b * (4 / 5) :: rat)"
  proof -
    have "5 * (4 * b div 5) \<le> 4 * b" by linarith
    then have "(of_int (5 * (4 * b div 5)) :: rat) \<le> of_int (4 * b)" by (simp only: of_int_le_iff)
    then show ?thesis by (simp add: field_simps)
  qed
  also have "\<dots> \<le> of_int b * ?f" using b f by (intro mult_left_mono) auto
  finally have "fl64 (of_int (4 * b div 5)) \<le> fl64 (of_int b * ?f)" by (rule fl64_mono)
  moreover have "0 \<le> 4 * b div 5" "4 * b div 5 \<le> 8000000000" using b small by linarith+
  then have "fl64 (of_int (4 * b div 5)) = of_int (4 * b div 5)" by (intro fl64_int) simp
  ultimately have low: "of_int (4 * b div 5) \<le> fl64 (of_int b * ?f)" by simp
  have "of_int b * ?f \<le> of_int (2 * b)" using mult_left_mono [OF f(2), of "of_int b"] b by simp
  then have "fl64 (of_int b * ?f) \<le> fl64 (of_int (2 * b))" by (rule fl64_mono)
  moreover have "fl64 (of_int (2 * b)) = of_int (2 * b)" using b small by (intro fl64_int) simp
  ultimately have "fl64 (of_int b * ?f) \<le> of_int (2 * b)" by simp
  also have "\<dots> \<le> (of_int 20000000000 :: rat)" using small by (intro of_int_le_iff [THEN iffD2]) simp
  finally have "fl64 (of_int b * ?f) < 2 ^ 63" by simp
  with low b show ?thesis unfolding fmul_def exact by (intro duration_of_float_lower) simp_all
qed

lemma backoff_le_cap: "computeBackoff base attempt retryAfter r \<le> maxBackoffCap"
  by (simp add: computeBackoff_def Let_def)

text \<open>The product does not wrap around while the base is less than 2^53 nanoseconds, some 104 days.\<close>

lemma backoff_product:
  assumes "0 < base" "base < 2 ^ 53" "0 \<le> a" "a \<le> 10"
  shows "go_int64 (push_bit (nat a) 1 * base) = 2 ^ nat a * base"
proof -
  have "(2 :: int) ^ nat a \<le> 2 ^ 10" using assms by (intro power_increasing) auto
  then have "2 ^ nat a * base \<le> 2 ^ 10 * (2 ^ 53 - 1 :: int)" using assms by (intro mult_mono) auto
  moreover have "0 \<le> 2 ^ nat a * base" using assms by simp
  ultimately have "go_int64 (2 ^ nat a * base) = 2 ^ nat a * base" by (intro go_int64_id) simp_all
  then show ?thesis by (simp add: push_bit_eq_mult)
qed

definition jittered :: "int \<Rightarrow> rat \<Rightarrow> duration" where
  "jittered b r = duration_of_float (fmul (fl64 (of_int b)) (fadd (fl64 (4 / 5)) (fmul (fl64 (2 / 5)) r)))"

lemma computeBackoff_eq:
  assumes "0 < base" "0 \<le> attempt"
  shows "computeBackoff base attempt retryAfter r =
    min maxBackoffCap
      (case retryAfter of
         Some d \<Rightarrow> max d (jittered (min maxBackoffCap (go_int64 (push_bit (nat (min 10 attempt)) 1 * base))) r)
       | None \<Rightarrow> jittered (min maxBackoffCap (go_int64 (push_bit (nat (min 10 attempt)) 1 * base))) r)"
proof -
  have cut: "(if x > maxBackoffCap then maxBackoffCap else x) = min maxBackoffCap x" for x by simp
  have at_most: "(if attempt > 10 then 10 else attempt) = min 10 attempt" by simp
  have larger: "(if d > x then d else x) = max d x" for d x :: int by simp
  have pos: "\<not> base \<le> 0" "\<not> attempt < 0" using assms by simp_all
  show ?thesis
    unfolding computeBackoff_def Let_def if_not_P [OF pos(1)] if_not_P [OF pos(2)]
    unfolding at_most cut jittered_def [symmetric] unfolding larger ..
qed

text \<open>C32: The pause before a retry is at most ten seconds. With a base below 2^53 nanoseconds it is at least four
  fifths of the base doubled with every attempt (ten times at most), cut at ten seconds, and a Retry-After of the
  target is honoured up to ten seconds.\<close>

theorem backoff_bounds:
  assumes "0 < base" "base < 2 ^ 53" "0 \<le> attempt" "0 \<le> r" "r < 1"
  shows "computeBackoff base attempt retryAfter r \<le> maxBackoffCap
    \<and> 4 * min maxBackoffCap (2 ^ nat (min 10 attempt) * base) div 5 \<le> computeBackoff base attempt retryAfter r
    \<and> (\<forall>d. retryAfter = Some d \<longrightarrow> min maxBackoffCap d \<le> computeBackoff base attempt retryAfter r)"
proof -
  let ?a = "min 10 attempt"
  let ?b = "min maxBackoffCap (2 ^ nat ?a * base)"
  have product: "go_int64 (push_bit (nat ?a) 1 * base) = 2 ^ nat ?a * base"
    using assms by (intro backoff_product) auto
  have "0 \<le> ?b" using assms by (simp add: maxBackoffCap_def second_def)
  then have low: "4 * ?b div 5 \<le> jittered ?b r" unfolding jittered_def using assms by (intro jittered_lower) auto
  have cap: "4 * ?b div 5 \<le> maxBackoffCap"
  proof -
    have "?b \<le> maxBackoffCap" by simp
    moreover have "0 \<le> maxBackoffCap" by (simp add: maxBackoffCap_def second_def)
    ultimately show ?thesis by linarith
  qed
  have eq: "computeBackoff base attempt retryAfter r
      = min maxBackoffCap (case retryAfter of Some d \<Rightarrow> max d (jittered ?b r) | None \<Rightarrow> jittered ?b r)"
    unfolding computeBackoff_eq [OF assms(1,3)] product ..
  have bounds: "min c x \<le> c" "y \<le> x \<Longrightarrow> y \<le> c \<Longrightarrow> y \<le> min c x" "min c d \<le> min c (max d x)"
    "x \<le> max d x" for c d x y :: duration by simp_all
  show ?thesis
  proof (cases retryAfter)
    case None
    then show ?thesis unfolding eq using bounds(1) bounds(2) [OF low cap] by simp
  next
    case (Some d)
    have "4 * ?b div 5 \<le> max d (jittered ?b r)" by (rule order_trans [OF low bounds(4)])
    then show ?thesis
      unfolding Some eq [unfolded Some option.case] using bounds(1,3) bounds(2) [OF _ cap] by (metis option.inject)
  qed
qed

lemma backoff_bounds_witness:
  "computeBackoff second 2 (Some (7 * second)) 0 \<le> maxBackoffCap \<and> 7 * second \<le> computeBackoff second 2 (Some (7 * second)) 0"
proof -
  have "0 < second" "second < 2 ^ 53" "(0 :: int) \<le> 2" "(0 :: rat) \<le> 0" "(0 :: rat) < 1"
    by (simp_all add: second_def)
  note bounds = backoff_bounds [OF this, of "Some (7 * second)"]
  have "min maxBackoffCap (7 * second) = 7 * second" by (simp add: second_def maxBackoffCap_def)
  with bounds show ?thesis by metis
qed

text \<open>A longer base makes the product wrap around: the pause is negative, and the next attempt follows at once.\<close>

lemma backoff_overflows: "computeBackoff (2 ^ 54) 9 None 0 < 0"
proof -
  have "go_int64 (push_bit 9 1 * 2 ^ 54) = - (2 ^ 63)"
    by code_simp
  then have "computeBackoff (2 ^ 54) 9 None 0 = min maxBackoffCap (jittered (- (2 ^ 63)) 0)"
    by (simp add: computeBackoff_eq maxBackoffCap_def second_def min_def)
  moreover have "jittered (- (2 ^ 63)) 0 < 0" by code_simp
  ultimately show ?thesis by simp
qed

section \<open>How often the loop tries\<close>

definition rw_retryable :: "retry_world \<Rightarrow> int \<Rightarrow> bool" where
  "rw_retryable w i = fst (snd (rw_Attempt w i))"

text \<open>Whether the loop goes on after attempt \<open>i\<close>.\<close>

definition goes_on :: "retry_world \<Rightarrow> test_config \<Rightarrow> int \<Rightarrow> bool" where
  "goes_on w cfg i =
     ((rw_Limited w \<longrightarrow> rw_Token w i) \<and> rw_retryable w i \<and> i < tc_MaxRetries cfg \<and> \<not> rw_Done w i)"

definition backoff_of :: "retry_world \<Rightarrow> test_config \<Rightarrow> int \<Rightarrow> duration" where
  "backoff_of w cfg i = computeBackoff (tc_RetryBackoff cfg) i (snd (snd (rw_Attempt w i))) (rw_Rand w i)"

definition end_at :: "retry_world \<Rightarrow> test_config \<Rightarrow> int \<Rightarrow> loop_end" where
  "end_at w cfg n =
     (if rw_Limited w \<and> \<not> rw_Token w n then NoToken (n + 1)
      else if rw_retryable w n \<and> n < tc_MaxRetries cfg then BackoffCancelled (n + 1)
      else Finished (n + 1) (fst (rw_Attempt w n)))"

lemma retry_loop_step:
  assumes "i \<le> tc_MaxRetries cfg"
  shows "goes_on w cfg i \<Longrightarrow>
      retry_loop w cfg i lastRes
        = map_prod id ((#) (backoff_of w cfg i)) (retry_loop w cfg (i + 1) (fst (rw_Attempt w i)))"
    and "\<not> goes_on w cfg i \<Longrightarrow> retry_loop w cfg i lastRes = (end_at w cfg i, [])"
  using assms
  by (subst retry_loop.simps;
      force simp: goes_on_def backoff_of_def end_at_def rw_retryable_def Let_def split: prod.split)+

lemma retry_loop_from:
  assumes "0 \<le> i" "i \<le> tc_MaxRetries cfg"
  shows "\<exists>n. i \<le> n \<and> n \<le> tc_MaxRetries cfg \<and> (\<forall>j\<in>{i..<n}. goes_on w cfg j) \<and> \<not> goes_on w cfg n
           \<and> retry_loop w cfg i lastRes = (end_at w cfg n, map (backoff_of w cfg) [i..n - 1])"
  using assms
proof (induction "nat (tc_MaxRetries cfg - i)" arbitrary: i lastRes)
  case 0
  then have "\<not> goes_on w cfg i" by (simp add: goes_on_def)
  then show ?case using 0 by (intro exI [of _ i]) (simp add: retry_loop_step(2))
next
  case (Suc k)
  show ?case
  proof (cases "goes_on w cfg i")
    case False
    then show ?thesis using Suc.prems by (intro exI [of _ i]) (simp add: retry_loop_step(2))
  next
    case True
    have "k = nat (tc_MaxRetries cfg - (i + 1))" "0 \<le> i + 1" "i + 1 \<le> tc_MaxRetries cfg" using Suc by auto
    from Suc.hyps(1) [OF this, of "fst (rw_Attempt w i)"] obtain n where
      n: "i + 1 \<le> n" "n \<le> tc_MaxRetries cfg" "\<forall>j\<in>{i + 1..<n}. goes_on w cfg j" "\<not> goes_on w cfg n"
      "retry_loop w cfg (i + 1) (fst (rw_Attempt w i)) = (end_at w cfg n, map (backoff_of w cfg) [i + 1..n - 1])" by blast
    have "\<forall>j\<in>{i..<n}. goes_on w cfg j"
    proof
      fix j assume "j \<in> {i..<n}"
      then show "goes_on w cfg j" using n(3) True by (cases "j = i") auto
    qed
    moreover have "retry_loop w cfg i lastRes = (end_at w cfg n, map (backoff_of w cfg) [i..n - 1])"
      using n(1) Suc.prems retry_loop_step(1) [OF _ True] by (simp add: n(5) upto_rec1)
    ultimately show ?thesis using n by (intro exI [of _ n]) auto
  qed
qed

text \<open>C33: The retry loop always ends: there is one attempt, within the configured number of retries, before which
  every attempt was retried and at which the loop stops, for want of a token, because the context was done during
  the pause, or with the outcome of that attempt; the pauses are those of the attempts before it, in order, and
  none is longer than ten seconds.\<close>

theorem retry_loop_outcome:
  assumes "0 \<le> tc_MaxRetries cfg"
  shows "\<exists>n. 0 \<le> n \<and> n \<le> tc_MaxRetries cfg \<and> (\<forall>j\<in>{0..<n}. goes_on w cfg j) \<and> \<not> goes_on w cfg n
    \<and> retry_loop w cfg 0 zero_classification = (end_at w cfg n, map (backoff_of w cfg) [0..n - 1])
    \<and> list_all (\<lambda>d. d \<le> maxBackoffCap) (snd (retry_loop w cfg 0 zero_classification))"
proof -
  obtain n where "0 \<le> n" "n \<le> tc_MaxRetries cfg" "\<forall>j\<in>{0..<n}. goes_on w cfg j" "\<not> goes_on w cfg n"
    "retry_loop w cfg 0 zero_classification = (end_at w cfg n, map (backoff_of w cfg) [0..n - 1])"
    using retry_loop_from [of 0 cfg w zero_classification] assms by auto
  moreover have "list_all (\<lambda>d. d \<le> maxBackoffCap) (map (backoff_of w cfg) [0..n - 1])"
    by (simp add: list_all_iff backoff_of_def backoff_le_cap)
  ultimately show ?thesis by (intro exI [of _ n]) simp
qed

text \<open>Settings and a network for the examples: two retries; the first attempt is rate limited, the second passes.\<close>

definition example_settings :: test_config where
  "example_settings =
     \<lparr> tc_HealthURL = [], tc_HealthTimeoutRaw = [], tc_Gemini = \<lparr> gem_URL = [], gem_BlockPhrases = [] \<rparr>,
       tc_Claude = \<lparr> cla_EnabledRaw = None, cla_URL = [], cla_TimeoutRaw = [], cla_DialTimeoutRaw = [],
                     cla_Enabled = True, cla_Timeout = second, cla_DialTimeout = second \<rparr>,
       tc_TargetURL = [], tc_BlockPhrases = [], tc_TimeoutRaw = [], tc_DialTimeoutRaw = [], tc_Concurrency = 1,
       tc_RateLimitRPS = 1, tc_MaxRetriesRaw = None, tc_RetryBackoffRaw = [], tc_MaxInconclusiveCycles = 1,
       tc_JitterSamplesRaw = None, tc_HealthTimeout = second, tc_Timeout = second, tc_DialTimeout = second,
       tc_RetryBackoff = second, tc_MaxRetries = 2, tc_JitterSamples = 0 \<rparr>"

definition example_loop :: retry_world where
  "example_loop =
     \<lparr> rw_Limited = True, rw_Token = (\<lambda>_. True),
       rw_Attempt = (\<lambda>i. if i = 0 then (classified StatusInconclusive ErrTargetRateLimited 429 [] True, True, None)
                         else (classified StatusPassed ErrNone 200 ''ok'' False, False, None)),
       rw_Rand = (\<lambda>_. 0), rw_Done = (\<lambda>_. False), rw_Start = 0, rw_Elapsed = 1 \<rparr>"

lemma retry_loop_outcome_witness:
  "fst (retry_loop example_loop example_settings 0 zero_classification)
     = Finished 2 (classified StatusPassed ErrNone 200 ''ok'' False)"
proof -
  have retries: "0 \<le> tc_MaxRetries example_settings" by (simp add: example_settings_def)
  have go: "goes_on example_loop example_settings i \<longleftrightarrow> i = 0" for i
    by (auto simp: goes_on_def rw_retryable_def example_loop_def example_settings_def)
  obtain n where n: "0 \<le> n" "\<forall>j\<in>{0..<n}. goes_on example_loop example_settings j"
    "\<not> goes_on example_loop example_settings n"
    "fst (retry_loop example_loop example_settings 0 zero_classification) = end_at example_loop example_settings n"
    using retry_loop_outcome [OF retries, of example_loop] by auto
  have "n = 1" using n(1-3) go by (cases "n \<le> 1") (auto dest: bspec [of _ _ 1])
  with n(4) show ?thesis by (simp add: end_at_def rw_retryable_def example_loop_def)
qed

section \<open>What a probe reports\<close>

text \<open>What the store relies on in an outcome; the flag says whether Claude is probed.\<close>

definition sound_classification :: "bool \<Rightarrow> classification \<Rightarrow> bool" where
  "sound_classification claudeEnabled c =
     ((cr_Status c = StatusPassed) = (cr_Category c = ErrNone)
      \<and> (cr_Status c = StatusPassed \<longrightarrow> cr_TransportOK c \<and> cr_StatusCode c = 200)
      \<and> (IsTargetSpecific (cr_Category c) \<longrightarrow> cr_TransportOK c \<and> cr_Status c = StatusFailed)
      \<and> (cr_TransportOK c \<longrightarrow> cr_TransportEvidenceKnown c)
      \<and> (cr_Retryable c \<longrightarrow> cr_Status c = StatusInconclusive)
      \<and> (cr_Jitter c \<noteq> 0 \<longrightarrow> cr_Status c = StatusPassed)
      \<and> map fst (cr_Services c) = ''gemini'' # (if claudeEnabled then [''claude''] else [])
      \<and> (\<exists>t. map_of (cr_Services c) ''gemini'' = Some t \<and> tr_Status t = cr_Status c
             \<and> tr_Category t = cr_Category c \<and> tr_StatusCode t = cr_StatusCode c))"

text \<open>A classified error is never a success, never the target's policy, and retried only when inconclusive.\<close>

lemma dial_error_facts:
  fixes e
  defines "c \<equiv> ClassifyDialError (Some e)"
  shows "cr_Status c \<noteq> StatusPassed" "cr_Category c \<noteq> ErrNone" "cr_Category c \<noteq> ErrRegionBlocked"
    "cr_Category c \<noteq> ErrTargetDenied" "\<not> cr_TransportOK c" "cr_Jitter c = 0"
  unfolding c_def by (simp_all add: ClassifyDialError_def Let_def classified_def zero_classification_def)

lemma dial_error_retryable:
  "cr_Retryable (ClassifyDialError (Some e)) \<Longrightarrow> cr_Status (ClassifyDialError (Some e)) = StatusInconclusive"
  by (simp add: ClassifyDialError_def Let_def split: if_splits)

lemma classified_rest [simp]:
  "cr_TransportOK (classified st cat code reason rt) = False" "cr_Jitter (classified st cat code reason rt) = 0"
  by (simp_all add: classified_def zero_classification_def)

lemma probe_error_or_ok:
  "tp_OK (Probe_transport ck u r) \<or> (\<exists>e. tp_Error (Probe_transport ck u r) = Some e)"
  by (simp add: Probe_transport_def Let_def split: http_outcome.split)

lemma sound_transport_failure:
  assumes "\<not> tp_OK (Probe_transport ck u r)"
  shows "sound_classification claude (transport_failure (Probe_transport ck u r) claude)"
proof -
  obtain e where e: "tp_Error (Probe_transport ck u r) = Some e" using assms probe_error_or_ok by blast
  show ?thesis
    by (auto simp: sound_classification_def transport_failure_def Let_def e failedServicesResult_def dial_error_facts
        IsTargetSpecific_def dest: dial_error_retryable)
qed

lemma gemini_outcome_facts:
  assumes "sound_verdict g"
  shows "(cr_Status (gemini_outcome outer g) = StatusPassed) = (cr_Category (gemini_outcome outer g) = ErrNone)"
    "cr_Status (gemini_outcome outer g) = StatusPassed \<Longrightarrow> cr_StatusCode (gemini_outcome outer g) = 200"
    "IsTargetSpecific (cr_Category (gemini_outcome outer g)) \<Longrightarrow> cr_Status (gemini_outcome outer g) = StatusFailed"
    "cr_Retryable (gemini_outcome outer g) \<Longrightarrow> cr_Status (gemini_outcome outer g) = StatusInconclusive"
    "cr_Jitter (gemini_outcome outer g) = 0"
proof -
  have "(cr_Status (gemini_outcome outer g) = StatusPassed) = (cr_Category (gemini_outcome outer g) = ErrNone)
    \<and> (cr_Status (gemini_outcome outer g) = StatusPassed \<longrightarrow> cr_StatusCode (gemini_outcome outer g) = 200)
    \<and> (IsTargetSpecific (cr_Category (gemini_outcome outer g)) \<longrightarrow> cr_Status (gemini_outcome outer g) = StatusFailed)
    \<and> (cr_Retryable (gemini_outcome outer g) \<longrightarrow> cr_Status (gemini_outcome outer g) = StatusInconclusive)
    \<and> cr_Jitter (gemini_outcome outer g) = 0"
  proof (cases "pb_Err g")
    case None
    then show ?thesis using assms by (simp add: gemini_outcome_def sound_verdict_def)
  next
    case (Some e)
    define c where "c = ClassifyDialError (Some e)"
    note facts = dial_error_facts [of e, folded c_def] dial_error_retryable [of e, folded c_def]
    show ?thesis
      unfolding gemini_outcome_def Some option.case Let_def c_def [symmetric]
      using facts by (simp add: IsTargetSpecific_def)
  qed
  then show "(cr_Status (gemini_outcome outer g) = StatusPassed) = (cr_Category (gemini_outcome outer g) = ErrNone)"
    "cr_Status (gemini_outcome outer g) = StatusPassed \<Longrightarrow> cr_StatusCode (gemini_outcome outer g) = 200"
    "IsTargetSpecific (cr_Category (gemini_outcome outer g)) \<Longrightarrow> cr_Status (gemini_outcome outer g) = StatusFailed"
    "cr_Retryable (gemini_outcome outer g) \<Longrightarrow> cr_Status (gemini_outcome outer g) = StatusInconclusive"
    "cr_Jitter (gemini_outcome outer g) = 0" by blast+
qed

lemma sound_dialer_failure:
  "sound_classification claude
     (ClassifyDialError (Some e)
        \<lparr> cr_Services := failedServicesResult (cr_Status (ClassifyDialError (Some e)))
                           (cr_Category (ClassifyDialError (Some e))) (cr_StatusCode (ClassifyDialError (Some e))) 0 claude \<rparr>)"
proof -
  define c where "c = ClassifyDialError (Some e)"
  note facts = dial_error_facts [of e, folded c_def] dial_error_retryable [of e, folded c_def]
  show ?thesis
    unfolding c_def [symmetric] using facts
    by (simp add: sound_classification_def failedServicesResult_def Let_def IsTargetSpecific_def)
qed

lemma sound_attempt:
  assumes "executeAttempt ck lib cfg w = (c, retryable, retryAfter)"
  shows "sound_classification (cla_Enabled (tc_Claude cfg)) c" "retryable = cr_Retryable c"
proof -
  let ?tr = "Probe_transport ck (tc_HealthURL cfg) (aw_Health w)"
  let ?g = "Probe_gemini ck lib (tc_BlockPhrases cfg) (aw_Gemini w)"
  have g: "sound_verdict ?g"
    by (auto simp: Probe_gemini_def Let_def sound_gemini split: http_outcome.split sum.split)
  note facts = gemini_outcome_facts [OF g, of "aw_LateCtx w"]
  consider (dialer) e where "aw_Dialer w = Some e"
    | (context_done) "aw_Dialer w = None" "aw_AttemptCtx w \<noteq> NotDone"
    | (unhealthy) "aw_Dialer w = None" "aw_AttemptCtx w = NotDone" "\<not> tp_OK ?tr"
    | (targets) "aw_Dialer w = None" "aw_AttemptCtx w = NotDone" "tp_OK ?tr" by (cases "aw_Dialer w") auto
  then show "sound_classification (cla_Enabled (tc_Claude cfg)) c"
  proof cases
    case dialer
    let ?c = "ClassifyDialError (Some (wrap_error ''build outbound: '' e))"
    have "c = ?c \<lparr> cr_Services := failedServicesResult (cr_Status ?c) (cr_Category ?c) (cr_StatusCode ?c) 0
                                   (cla_Enabled (tc_Claude cfg)) \<rparr>"
      using assms by (simp add: executeAttempt_def dialer Let_def)
    then show ?thesis by (rule ssubst) (rule sound_dialer_failure)
  next
    case context_done
    then show ?thesis
      using assms by (auto simp: executeAttempt_def Let_def sound_classification_def failedServicesResult_def
          IsTargetSpecific_def)
  next
    case unhealthy
    then have "c = transport_failure ?tr (cla_Enabled (tc_Claude cfg))"
      using assms by (auto simp: executeAttempt_def Let_def)
    then show ?thesis by (simp add: sound_transport_failure [OF unhealthy(3)])
  next
    case targets
    define d where "d = gemini_outcome (aw_LateCtx w) ?g"
    have "c = (let c1 = d \<lparr> cr_Services := service_results d ?g (cla_Enabled (tc_Claude cfg)) (aw_LateCtx w)
                                      (Probe_claude ck lib (aw_Claude w)),
                        cr_TransportEvidenceKnown := True, cr_TransportOK := True, cr_TransportLatency := tp_Latency ?tr \<rparr>
               in if cr_Status d = StatusPassed \<and> tc_JitterSamples cfg > 0
                  then c1 \<lparr> cr_Jitter := jitter_of ck cfg w (tp_Latency ?tr) \<rparr> else c1)"
      using assms targets by (auto simp: executeAttempt_def Let_def d_def)
    then show ?thesis
      using facts [folded d_def] by (auto simp: Let_def sound_classification_def service_results_def)
  qed
  show "retryable = cr_Retryable c"
    using assms by (auto simp: executeAttempt_def Let_def split: option.splits if_splits)
qed

text \<open>C34: Whatever the network does, the result of a probe is consistent: between one and the configured number
  of retries plus one attempts were made; it has passed exactly when it carries no error category, and then the
  transport was proved healthy and the target answered 200; only behind a healthy transport is a failure blamed on
  the target's policy, and then it is definite; and a latency spread is reported for passed candidates only.\<close>

theorem probe_result_sound:
  assumes "0 \<le> tc_MaxRetries cfg"
  shows "1 \<le> res_Attempts (Probe ck lib attempts w cand cfg)
    \<and> res_Attempts (Probe ck lib attempts w cand cfg) \<le> tc_MaxRetries cfg + 1
    \<and> res_Link (Probe ck lib attempts w cand cfg) = cand_Link cand
    \<and> (res_Status (Probe ck lib attempts w cand cfg) = StatusPassed)
        = (res_Category (Probe ck lib attempts w cand cfg) = ErrNone)
    \<and> (res_Status (Probe ck lib attempts w cand cfg) = StatusPassed \<longrightarrow>
        res_TransportEvidenceKnown (Probe ck lib attempts w cand cfg)
        \<and> res_TransportOK (Probe ck lib attempts w cand cfg) \<and> res_StatusCode (Probe ck lib attempts w cand cfg) = 200)
    \<and> (IsTargetSpecific (res_Category (Probe ck lib attempts w cand cfg)) \<longrightarrow>
        res_TransportOK (Probe ck lib attempts w cand cfg)
        \<and> res_Status (Probe ck lib attempts w cand cfg) = StatusFailed)
    \<and> (res_Jitter (Probe ck lib attempts w cand cfg) \<noteq> 0 \<longrightarrow>
        res_Status (Probe ck lib attempts w cand cfg) = StatusPassed)"
proof -
  let ?w = "w \<lparr> rw_Attempt := (\<lambda>i. executeAttempt ck lib cfg (attempts i)) \<rparr>"
  obtain n where n: "0 \<le> n" "n \<le> tc_MaxRetries cfg"
    "fst (retry_loop ?w cfg 0 zero_classification) = end_at ?w cfg n"
    using retry_loop_from [of 0 cfg ?w zero_classification] assms by auto
  obtain c retryable ra where c: "executeAttempt ck lib cfg (attempts n) = (c, retryable, ra)" by (metis prod_cases3)
  have sound: "sound_classification (cla_Enabled (tc_Claude cfg)) c" using sound_attempt [OF c] by simp
  show ?thesis
    using n(1,2) sound
    by (auto simp: Probe_def ProbeWithExecutor_def n(3) end_at_def c Let_def zero_result_def IsTargetSpecific_def
        sound_classification_def)
qed

text \<open>A candidate whose core cannot be built: one attempt, blamed on the proxy.\<close>

definition example_attempt :: attempt_world where
  "example_attempt =
     (let r = \<lparr> ty_Outcome = RequestInvalid (new_error []), ty_Body = Inr [], ty_Elapsed = 1, ty_CtxDone = False \<rparr>;
          h = \<lparr> pr_Outcome = RequestInvalid (new_error []), pr_Elapsed = 1, pr_Ctx = NotDone \<rparr>
      in \<lparr> aw_Dialer = Some (new_error ''create box''), aw_Health = h, aw_AttemptCtx = NotDone, aw_OuterCtx = NotDone,
           aw_Gemini = r, aw_Claude = r, aw_LateCtx = NotDone, aw_SampleCtx = (\<lambda>_. NotDone), aw_Sample = (\<lambda>_. h) \<rparr>)"

lemma probe_result_sound_witness:
  "let r = Probe example_clock ascii_library (\<lambda>_. example_attempt) example_loop
             \<lparr> cand_Link = ''vless://x'', cand_Outbound = (), cand_Warnings = [] \<rparr> example_settings
   in 1 \<le> res_Attempts r \<and> res_Attempts r \<le> 3 \<and> res_Link r = ''vless://x''"
proof -
  have "0 \<le> tc_MaxRetries example_settings" "tc_MaxRetries example_settings + 1 = 3"
    by (simp_all add: example_settings_def)
  with probe_result_sound [OF this(1), of example_clock ascii_library "\<lambda>_. example_attempt" example_loop
      "\<lparr> cand_Link = ''vless://x'', cand_Outbound = (), cand_Warnings = [] \<rparr>"]
  show ?thesis by (simp add: Let_def)
qed

section \<open>Sampled latencies\<close>

lemma int_sqrt_bounds:
  "0 \<le> n \<Longrightarrow> 0 \<le> int_sqrt n \<and> int_sqrt n * int_sqrt n \<le> n \<and> n < (int_sqrt n + 1) * (int_sqrt n + 1)"
proof (induction n rule: int_sqrt.induct)
  case (1 n)
  show ?case
  proof (cases "n = 0")
    case False
    then have pos: "0 < n" using 1(2) by simp
    define r where "r = int_sqrt (n div 4)"
    have "0 \<le> n div 4" using pos by simp
    then have r: "0 \<le> r" "r * r \<le> n div 4" "n div 4 + 1 \<le> (r + 1) * (r + 1)"
      using 1(1) pos unfolding r_def by (fastforce simp: zless_imp_add1_zle)+
    have "4 * (r * r) \<le> n" "n < 4 * ((r + 1) * (r + 1))" using r(2,3) by linarith+
    moreover have "int_sqrt n = (if (2 * r + 1) * (2 * r + 1) \<le> n then 2 * r + 1 else 2 * r)"
      using pos by (subst int_sqrt.simps) (simp add: Let_def r_def)
    ultimately show ?thesis using r(1) by (auto simp: algebra_simps)
  qed (simp add: int_sqrt.simps)
qed

end
