(* ===== verification/Spec2Isabelle.thy ===== *)
theory Spec2Isabelle
  imports StoreViews SnapshotCodec EventBus Control Pool LinkCorrect Canonical SourceService PublisherCorrect PublishService
    Fetch Subserver LogRing RuleEngine Probe
begin

text \<open>
  Verification of gemsub, a Go service that collects proxy share links from subscription sources, probes each of
  them against Gemini and Claude, keeps a reliability history per candidate, and serves and publishes the links that
  pass. Paths below are under \<open>src/internal\<close>.

  The program. \<open>source\<close> fetches the subscriptions; \<open>parser\<close> turns share links into outbounds; \<open>scheduler\<close> runs cycles:
  it fetches, registers the candidates in \<open>store\<close>, picks the least recently tested ones, lets the pool of \<open>tester\<close>
  probe them, and saves. \<open>store\<close> keeps a circular history of samples per candidate, scores it, decides what is served,
  and persists itself. \<open>subserver\<close> serves the views over HTTP, \<open>publisher\<close> writes them into a Git repository and
  pushes. \<open>config\<close> owns the configuration, \<open>events\<close> carries what happens to the user interface, \<open>logging\<close> keeps the
  last log lines.

  Theories and sources.
  Base: \<open>Prelude\<close> (Go's \<open>strings\<close>, integers, outcomes), \<open>SortBy\<close> (\<open>sort.Slice\<close>), \<open>Fifo\<close> (contract of bounded buffers),
  \<open>Float64\<close> (\<open>float64\<close> as rationals rounded by \<open>fl64\<close>), \<open>GoNumbers\<close> (\<open>strconv\<close>, \<open>time\<close>), \<open>GoUrl\<close> (\<open>net/url\<close>), \<open>Base64\<close>,
  \<open>Sha256\<close>, \<open>JsonText\<close>, \<open>JsonValue\<close> and \<open>JsonFields\<close> (\<open>encoding/json\<close>): the parts of the standard library that the
  program's decisions depend on, as functions.
  \<open>store/\<close>: \<open>StoreTypes\<close> (\<open>record.go\<close>, \<open>config.go\<close>, the types of \<open>store.go\<close>), \<open>History\<close> (\<open>history.go\<close>), \<open>StoreGates\<close>,
  \<open>StoreCycle\<close>, \<open>StoreViews\<close>, \<open>StoreLoad\<close>, \<open>SnapshotCodec\<close> (\<open>store.go\<close>: serving policy, operations of a cycle, views,
  load and save, file format), \<open>Canonical\<close> (\<open>canonical.go\<close>).
  \<open>parser/\<close>: \<open>LinkTypes\<close>, \<open>LinkParser\<close>, \<open>LinkCorrect\<close>.
  \<open>config/\<close>, \<open>paths/\<close>: \<open>ConfigTypes\<close>, \<open>Config\<close>, \<open>ConfigCorrect\<close> (\<open>config.go\<close>, \<open>source.go\<close>), \<open>ConfigService\<close>
  (\<open>service.go\<close>, \<open>propagation.go\<close>), \<open>Paths\<close>.
  \<open>source/\<close>: \<open>SourceService\<close> (\<open>service.go\<close>), \<open>Fetch\<close> (\<open>fetch.go\<close>).
  \<open>scheduler/\<close>, \<open>events/\<close>: \<open>Rotation\<close>, \<open>Scheduler\<close>, \<open>Control\<close>; \<open>EventTypes\<close>, \<open>EventBus\<close>.
  \<open>tester/\<close>: \<open>Pool\<close> (\<open>pool.go\<close>), \<open>Probe\<close> (\<open>probe.go\<close>, \<open>jitter.go\<close>), \<open>Transport\<close> (\<open>transport/probe.go\<close>, \<open>classifier.go\<close>,
  \<open>retry_after.go\<close>), \<open>TextNorm\<close> (\<open>normalize.go\<close>), \<open>TargetProbe\<close> (\<open>classifiercore\<close>, \<open>gemini\<close>, \<open>claude\<close>), \<open>RuleEngine\<close>
  (\<open>ruleengine\<close>).
  \<open>subserver/\<close>: \<open>Subserver\<close>. \<open>logging/\<close>: \<open>LogRing\<close> (\<open>ring.go\<close>).
  \<open>publisher/\<close>: \<open>Remote\<close> (\<open>remote.go\<close>), \<open>Publisher\<close> and \<open>PublisherCorrect\<close> (\<open>publisher.go\<close>), \<open>PublishService\<close>
  (\<open>service.go\<close>).

  How the code is modelled. A struct is a record with its fields in order, an enumeration or an error a datatype, a
  map with a list of keys and values where the iteration order matters and a function otherwise. A method is a
  function on the state it is called with; a section under a mutex is one step. Where goroutines interleave there is
  an inductive step relation on a state with a program counter per goroutine: the bus (\<open>EventBus\<close>), the
  control loop (\<open>Control\<close>), the pool (\<open>Pool\<close>) and concurrent publications (\<open>PublishService\<close>). An error return is the
  left side of a sum; a panic is a value of its own. Integers of 64 bits are words, or integers with the wrap-around
  written out where the code can overflow; strings are byte strings; times and durations are integers of
  nanoseconds. Loops are structural recursions or functions with a measure; no fuel is used, except that the
  recursion over nested JSON values and rules follows the value.

  What is a parameter: the link parser and the canonical form of links in the store and the scheduler (defined in
  \<open>LinkParser\<close> and \<open>Canonical\<close>), clocks and the text form of times, the network and its replies, gzip, random UUIDs,
  the regular expressions of rules, tables of Unicode and of HTML entities, the proxy core behind a probe, Git, and
  which file operations fail. Each is an argument of the definitions; what a theorem needs of it is a hypothesis,
  for Git the predicates \<open>git_leaves_files\<close>, \<open>git_contract\<close> and \<open>git_finds_head\<close>, with an instance in the witness. The
  contract follows Git's documentation: a path that a clean \<open>git status\<close> does not list is as in the last commit, or
  is untracked and ignored. The text form of times is assumed to read back for the times of the statement; RFC 3339
  has such a form for the years 0 to 9999.

  What the theorems show.
  Store: the circular history is a queue of the latest samples and the score lies between 0 and 1; every reachable
  store is consistent; a served candidate passes each gate of the policy; a result touches one record; eviction
  happens exactly at the limit; the views do not depend on map order; a load of any file gives a consistent store, a
  save is atomic, and what was saved is loaded.
  Scheduler: rotation starves no candidate; a cycle is a run of store operations, and one that is aborted changes
  nothing; one loop at most is alive and a stop can complete. Bus: what a subscriber has read and what is queued for it is the
  sequence of events published since it subscribed, as the list of calls alone gives it (\<open>due\<close>). Pool: it terminates
  and, unless cancelled, reports each candidate once.
  Links and configuration: accepted links give well-formed outbounds; round trips of links, files and quoted paths;
  the configuration of a service is valid, unless it is still the default one of a first run, which lacks only
  sources, Claude settings and a state file, and an update is all or nothing; the sources refine an ordered map.
  Tester: bounds of the pauses, the outcome of the retry loop, consistency of probe results and verdicts, exactly
  which responses pass the rules. Server and logs: a served list decodes to the links asked for; the ring keeps the
  latest records.
  Publisher: rendering depends on the sets of links only; a publication changes no other file; one that fails before
  the commit restores every file, if the repository has a commit or ignores none of them; one that succeeds leaves the rendered files; forms of one remote agree; one
  publication runs at a time and its events are well ordered.
  Where the code misbehaves, a theorem shows it on an input (\<open>failed_look_loses_file\<close>, \<open>ignored_file_overwritten\<close>,
  \<open>first_run_saved\<close>, \<open>accepted_path_panics\<close>, \<open>backoff_overflows\<close> and others).

  Interfaces. \<open>bounded_fifo\<close> is the contract of the history and of the log ring, \<open>comparator\<close> of every comparison passed
  to \<open>sort.Slice\<close>, \<open>rounding\<close> of float arithmetic, \<open>frame\<close> and \<open>file_frame\<close> of relations that the steps of a
  publication respect; each is interpreted on the model's own definitions.

  Not modelled: the terminal interface (\<open>tui\<close>), which renders the services above and turns keys into calls of their
  operations; \<open>cmd\<close>, \<open>clipboard\<close> and \<open>version\<close> (process start and platform calls); the set-up of HTTP clients and
  resolvers (\<open>source/client_*.go\<close>, \<open>resolv.go\<close>) and of \<open>log/slog\<close> (\<open>logging/standard.go\<close>); the goroutines and
  the shutdown of the HTTP server; directories and symbolic links of the publishing repository; methods called on nil
  receivers. A crash loses no completed write and a temporary file can always be removed (\<open>save_trace\<close>), so that
  \<open>Sync\<close> has no effect. Lower case is taken on ASCII (\<open>to_lower\<close>).
\<close>

end
